(* ===== verification/GovPrelude.thy ===== *)
theory GovPrelude
  imports Main "HOL-Library.Word" "HOL-Library.Sublist" "HOL-Library.List_Lexorder"
    "HOL-Library.Char_ord" "HOL-Library.AList"
begin

text \<open>
  Shared vocabulary of the development: the machine integers, the Rust string operations the
  source uses, decimal rendering, bounded windows of recent items, and the interfaces
  (locales) of an append-only log, of a bounded window and of a ranked enumeration that several
  components provide.

  A Rust \<open>String\<close> or \<open>&str\<close> is its UTF-8 byte sequence, an Isabelle \<^typ>\<open>string\<close>: \<open>len()\<close> is
  \<^const>\<open>length\<close>, byte-wise equality and substring search are the list operations, and
  character-wise operations (\<open>chars()\<close>, \<open>trim()\<close>) go through \<open>uchars\<close>, which splits the bytes
  into the encodings of the characters.
\<close>

named_theorems gov_defs \<open>definitions a component proof unfolds\<close>
named_theorems gov_frame \<open>fields an operation leaves alone\<close>

type_synonym u8 = "8 word"
type_synonym u32 = "32 word"
type_synonym u64 = "64 word"

section \<open>Integers\<close>

text \<open>\<open>saturating_add\<close>, \<open>saturating_sub\<close> of the standard library.\<close>

definition sat_add :: "'a::len word \<Rightarrow> 'a word \<Rightarrow> 'a word" where
  "sat_add a b = (if unat a + unat b < 2 ^ LENGTH('a) then a + b else - 1)"

definition sat_sub :: "'a::len word \<Rightarrow> 'a word \<Rightarrow> 'a word" where
  "sat_sub a b = (if b \<le> a then a - b else 0)"

lemma unat_sat_add: "unat (sat_add a (b :: 'a::len word)) = min (unat a + unat b) (2 ^ LENGTH('a) - 1)"
proof (cases "unat a + unat b < 2 ^ LENGTH('a)")
  case True
  then show ?thesis by (simp add: sat_add_def unat_word_ariths)
next
  case False
  then show ?thesis by (simp add: sat_add_def unsigned_minus_1_eq_mask mask_eq_exp_minus_1)
qed

lemma unat_sat_sub: "unat (sat_sub a b) = unat a - unat b"
  by (auto simp: sat_sub_def unat_sub word_le_nat_alt)

section \<open>Results\<close>

text \<open>
  \<open>Result<T, E>\<close> is the sum \<open>E + T\<close>. \<open>ebind\<close> is the \<open>?\<close> operator, \<open>guard_ok b e\<close> the early
  return \<open>if !b { return Err(e) }\<close>, and \<open>all_ok\<close> a sequence of checks that stops at the first
  failure.
\<close>

fun ebind :: "'e + 'a \<Rightarrow> ('a \<Rightarrow> 'e + 'b) \<Rightarrow> 'e + 'b" where
  "ebind (Inl e) f = Inl e"
| "ebind (Inr a) f = f a"

definition guard_ok :: "bool \<Rightarrow> 'e \<Rightarrow> 'e + unit" where
  "guard_ok b e = (if b then Inr () else Inl e)"

fun all_ok :: "('e + unit) list \<Rightarrow> 'e + unit" where
  "all_ok [] = Inr ()"
| "all_ok (r # rs) = (case r of Inl e \<Rightarrow> Inl e | Inr u \<Rightarrow> all_ok rs)"

fun seq_results :: "('e + 'a) list \<Rightarrow> 'e + 'a list" where
  "seq_results [] = Inr []"
| "seq_results (r # rs) = ebind r (\<lambda>a. ebind (seq_results rs) (\<lambda>as. Inr (a # as)))"

definition is_ok :: "'e + 'a \<Rightarrow> bool" where
  "is_ok r \<longleftrightarrow> (\<exists>a. r = Inr a)"

lemma is_ok_simps [simp]: "is_ok (Inr a)" "\<not> is_ok (Inl e)"
  by (simp_all add: is_ok_def)

lemma is_ok_code [code]: "is_ok r = (case r of Inl _ \<Rightarrow> False | Inr _ \<Rightarrow> True)"
  by (simp add: is_ok_def split: sum.split)

lemma ebind_Inr_iff: "ebind r f = Inr b \<longleftrightarrow> (\<exists>a. r = Inr a \<and> f a = Inr b)"
  by (cases r) auto

lemma ebind_Inl: "ebind r f = Inl e \<longleftrightarrow> r = Inl e \<or> (\<exists>a. r = Inr a \<and> f a = Inl e)"
  by (cases r) simp_all

lemma guard_ok_Inr [simp]: "guard_ok b e = Inr u \<longleftrightarrow> b"
  by (simp add: guard_ok_def)

lemma guard_ok_Inl [simp]: "guard_ok b e = Inl e' \<longleftrightarrow> \<not> b \<and> e' = e"
  by (auto simp: guard_ok_def)

lemma is_ok_guard [simp]: "is_ok (guard_ok b e) = b"
  by (simp add: guard_ok_def)

lemma all_ok_iff: "all_ok rs = Inr u \<longleftrightarrow> (\<forall>r \<in> set rs. is_ok r)"
  by (induction rs) (auto split: sum.splits simp: is_ok_def)

lemma is_ok_unit: "is_ok r \<longleftrightarrow> r = Inr ()"
  by (simp add: is_ok_def)

lemma is_ok_all_ok [simp]: "is_ok (all_ok rs) \<longleftrightarrow> (\<forall>r \<in> set rs. is_ok r)"
  by (simp add: is_ok_unit all_ok_iff)

declare all_ok.simps(2) [simp del]

lemma is_ok_ebind_unit: "is_ok (ebind r (\<lambda>_. s)) \<longleftrightarrow> is_ok r \<and> is_ok s"
  by (cases r) auto

lemma seq_results_Inr: "seq_results rs = Inr as \<longleftrightarrow> rs = map Inr as"
  by (induction rs arbitrary: as) (auto simp: ebind_Inr_iff Cons_eq_map_conv)

lemma seq_results_map:
  "seq_results (map f xs) = Inr ts \<longleftrightarrow> list_all2 (\<lambda>x t. f x = Inr t) xs ts"
  by (induction xs arbitrary: ts) (auto simp: ebind_Inr_iff list_all2_Cons1)

section \<open>Strings\<close>

text \<open>\<open>str::contains\<close>: the needle occurs somewhere in the haystack.\<close>

fun contains :: "string \<Rightarrow> string \<Rightarrow> bool" where
  "contains [] p = (p = [])"
| "contains (c # cs) p = (prefix p (c # cs) \<or> contains cs p)"

lemma contains_sublist: "contains s p \<longleftrightarrow> sublist p s"
  by (induction s) (auto simp: sublist_Cons_right)

lemma contains_append [intro]: "contains s p \<Longrightarrow> contains (a @ s @ b) p"
  by (auto simp: contains_sublist sublist_def) (metis append.assoc)

definition contains_any :: "string \<Rightarrow> string list \<Rightarrow> bool" where
  "contains_any s ps \<longleftrightarrow> (\<exists>p \<in> set ps. contains s p)"

lemma contains_any_code [code, simp]:
  "contains_any s [] = False" "contains_any s (p # ps) = (contains s p \<or> contains_any s ps)"
  by (auto simp: contains_any_def)

text \<open>\<open>str::split(char)\<close>: always at least one piece.\<close>

fun split_on :: "char \<Rightarrow> string \<Rightarrow> string list" where
  "split_on d [] = [[]]"
| "split_on d (c # cs) =
     (if c = d then [] # split_on d cs
      else case split_on d cs of [] \<Rightarrow> [[c]] | p # ps \<Rightarrow> (c # p) # ps)"

lemma split_on_nonempty [simp]: "split_on d s \<noteq> []"
  by (induction s) (auto split: list.splits)

fun join :: "string \<Rightarrow> string list \<Rightarrow> string" where
  "join sep [] = []"
| "join sep [s] = s"
| "join sep (s # t # ts) = s @ sep @ join sep (t # ts)"

definition bar :: "string" where "bar = ''|''"

definition char_le :: "char \<Rightarrow> char \<Rightarrow> bool" where
  "char_le a b \<longleftrightarrow> of_char a \<le> (of_char b :: nat)"

definition is_ascii_digit :: "char \<Rightarrow> bool" where
  "is_ascii_digit c \<longleftrightarrow> char_le CHR ''0'' c \<and> char_le c CHR ''9''"

definition is_ascii_alphabetic :: "char \<Rightarrow> bool" where
  "is_ascii_alphabetic c \<longleftrightarrow>
     char_le CHR ''a'' c \<and> char_le c CHR ''z'' \<or> char_le CHR ''A'' c \<and> char_le c CHR ''Z''"

definition is_ascii_alphanumeric :: "char \<Rightarrow> bool" where
  "is_ascii_alphanumeric c \<longleftrightarrow> is_ascii_alphabetic c \<or> is_ascii_digit c"

text \<open>\<open>to_ascii_lowercase\<close>: bytes outside \<open>A..Z\<close> are kept.\<close>

definition ascii_lower_char :: "char \<Rightarrow> char" where
  "ascii_lower_char c =
     (if char_le CHR ''A'' c \<and> char_le c CHR ''Z'' then char_of (of_char c + (32::nat)) else c)"

definition to_ascii_lowercase :: "string \<Rightarrow> string" where
  "to_ascii_lowercase s = map ascii_lower_char s"

definition replace_char :: "char \<Rightarrow> char \<Rightarrow> string \<Rightarrow> string" where
  "replace_char a b s = map (\<lambda>c. if c = a then b else c) s"

text \<open>Decimal rendering of unsigned and signed integers.\<close>

definition digit_char :: "nat \<Rightarrow> char" where
  "digit_char d = char_of (48 + d)"

fun show_nat :: "nat \<Rightarrow> string" where
  "show_nat n = (if n < 10 then [digit_char n] else show_nat (n div 10) @ [digit_char (n mod 10)])"

declare show_nat.simps [simp del]

definition show_int :: "int \<Rightarrow> string" where
  "show_int i = (if i < 0 then CHR ''-'' # show_nat (nat (- i)) else show_nat (nat i))"

definition show_bool :: "bool \<Rightarrow> string" where
  "show_bool b = (if b then ''true'' else ''false'')"

subsection \<open>Characters of a UTF-8 string\<close>

definition utf8_len :: "char \<Rightarrow> nat" where
  "utf8_len c = (let b = of_char c :: nat in
     if b < 128 then 1 else if b < 224 then 2 else if b < 240 then 3 else 4)"

lemma utf8_len_pos: "0 < utf8_len c"
  by (simp add: utf8_len_def Let_def)

text \<open>\<open>chars()\<close>: each character kept as its own bytes.\<close>

function uchars :: "string \<Rightarrow> string list" where
  "uchars [] = []"
| "uchars (c # cs) = take (utf8_len c) (c # cs) # uchars (drop (utf8_len c) (c # cs))"
  by pat_completeness auto
termination
  by (relation "measure length") (auto simp: utf8_len_pos)

lemma concat_uchars [simp]: "concat (uchars s) = s"
  by (induction s rule: uchars.induct) simp_all

text \<open>The code point of one encoded character.\<close>

definition byte :: "char \<Rightarrow> nat" where
  "byte c = of_char c"

fun codepoint :: "string \<Rightarrow> nat" where
  "codepoint [a] = byte a"
| "codepoint [a, b] = (byte a mod 32) * 64 + byte b mod 64"
| "codepoint [a, b, c] = (byte a mod 16) * 4096 + (byte b mod 64) * 64 + byte c mod 64"
| "codepoint [a, b, c, d] =
     (byte a mod 8) * 262144 + (byte b mod 64) * 4096 + (byte c mod 64) * 64 + byte d mod 64"
| "codepoint _ = 0"

text \<open>\<open>char::is_whitespace\<close> (Unicode White\_Space) and \<open>char::is_control\<close> (category Cc).\<close>

definition is_whitespace_cp :: "nat \<Rightarrow> bool" where
  "is_whitespace_cp n \<longleftrightarrow> 9 \<le> n \<and> n \<le> 13 \<or> n = 32 \<or> n = 133 \<or> n = 160 \<or> n = 5760 \<or>
     8192 \<le> n \<and> n \<le> 8202 \<or> n = 8232 \<or> n = 8233 \<or> n = 8239 \<or> n = 8287 \<or> n = 12288"

definition is_control_cp :: "nat \<Rightarrow> bool" where
  "is_control_cp n \<longleftrightarrow> n \<le> 31 \<or> 127 \<le> n \<and> n \<le> 159"

definition is_ws :: "string \<Rightarrow> bool" where
  "is_ws ch = is_whitespace_cp (codepoint ch)"

definition trim :: "string \<Rightarrow> string" where
  "trim s = concat (rev (dropWhile is_ws (rev (dropWhile is_ws (uchars s)))))"

text \<open>\<open>str::split_whitespace\<close>: maximal runs of non-blank characters.\<close>

function ws_tokens :: "string list \<Rightarrow> string list" where
  "ws_tokens cs = (let rest = dropWhile is_ws cs in
     if rest = [] then []
     else concat (takeWhile (\<lambda>c. \<not> is_ws c) rest) # ws_tokens (dropWhile (\<lambda>c. \<not> is_ws c) rest))"
  by pat_completeness auto
termination
proof (relation "measure length", simp)
  fix cs rest assume r: "rest = dropWhile is_ws cs" and ne: "rest \<noteq> []"
  then have "\<not> is_ws (hd rest)" by (auto simp: hd_dropWhile)
  with ne have "length (dropWhile (\<lambda>c. \<not> is_ws c) rest) < length rest"
    by (cases rest) (auto simp: le_imp_less_Suc length_dropWhile_le)
  also have "length rest \<le> length cs" by (simp add: r length_dropWhile_le)
  finally show "(dropWhile (\<lambda>c. \<not> is_ws c) rest, cs) \<in> measure length" by simp
qed

declare ws_tokens.simps [simp del]

definition split_whitespace :: "string \<Rightarrow> string list" where
  "split_whitespace s = ws_tokens (uchars s)"

definition blank :: "string \<Rightarrow> bool" where
  "blank s \<longleftrightarrow> trim s = []"

lemma blank_Nil [simp]: "blank []"
  by (simp add: blank_def trim_def)

lemma dropWhile_keeps_last: "\<not> P x \<Longrightarrow> dropWhile P (xs @ [x]) = dropWhile P xs @ [x]"
  by (induction xs) auto

lemma not_blank_Cons:
  assumes "utf8_len c = 1" "\<not> is_ws [c]"
  shows "\<not> blank (c # cs)"
  using assms by (simp add: blank_def trim_def dropWhile_keeps_last)

lemma not_blankD: "\<not> blank s \<Longrightarrow> s \<noteq> []"
  by auto

text \<open>Evaluates the string predicates on concrete strings: \<open>simp add: str_eval\<close>.\<close>

lemmas str_eval = blank_def trim_def utf8_len_def is_ws_def is_whitespace_cp_def is_control_cp_def
  byte_def Let_def char_le_def is_ascii_digit_def is_ascii_alphabetic_def
  is_ascii_alphanumeric_def

section \<open>Parsing delimited text\<close>

text \<open>
  Text made of fields that avoid a delimiter determines the fields: the lemma behind every
  "canonical form is injective" result of the development.
\<close>

lemma append_delim_eq:
  assumes "d \<notin> set a" "d \<notin> set b" "a @ d # x = b @ d # y"
  shows "a = b \<and> x = y"
  using assms
proof (induction a arbitrary: b)
  case Nil
  then show ?case by (cases b) auto
next
  case (Cons c a)
  then show ?case by (cases b) auto
qed

lemma join_Cons_nonempty: "ts \<noteq> [] \<Longrightarrow> join sep (t # ts) = t @ sep @ join sep ts"
  by (cases ts) auto

lemma join_inject:
  assumes "length xs = length ys" "\<forall>f \<in> set xs. d \<notin> set f" "\<forall>f \<in> set ys. d \<notin> set f"
    "join [d] xs = join [d] ys"
  shows "xs = ys"
  using assms
proof (induction xs ys rule: list_induct2)
  case Nil
  then show ?case by simp
next
  case (Cons x xs y ys)
  show ?case
  proof (cases "xs = []")
    case True
    with Cons show ?thesis by auto
  next
    case False
    with Cons.hyps have "ys \<noteq> []" by auto
    with False Cons.prems have "x @ d # join [d] xs = y @ d # join [d] ys"
      by (simp add: join_Cons_nonempty)
    with Cons.prems have "x = y \<and> join [d] xs = join [d] ys"
      by (intro append_delim_eq) auto
    with Cons show ?thesis by auto
  qed
qed

section \<open>Decimal digits\<close>

lemma byte_digit_char: "d < 10 \<Longrightarrow> byte (digit_char d) = 48 + d"
  by (simp add: digit_char_def byte_def)

lemma digit_char_inject: "a < 10 \<Longrightarrow> b < 10 \<Longrightarrow> digit_char a = digit_char b \<longleftrightarrow> a = b"
  by (metis add_left_cancel byte_digit_char)

lemma show_nat_digits: "c \<in> set (show_nat n) \<Longrightarrow> 48 \<le> byte c \<and> byte c \<le> 57"
proof (induction n rule: show_nat.induct)
  case (1 n)
  show ?case
  proof (cases "n < 10")
    case True
    with "1.prems" show ?thesis by (simp add: show_nat.simps [of n] byte_digit_char)
  next
    case False
    with "1.prems" have "c \<in> set (show_nat (n div 10)) \<or> c = digit_char (n mod 10)"
      by (simp add: show_nat.simps [of n] disj_commute)
    with "1.IH" False show ?thesis by (auto simp: byte_digit_char)
  qed
qed

lemma show_nat_no_bar: "CHR ''|'' \<notin> set (show_nat n)"
  using show_nat_digits [of "CHR ''|''" n] by (auto simp: byte_def)

lemma show_nat_no_minus: "CHR ''-'' \<notin> set (show_nat n)"
  using show_nat_digits [of "CHR ''-''" n] by (auto simp: byte_def)

lemma show_nat_nonempty [simp]: "show_nat n \<noteq> []"
  by (subst show_nat.simps) simp

lemma show_nat_inject: "show_nat m = show_nat n \<Longrightarrow> m = n"
proof (induction m arbitrary: n rule: show_nat.induct)
  case (1 m)
  have len: "length (show_nat k) = 1 \<longleftrightarrow> k < 10" for k
    by (subst show_nat.simps) simp
  show ?case
  proof (cases "m < 10")
    case True
    with "1.prems" len [of m] len [of n] have "n < 10" by simp
    with True "1.prems" show ?thesis by (simp add: show_nat.simps digit_char_inject)
  next
    case False
    with "1.prems" len [of m] len [of n] have n: "\<not> n < 10" by simp
    with False "1.prems" have
      "show_nat (m div 10) = show_nat (n div 10)" "digit_char (m mod 10) = digit_char (n mod 10)"
      by (auto simp: show_nat.simps [of m] show_nat.simps [of n])
    with "1.IH" [OF False] have "m div 10 = n div 10" "m mod 10 = n mod 10"
      by (auto simp: digit_char_inject)
    then show ?thesis by (metis div_mult_mod_eq)
  qed
qed

lemma show_int_no_bar: "CHR ''|'' \<notin> set (show_int i)"
  by (auto simp: show_int_def show_nat_no_bar)

lemma show_int_inject: "show_int i = show_int j \<Longrightarrow> i = j"
proof (cases "i < 0"; cases "j < 0")
  assume e: "show_int i = show_int j"
  { assume "i < 0" "j < 0"
    with e have "nat (- i) = nat (- j)" by (auto simp: show_int_def dest: show_nat_inject)
    with \<open>i < 0\<close> \<open>j < 0\<close> show "i = j" by simp }
  { assume "\<not> i < 0" "\<not> j < 0"
    with e have "nat i = nat j" by (auto simp: show_int_def dest: show_nat_inject)
    with \<open>\<not> i < 0\<close> \<open>\<not> j < 0\<close> show "i = j" by simp }
  { assume "i < 0" "\<not> j < 0"
    with e have "CHR ''-'' \<in> set (show_nat (nat j))" by (simp add: show_int_def) (metis list.set_intros(1))
    then show "i = j" by (simp add: show_nat_no_minus) }
  { assume "\<not> i < 0" "j < 0"
    with e have "CHR ''-'' \<in> set (show_nat (nat i))" by (simp add: show_int_def)
    then show "i = j" by (simp add: show_nat_no_minus) }
qed

section \<open>Hash maps\<close>

text \<open>
  \<open>HashMap<String, V>\<close> as the list of its entries, one per key. \<open>hm_get\<close> is \<open>get\<close>, \<open>hm_insert\<close> is
  \<open>insert\<close>, \<open>hm_remove\<close> is \<open>remove\<close>, \<open>hm_modify\<close> a write through \<open>get_mut\<close> and \<open>hm_retain\<close> is
  \<open>retain\<close>; \<open>len()\<close> is the length of the list. The program relies on no iteration order.
\<close>

type_synonym 'v hashmap = "(string \<times> 'v) list"

definition hm_get :: "'v hashmap \<Rightarrow> string \<Rightarrow> 'v option" where
  "hm_get m k = map_of m k"

definition hm_insert :: "string \<Rightarrow> 'v \<Rightarrow> 'v hashmap \<Rightarrow> 'v hashmap" where
  "hm_insert k v m = AList.update k v m"

definition hm_remove :: "string \<Rightarrow> 'v hashmap \<Rightarrow> 'v hashmap" where
  "hm_remove k m = AList.delete k m"

definition hm_modify :: "string \<Rightarrow> ('v \<Rightarrow> 'v) \<Rightarrow> 'v hashmap \<Rightarrow> 'v hashmap" where
  "hm_modify k f m = (case hm_get m k of None \<Rightarrow> m | Some v \<Rightarrow> hm_insert k (f v) m)"

definition hm_retain :: "('v \<Rightarrow> bool) \<Rightarrow> 'v hashmap \<Rightarrow> 'v hashmap" where
  "hm_retain P m = filter (\<lambda>(_, v). P v) m"

definition hm_ok :: "'v hashmap \<Rightarrow> bool" where
  "hm_ok m \<longleftrightarrow> distinct (map fst m)"

lemma hm_get_Nil [simp]: "hm_get [] k = None"
  by (simp add: hm_get_def)

lemma hm_get_insert [simp]: "hm_get (hm_insert k v m) j = (if j = k then Some v else hm_get m j)"
  by (simp add: hm_get_def hm_insert_def update_conv)

lemma hm_get_remove [simp]: "hm_get (hm_remove k m) j = (if j = k then None else hm_get m j)"
  by (simp add: hm_get_def hm_remove_def delete_conv)

lemma hm_get_modify:
  "hm_get (hm_modify k f m) j = (if j = k then map_option f (hm_get m k) else hm_get m j)"
  by (simp add: hm_modify_def split: option.split)

lemma hm_ok_Nil [simp]: "hm_ok []"
  by (simp add: hm_ok_def)

lemma hm_ok_insert [simp]: "hm_ok m \<Longrightarrow> hm_ok (hm_insert k v m)"
  by (simp add: hm_ok_def hm_insert_def distinct_update)

lemma hm_ok_modify [simp]: "hm_ok m \<Longrightarrow> hm_ok (hm_modify k f m)"
  by (simp add: hm_modify_def split: option.split)

lemma hm_ok_retain [simp]: "hm_ok m \<Longrightarrow> hm_ok (hm_retain P m)"
  by (auto simp: hm_ok_def hm_retain_def intro: distinct_map_filter)

lemma hm_get_retain:
  "hm_ok m \<Longrightarrow> hm_get (hm_retain P m) k =
     (case hm_get m k of Some v \<Rightarrow> if P v then Some v else None | None \<Rightarrow> None)"
proof (induction m)
  case (Cons e m)
  obtain j v where e: "e = (j, v)" by (cases e)
  have "hm_get m j = None" using Cons.prems by (simp add: e hm_ok_def hm_get_def map_of_eq_None_iff)
  with Cons show ?case
    by (auto simp: e hm_ok_def hm_get_def hm_retain_def split: option.splits)
qed (simp add: hm_retain_def)

lemma hm_get_in_set: "hm_get m k = Some v \<Longrightarrow> (k, v) \<in> set m"
  by (simp add: hm_get_def map_of_SomeD)

section \<open>First failing check\<close>

text \<open>A run of \<open>if failed { return outcome }\<close> statements over checks without effects.\<close>

fun first_failure :: "(bool \<times> 'o) list \<Rightarrow> 'o option" where
  "first_failure [] = None"
| "first_failure ((passed, out) # cs) = (if passed then first_failure cs else Some out)"

lemma first_failure_None: "first_failure cs = None \<longleftrightarrow> (\<forall>(b, out) \<in> set cs. b)"
  by (induction cs) (auto split: if_splits)

section \<open>Bounded windows\<close>

text \<open>
  Appending to a vector and draining the oldest entries beyond \<open>n\<close>: the history windows of
  the session memory and of OverWatch.
\<close>

definition keep_last :: "nat \<Rightarrow> 'a list \<Rightarrow> 'a list" where
  "keep_last n xs = (if n < length xs then drop (length xs - n) xs else xs)"

lemma length_keep_last [simp]: "length (keep_last n xs) = min n (length xs)"
  by (simp add: keep_last_def)

lemma keep_last_suffix: "suffix (keep_last n xs) xs"
  by (simp add: keep_last_def suffix_drop)

lemma set_keep_last: "set (keep_last n xs) \<subseteq> set xs"
  by (auto simp: keep_last_def dest: in_set_dropD)

locale bounded_window =
  fixes window :: "'s \<Rightarrow> 'a list"
    and push :: "'b \<Rightarrow> 's \<Rightarrow> 's"
    and bound :: nat
  assumes push_bounded: "length (window s) \<le> bound \<Longrightarrow> length (window (push x s)) \<le> bound"
begin

lemma pushes_bounded: "length (window s) \<le> bound \<Longrightarrow> length (window (fold push xs s)) \<le> bound"
  by (induction xs arbitrary: s) (auto intro: push_bounded)

end

section \<open>Append-only logs\<close>

text \<open>
  A log that an operation may only extend at the end: the arbiter's audit log, the hash chain
  of the crypto engine and the event list of the evidence plane.
\<close>

locale append_only =
  fixes log :: "'s \<Rightarrow> 'e list"
    and step :: "'op \<Rightarrow> 's \<Rightarrow> 's"
  assumes step_extends: "prefix (log s) (log (step x s))"
begin

lemma run_extends: "prefix (log s) (log (fold step xs s))"
proof (induction xs arbitrary: s)
  case Nil
  show ?case by simp
next
  case (Cons x xs)
  have "prefix (log s) (log (step x s))" by (rule step_extends)
  also have "prefix (log (step x s)) (log (fold step xs (step x s)))" by (rule Cons.IH)
  finally show ?case by simp
qed

lemma run_keeps_entry:
  assumes "i < length (log s)"
  shows "log (fold step xs s) ! i = log s ! i \<and> i < length (log (fold step xs s))"
  using run_extends [of s xs] assms by (auto simp: prefix_def nth_append)

end

section \<open>Grants made at most once\<close>

text \<open>
  A state machine whose steps may grant a right, named by an identifier. \<open>grants\<close> lists the
  rights a run grants. When a grant spends its identifier and a spent identifier stays spent and
  is never granted, no run grants the same right twice.
\<close>

fun grants :: "('op \<Rightarrow> 's \<Rightarrow> 'i option \<times> 's) \<Rightarrow> 'op list \<Rightarrow> 's \<Rightarrow> 'i list" where
  "grants step [] s = []"
| "grants step (x # xs) s =
     (case fst (step x s) of
        None \<Rightarrow> grants step xs (snd (step x s))
      | Some i \<Rightarrow> i # grants step xs (snd (step x s)))"

locale single_use =
  fixes step :: "'op \<Rightarrow> 's \<Rightarrow> 'i option \<times> 's"
    and inv :: "'s \<Rightarrow> bool"
    and spent :: "'s \<Rightarrow> 'i \<Rightarrow> bool"
  assumes step_inv: "inv s \<Longrightarrow> inv (snd (step x s))"
    and step_keeps_spent: "inv s \<Longrightarrow> spent s i \<Longrightarrow> spent (snd (step x s)) i"
    and step_refuses_spent: "inv s \<Longrightarrow> spent s i \<Longrightarrow> fst (step x s) \<noteq> Some i"
    and step_spends: "inv s \<Longrightarrow> fst (step x s) = Some i \<Longrightarrow> spent (snd (step x s)) i"
begin

lemma spent_not_granted: "inv s \<Longrightarrow> spent s i \<Longrightarrow> i \<notin> set (grants step xs s)"
proof (induction xs arbitrary: s)
  case (Cons x xs)
  with step_inv step_keeps_spent step_refuses_spent [of s i x] show ?case
    by (auto split: option.split)
qed simp

lemma granted_once: "inv s \<Longrightarrow> distinct (grants step xs s)"
proof (induction xs arbitrary: s)
  case (Cons x xs)
  have "i \<notin> set (grants step xs (snd (step x s)))" if "fst (step x s) = Some i" for i
    using Cons.prems that step_inv step_spends spent_not_granted by blast
  with Cons.IH [OF step_inv [OF Cons.prems, of x]] show ?case by (auto split: option.split)
qed simp

end

section \<open>Ranked enumerations\<close>

text \<open>
  The derived \<open>Ord\<close> of a Rust enum compares constructor positions. A type is ordered by its
  position function once that function is injective.
\<close>

locale ranked =
  fixes rank :: "'a \<Rightarrow> nat"
  assumes rank_inj: "rank a = rank b \<Longrightarrow> a = b"
begin

lemma rank_eq_iff: "rank a = rank b \<longleftrightarrow> a = b"
  using rank_inj by auto

lemma rank_antisym: "rank a \<le> rank b \<Longrightarrow> rank b \<le> rank a \<Longrightarrow> a = b"
  by (rule rank_inj) simp

end

end
