(* ===== verification/Float32.thy ===== *)
theory Float32
  imports Complex_Main GovPrelude
begin

text \<open>
  The \<open>f32\<close> arithmetic the detectors and the arbiter use. A finite \<open>f32\<close> is the rational number
  it denotes; every operation is the exact operation followed by \<open>f32_round\<close>, the IEEE-754
  rounding to a 24-bit significand (nearest, ties to even, gradual underflow at exponent
  \<open>-149\<close>). Infinities and NaN have no representation: every quantity the program computes stays far
  below \<open>2 ^ 128\<close>, and no operation of the program divides by zero (the divisors are guarded).
\<close>

type_synonym f32 = rat

section \<open>Rounding\<close>

text \<open>Round half to even.\<close>

definition rne :: "rat \<Rightarrow> rat" where
  "rne x = (let k = \<lfloor>x\<rfloor>; d = x - of_int k in
     if d < 1 / 2 then of_int k
     else if 1 / 2 < d then of_int (k + 1)
     else if even k then of_int k else of_int (k + 1))"

text \<open>
  Scale a positive value into \<open>[2 ^ 23, 2 ^ 24)\<close>, round to an integer, scale back. \<open>f32_up\<close>
  handles values at or above \<open>2 ^ 24\<close>; \<open>f32_down\<close> doubles at most \<open>149\<close> times, the
  subnormal limit.
\<close>

function f32_up :: "rat \<Rightarrow> rat" where
  "f32_up x = (if x < 16777216 then rne x else 2 * f32_up (x / 2))"
  by pat_completeness auto
termination
proof (relation "measure (\<lambda>x. nat \<lfloor>x\<rfloor>)")
  fix x :: rat
  assume "\<not> x < 16777216"
  then have "16777216 \<le> x" by simp
  then have "\<lfloor>x / 2\<rfloor> < \<lfloor>x\<rfloor>" by linarith
  moreover have "0 < \<lfloor>x\<rfloor>" using \<open>16777216 \<le> x\<close> by linarith
  ultimately show "(x / 2, x) \<in> measure (\<lambda>x. nat \<lfloor>x\<rfloor>)" by simp
qed simp

declare f32_up.simps [simp del]

fun f32_down :: "nat \<Rightarrow> rat \<Rightarrow> rat" where
  "f32_down 0 x = rne x"
| "f32_down (Suc n) x = (if 8388608 \<le> x then rne x else f32_down n (2 * x) / 2)"

lemma f32_down_numeral:
  "f32_down (numeral k) x =
     (if 8388608 \<le> x then rne x else f32_down (pred_numeral k) (2 * x) / 2)"
  by (simp add: numeral_eq_Suc)

definition f32_pos :: "rat \<Rightarrow> rat" where
  "f32_pos x = (if 16777216 \<le> x then f32_up x else f32_down 149 x)"

definition f32_round :: "rat \<Rightarrow> f32" where
  "f32_round x = (if x < 0 then - f32_pos (- x) else f32_pos x)"

definition f32_add :: "f32 \<Rightarrow> f32 \<Rightarrow> f32" where "f32_add a b = f32_round (a + b)"
definition f32_sub :: "f32 \<Rightarrow> f32 \<Rightarrow> f32" where "f32_sub a b = f32_round (a - b)"
definition f32_mul :: "f32 \<Rightarrow> f32 \<Rightarrow> f32" where "f32_mul a b = f32_round (a * b)"
definition f32_div :: "f32 \<Rightarrow> f32 \<Rightarrow> f32" where "f32_div a b = f32_round (a / b)"

text \<open>\<open>as f32\<close> on an unsigned integer, a literal, \<open>clamp(0.0, 1.0)\<close>.\<close>

definition f32_of_nat :: "nat \<Rightarrow> f32" where "f32_of_nat n = f32_round (of_nat n)"

definition f32_lit :: "rat \<Rightarrow> f32" where "f32_lit q = f32_round q"

definition f32_clamp01 :: "f32 \<Rightarrow> f32" where
  "f32_clamp01 x = (if x < 0 then 0 else if 1 < x then 1 else x)"

text \<open>\<open>{:.n}\<close>: exactly \<open>n\<close> decimals, ties to even.\<close>

definition pad_left :: "nat \<Rightarrow> string \<Rightarrow> string" where
  "pad_left n s = replicate (n - length s) CHR ''0'' @ s"

definition show_fixed :: "nat \<Rightarrow> f32 \<Rightarrow> string" where
  "show_fixed n x =
     (let m = nat \<lfloor>rne (\<bar>x\<bar> * 10 ^ n)\<rfloor>;
          body = show_nat (m div 10 ^ n) @
            (if n = 0 then [] else ''.'' @ pad_left n (show_nat (m mod 10 ^ n)))
      in if x < 0 then CHR ''-'' # body else body)"

text \<open>Evaluation of closed terms by the simplifier.\<close>

lemma floor_numeral_rat:
  "\<lfloor>numeral a / numeral b :: rat\<rfloor> = numeral a div numeral b"
  "\<lfloor>1 / numeral b :: rat\<rfloor> = 1 div numeral b"
  using floor_divide_of_int_eq [of "numeral a" "numeral b", where ?'a = rat]
    floor_divide_of_int_eq [of 1 "numeral b", where ?'a = rat] by simp_all

lemmas f32_eval = floor_numeral_rat f32_lit_def f32_add_def f32_sub_def f32_mul_def f32_div_def f32_of_nat_def
  f32_round_def f32_pos_def f32_down_numeral rne_def Let_def f32_clamp01_def

section \<open>Properties of the rounding\<close>

lemma rne_of_int [simp]: "rne (of_int k) = of_int k"
  by (simp add: rne_def Let_def)

lemma rne_bounds: "of_int \<lfloor>x\<rfloor> \<le> rne x" "rne x \<le> of_int (\<lfloor>x\<rfloor> + 1)"
  by (auto simp: rne_def Let_def)

lemma rne_mono: "x \<le> y \<Longrightarrow> rne x \<le> rne y"
proof -
  assume le: "x \<le> y"
  then have fl: "\<lfloor>x\<rfloor> \<le> \<lfloor>y\<rfloor>" by (rule floor_mono)
  show ?thesis
  proof (cases "\<lfloor>x\<rfloor> = \<lfloor>y\<rfloor>")
    case True
    with le show ?thesis by (auto simp: rne_def Let_def)
  next
    case False
    with fl have "\<lfloor>x\<rfloor> + 1 \<le> \<lfloor>y\<rfloor>" by simp
    then have "(of_int (\<lfloor>x\<rfloor> + 1) :: rat) \<le> of_int \<lfloor>y\<rfloor>" by (simp only: of_int_le_iff)
    with rne_bounds(2) [of x] rne_bounds(1) [of y] show ?thesis by linarith
  qed
qed

lemma rne_numeral_le: "x \<le> of_int k \<Longrightarrow> rne x \<le> of_int k"
  using rne_mono [of x "of_int k"] by simp

lemma rne_numeral_ge: "of_int k \<le> x \<Longrightarrow> of_int k \<le> rne x"
  using rne_mono [of "of_int k" x] by simp

lemma f32_down_le: "x \<le> 16777216 \<Longrightarrow> f32_down n x \<le> 16777216"
proof (induction n arbitrary: x)
  case 0
  with rne_numeral_le [of x 16777216] show ?case by simp
next
  case (Suc n)
  show ?case
  proof (cases "8388608 \<le> x")
    case True
    with Suc.prems rne_numeral_le [of x 16777216] show ?thesis by simp
  next
    case False
    then have "f32_down n (2 * x) \<le> 16777216" by (intro Suc.IH) simp
    with False show ?thesis by simp
  qed
qed

lemma f32_down_mono: "x \<le> y \<Longrightarrow> f32_down n x \<le> f32_down n y"
proof (induction n arbitrary: x y)
  case 0
  then show ?case by (simp add: rne_mono)
next
  case (Suc n)
  consider "8388608 \<le> x" | "y < 8388608" | "x < 8388608" "8388608 \<le> y" by linarith
  then show ?case
  proof cases
    case 1
    with Suc.prems show ?thesis by (simp add: rne_mono)
  next
    case 2
    with Suc.prems have "f32_down n (2 * x) \<le> f32_down n (2 * y)" by (intro Suc.IH) simp
    with 2 Suc.prems show ?thesis by simp
  next
    case 3
    then have "f32_down n (2 * x) \<le> 16777216" by (intro f32_down_le) simp
    moreover have "8388608 \<le> rne y" using rne_numeral_ge [of 8388608 y] 3 by simp
    ultimately show ?thesis using 3 by simp
  qed
qed

lemma f32_up_ge: "16777216 \<le> x \<Longrightarrow> 16777216 \<le> f32_up x"
proof (induction x rule: f32_up.induct)
  case (1 x)
  show ?case
  proof (cases "16777216 \<le> x / 2")
    case True
    with "1.IH" "1.prems" have "16777216 \<le> f32_up (x / 2)" by simp
    with "1.prems" show ?thesis by (simp add: f32_up.simps [of x])
  next
    case False
    then have eq: "f32_up (x / 2) = rne (x / 2)" by (simp add: f32_up.simps [of "x / 2"])
    have "8388608 \<le> rne (x / 2)" using rne_numeral_ge [of 8388608 "x / 2"] "1.prems" by simp
    with eq "1.prems" show ?thesis by (simp add: f32_up.simps [of x])
  qed
qed

lemma f32_up_mono: "x \<le> y \<Longrightarrow> f32_up x \<le> f32_up y"
proof (induction y arbitrary: x rule: f32_up.induct)
  case (1 y)
  consider "y < 16777216" | "16777216 \<le> x" | "x < 16777216" "16777216 \<le> y" by linarith
  then show ?case
  proof cases
    case 1
    with \<open>x \<le> y\<close> show ?thesis by (simp add: f32_up.simps [of x] f32_up.simps [of y] rne_mono)
  next
    case 2
    with \<open>x \<le> y\<close> have "f32_up (x / 2) \<le> f32_up (y / 2)" by (intro "1.IH") simp_all
    with 2 \<open>x \<le> y\<close> show ?thesis by (simp add: f32_up.simps [of x] f32_up.simps [of y])
  next
    case 3
    then have "rne x \<le> 16777216" using rne_numeral_le [of x 16777216] by simp
    with 3 f32_up_ge [of y] show ?thesis by (simp add: f32_up.simps [of x])
  qed
qed

lemma f32_pos_mono: "x \<le> y \<Longrightarrow> f32_pos x \<le> f32_pos y"
proof -
  assume le: "x \<le> y"
  have "f32_down 149 x \<le> f32_up y" if "x < 16777216" "16777216 \<le> y"
    using f32_down_le [of x 149] f32_up_ge [of y] that by linarith
  with le show ?thesis by (auto simp: f32_pos_def f32_up_mono f32_down_mono)
qed

lemma f32_down_0 [simp]: "f32_down n 0 = 0"
  using rne_of_int [of 0] by (induction n) simp_all

lemma f32_round_0 [simp]: "f32_round 0 = 0"
  by (simp add: f32_round_def f32_pos_def)

lemma f32_pos_nonneg: "0 \<le> x \<Longrightarrow> 0 \<le> f32_pos x"
  using f32_pos_mono [of 0 x] by (simp add: f32_pos_def)

text \<open>The facts about rounding every client uses: it is monotone and keeps zero.\<close>

theorem f32_round_mono: "x \<le> y \<Longrightarrow> f32_round x \<le> f32_round y"
proof -
  assume le: "x \<le> y"
  consider "0 \<le> x" | "y < 0" | "x < 0" "0 \<le> y" by linarith
  then show ?thesis
  proof cases
    case 1
    with le show ?thesis by (simp add: f32_round_def f32_pos_mono)
  next
    case 2
    with le show ?thesis by (simp add: f32_round_def f32_pos_mono)
  next
    case 3
    then have "0 \<le> f32_pos (- x)" "0 \<le> f32_pos y" by (simp_all add: f32_pos_nonneg)
    with 3 show ?thesis by (simp add: f32_round_def)
  qed
qed

lemma f32_round_nonneg: "0 \<le> x \<Longrightarrow> 0 \<le> f32_round x"
  using f32_round_mono [of 0 x] by simp

lemma f32_round_nonpos: "x \<le> 0 \<Longrightarrow> f32_round x \<le> 0"
  using f32_round_mono [of x 0] by simp

lemma f32_add_mono: "a \<le> c \<Longrightarrow> b \<le> d \<Longrightarrow> f32_add a b \<le> f32_add c d"
  by (simp add: f32_add_def f32_round_mono)

lemma f32_mul_mono: "0 \<le> a \<Longrightarrow> b \<le> c \<Longrightarrow> f32_mul a b \<le> f32_mul a c"
  by (simp add: f32_mul_def f32_round_mono mult_left_mono)

lemma f32_add_nonneg: "0 \<le> a \<Longrightarrow> 0 \<le> b \<Longrightarrow> 0 \<le> f32_add a b"
  by (simp add: f32_add_def f32_round_nonneg)

lemma f32_mul_nonneg: "0 \<le> a \<Longrightarrow> 0 \<le> b \<Longrightarrow> 0 \<le> f32_mul a b"
  by (simp add: f32_mul_def f32_round_nonneg)

lemma f32_div_nonneg: "0 \<le> a \<Longrightarrow> 0 \<le> b \<Longrightarrow> 0 \<le> f32_div a b"
  by (simp add: f32_div_def f32_round_nonneg)

lemma f32_of_nat_nonneg: "0 \<le> f32_of_nat n"
  by (simp add: f32_of_nat_def f32_round_nonneg)

lemma f32_clamp01_range: "0 \<le> f32_clamp01 x" "f32_clamp01 x \<le> 1"
  by (auto simp: f32_clamp01_def)

lemmas f32_nonneg = f32_add_nonneg f32_mul_nonneg f32_div_nonneg f32_of_nat_nonneg
  f32_round_nonneg f32_clamp01_range(1)

subsection \<open>Values that are exact\<close>

text \<open>An integer multiple of \<open>2 ^ -k\<close> below \<open>2 ^ 24\<close> in units of that grid is unchanged.\<close>

lemma f32_down_int: "f32_down n (of_int m) = of_int m"
proof (induction n arbitrary: m)
  case 0
  show ?case by simp
next
  case (Suc n)
  have "f32_down n (2 * of_int m) = 2 * of_int m" using Suc.IH [of "2 * m"] by simp
  then show ?case by simp
qed

lemma f32_down_exact:
  assumes "x * 2 ^ k = of_int m" "k \<le> n" "m < 16777216"
  shows "f32_down n x = x"
  using assms
proof (induction n arbitrary: x k)
  case 0
  then have "x = of_int m" by simp
  then show ?case by simp
next
  case (Suc n)
  show ?case
  proof (cases k)
    case 0
    with Suc.prems have "x = of_int m" by simp
    then show ?thesis by (simp only: f32_down_int)
  next
    case (Suc k')
    have "\<not> 8388608 \<le> x"
    proof
      assume "8388608 \<le> x"
      moreover have "(2::rat) \<le> 2 ^ k" using Suc power_increasing [of 1 k "2::rat"] by simp
      ultimately have "16777216 \<le> x * 2 ^ k"
        using mult_mono [of 8388608 x 2 "2 ^ k :: rat"] by simp
      with Suc.prems have "(16777216 :: rat) \<le> of_int m" by simp
      with Suc.prems show False by linarith
    qed
    moreover from Suc Suc.prems have "f32_down n (2 * x) = 2 * x"
      by (intro Suc.IH [of _ k']) simp_all
    ultimately show ?thesis by simp
  qed
qed

text \<open>Every dyadic value with a 24-bit significand is a fixed point of the rounding.\<close>

lemma f32_round_exact:
  assumes "x * 2 ^ k = of_int m" "k \<le> 149" "0 \<le> x" "m < 16777216"
  shows "f32_round x = x"
proof -
  have "x < 16777216"
  proof -
    have "x * 1 \<le> x * 2 ^ k" using assms(3) by (intro mult_left_mono) simp_all
    also have "\<dots> < 16777216" using assms(1,4) by linarith
    finally show ?thesis by simp
  qed
  with f32_down_exact [OF assms(1,2,4)] assms(3) show ?thesis
    by (simp add: f32_round_def f32_pos_def)
qed

lemma f32_round_1 [simp]: "f32_round 1 = 1"
  using f32_round_exact [of 1 0 1] by simp

lemma f32_mul_1 [simp]: "f32_mul 1 a = f32_round a" "f32_mul a 1 = f32_round a"
  by (simp_all add: f32_mul_def)

lemma f32_round_unit: "0 \<le> x \<Longrightarrow> x \<le> 1 \<Longrightarrow> 0 \<le> f32_round x \<and> f32_round x \<le> 1"
  using f32_round_mono [of x 1] f32_round_nonneg [of x] by simp

end
