(* ===== verification/Externals.thy ===== *)
theory Externals
  imports Float32
begin

text \<open>
  The code the spine calls but does not contain, as one record of functions, and the
  \<open>CryptoEngine\<close> of \<open>crypto.rs\<close> over it.

  \<open>externs\<close> has one field per foreign operation: SHA-256 (\<open>sha2\<close>), hex (\<open>hex\<close>), Ed25519
  (\<open>ed25519_dalek\<close>), UUIDs (\<open>uuid\<close>), the wall clock and its rendering (\<open>chrono\<close>), JSON string
  escaping (\<open>serde_json\<close>), regular expressions (\<open>regex\<close>), Base64 (\<open>base64\<close>), and the Unicode
  case tables behind \<open>to_lowercase\<close> and \<open>to_uppercase\<close>. The clock and the UUID source are
  streams: the \<open>world\<close> counts how many values were drawn, so every call of \<open>Utc::now()\<close> and
  \<open>Uuid::new_v4()\<close> is a separate draw.
\<close>

record externs =
  sha_hex :: "string \<Rightarrow> string"        \<comment> \<open>lower-case hex of the SHA-256 digest\<close>
  hex_encode :: "string \<Rightarrow> string"
  hex_decode :: "string \<Rightarrow> string option"
  ed_public :: "string \<Rightarrow> string"      \<comment> \<open>verifying key of a 32-byte signing key\<close>
  ed_sign :: "string \<Rightarrow> string \<Rightarrow> string"
  ed_key_ok :: "string \<Rightarrow> bool"        \<comment> \<open>\<open>VerifyingKey::from_bytes\<close> accepts\<close>
  ed_verify :: "string \<Rightarrow> string \<Rightarrow> string \<Rightarrow> bool"
  uuid_display :: "nat \<Rightarrow> string"
  uuid_simple :: "nat \<Rightarrow> string"
  clock :: "nat \<Rightarrow> int"                 \<comment> \<open>nanoseconds since the epoch\<close>
  show_time :: "int \<Rightarrow> string"
  json_str :: "string \<Rightarrow> string"
  regex_match :: "string \<Rightarrow> string \<Rightarrow> bool"
  regex_ok :: "string \<Rightarrow> bool"
  regex_escape :: "string \<Rightarrow> string"
  base64_decode :: "string \<Rightarrow> string option"
  lowercase :: "string \<Rightarrow> string"
  uppercase :: "string \<Rightarrow> string"

definition hex_char :: "char \<Rightarrow> bool" where
  "hex_char c \<longleftrightarrow> is_ascii_digit c \<or> char_le CHR ''a'' c \<and> char_le c CHR ''f''"

text \<open>
  Documented behaviour the theorems rely on, each under its own name: hex encoding is
  invertible and yields two hex digits per byte; a SHA-256 digest prints as 64 hex digits; an
  Ed25519 signature verifies under the matching key and has 64 bytes, a key 32.
\<close>

definition hex_laws :: "externs \<Rightarrow> bool" where
  "hex_laws X \<longleftrightarrow> (\<forall>s. hex_decode X (hex_encode X s) = Some s) \<and>
     (\<forall>s. list_all hex_char (hex_encode X s) \<and> length (hex_encode X s) = 2 * length s)"

definition sha_laws :: "externs \<Rightarrow> bool" where
  "sha_laws X \<longleftrightarrow> (\<forall>s. length (sha_hex X s) = 64 \<and> list_all hex_char (sha_hex X s))"

definition ed_laws :: "externs \<Rightarrow> bool" where
  "ed_laws X \<longleftrightarrow> (\<forall>k m. ed_verify X (ed_public X k) m (ed_sign X k m)) \<and>
     (\<forall>k m. length (ed_sign X k m) = 64) \<and>
     (\<forall>k. length (ed_public X k) = 32 \<and> ed_key_ok X (ed_public X k))"

definition uuid_laws :: "externs \<Rightarrow> bool" where
  "uuid_laws X \<longleftrightarrow> inj (uuid_simple X)"

text \<open>
  JSON string escaping is a self-delimiting encoding: no encoded string is a proper prefix of
  another encoded string followed by anything, so a parser knows where it ends. Every encoding
  starts with the quotation mark.
\<close>

definition json_str_laws :: "externs \<Rightarrow> bool" where
  "json_str_laws X \<longleftrightarrow>
     (\<forall>a b x y. json_str X a @ x = json_str X b @ y \<longrightarrow> a = b \<and> x = y) \<and>
     (\<forall>a. \<exists>r. json_str X a = CHR 34 # r)"

lemma hex_encode_inject: "hex_laws X \<Longrightarrow> hex_encode X a = hex_encode X b \<Longrightarrow> a = b"
  by (metis hex_laws_def option.inject)

lemma hex_char_not_bar: "\<not> hex_char CHR ''|''"
  by (simp add: hex_char_def is_ascii_digit_def char_le_def)

lemma hex_encode_no_bar: "hex_laws X \<Longrightarrow> CHR ''|'' \<notin> set (hex_encode X s)"
  using hex_char_not_bar by (auto simp: hex_laws_def list_all_iff)

lemma sha_hex_no_bar: "sha_laws X \<Longrightarrow> CHR ''|'' \<notin> set (sha_hex X s)"
  using hex_char_not_bar by (auto simp: sha_laws_def list_all_iff)

section \<open>The crypto engine\<close>

datatype crypto_error = InvalidKeypair string | InvalidSignatureFormat
  | InvalidSignatureLength nat | HexDecode | EmptyChain

text \<open>
  \<open>CryptoEngine\<close>: the signing key, the verifying key derived from it, the chain of hashes
  (oldest first).
\<close>

record engine =
  signing_key :: string
  verifying_key :: string
  hash_chain :: "string list"

definition compute_hash :: "externs \<Rightarrow> string \<Rightarrow> string" where
  "compute_hash X data = sha_hex X data"

text \<open>\<open>new\<close> draws the key from the OS generator: the key is an argument.\<close>

definition engine_new :: "externs \<Rightarrow> string \<Rightarrow> string \<Rightarrow> engine" where
  "engine_new X generated seed =
     \<lparr>signing_key = generated, verifying_key = ed_public X generated,
      hash_chain = [compute_hash X seed]\<rparr>"

definition engine_from_bytes :: "externs \<Rightarrow> string \<Rightarrow> string \<Rightarrow> crypto_error + engine" where
  "engine_from_bytes X key seed =
     Inr \<lparr>signing_key = key, verifying_key = ed_public X key,
          hash_chain = [compute_hash X seed]\<rparr>"

datatype key_file_error = KeyUnreadable | KeyWrongLength nat | KeyInvalid crypto_error

definition from_persisted_key_file ::
  "externs \<Rightarrow> string option \<Rightarrow> string \<Rightarrow> key_file_error + engine" where
  "from_persisted_key_file X file seed =
     (case file of
        None \<Rightarrow> Inl KeyUnreadable
      | Some bytes \<Rightarrow>
          if length bytes \<noteq> 32 then Inl (KeyWrongLength (length bytes))
          else (case engine_from_bytes X bytes seed of
                  Inl e \<Rightarrow> Inl (KeyInvalid e) | Inr eng \<Rightarrow> Inr eng))"

definition engine_sign :: "externs \<Rightarrow> engine \<Rightarrow> string \<Rightarrow> string" where
  "engine_sign X e data = hex_encode X (ed_sign X (signing_key e) data)"

definition engine_verify :: "externs \<Rightarrow> engine \<Rightarrow> string \<Rightarrow> string \<Rightarrow> crypto_error + bool" where
  "engine_verify X e data signature_hex =
     (case hex_decode X signature_hex of
        None \<Rightarrow> Inl HexDecode
      | Some sig \<Rightarrow>
          if length sig \<noteq> 64 then Inl (InvalidSignatureLength (length sig))
          else Inr (ed_verify X (verifying_key e) data sig))"

text \<open>\<open>verify(..).unwrap_or(false)\<close>\<close>

definition verify_ok :: "externs \<Rightarrow> engine \<Rightarrow> string \<Rightarrow> string \<Rightarrow> bool" where
  "verify_ok X e data sig = (case engine_verify X e data sig of Inl _ \<Rightarrow> False | Inr b \<Rightarrow> b)"

definition last_or_default :: "string list \<Rightarrow> string" where
  "last_or_default xs = (if xs = [] then [] else last xs)"

definition extend_chain :: "externs \<Rightarrow> string \<Rightarrow> engine \<Rightarrow> engine" where
  "extend_chain X canonical e =
     (let new_hash = compute_hash X (last_or_default (hash_chain e) @ canonical)
      in e\<lparr>hash_chain := hash_chain e @ [new_hash]\<rparr>)"

definition get_latest_hash :: "engine \<Rightarrow> string" where
  "get_latest_hash e = last_or_default (hash_chain e)"

definition chain_length :: "engine \<Rightarrow> nat" where
  "chain_length e = length (hash_chain e)"

definition export_chain :: "engine \<Rightarrow> string list" where
  "export_chain e = hash_chain e"

definition verifying_key_hex :: "externs \<Rightarrow> engine \<Rightarrow> string" where
  "verifying_key_hex X e = hex_encode X (verifying_key e)"

definition verifying_key_fingerprint :: "externs \<Rightarrow> engine \<Rightarrow> string" where
  "verifying_key_fingerprint X e = take 16 (compute_hash X (verifying_key_hex X e))"

text \<open>An engine whose verifying key belongs to its signing key, as both constructors build it.\<close>

definition engine_ok :: "externs \<Rightarrow> engine \<Rightarrow> bool" where
  "engine_ok X e \<longleftrightarrow> verifying_key e = ed_public X (signing_key e)"

lemma engine_new_ok: "engine_ok X (engine_new X k seed)"
  by (simp add: engine_ok_def engine_new_def)

lemma extend_chain_ok [simp]: "engine_ok X (extend_chain Y c e) = engine_ok X e"
  by (simp add: engine_ok_def extend_chain_def Let_def)

lemma extend_chain_keys [simp]:
  "signing_key (extend_chain X c e) = signing_key e"
  "verifying_key (extend_chain X c e) = verifying_key e"
  by (simp_all add: extend_chain_def Let_def)

lemma engine_sign_extend [simp]: "engine_sign X (extend_chain Y c e) = engine_sign X e"
  by (simp add: engine_sign_def fun_eq_iff)

lemma sign_verifies:
  assumes "hex_laws X" "ed_laws X" "engine_ok X e"
  shows "verify_ok X e data (engine_sign X e data)"
  using assms by (simp add: verify_ok_def engine_verify_def engine_sign_def hex_laws_def
      ed_laws_def engine_ok_def)

text \<open>Only the signing key matters to a signature check: the chain does not.\<close>

lemma verify_ok_cong: "verifying_key e = verifying_key e' \<Longrightarrow> verify_ok X e = verify_ok X e'"
  by (intro ext) (simp add: verify_ok_def engine_verify_def split: option.split)

interpretation hash_chain_log: append_only hash_chain "extend_chain X" for X
  by unfold_locales (simp add: extend_chain_def Let_def)

section \<open>Effects: the clock, the UUID source and the shared engine\<close>

record world =
  eng :: engine
  ticks :: nat
  ids :: nat

definition now :: "externs \<Rightarrow> world \<Rightarrow> int" where
  "now X w = clock X (ticks w)"

definition tick :: "world \<Rightarrow> world" where
  "tick w = w\<lparr>ticks := Suc (ticks w)\<rparr>"

definition draw_id :: "world \<Rightarrow> world" where
  "draw_id w = w\<lparr>ids := Suc (ids w)\<rparr>"

definition with_eng :: "(engine \<Rightarrow> engine) \<Rightarrow> world \<Rightarrow> world" where
  "with_eng f w = w\<lparr>eng := f (eng w)\<rparr>"

definition secs :: "int \<Rightarrow> int" where
  "secs n = n * 1000000000"

definition minutes :: "int \<Rightarrow> int" where
  "minutes n = secs (n * 60)"

text \<open>\<open>timestamp()\<close> and \<open>timestamp_nanos_opt().unwrap_or(0)\<close> of \<open>chrono\<close>.\<close>

definition timestamp :: "int \<Rightarrow> int" where
  "timestamp t = t div 1000000000"

definition timestamp_nanos :: "int \<Rightarrow> int" where
  "timestamp_nanos t = (if - (2 ^ 63) \<le> t \<and> t < 2 ^ 63 then t else 0)"

lemma world_frame [simp]:
  "eng (tick w) = eng w" "ids (tick w) = ids w" "ticks (tick w) = Suc (ticks w)"
  "eng (draw_id w) = eng w" "ticks (draw_id w) = ticks w" "ids (draw_id w) = Suc (ids w)"
  "eng (with_eng f w) = f (eng w)" "ticks (with_eng f w) = ticks w" "ids (with_eng f w) = ids w"
  by (simp_all add: tick_def draw_id_def with_eng_def)

text \<open>
  What every operation of the spine does to the world: it only draws from the clock and the
  UUID source and only extends the hash chain; the keys never change.
\<close>

definition world_le :: "world \<Rightarrow> world \<Rightarrow> bool" where
  "world_le w w' \<longleftrightarrow> ticks w \<le> ticks w' \<and> ids w \<le> ids w' \<and>
     prefix (hash_chain (eng w)) (hash_chain (eng w')) \<and>
     signing_key (eng w') = signing_key (eng w) \<and> verifying_key (eng w') = verifying_key (eng w)"

lemma world_le_refl [simp]: "world_le w w"
  by (simp add: world_le_def)

lemma world_le_trans [trans]: "world_le a b \<Longrightarrow> world_le b c \<Longrightarrow> world_le a c"
  by (auto simp: world_le_def)

lemma world_le_tick [simp]: "world_le w (tick w)" "world_le w (draw_id w)"
  by (simp_all add: world_le_def)

lemma world_le_extend [simp]: "world_le w (with_eng (extend_chain X c) w)"
  by (simp add: world_le_def hash_chain_log.step_extends)

lemma world_le_engine_ok: "world_le w w' \<Longrightarrow> engine_ok X (eng w') = engine_ok X (eng w)"
  by (simp add: world_le_def engine_ok_def)

section \<open>A concrete instance\<close>

text \<open>
  Executable stand-ins that satisfy the laws, on which the witnesses evaluate: real hex, a
  \<open>64\<close>-digit checksum in place of SHA-256, a keyed tag in place of Ed25519.
\<close>

definition nibble :: "nat \<Rightarrow> char" where
  "nibble n = (if n < 10 then char_of (48 + n) else char_of (87 + n))"

definition unnibble :: "char \<Rightarrow> nat" where
  "unnibble c = (if of_char c < (58::nat) then of_char c - 48 else of_char c - 87)"

fun hex_enc :: "string \<Rightarrow> string" where
  "hex_enc [] = []"
| "hex_enc (c # cs) = nibble (of_char c div 16) # nibble (of_char c mod 16) # hex_enc cs"

fun hex_dec :: "string \<Rightarrow> string option" where
  "hex_dec [] = Some []"
| "hex_dec [_] = None"
| "hex_dec (a # b # cs) =
     (if hex_char a \<and> hex_char b
      then map_option ((#) (char_of (unnibble a * 16 + unnibble b))) (hex_dec cs) else None)"

definition pad_to :: "nat \<Rightarrow> string \<Rightarrow> string" where
  "pad_to n s = take n (s @ replicate n CHR ''0'')"

definition toy_sha :: "string \<Rightarrow> string" where
  "toy_sha s = pad_to 64 (map (\<lambda>c. nibble (of_char c mod 16)) (rev s))"

definition toy_json_str :: "string \<Rightarrow> string" where
  "toy_json_str s = CHR 34 # concat (map (\<lambda>c. [CHR ''x'', c]) s) @ [CHR 34]"

definition demo :: externs where
  "demo = \<lparr>sha_hex = toy_sha, hex_encode = hex_enc, hex_decode = hex_dec,
     ed_public = pad_to 32, ed_sign = (\<lambda>k m. pad_to 64 (pad_to 32 k @ m)),
     ed_key_ok = (\<lambda>_. True), ed_verify = (\<lambda>pk m s. s = pad_to 64 (pk @ m)),
     uuid_display = show_nat, uuid_simple = show_nat, clock = (\<lambda>n. secs (int n)),
     show_time = show_int, json_str = toy_json_str,
     regex_match = (\<lambda>p t. contains t p), regex_ok = (\<lambda>_. True), regex_escape = (\<lambda>s. s),
     base64_decode = (\<lambda>_. None), lowercase = to_ascii_lowercase, uppercase = (\<lambda>s. s)\<rparr>"

lemma nibble_hex: "n < 16 \<Longrightarrow> hex_char (nibble n)"
  by (auto simp: nibble_def hex_char_def is_ascii_digit_def char_le_def)

lemma unnibble_nibble: "n < 16 \<Longrightarrow> unnibble (nibble n) = n"
  by (auto simp: nibble_def unnibble_def)

lemma of_char_less [simp]: "(of_char c :: nat) < 256"
  by simp

lemma hex_enc_all: "list_all hex_char (hex_enc s)"
  by (induction s) (auto intro!: nibble_hex simp: less_mult_imp_div_less)

lemma length_hex_enc: "length (hex_enc s) = 2 * length s"
  by (induction s) simp_all

lemma hex_dec_enc: "hex_dec (hex_enc s) = Some s"
  by (induction s)
    (auto simp: nibble_hex unnibble_nibble less_mult_imp_div_less simp del: of_char_def)

lemma demo_hex: "hex_laws demo"
  by (simp add: hex_laws_def demo_def hex_dec_enc hex_enc_all length_hex_enc)

lemma length_pad_to [simp]: "length (pad_to n s) = n"
  by (simp add: pad_to_def)

lemma pad_to_idem: "pad_to n (pad_to n s) = pad_to n s"
  by (simp add: pad_to_def)

lemma list_all_pad_to: "list_all hex_char s \<Longrightarrow> list_all hex_char (pad_to n s)"
  by (auto simp: pad_to_def list_all_iff hex_char_def is_ascii_digit_def char_le_def
      dest!: in_set_takeD)

lemma demo_sha: "sha_laws demo"
proof -
  have "list_all hex_char (toy_sha s)" for s
    unfolding toy_sha_def by (rule list_all_pad_to) (auto simp: list_all_iff intro: nibble_hex)
  then show ?thesis by (simp add: sha_laws_def demo_def) (simp add: toy_sha_def)
qed

lemma demo_ed: "ed_laws demo"
  by (simp add: ed_laws_def demo_def)

lemma demo_uuid: "uuid_laws demo"
  by (auto simp: uuid_laws_def demo_def inj_def dest: show_nat_inject)

lemma toy_json_self_delim:
  "concat (map (\<lambda>c. [CHR ''x'', c]) a) @ CHR 34 # x =
   concat (map (\<lambda>c. [CHR ''x'', c]) b) @ CHR 34 # y \<Longrightarrow> a = b \<and> x = y"
proof (induction a arbitrary: b)
  case Nil
  then show ?case by (cases b) auto
next
  case (Cons c a)
  then show ?case by (cases b) auto
qed

lemma demo_json: "json_str_laws demo"
proof -
  have "a = b \<and> x = y" if "toy_json_str a @ x = toy_json_str b @ y" for a b x y
    using that by (intro toy_json_self_delim) (simp add: toy_json_str_def)
  moreover have "\<exists>r. toy_json_str a = CHR 34 # r" for a
    by (simp add: toy_json_str_def)
  moreover have "json_str demo = toy_json_str" by (simp add: demo_def)
  ultimately show ?thesis unfolding json_str_laws_def by metis
qed

lemmas demo_laws = demo_hex demo_sha demo_ed demo_uuid demo_json

text \<open>A world at the start of a run.\<close>

definition demo_world :: world where
  "demo_world = \<lparr>eng = engine_new demo ''key'' ''seed'', ticks = 0, ids = 0\<rparr>"

lemma demo_engine_ok: "engine_ok demo (eng demo_world)"
  by (simp add: demo_world_def engine_new_ok)

end
