(* ===== verification/Signal.thy ===== *)
theory Signal
  imports Externals
begin

text \<open>
  \<open>governance_signal.rs\<close>: severities, signal sources, directions, the signal every layer emits,
  its builder and its canonical form; and the steps \<open>attach_crypto\<close>/\<open>build\<close>/\<open>clean\<close> that
  Sentinel, Corridor, OverWatch, OIM and HAAP each repeat over it.
\<close>

datatype severity = SevNone | SevLow | SevMedium | SevHigh | SevCritical

datatype signal_source = Sentinel | Corridor | OverWatch | OIM | SrcArbiter

datatype direction = Inbound | Outbound

section \<open>The derived order on severities\<close>

fun severity_rank :: "severity \<Rightarrow> nat" where
  "severity_rank SevNone = 0"
| "severity_rank SevLow = 1"
| "severity_rank SevMedium = 2"
| "severity_rank SevHigh = 3"
| "severity_rank SevCritical = 4"

interpretation severity: ranked severity_rank
proof
  fix a b
  assume "severity_rank a = severity_rank b"
  then show "a = b" by (cases a; cases b) simp_all
qed

instantiation severity :: linorder
begin

definition less_eq_severity :: "severity \<Rightarrow> severity \<Rightarrow> bool" where
  "less_eq_severity a b \<longleftrightarrow> severity_rank a \<le> severity_rank b"

definition less_severity :: "severity \<Rightarrow> severity \<Rightarrow> bool" where
  "less_severity a b \<longleftrightarrow> severity_rank a < severity_rank b"

instance
  by intro_classes (auto simp: less_eq_severity_def less_severity_def severity.rank_eq_iff)

end

lemmas severity_order = less_eq_severity_def less_severity_def

fun show_severity :: "severity \<Rightarrow> string" where
  "show_severity SevNone = ''NONE''"
| "show_severity SevLow = ''LOW''"
| "show_severity SevMedium = ''MEDIUM''"
| "show_severity SevHigh = ''HIGH''"
| "show_severity SevCritical = ''CRITICAL''"

fun show_source :: "signal_source \<Rightarrow> string" where
  "show_source Sentinel = ''Sentinel''"
| "show_source Corridor = ''Corridor''"
| "show_source OverWatch = ''OverWatch''"
| "show_source OIM = ''OIM''"
| "show_source SrcArbiter = ''Arbiter''"

fun show_direction :: "direction \<Rightarrow> string" where
  "show_direction Inbound = ''inbound''"
| "show_direction Outbound = ''outbound''"

section \<open>Signals and their builder\<close>

record signal =
  sg_id :: string
  sg_source :: signal_source
  sg_direction :: direction
  sg_violation_class :: "string option"
  sg_policy_rule_id :: "string option"
  sg_severity :: severity
  sg_confidence :: f32
  sg_payload_hash :: string
  sg_timestamp :: int
  sg_previous_hash :: "string option"
  sg_current_hash :: "string option"
  sg_signature :: "string option"
  sg_constitutional_ref :: "string option"
  sg_session_id :: string

record signal_builder =
  sb_source :: signal_source
  sb_direction :: direction
  sb_session_id :: string
  sb_violation_class :: "string option"
  sb_policy_rule_id :: "string option"
  sb_severity :: severity
  sb_confidence :: f32
  sb_payload_hash :: string
  sb_constitutional_ref :: "string option"

definition builder_new :: "signal_source \<Rightarrow> direction \<Rightarrow> string \<Rightarrow> signal_builder" where
  "builder_new src dir sid =
     \<lparr>sb_source = src, sb_direction = dir, sb_session_id = sid, sb_violation_class = None,
      sb_policy_rule_id = None, sb_severity = SevNone, sb_confidence = 0, sb_payload_hash = [],
      sb_constitutional_ref = None\<rparr>"

definition builder_violation :: "string \<Rightarrow> string \<Rightarrow> signal_builder \<Rightarrow> signal_builder" where
  "builder_violation cls rule b =
     b\<lparr>sb_violation_class := Some cls, sb_policy_rule_id := Some rule\<rparr>"

definition builder_severity :: "severity \<Rightarrow> f32 \<Rightarrow> signal_builder \<Rightarrow> signal_builder" where
  "builder_severity sev conf b = b\<lparr>sb_severity := sev, sb_confidence := f32_clamp01 conf\<rparr>"

definition builder_payload_hash :: "string \<Rightarrow> signal_builder \<Rightarrow> signal_builder" where
  "builder_payload_hash h b = b\<lparr>sb_payload_hash := h\<rparr>"

definition builder_constitutional_ref :: "string \<Rightarrow> signal_builder \<Rightarrow> signal_builder" where
  "builder_constitutional_ref r b = b\<lparr>sb_constitutional_ref := Some r\<rparr>"

text \<open>\<open>build\<close> draws a UUID and reads the clock.\<close>

definition builder_build :: "externs \<Rightarrow> world \<Rightarrow> signal_builder \<Rightarrow> signal \<times> world" where
  "builder_build X w b =
     (\<lparr>sg_id = uuid_display X (ids w), sg_source = sb_source b, sg_direction = sb_direction b,
       sg_violation_class = sb_violation_class b, sg_policy_rule_id = sb_policy_rule_id b,
       sg_severity = sb_severity b, sg_confidence = sb_confidence b,
       sg_payload_hash = sb_payload_hash b, sg_timestamp = now X w, sg_previous_hash = None,
       sg_current_hash = None, sg_signature = None,
       sg_constitutional_ref = sb_constitutional_ref b, sg_session_id = sb_session_id b\<rparr>,
      tick (draw_id w))"

definition sg_canonical :: "signal \<Rightarrow> string" where
  "sg_canonical s = join bar
     [sg_id s, show_source (sg_source s), show_direction (sg_direction s),
      (case sg_violation_class s of None \<Rightarrow> ''NONE'' | Some v \<Rightarrow> v),
      show_severity (sg_severity s), show_fixed 6 (sg_confidence s), sg_payload_hash s,
      show_int (timestamp_nanos (sg_timestamp s))]"

definition is_clean :: "signal \<Rightarrow> bool" where
  "is_clean s \<longleftrightarrow> sg_severity s = SevNone"

section \<open>Chaining and signing a signal\<close>

text \<open>
  \<open>attach_crypto\<close> of \<open>sentinel.rs\<close>, \<open>corridor.rs\<close>, \<open>overwatch.rs\<close> and \<open>oim.rs\<close>, the tail of
  \<open>HaapGate::build_signal\<close> and of \<open>build_memory_signal\<close>: link the signal into the shared hash
  chain and sign its canonical form.
\<close>

definition attach_crypto :: "externs \<Rightarrow> world \<Rightarrow> signal \<Rightarrow> signal \<times> world" where
  "attach_crypto X w s =
     (let canonical = sg_canonical s;
          prev = get_latest_hash (eng w);
          w' = with_eng (extend_chain X canonical) w
      in (s\<lparr>sg_previous_hash := Some prev,
            sg_current_hash := Some (get_latest_hash (eng w')),
            sg_signature := Some (engine_sign X (eng w') canonical)\<rparr>, w'))"

text \<open>\<open>build\<close> with a violation, \<open>clean\<close> without, of each layer.\<close>

definition build_signal :: "externs \<Rightarrow> world \<Rightarrow> signal_source \<Rightarrow> direction \<Rightarrow> string \<Rightarrow> string \<Rightarrow>
    string \<Rightarrow> severity \<Rightarrow> f32 \<Rightarrow> string \<Rightarrow> string \<Rightarrow> signal \<times> world" where
  "build_signal X w src dir sid violation rule sev conf hash cref =
     (let (s, w1) = builder_build X w
            (builder_constitutional_ref cref (builder_payload_hash hash
              (builder_severity sev conf (builder_violation violation rule
                (builder_new src dir sid)))))
      in attach_crypto X w1 s)"

definition clean_signal :: "externs \<Rightarrow> world \<Rightarrow> signal_source \<Rightarrow> direction \<Rightarrow> string \<Rightarrow> string \<Rightarrow>
    signal \<times> world" where
  "clean_signal X w src dir sid hash =
     (let (s, w1) = builder_build X w (builder_payload_hash hash (builder_new src dir sid))
      in attach_crypto X w1 s)"

lemmas builder_defs = builder_build_def builder_constitutional_ref_def builder_payload_hash_def
  builder_severity_def builder_violation_def builder_new_def

lemma attach_crypto_fields [simp]:
  "sg_severity (fst (attach_crypto X w s)) = sg_severity s"
  "sg_confidence (fst (attach_crypto X w s)) = sg_confidence s"
  "sg_session_id (fst (attach_crypto X w s)) = sg_session_id s"
  "sg_direction (fst (attach_crypto X w s)) = sg_direction s"
  "sg_source (fst (attach_crypto X w s)) = sg_source s"
  "sg_violation_class (fst (attach_crypto X w s)) = sg_violation_class s"
  "sg_policy_rule_id (fst (attach_crypto X w s)) = sg_policy_rule_id s"
  "sg_payload_hash (fst (attach_crypto X w s)) = sg_payload_hash s"
  by (simp_all add: attach_crypto_def Let_def)

lemma attach_crypto_world [simp]: "world_le w (snd (attach_crypto X w s))"
  by (simp add: attach_crypto_def Let_def)

lemma build_signal_fields [simp]:
  "sg_severity (fst (build_signal X w src dir sid v r sev conf h c)) = sev"
  "sg_confidence (fst (build_signal X w src dir sid v r sev conf h c)) = f32_clamp01 conf"
  "sg_session_id (fst (build_signal X w src dir sid v r sev conf h c)) = sid"
  "sg_direction (fst (build_signal X w src dir sid v r sev conf h c)) = dir"
  "sg_source (fst (build_signal X w src dir sid v r sev conf h c)) = src"
  "sg_violation_class (fst (build_signal X w src dir sid v r sev conf h c)) = Some v"
  "sg_policy_rule_id (fst (build_signal X w src dir sid v r sev conf h c)) = Some r"
  "sg_payload_hash (fst (build_signal X w src dir sid v r sev conf h c)) = h"
  by (simp_all add: build_signal_def builder_defs)

lemma clean_signal_fields [simp]:
  "sg_severity (fst (clean_signal X w src dir sid h)) = SevNone"
  "sg_confidence (fst (clean_signal X w src dir sid h)) = 0"
  "sg_session_id (fst (clean_signal X w src dir sid h)) = sid"
  "sg_direction (fst (clean_signal X w src dir sid h)) = dir"
  "sg_source (fst (clean_signal X w src dir sid h)) = src"
  "sg_violation_class (fst (clean_signal X w src dir sid h)) = None"
  "sg_policy_rule_id (fst (clean_signal X w src dir sid h)) = None"
  "sg_payload_hash (fst (clean_signal X w src dir sid h)) = h"
  by (simp_all add: clean_signal_def builder_defs)

lemma builder_build_world: "world_le w (snd (builder_build X w b))"
  by (simp add: builder_build_def) (metis world_le_tick world_le_trans)

lemma build_signal_world [simp]: "world_le w (snd (build_signal X w src dir sid v r sev conf h c))"
  unfolding build_signal_def Let_def split_def
  by (rule world_le_trans [OF builder_build_world attach_crypto_world])

lemma clean_signal_world [simp]: "world_le w (snd (clean_signal X w src dir sid h))"
  unfolding clean_signal_def Let_def split_def
  by (rule world_le_trans [OF builder_build_world attach_crypto_world])

text \<open>A confidence is always in the unit interval.\<close>

lemma build_signal_confidence:
  "0 \<le> sg_confidence (fst (build_signal X w src dir sid v r sev conf h c))"
  "sg_confidence (fst (build_signal X w src dir sid v r sev conf h c)) \<le> 1"
  by (simp_all add: f32_clamp01_range)

section \<open>Correctness of the chain a signal carries\<close>

text \<open>
  A signal is anchored when it is signed under the runtime key over its canonical form and its
  \<open>current_hash\<close> is the hash of its \<open>previous_hash\<close> followed by that form.
\<close>

definition anchored :: "externs \<Rightarrow> engine \<Rightarrow> signal \<Rightarrow> bool" where
  "anchored X e s \<longleftrightarrow>
     (\<exists>p c g. sg_previous_hash s = Some p \<and> sg_current_hash s = Some c \<and>
        sg_signature s = Some g \<and> c = compute_hash X (p @ sg_canonical s) \<and>
        verify_ok X e (sg_canonical s) g)"

lemma sg_canonical_crypto [simp]:
  "sg_canonical (s\<lparr>sg_previous_hash := p, sg_current_hash := c, sg_signature := g\<rparr>) =
   sg_canonical s"
  by (simp add: sg_canonical_def)

lemma attach_crypto_anchored:
  assumes "hex_laws X" "ed_laws X" "engine_ok X (eng w)"
  shows "anchored X (eng w) (fst (attach_crypto X w s))"
  using sign_verifies [OF assms, of "sg_canonical s"]
  by (auto simp: anchored_def attach_crypto_def Let_def get_latest_hash_def extend_chain_def
      last_or_default_def engine_sign_def)

lemma built_signal_anchored:
  assumes "hex_laws X" "ed_laws X" "engine_ok X (eng w)"
  shows "anchored X (eng w) (fst (build_signal X w src dir sid v r sev conf h c))"
    and "hash_chain (eng (snd (build_signal X w src dir sid v r sev conf h c))) =
      hash_chain (eng w) @
        [the (sg_current_hash (fst (build_signal X w src dir sid v r sev conf h c)))]"
proof -
  let ?b = "builder_constitutional_ref c (builder_payload_hash h
              (builder_severity sev conf (builder_violation v r (builder_new src dir sid))))"
  have e: "eng (snd (builder_build X w ?b)) = eng w" by (simp add: builder_build_def)
  have b: "build_signal X w src dir sid v r sev conf h c =
      attach_crypto X (snd (builder_build X w ?b)) (fst (builder_build X w ?b))"
    by (simp add: build_signal_def Let_def split_def)
  show "anchored X (eng w) (fst (build_signal X w src dir sid v r sev conf h c))"
    using attach_crypto_anchored [of X "snd (builder_build X w ?b)"] assms by (simp add: b e)
  show "hash_chain (eng (snd (build_signal X w src dir sid v r sev conf h c))) =
      hash_chain (eng w) @
        [the (sg_current_hash (fst (build_signal X w src dir sid v r sev conf h c)))]"
    by (simp add: b attach_crypto_def Let_def e extend_chain_def get_latest_hash_def
        last_or_default_def)
qed

end
