(* ===== verification/ActionSemantics.thy ===== *)
theory ActionSemantics
  imports GovPrelude
begin

text \<open>
  \<open>action_semantics.rs\<close>: the server-owned map from a tool name to its action plane, its
  normalized name and whether the turn depends on it. The one argument is the tool name; nothing
  a caller asserts enters.
\<close>

datatype action_plane = PlaneUser | PlaneTool | PlaneControl | PlaneGovernance

fun plane_str :: "action_plane \<Rightarrow> string" where
  "plane_str PlaneUser = ''user''"
| "plane_str PlaneTool = ''tool''"
| "plane_str PlaneControl = ''control''"
| "plane_str PlaneGovernance = ''governance''"

datatype completion_criticality = Required | Noncritical

fun criticality_str :: "completion_criticality \<Rightarrow> string" where
  "criticality_str Required = ''required''"
| "criticality_str Noncritical = ''noncritical''"

fun is_required :: "completion_criticality \<Rightarrow> bool" where
  "is_required Required = True"
| "is_required Noncritical = False"

record action_semantics =
  as_plane :: action_plane
  as_normalized_action :: string
  as_criticality :: completion_criticality

definition required_for_safe_completion :: "action_semantics \<Rightarrow> bool" where
  "required_for_safe_completion a = is_required (as_criticality a)"

definition derive_action_semantics_for_tool :: "string \<Rightarrow> action_semantics" where
  "derive_action_semantics_for_tool tool =
     (if tool = ''heartbeat_respond''
      then \<lparr>as_plane = PlaneControl, as_normalized_action = ''system.telemetry.heartbeat'',
            as_criticality = Noncritical\<rparr>
      else \<lparr>as_plane = PlaneTool, as_normalized_action = ''tool.'' @ tool,
            as_criticality = Required\<rparr>)"

lemma plane_str_inject [simp]: "plane_str a = plane_str b \<longleftrightarrow> a = b"
  by (cases a; cases b) simp_all

text \<open>Only the heartbeat tool leaves the tool plane, and only it is noncritical.\<close>

lemma derive_plane:
  "as_plane (derive_action_semantics_for_tool t) =
     (if t = ''heartbeat_respond'' then PlaneControl else PlaneTool)"
  by (simp add: derive_action_semantics_for_tool_def)

lemma derive_required:
  "required_for_safe_completion (derive_action_semantics_for_tool t) \<longleftrightarrow> t \<noteq> ''heartbeat_respond''"
  by (simp add: derive_action_semantics_for_tool_def required_for_safe_completion_def)

text \<open>The normalized name identifies the tool.\<close>

lemma derive_normalized_inject:
  "as_normalized_action (derive_action_semantics_for_tool a) =
   as_normalized_action (derive_action_semantics_for_tool b) \<Longrightarrow> a = b"
  by (auto simp: derive_action_semantics_for_tool_def split: if_splits)

end
