(* ===== verification/Json.thy ===== *)
theory Json
  imports Externals
begin

text \<open>
  The JSON values of \<open>envelope.rs\<close>: \<open>serde_json::Value\<close> with its sorted map, the canonical
  writer with its depth limit, the limit check and the string collector; and the theorem that
  the canonical text determines the value.

  A number is kept as the text \<open>serde_json\<close> prints for it. An object is the list of its entries
  in the order the map iterates, that is by key (the crate is built without
  \<open>preserve_order\<close>).
\<close>

datatype json = JNull | JBool bool | JNumber string | JString string
  | JArray "json list" | JObject "(string \<times> json) list"

datatype envelope_error = MissingField string | InvalidField string | InvalidDigest string
  | LimitExceeded string | InvalidContextSegment u32 string | DuplicateAttachmentId string
  | UnknownAttachmentId string | HashMismatch string | Canonicalization string

definition MAX_JSON_DEPTH :: nat where "MAX_JSON_DEPTH = 32"

section \<open>The sorted map\<close>

text \<open>\<open>Map::insert\<close>: replace the value of an existing key, else insert in key order.\<close>

fun map_insert :: "string \<Rightarrow> 'v \<Rightarrow> (string \<times> 'v) list \<Rightarrow> (string \<times> 'v) list" where
  "map_insert k v [] = [(k, v)]"
| "map_insert k v ((k', v') # es) =
     (if k < k' then (k, v) # (k', v') # es
      else if k = k' then (k, v) # es
      else (k', v') # map_insert k v es)"

definition json_object :: "(string \<times> json) list \<Rightarrow> json" where
  "json_object entries = JObject (fold (\<lambda>(k, v). map_insert k v) entries [])"

definition keys_sorted :: "(string \<times> 'v) list \<Rightarrow> bool" where
  "keys_sorted es \<longleftrightarrow> sorted_wrt (<) (map fst es)"

text \<open>\<open>Map::get\<close>\<close>

definition map_get :: "(string \<times> 'v) list \<Rightarrow> string \<Rightarrow> 'v option" where
  "map_get es k = map_of es k"

lemma fst_map_insert: "fst ` set (map_insert k v es) = insert k (fst ` set es)"
  by (induction es) (force split: if_splits)+

lemma map_insert_sorted: "keys_sorted es \<Longrightarrow> keys_sorted (map_insert k v es)"
proof (induction es)
  case Nil
  then show ?case by (simp add: keys_sorted_def)
next
  case (Cons e es)
  obtain k' v' where e: "e = (k', v')" by (cases e)
  have "\<forall>x \<in> fst ` set (map_insert k v es). k' < x" if "k' < k"
    using Cons.prems that by (simp add: fst_map_insert e keys_sorted_def)
  with Cons show ?case by (auto simp: e keys_sorted_def dest: order.strict_trans)
qed

lemma map_get_insert: "map_get (map_insert k v es) j = (if j = k then Some v else map_get es j)"
  by (induction es) (auto simp: map_get_def)

lemma json_object_sorted:
  "\<exists>es. json_object entries = JObject es \<and> keys_sorted es"
proof -
  have "keys_sorted acc \<Longrightarrow> keys_sorted (fold (\<lambda>(k, v). map_insert k v) entries acc)" for acc
    by (induction entries arbitrary: acc) (auto intro: map_insert_sorted)
  from this [of "[]"] show ?thesis by (simp add: json_object_def keys_sorted_def)
qed

section \<open>The canonical writer\<close>

fun write_canonical_json :: "externs \<Rightarrow> nat \<Rightarrow> json \<Rightarrow> envelope_error + string" where
  "write_canonical_json X depth v =
     (if MAX_JSON_DEPTH < depth then Inl (LimitExceeded ''json depth'')
      else case v of
        JNull \<Rightarrow> Inr ''null''
      | JBool b \<Rightarrow> Inr (show_bool b)
      | JNumber n \<Rightarrow> Inr n
      | JString s \<Rightarrow> Inr (json_str X s)
      | JArray vs \<Rightarrow>
          ebind (seq_results (map (write_canonical_json X (Suc depth)) vs))
            (\<lambda>ts. Inr (''['' @ join '','' ts @ '']''))
      | JObject es \<Rightarrow>
          ebind (seq_results (map snd (sort_key fst
                  (map (\<lambda>(k, v). (k, ebind (write_canonical_json X (Suc depth) v)
                     (\<lambda>t. Inr (json_str X k @ '':'' @ t)))) es))))
            (\<lambda>ts. Inr (''{'' @ join '','' ts @ ''}'')))"

declare write_canonical_json.simps [simp del]

definition canonical_json :: "externs \<Rightarrow> json \<Rightarrow> envelope_error + string" where
  "canonical_json X v = write_canonical_json X 0 v"

text \<open>\<open>hash_canonical\<close> and \<open>sha256_hex\<close>\<close>

definition sha256_hex :: "externs \<Rightarrow> string \<Rightarrow> string" where
  "sha256_hex X bytes = sha_hex X bytes"

definition hash_canonical :: "externs \<Rightarrow> json \<Rightarrow> envelope_error + string" where
  "hash_canonical X v = ebind (canonical_json X v) (\<lambda>s. Inr (sha256_hex X s))"

fun validate_json_limits :: "json \<Rightarrow> nat \<Rightarrow> envelope_error + unit" where
  "validate_json_limits v depth =
     (if MAX_JSON_DEPTH < depth then Inl (LimitExceeded ''json depth'')
      else case v of
        JArray vs \<Rightarrow> all_ok (map (\<lambda>x. validate_json_limits x (Suc depth)) vs)
      | JObject es \<Rightarrow> all_ok (map (\<lambda>(k, x). validate_json_limits x (Suc depth)) es)
      | _ \<Rightarrow> Inr ())"

declare validate_json_limits.simps [simp del]

text \<open>The text \<open>collect_json_strings\<close> appends to its output.\<close>

fun collect_json_strings :: "externs \<Rightarrow> json \<Rightarrow> string" where
  "collect_json_strings X (JString s) = CHR 10 # lowercase X s"
| "collect_json_strings X (JArray vs) = concat (map (collect_json_strings X) vs)"
| "collect_json_strings X (JObject es) =
     concat (map (\<lambda>(k, v). CHR 10 # lowercase X k @ collect_json_strings X v) es)"
| "collect_json_strings X _ = []"

section \<open>Depth\<close>

text \<open>Nesting depth, and: both recursive checks succeed exactly up to the limit.\<close>

fun json_depth :: "json \<Rightarrow> nat" where
  "json_depth (JArray vs) = foldr max (map (\<lambda>v. Suc (json_depth v)) vs) 0"
| "json_depth (JObject es) = foldr max (map (\<lambda>(k, v). Suc (json_depth v)) es) 0"
| "json_depth _ = 0"

lemma foldr_max_le: "d + foldr max xs 0 \<le> m \<longleftrightarrow> d \<le> m \<and> (\<forall>x \<in> set xs. d + x \<le> (m :: nat))"
  by (induction xs) auto

text \<open>The two recursions within the limit, one equation per constructor.\<close>

lemma limits_at:
  assumes "\<not> MAX_JSON_DEPTH < d"
  shows "validate_json_limits (JArray vs) d =
      all_ok (map (\<lambda>x. validate_json_limits x (Suc d)) vs)"
    and "validate_json_limits (JObject es) d =
      all_ok (map (\<lambda>(k, x). validate_json_limits x (Suc d)) es)"
    and "validate_json_limits JNull d = Inr ()" "validate_json_limits (JBool b) d = Inr ()"
    and "validate_json_limits (JNumber n) d = Inr ()" "validate_json_limits (JString t) d = Inr ()"
  using assms by (simp_all add: validate_json_limits.simps [of _ d])

lemma write_at:
  assumes "\<not> MAX_JSON_DEPTH < d"
  shows "write_canonical_json X d (JArray vs) =
      ebind (seq_results (map (write_canonical_json X (Suc d)) vs))
        (\<lambda>ts. Inr (''['' @ join '','' ts @ '']''))"
    and "write_canonical_json X d (JObject es) =
      ebind (seq_results (map snd (sort_key fst
              (map (\<lambda>(k, v). (k, ebind (write_canonical_json X (Suc d) v)
                 (\<lambda>t. Inr (json_str X k @ '':'' @ t)))) es))))
        (\<lambda>ts. Inr (''{'' @ join '','' ts @ ''}''))"
    and "write_canonical_json X d JNull = Inr ''null''"
    and "write_canonical_json X d (JBool b) = Inr (show_bool b)"
    and "write_canonical_json X d (JNumber n) = Inr n"
    and "write_canonical_json X d (JString t) = Inr (json_str X t)"
  using assms by (simp_all add: write_canonical_json.simps [of X d])

lemma limits_iff_depth:
  "is_ok (validate_json_limits v d) \<longleftrightarrow> d + json_depth v \<le> MAX_JSON_DEPTH"
proof (induction v d rule: validate_json_limits.induct)
  case (1 v d)
  show ?case
  proof (cases "MAX_JSON_DEPTH < d")
    case True
    then show ?thesis by (simp add: validate_json_limits.simps [of v d])
  next
    case False
    show ?thesis
    proof (cases v)
      case (JArray vs)
      have "is_ok (validate_json_limits x (Suc d)) = (Suc d + json_depth x \<le> MAX_JSON_DEPTH)"
        if "x \<in> set vs" for x
        using "1.IH"(1) [OF False JArray that] .
      with False JArray show ?thesis
        by (auto simp: limits_at foldr_max_le)
    next
      case (JObject es)
      have "is_ok (validate_json_limits x (Suc d)) = (Suc d + json_depth x \<le> MAX_JSON_DEPTH)"
        if "(k, x) \<in> set es" for k x
        using "1.IH"(2) [OF False JObject that] by simp
      with False JObject show ?thesis
        by (force simp: limits_at foldr_max_le split: prod.splits)
    qed (use False in \<open>simp_all add: limits_at\<close>)
  qed
qed

lemma write_ok_iff_depth:
  "is_ok (write_canonical_json X d v) \<longleftrightarrow> d + json_depth v \<le> MAX_JSON_DEPTH"
proof (induction X d v rule: write_canonical_json.induct)
  case (1 X d v)
  have bind: "is_ok (ebind r (\<lambda>t. Inr (f t))) = is_ok r" for r :: "envelope_error + 'x"
    and f :: "'x \<Rightarrow> 'y" by (cases r) auto
  have seq: "is_ok (seq_results rs) = (\<forall>r \<in> set rs. is_ok r)" for rs :: "(envelope_error + string) list"
    by (induction rs) (auto simp: is_ok_def ebind_Inr_iff)
  show ?case
  proof (cases "MAX_JSON_DEPTH < d")
    case True
    then show ?thesis by (simp add: write_canonical_json.simps [of X d v])
  next
    case False
    show ?thesis
    proof (cases v)
      case (JArray vs)
      have "is_ok (write_canonical_json X (Suc d) x) = (Suc d + json_depth x \<le> MAX_JSON_DEPTH)"
        if "x \<in> set vs" for x
        using "1.IH"(1) [OF False JArray that] .
      with False JArray show ?thesis
        by (auto simp: write_at bind seq foldr_max_le)
    next
      case (JObject es)
      have "is_ok (write_canonical_json X (Suc d) x) = (Suc d + json_depth x \<le> MAX_JSON_DEPTH)"
        if "(k, x) \<in> set es" for k x
        using "1.IH"(2) [OF False JObject that] by simp
      with False JObject show ?thesis
        by (force simp: write_at bind seq foldr_max_le split: prod.splits)
    qed (use False in \<open>simp_all add: write_at\<close>)
  qed
qed

section \<open>The canonical text determines the value\<close>

text \<open>
  A value the parser or the code can build: the entries of every object are sorted by key, and
  every number prints as a non-empty text over the characters of a JSON number.
\<close>

definition number_char :: "char \<Rightarrow> bool" where
  "number_char c \<longleftrightarrow> c \<in> set ''0123456789+-.eE''"

fun json_wf :: "json \<Rightarrow> bool" where
  "json_wf (JNumber n) = (n \<noteq> [] \<and> list_all number_char n)"
| "json_wf (JArray vs) = list_all json_wf vs"
| "json_wf (JObject es) = (keys_sorted es \<and> list_all (\<lambda>(k, v). json_wf v) es)"
| "json_wf _ = True"

text \<open>What may follow a number without extending it.\<close>

definition stops :: "string \<Rightarrow> bool" where
  "stops s \<longleftrightarrow> (case s of [] \<Rightarrow> True | c # _ \<Rightarrow> \<not> number_char c)"

lemma number_split:
  assumes "list_all number_char a" "list_all number_char b" "stops x" "stops y" "a @ x = b @ y"
  shows "a = b \<and> x = y"
  using assms
proof (induction a arbitrary: b)
  case Nil
  then show ?case by (cases b) (auto simp: stops_def)
next
  case (Cons c a)
  then show ?case by (cases b) (auto simp: stops_def)
qed

text \<open>
  Separated lists: if two encoded elements followed by a stopping text decode uniquely, so do
  two comma-separated lists of them before a closing bracket.
\<close>

lemma join_decodes:
  assumes "list_all2 E as ts" "list_all2 E bs us"
    and elem: "\<And>a b t u x y. a \<in> set as \<Longrightarrow> b \<in> set bs \<Longrightarrow> E a t \<Longrightarrow> E b u \<Longrightarrow> stops x \<Longrightarrow> stops y
      \<Longrightarrow> t @ x = u @ y \<Longrightarrow> a = b \<and> x = y"
    and first: "\<And>a t. E a t \<Longrightarrow> t \<noteq> [] \<and> hd t \<noteq> cl" and cl: "\<not> number_char cl" "cl \<noteq> CHR '',''"
    and eq: "join '','' ts @ cl # x = join '','' us @ cl # y"
  shows "as = bs \<and> x = y"
  using assms(1,2) elem eq
proof (induction as ts arbitrary: bs us rule: list_all2_induct)
  case Nil
  then show ?case
  proof (cases us)
    case (Cons u us')
    with Nil obtain b where "E b u" by (auto simp: list_all2_Cons2)
    with first have "u \<noteq> [] \<and> hd u \<noteq> cl" .
    then obtain c u' where "u = c # u'" "c \<noteq> cl" by (cases u) auto
    with Nil Cons show ?thesis by (cases us') auto
  qed simp
next
  case (Cons a as t ts)
  show ?case
  proof (cases us)
    case Nil
    from first [OF Cons.hyps(1)] obtain c t' where "t = c # t'" "c \<noteq> cl" by (cases t) auto
    with Nil Cons.prems show ?thesis by (cases ts) auto
  next
    case (Cons u us')
    then obtain b bs' where b: "bs = b # bs'" "E b u" "list_all2 E bs' us'"
      using Cons.prems(1) by (auto simp: list_all2_Cons2)
    define tail where "tail ws z = (if ws = [] then cl # z else '','' @ join '','' ws @ cl # z)"
      for ws z
    have t: "join '','' (w # ws) @ cl # z = w @ tail ws z" for w ws z
      by (cases ws) (simp_all add: tail_def)
    have st: "stops (tail ws z)" for ws z
      using cl by (auto simp: tail_def stops_def number_char_def)
    from Cons.prems(3) have "t @ tail ts x = u @ tail us' y"
      by (simp only: t \<open>us = u # us'\<close>)
    with Cons.prems(2) [OF _ _ Cons.hyps(1) b(2) st st] b
    have ab: "a = b" "tail ts x = tail us' y" by auto
    from this(2) cl have "join '','' ts @ cl # x = join '','' us' @ cl # y"
      by (cases ts; cases us') (auto simp: tail_def)
    moreover have "a \<in> set as \<Longrightarrow> b \<in> set bs' \<Longrightarrow> E a t \<Longrightarrow> E b u \<Longrightarrow> stops x \<Longrightarrow> stops y
      \<Longrightarrow> t @ x = u @ y \<Longrightarrow> a = b \<and> x = y" for a b t u x y
      using Cons.prems(2) [of a b t u x y] b(1) by simp
    ultimately have "as = bs' \<and> x = y"
      by (intro Cons.IH [OF b(3)]) blast+
    with ab b show ?thesis by simp
  qed
qed

lemma sort_key_keys_sorted:
  assumes "keys_sorted es" "\<And>e. fst (f e) = fst e"
  shows "sort_key fst (map f es) = map f es"
proof -
  have "sorted (map fst es)"
    using assms(1) by (simp add: keys_sorted_def strict_sorted_iff)
  then show ?thesis by (intro sort_key_id_if_sorted) (simp add: assms(2) comp_def)
qed

definition entry_text :: "externs \<Rightarrow> nat \<Rightarrow> string \<times> json \<Rightarrow> string \<Rightarrow> bool" where
  "entry_text X d e t \<longleftrightarrow>
     (\<exists>u. write_canonical_json X d (snd e) = Inr u \<and> t = json_str X (fst e) @ '':'' @ u)"

lemma write_array_elems:
  assumes "\<not> MAX_JSON_DEPTH < d" "write_canonical_json X d (JArray vs) = Inr t"
  obtains ts where "list_all2 (\<lambda>v t. write_canonical_json X (Suc d) v = Inr t) vs ts"
    "t = ''['' @ join '','' ts @ '']''"
  using assms by (auto simp: write_at ebind_Inr_iff seq_results_map)

lemma write_object_entries:
  assumes "\<not> MAX_JSON_DEPTH < d" "keys_sorted es" "write_canonical_json X d (JObject es) = Inr t"
  obtains ts where "list_all2 (entry_text X (Suc d)) es ts" "t = ''{'' @ join '','' ts @ ''}''"
proof -
  let ?f = "\<lambda>(k, v). (k, ebind (write_canonical_json X (Suc d) v)
                 (\<lambda>t. Inr (json_str X k @ '':'' @ t)))"
  have s: "sort_key fst (map ?f es) = map ?f es"
    by (rule sort_key_keys_sorted [OF assms(2)]) (simp add: split_def)
  have "ebind (seq_results (map (snd \<circ> ?f) es)) (\<lambda>ts. Inr (''{'' @ join '','' ts @ ''}'')) = Inr t"
    using assms(3) unfolding write_at(2) [OF assms(1)] s map_map .
  then obtain ts where ts: "seq_results (map (snd \<circ> ?f) es) = Inr ts"
    "t = ''{'' @ join '','' ts @ ''}''"
    unfolding ebind_Inr_iff by blast
  have "list_all2 (entry_text X (Suc d)) es ts"
    using ts(1) unfolding seq_results_map
    by (rule list_all2_mono) (auto simp: entry_text_def split_def ebind_Inr_iff)
  with ts(2) that show thesis by blast
qed

text \<open>The first character of a value's text names its constructor.\<close>

fun starts :: "json \<Rightarrow> char \<Rightarrow> bool" where
  "starts JNull c = (c = CHR ''n'')"
| "starts (JBool b) c = (c = (if b then CHR ''t'' else CHR ''f''))"
| "starts (JNumber _) c = number_char c"
| "starts (JString _) c = (c = CHR 34)"
| "starts (JArray _) c = (c = CHR ''['')"
| "starts (JObject _) c = (c = CHR ''{'')"

lemma write_starts:
  assumes "json_str_laws X" "json_wf v" "write_canonical_json X d v = Inr t"
  shows "t \<noteq> [] \<and> starts v (hd t)"
proof (cases "MAX_JSON_DEPTH < d")
  case True
  with assms(3) show ?thesis by (simp add: write_canonical_json.simps [of X d v])
next
  case False
  have q: "\<exists>r. json_str X a = CHR 34 # r" for a using assms(1) unfolding json_str_laws_def by blast
  show ?thesis
  proof (cases v)
    case (JNumber n)
    with False assms(2,3) show ?thesis by (cases n) (auto simp: write_at)
  next
    case (JString s)
    with False assms(3) q [of s] show ?thesis by (auto simp: write_at)
  qed (use False assms(3) in \<open>auto simp: write_at show_bool_def ebind_Inr_iff\<close>)
qed

lemma starts_same:
  assumes "starts v c" "starts v' c"
  shows "(v = JNull \<and> v' = JNull) \<or> (\<exists>b. v = JBool b \<and> v' = JBool b) \<or>
    (\<exists>n n'. v = JNumber n \<and> v' = JNumber n') \<or> (\<exists>s s'. v = JString s \<and> v' = JString s') \<or>
    (\<exists>a a'. v = JArray a \<and> v' = JArray a') \<or> (\<exists>e e'. v = JObject e \<and> v' = JObject e')"
  using assms by (cases v; cases v') (auto simp: number_char_def split: if_splits)

lemma json_str_split:
  assumes "json_str_laws X" "json_str X a @ x = json_str X b @ y"
  shows "a = b \<and> x = y"
  using assms unfolding json_str_laws_def by blast

lemma write_within: "write_canonical_json X d v = Inr t \<Longrightarrow> \<not> MAX_JSON_DEPTH < d"
  by (auto simp: write_canonical_json.simps [of X d v])

lemma write_same_start:
  assumes "json_str_laws X" "json_wf v" "json_wf v'"
    "write_canonical_json X d v = Inr t" "write_canonical_json X d v' = Inr t'" "t @ x = t' @ y"
  shows "\<exists>c. starts v c \<and> starts v' c"
proof -
  have "t \<noteq> [] \<and> starts v (hd t)" "t' \<noteq> [] \<and> starts v' (hd t')"
    using assms(1-5) write_starts by blast+
  moreover from this assms(6) have "hd t = hd t'"
    by (metis hd_append2)
  ultimately show ?thesis by metis
qed

text \<open>
  Two well-formed values whose canonical texts, each followed by a stopping text, agree are the
  same value.
\<close>

lemma write_decodes:
  assumes law: "json_str_laws X" and "json_wf v" "json_wf v'"
    "write_canonical_json X d v = Inr t" "write_canonical_json X d v' = Inr t'"
    "stops x" "stops y" "t @ x = t' @ y"
  shows "v = v' \<and> x = y"
  using assms(2-)
proof (induction v arbitrary: v' d t t' x y)
  case JNull
  from write_same_start [OF law JNull.prems(1-4,7)] have "v' = JNull"
    by (fastforce dest: starts_same)
  with JNull write_within show ?case by (fastforce simp: write_at)
next
  case (JBool b)
  from write_same_start [OF law JBool.prems(1-4,7)] have "v' = JBool b"
    by (fastforce dest: starts_same)
  with JBool write_within show ?case by (fastforce simp: write_at)
next
  case (JNumber n)
  from write_same_start [OF law JNumber.prems(1-4,7)] obtain n' where "v' = JNumber n'"
    by (fastforce dest: starts_same)
  with JNumber.prems number_split [of n n' x y] write_within [OF JNumber.prems(3)] show ?case
    by (simp add: write_at)
next
  case (JString s)
  from write_same_start [OF law JString.prems(1-4,7)] obtain s' where "v' = JString s'"
    by (fastforce dest: starts_same)
  with JString.prems json_str_split [OF law, of s x s' y] write_within [OF JString.prems(3)]
  show ?case by (simp add: write_at)
next
  case (JArray vs)
  from write_same_start [OF law JArray.prems(1-4,7)] obtain vs' where v': "v' = JArray vs'"
    by (fastforce dest: starts_same)
  have d: "\<not> MAX_JSON_DEPTH < d" by (rule write_within [OF JArray.prems(3)])
  define E where "E v u \<longleftrightarrow> json_wf v \<and> write_canonical_json X (Suc d) v = Inr u" for v u
  obtain ts where ts: "list_all2 (\<lambda>v t. write_canonical_json X (Suc d) v = Inr t) vs ts"
    "t = ''['' @ join '','' ts @ '']''" by (rule write_array_elems [OF d JArray.prems(3)])
  obtain us where us: "list_all2 (\<lambda>v t. write_canonical_json X (Suc d) v = Inr t) vs' us"
    "t' = ''['' @ join '','' us @ '']''"
    by (rule write_array_elems [OF d JArray.prems(4) [unfolded v']])
  have "vs = vs' \<and> x = y"
  proof (rule join_decodes [where E = E])
    show "list_all2 E vs ts" "list_all2 E vs' us"
      using ts us JArray.prems(1,2) v' by (auto simp: E_def list_all2_conv_all_nth list_all_length)
    show "t \<noteq> [] \<and> hd t \<noteq> CHR '']''" if "E v t" for v t
      using that write_starts [OF law, of v "Suc d" t]
      by (cases v) (auto simp: E_def number_char_def split: if_splits)
    show "a = b \<and> x = y" if "a \<in> set vs" "E a t" "E b u" "stops x" "stops y" "t @ x = u @ y"
      for a b t u x y
      using that JArray.IH [of a b "Suc d" t u x y] by (simp add: E_def)
    show "join '','' ts @ CHR '']'' # x = join '','' us @ CHR '']'' # y"
      using JArray.prems(7) ts us by simp
  qed (auto simp: number_char_def)
  with v' show ?case by simp
next
  case (JObject es)
  from write_same_start [OF law JObject.prems(1-4,7)] obtain es' where v': "v' = JObject es'"
    by (fastforce dest: starts_same)
  have d: "\<not> MAX_JSON_DEPTH < d" by (rule write_within [OF JObject.prems(3)])
  have wf: "keys_sorted es" "keys_sorted es'"
    using JObject.prems(1,2) v' by auto
  define E where "E e u \<longleftrightarrow> json_wf (snd e) \<and> entry_text X (Suc d) e u" for e u
  obtain ts where ts: "list_all2 (entry_text X (Suc d)) es ts"
    "t = ''{'' @ join '','' ts @ ''}''" by (rule write_object_entries [OF d wf(1) JObject.prems(3)])
  obtain us where us: "list_all2 (entry_text X (Suc d)) es' us"
    "t' = ''{'' @ join '','' us @ ''}''"
    by (rule write_object_entries [OF d wf(2) JObject.prems(4) [unfolded v']])
  have "es = es' \<and> x = y"
  proof (rule join_decodes [where E = E])
    show "list_all2 E es ts" "list_all2 E es' us"
      using ts us JObject.prems(1,2) v'
      by (auto simp: E_def list_all2_conv_all_nth list_all_length split_def)
    show "t \<noteq> [] \<and> hd t \<noteq> CHR ''}''" if "E e t" for e t
    proof -
      from that obtain u where "t = json_str X (fst e) @ '':'' @ u"
        by (auto simp: E_def entry_text_def)
      moreover obtain r where "json_str X (fst e) = CHR 34 # r"
        using law unfolding json_str_laws_def by blast
      ultimately show ?thesis by simp
    qed
    show "a = b \<and> x = y"
      if "a \<in> set es" "E a t" "E b u" "stops x" "stops y" "t @ x = u @ y" for a b t u x y
    proof -
      obtain k v k' w where ab: "a = (k, v)" "b = (k', w)" by (metis surj_pair)
      with that obtain tv tw where tv: "write_canonical_json X (Suc d) v = Inr tv"
        "t = json_str X k @ '':'' @ tv" "write_canonical_json X (Suc d) w = Inr tw"
        "u = json_str X k' @ '':'' @ tw" by (auto simp: E_def entry_text_def)
      with that(6) have "json_str X k @ '':'' @ tv @ x = json_str X k' @ '':'' @ tw @ y" by simp
      then have "k = k' \<and> '':'' @ tv @ x = '':'' @ tw @ y"
        by (rule json_str_split [OF law])
      moreover from this have "v = w \<and> x = y"
        using JObject.IH [OF that(1), of v w "Suc d" tv tw x y] that(2-5) ab tv
        by (simp add: E_def)
      ultimately show ?thesis using ab by simp
    qed
    show "join '','' ts @ CHR ''}'' # x = join '','' us @ CHR ''}'' # y"
      using JObject.prems(7) ts us by simp
  qed (auto simp: number_char_def)
  with v' show ?case by simp
qed

theorem canonical_json_inject:
  assumes "json_str_laws X" "json_wf v" "json_wf v'"
    "canonical_json X v = Inr t" "canonical_json X v' = Inr t"
  shows "v = v'"
  using write_decodes [of X v v' 0 t t "[]" "[]"] assms
  by (simp add: canonical_json_def stops_def)

end
