(* ===== verification/Envelope.thy ===== *)
theory Envelope
  imports Json
begin

text \<open>
  The two contracts of \<open>envelope.rs\<close>: the model-context envelope and the action envelope, their
  validation, canonical hash material, \<open>seal\<close> and \<open>verify\<close>. The theorems: sealing yields an
  envelope that verifies, verification enforces the contract limits, and the hash binds every
  field (two verified envelopes with one hash are equal, or their canonical texts collide under
  SHA-256).
\<close>

definition MODEL_CONTEXT_SCHEMA_VERSION :: string where
  "MODEL_CONTEXT_SCHEMA_VERSION = ''logos.model-context.v1''"
definition ACTION_ENVELOPE_SCHEMA_VERSION :: string where
  "ACTION_ENVELOPE_SCHEMA_VERSION = ''logos.action.v1''"
definition SHA256_HEX_LEN :: nat where "SHA256_HEX_LEN = 64"
definition MAX_IDENTIFIER_BYTES :: nat where "MAX_IDENTIFIER_BYTES = 256"
definition MAX_POLICY_VERSION_BYTES :: nat where "MAX_POLICY_VERSION_BYTES = 128"
definition MAX_CONTEXT_SEGMENTS :: nat where "MAX_CONTEXT_SEGMENTS = 4096"
definition MAX_CONTEXT_SEGMENT_BYTES :: nat where "MAX_CONTEXT_SEGMENT_BYTES = 262144"
definition MAX_CONTEXT_CONTENT_BYTES :: nat where "MAX_CONTEXT_CONTENT_BYTES = 4194304"
definition MAX_ATTACHMENTS :: nat where "MAX_ATTACHMENTS = 128"
definition MAX_MEDIA_TYPE_BYTES :: nat where "MAX_MEDIA_TYPE_BYTES = 256"
definition MAX_TOOL_NAME_BYTES :: nat where "MAX_TOOL_NAME_BYTES = 128"
definition MAX_RESOURCE_KIND_BYTES :: nat where "MAX_RESOURCE_KIND_BYTES = 128"
definition MAX_RESOURCE_LOCATOR_BYTES :: nat where "MAX_RESOURCE_LOCATOR_BYTES = 4096"
definition MAX_ACTION_ARGUMENT_BYTES :: nat where "MAX_ACTION_ARGUMENT_BYTES = 262144"

lemmas envelope_limits = SHA256_HEX_LEN_def MAX_IDENTIFIER_BYTES_def MAX_POLICY_VERSION_BYTES_def
  MAX_CONTEXT_SEGMENTS_def MAX_CONTEXT_SEGMENT_BYTES_def MAX_CONTEXT_CONTENT_BYTES_def
  MAX_ATTACHMENTS_def MAX_MEDIA_TYPE_BYTES_def MAX_TOOL_NAME_BYTES_def
  MAX_RESOURCE_KIND_BYTES_def MAX_RESOURCE_LOCATOR_BYTES_def MAX_ACTION_ARGUMENT_BYTES_def

section \<open>Field checks\<close>

definition has_control :: "string \<Rightarrow> bool" where
  "has_control s \<longleftrightarrow> (\<exists>c \<in> set (uchars s). is_control_cp (codepoint c))"

definition validate_identifier :: "string \<Rightarrow> string \<Rightarrow> nat \<Rightarrow> envelope_error + unit" where
  "validate_identifier field v max_bytes =
     (if blank v then Inl (MissingField field)
      else if max_bytes < length v then Inl (LimitExceeded field)
      else if has_control v then Inl (InvalidField field)
      else Inr ())"

text \<open>
  The character class of a tool name. Every allowed character is ASCII, so the check over
  \<open>chars()\<close> is a check over the bytes.
\<close>

definition tool_name_char :: "char \<Rightarrow> bool" where
  "tool_name_char c \<longleftrightarrow> is_ascii_alphanumeric c \<or> c \<in> set ''_-.:''"

definition validate_tool_name :: "string \<Rightarrow> envelope_error + unit" where
  "validate_tool_name v =
     ebind (validate_identifier ''tool_name'' v MAX_TOOL_NAME_BYTES)
       (\<lambda>_. if list_all tool_name_char v then Inr () else Inl (InvalidField ''tool_name''))"

definition validate_sha256 :: "string \<Rightarrow> string \<Rightarrow> envelope_error + unit" where
  "validate_sha256 field v =
     (if length v \<noteq> SHA256_HEX_LEN \<or>
         \<not> list_all (\<lambda>c. is_ascii_digit c \<or> char_le CHR ''a'' c \<and> char_le c CHR ''f'') v
      then Inl (InvalidDigest field) else Inr ())"

definition is_sha256_hex :: "string \<Rightarrow> bool" where
  "is_sha256_hex v = is_ok (validate_sha256 ''external'' v)"

lemma validate_sha256_ok: "is_ok (validate_sha256 f v) = is_sha256_hex v"
  by (simp add: is_sha256_hex_def validate_sha256_def)

lemma sha_hex_is_sha256: "sha_laws X \<Longrightarrow> is_sha256_hex (sha_hex X s)"
  by (simp add: is_sha256_hex_def validate_sha256_def sha_laws_def hex_char_def [abs_def]
      SHA256_HEX_LEN_def)

lemma validate_identifier_ok:
  "is_ok (validate_identifier f v n) \<longleftrightarrow> \<not> blank v \<and> length v \<le> n \<and> \<not> has_control v"
  by (auto simp: validate_identifier_def)

lemma validate_tool_name_ok:
  "is_ok (validate_tool_name v) \<longleftrightarrow>
     \<not> blank v \<and> length v \<le> MAX_TOOL_NAME_BYTES \<and> \<not> has_control v \<and> list_all tool_name_char v"
  by (auto simp: validate_tool_name_def is_ok_ebind_unit validate_identifier_ok)

section \<open>The model context\<close>

datatype context_role = RoleSystem | RoleUser | RoleAssistant | RoleToolResult

datatype context_source = ExternalUser | ConversationHistory | SrcToolResult | Attachment
  | HookInjection | RuntimeInjection | CompactionSummary

fun context_role_name :: "context_role \<Rightarrow> string" where
  "context_role_name RoleSystem = ''system''"
| "context_role_name RoleUser = ''user''"
| "context_role_name RoleAssistant = ''assistant''"
| "context_role_name RoleToolResult = ''tool_result''"

fun context_source_name :: "context_source \<Rightarrow> string" where
  "context_source_name ExternalUser = ''external_user''"
| "context_source_name ConversationHistory = ''conversation_history''"
| "context_source_name SrcToolResult = ''tool_result''"
| "context_source_name Attachment = ''attachment''"
| "context_source_name HookInjection = ''hook_injection''"
| "context_source_name RuntimeInjection = ''runtime_injection''"
| "context_source_name CompactionSummary = ''compaction_summary''"

fun requires_content_inspection :: "context_source \<Rightarrow> bool" where
  "requires_content_inspection ExternalUser = True"
| "requires_content_inspection ConversationHistory = True"
| "requires_content_inspection SrcToolResult = True"
| "requires_content_inspection Attachment = True"
| "requires_content_inspection HookInjection = True"
| "requires_content_inspection RuntimeInjection = True"
| "requires_content_inspection CompactionSummary = True"

record context_segment =
  seg_ordinal :: u32
  seg_role :: context_role
  seg_source :: context_source
  seg_content :: string
  seg_tool_name :: "string option"
  seg_attachment_id :: "string option"

record context_attachment =
  att_id :: string
  att_media_type :: string
  att_byte_length :: u64
  att_sha256 :: string

record model_context_envelope =
  mc_schema_version :: string
  mc_session_id :: string
  mc_run_id :: string
  mc_principal_id :: string
  mc_provider_id :: string
  mc_model_id :: string
  mc_policy_version :: string
  mc_policy_hash :: string
  mc_provider_context_hash :: string
  mc_system_prompt_hash :: string
  mc_tool_schema_hash :: string
  mc_workspace_manifest_hash :: string
  mc_segments :: "context_segment list"
  mc_attachments :: "context_attachment list"
  mc_context_hash :: string

definition segments_requiring_inspection ::
  "model_context_envelope \<Rightarrow> context_segment list" where
  "segments_requiring_inspection e =
     filter (\<lambda>s. requires_content_inspection (seg_source s)) (mc_segments e)"

definition invalid_segment :: "context_segment \<Rightarrow> string \<Rightarrow> envelope_error" where
  "invalid_segment s reason = InvalidContextSegment (seg_ordinal s) reason"

definition validate_segment_source ::
  "context_segment \<Rightarrow> string list \<Rightarrow> envelope_error + unit" where
  "validate_segment_source s known =
     (case seg_source s of
        ExternalUser \<Rightarrow>
          guard_ok (seg_role s = RoleUser)
            (invalid_segment s ''external_user source requires user role'')
      | SrcToolResult \<Rightarrow>
          if seg_role s \<noteq> RoleToolResult
          then Inl (invalid_segment s ''tool_result source requires tool_result role'')
          else (case seg_tool_name s of
              None \<Rightarrow> Inl (invalid_segment s ''tool_result source requires tool_name'')
            | Some n \<Rightarrow> guard_ok (is_ok (validate_tool_name n))
                 (invalid_segment s ''invalid tool_name''))
      | Attachment \<Rightarrow>
          (case seg_attachment_id s of
              None \<Rightarrow> Inl (invalid_segment s ''attachment source requires attachment_id'')
            | Some i \<Rightarrow> guard_ok (i \<in> set known) (UnknownAttachmentId i))
      | _ \<Rightarrow> Inr ())"

definition validate_segment :: "context_segment \<Rightarrow> string list \<Rightarrow> envelope_error + unit" where
  "validate_segment s known = all_ok [
     guard_ok (\<not> (blank (seg_content s) \<and> seg_source s \<noteq> Attachment))
       (invalid_segment s ''content is required''),
     validate_segment_source s known,
     guard_ok (\<not> (seg_source s \<noteq> SrcToolResult \<and> seg_tool_name s \<noteq> None))
       (invalid_segment s ''tool_name is only valid for tool_result source''),
     guard_ok (\<not> (seg_source s \<noteq> Attachment \<and> seg_attachment_id s \<noteq> None))
       (invalid_segment s ''attachment_id is only valid for attachment source'')]"

text \<open>The two loops of \<open>validate_material\<close>; the first returns the set of known it collected.\<close>

fun validate_attachments ::
  "string list \<Rightarrow> context_attachment list \<Rightarrow> envelope_error + string list" where
  "validate_attachments known [] = Inr known"
| "validate_attachments known (a # as) =
     ebind (all_ok [validate_identifier ''attachment_id'' (att_id a) MAX_IDENTIFIER_BYTES,
                    validate_identifier ''media_type'' (att_media_type a) MAX_MEDIA_TYPE_BYTES,
                    validate_sha256 ''attachment.sha256'' (att_sha256 a),
                    guard_ok (att_id a \<notin> set known) (DuplicateAttachmentId (att_id a))])
       (\<lambda>_. validate_attachments (att_id a # known) as)"

fun validate_segments ::
  "string list \<Rightarrow> nat \<Rightarrow> nat \<Rightarrow> context_segment list \<Rightarrow> envelope_error + unit" where
  "validate_segments known index content_total [] = Inr ()"
| "validate_segments known index content_total (s # ss) =
     ebind (all_ok [
        guard_ok (unat (seg_ordinal s) = index)
          (invalid_segment s ''ordinal must equal its zero-based vector position''),
        guard_ok (length (seg_content s) \<le> MAX_CONTEXT_SEGMENT_BYTES)
          (LimitExceeded ''segment.content''),
        guard_ok (content_total + length (seg_content s) < 2 ^ 64) (LimitExceeded ''context content''),
        guard_ok (content_total + length (seg_content s) \<le> MAX_CONTEXT_CONTENT_BYTES)
          (LimitExceeded ''context content''),
        validate_segment s known])
       (\<lambda>_. validate_segments known (Suc index) (content_total + length (seg_content s)) ss)"

definition mc_header_checks :: "model_context_envelope \<Rightarrow> (envelope_error + unit) list" where
  "mc_header_checks e = [
     guard_ok (mc_schema_version e = MODEL_CONTEXT_SCHEMA_VERSION) (InvalidField ''schema_version''),
     validate_identifier ''session_id'' (mc_session_id e) MAX_IDENTIFIER_BYTES,
     validate_identifier ''run_id'' (mc_run_id e) MAX_IDENTIFIER_BYTES,
     validate_identifier ''principal_id'' (mc_principal_id e) MAX_IDENTIFIER_BYTES,
     validate_identifier ''provider_id'' (mc_provider_id e) MAX_IDENTIFIER_BYTES,
     validate_identifier ''model_id'' (mc_model_id e) MAX_IDENTIFIER_BYTES,
     validate_identifier ''policy_version'' (mc_policy_version e) MAX_POLICY_VERSION_BYTES,
     validate_sha256 ''policy_hash'' (mc_policy_hash e),
     validate_sha256 ''provider_context_hash'' (mc_provider_context_hash e),
     validate_sha256 ''system_prompt_hash'' (mc_system_prompt_hash e),
     validate_sha256 ''tool_schema_hash'' (mc_tool_schema_hash e),
     validate_sha256 ''workspace_manifest_hash'' (mc_workspace_manifest_hash e),
     guard_ok (mc_segments e \<noteq> []) (MissingField ''segments''),
     guard_ok (length (mc_segments e) \<le> MAX_CONTEXT_SEGMENTS) (LimitExceeded ''segments''),
     guard_ok (length (mc_attachments e) \<le> MAX_ATTACHMENTS) (LimitExceeded ''attachments'')]"

definition mc_validate_material :: "model_context_envelope \<Rightarrow> envelope_error + unit" where
  "mc_validate_material e =
     ebind (all_ok (mc_header_checks e))
       (\<lambda>_. ebind (validate_attachments [] (mc_attachments e))
         (\<lambda>known. validate_segments known 0 0 (mc_segments e)))"

text \<open>\<open>object\<close>, \<open>insert_optional_string\<close> and \<open>model_context_hash_material\<close>\<close>

definition insert_optional_string ::
  "string \<Rightarrow> string option \<Rightarrow> (string \<times> json) list \<Rightarrow> (string \<times> json) list" where
  "insert_optional_string k v es =
     (case v of None \<Rightarrow> es | Some s \<Rightarrow> map_insert k (JString s) es)"

definition segment_material :: "context_segment \<Rightarrow> json" where
  "segment_material s = JObject
     (insert_optional_string ''attachment_id'' (seg_attachment_id s)
       (insert_optional_string ''tool_name'' (seg_tool_name s)
         (fold (\<lambda>(k, v). map_insert k v)
           [(''ordinal'', JNumber (show_nat (unat (seg_ordinal s)))),
            (''role'', JString (context_role_name (seg_role s))),
            (''source'', JString (context_source_name (seg_source s))),
            (''content'', JString (seg_content s))] [])))"

definition attachment_material :: "context_attachment \<Rightarrow> json" where
  "attachment_material a = json_object
     [(''attachment_id'', JString (att_id a)),
      (''media_type'', JString (att_media_type a)),
      (''byte_length'', JNumber (show_nat (unat (att_byte_length a)))),
      (''sha256'', JString (att_sha256 a))]"

definition model_context_hash_material :: "model_context_envelope \<Rightarrow> json" where
  "model_context_hash_material e = json_object
     [(''schema_version'', JString (mc_schema_version e)),
      (''session_id'', JString (mc_session_id e)),
      (''run_id'', JString (mc_run_id e)),
      (''principal_id'', JString (mc_principal_id e)),
      (''provider_id'', JString (mc_provider_id e)),
      (''model_id'', JString (mc_model_id e)),
      (''policy_version'', JString (mc_policy_version e)),
      (''policy_hash'', JString (mc_policy_hash e)),
      (''provider_context_hash'', JString (mc_provider_context_hash e)),
      (''system_prompt_hash'', JString (mc_system_prompt_hash e)),
      (''tool_schema_hash'', JString (mc_tool_schema_hash e)),
      (''workspace_manifest_hash'', JString (mc_workspace_manifest_hash e)),
      (''segments'', JArray (map segment_material (mc_segments e))),
      (''attachments'', JArray (map attachment_material (mc_attachments e)))]"

definition mc_compute_hash :: "externs \<Rightarrow> model_context_envelope \<Rightarrow> envelope_error + string" where
  "mc_compute_hash X e = hash_canonical X (model_context_hash_material e)"

definition mc_seal ::
  "externs \<Rightarrow> model_context_envelope \<Rightarrow> envelope_error + model_context_envelope" where
  "mc_seal X e =
     ebind (mc_validate_material e)
       (\<lambda>_. ebind (mc_compute_hash X e) (\<lambda>h. Inr (e\<lparr>mc_context_hash := h\<rparr>)))"

definition mc_verify :: "externs \<Rightarrow> model_context_envelope \<Rightarrow> envelope_error + unit" where
  "mc_verify X e =
     ebind (mc_validate_material e)
       (\<lambda>_. ebind (validate_sha256 ''context_hash'' (mc_context_hash e))
         (\<lambda>_. ebind (mc_compute_hash X e)
           (\<lambda>h. guard_ok (h = mc_context_hash e) (HashMismatch ''context_hash''))))"

section \<open>The action\<close>

record action_resource =
  ar_kind :: string
  ar_locator :: string

record action_envelope =
  ae_schema_version :: string
  ae_tool_name :: string
  ae_arguments :: json
  ae_resource :: action_resource
  ae_principal_id :: string
  ae_session_id :: string
  ae_run_id :: string
  ae_tool_call_id :: string
  ae_policy_version :: string
  ae_policy_hash :: string
  ae_context_hash :: string
  ae_action_hash :: string

definition ae_validate_material :: "externs \<Rightarrow> action_envelope \<Rightarrow> envelope_error + unit" where
  "ae_validate_material X e =
     ebind (all_ok [
       guard_ok (ae_schema_version e = ACTION_ENVELOPE_SCHEMA_VERSION)
         (InvalidField ''schema_version''),
       validate_tool_name (ae_tool_name e),
       validate_identifier ''resource.kind'' (ar_kind (ae_resource e)) MAX_RESOURCE_KIND_BYTES,
       validate_identifier ''resource.locator'' (ar_locator (ae_resource e))
         MAX_RESOURCE_LOCATOR_BYTES,
       validate_identifier ''principal_id'' (ae_principal_id e) MAX_IDENTIFIER_BYTES,
       validate_identifier ''session_id'' (ae_session_id e) MAX_IDENTIFIER_BYTES,
       validate_identifier ''run_id'' (ae_run_id e) MAX_IDENTIFIER_BYTES,
       validate_identifier ''tool_call_id'' (ae_tool_call_id e) MAX_IDENTIFIER_BYTES,
       validate_identifier ''policy_version'' (ae_policy_version e) MAX_POLICY_VERSION_BYTES,
       validate_sha256 ''policy_hash'' (ae_policy_hash e),
       validate_sha256 ''context_hash'' (ae_context_hash e),
       validate_json_limits (ae_arguments e) 0])
     (\<lambda>_. ebind (canonical_json X (ae_arguments e))
       (\<lambda>t. guard_ok (length t \<le> MAX_ACTION_ARGUMENT_BYTES) (LimitExceeded ''arguments'')))"

definition action_hash_material :: "action_envelope \<Rightarrow> json" where
  "action_hash_material e = json_object
     [(''schema_version'', JString (ae_schema_version e)),
      (''tool_name'', JString (ae_tool_name e)),
      (''arguments'', ae_arguments e),
      (''resource'', json_object
         [(''kind'', JString (ar_kind (ae_resource e))),
          (''locator'', JString (ar_locator (ae_resource e)))]),
      (''principal_id'', JString (ae_principal_id e)),
      (''session_id'', JString (ae_session_id e)),
      (''run_id'', JString (ae_run_id e)),
      (''tool_call_id'', JString (ae_tool_call_id e)),
      (''policy_version'', JString (ae_policy_version e)),
      (''policy_hash'', JString (ae_policy_hash e)),
      (''context_hash'', JString (ae_context_hash e))]"

definition ae_compute_hash :: "externs \<Rightarrow> action_envelope \<Rightarrow> envelope_error + string" where
  "ae_compute_hash X e = hash_canonical X (action_hash_material e)"

definition ae_seal :: "externs \<Rightarrow> action_envelope \<Rightarrow> envelope_error + action_envelope" where
  "ae_seal X e =
     ebind (ae_validate_material X e)
       (\<lambda>_. ebind (ae_compute_hash X e) (\<lambda>h. Inr (e\<lparr>ae_action_hash := h\<rparr>)))"

definition ae_verify :: "externs \<Rightarrow> action_envelope \<Rightarrow> envelope_error + unit" where
  "ae_verify X e =
     ebind (ae_validate_material X e)
       (\<lambda>_. ebind (validate_sha256 ''action_hash'' (ae_action_hash e))
         (\<lambda>_. ebind (ae_compute_hash X e)
           (\<lambda>h. guard_ok (h = ae_action_hash e) (HashMismatch ''action_hash''))))"

section \<open>What validation enforces\<close>

lemma validate_attachments_ok:
  "validate_attachments known as = Inr known' \<longleftrightarrow>
     (\<forall>a \<in> set as. is_ok (validate_identifier ''attachment_id'' (att_id a) MAX_IDENTIFIER_BYTES) \<and>
        is_ok (validate_identifier ''media_type'' (att_media_type a) MAX_MEDIA_TYPE_BYTES) \<and>
        is_sha256_hex (att_sha256 a)) \<and>
     distinct (map att_id as) \<and> set known \<inter> att_id ` set as = {} \<and>
     known' = rev (map att_id as) @ known"
  by (induction as arbitrary: known)
    (auto simp: ebind_Inr_iff all_ok_iff validate_sha256_ok)

lemma validate_segments_ok:
  "is_ok (validate_segments known i t ss) \<longleftrightarrow>
     (\<forall>k < length ss. unat (seg_ordinal (ss ! k)) = i + k) \<and>
     (\<forall>s \<in> set ss. length (seg_content s) \<le> MAX_CONTEXT_SEGMENT_BYTES \<and>
        is_ok (validate_segment s known)) \<and>
     (ss = [] \<or> t + sum_list (map (length \<circ> seg_content) ss) \<le> MAX_CONTEXT_CONTENT_BYTES)"
proof (induction ss arbitrary: i t)
  case Nil
  show ?case by simp
next
  case (Cons s ss)
  have k: "(\<forall>k < length (s # ss). unat (seg_ordinal ((s # ss) ! k)) = i + k) \<longleftrightarrow>
    unat (seg_ordinal s) = i \<and> (\<forall>k < length ss. unat (seg_ordinal (ss ! k)) = Suc i + k)"
    by (simp add: All_less_Suc2)
  have b: "t + n < 2 ^ 64" if "t + n \<le> MAX_CONTEXT_CONTENT_BYTES" for n
    using that by (simp add: MAX_CONTEXT_CONTENT_BYTES_def)
  show ?case
    unfolding k by (auto simp: is_ok_ebind_unit Cons.IH b intro: order_trans [rotated] dest: b)
qed

definition identifier_ok :: "nat \<Rightarrow> string \<Rightarrow> bool" where
  "identifier_ok n v \<longleftrightarrow> \<not> blank v \<and> length v \<le> n \<and> \<not> has_control v"

definition mc_header_ok :: "model_context_envelope \<Rightarrow> bool" where
  "mc_header_ok e \<longleftrightarrow>
     mc_schema_version e = MODEL_CONTEXT_SCHEMA_VERSION \<and>
     list_all (identifier_ok MAX_IDENTIFIER_BYTES)
       [mc_session_id e, mc_run_id e, mc_principal_id e, mc_provider_id e, mc_model_id e] \<and>
     identifier_ok MAX_POLICY_VERSION_BYTES (mc_policy_version e) \<and>
     list_all is_sha256_hex [mc_policy_hash e, mc_provider_context_hash e, mc_system_prompt_hash e,
       mc_tool_schema_hash e, mc_workspace_manifest_hash e] \<and>
     mc_segments e \<noteq> [] \<and> length (mc_segments e) \<le> MAX_CONTEXT_SEGMENTS \<and>
     length (mc_attachments e) \<le> MAX_ATTACHMENTS"

definition attachments_ok :: "context_attachment list \<Rightarrow> bool" where
  "attachments_ok as \<longleftrightarrow> distinct (map att_id as) \<and>
     (\<forall>a \<in> set as. identifier_ok MAX_IDENTIFIER_BYTES (att_id a) \<and>
        identifier_ok MAX_MEDIA_TYPE_BYTES (att_media_type a) \<and> is_sha256_hex (att_sha256 a))"

text \<open>The rules of each source: which role, tool name and attachment it may carry.\<close>

definition segment_ok :: "string set \<Rightarrow> context_segment \<Rightarrow> bool" where
  "segment_ok known s \<longleftrightarrow>
     (seg_source s \<noteq> Attachment \<longrightarrow> \<not> blank (seg_content s) \<and> seg_attachment_id s = None) \<and>
     (seg_source s = Attachment \<longrightarrow> (\<exists>i \<in> known. seg_attachment_id s = Some i)) \<and>
     (seg_source s \<noteq> SrcToolResult \<longrightarrow> seg_tool_name s = None) \<and>
     (seg_source s = SrcToolResult \<longrightarrow> seg_role s = RoleToolResult \<and>
        (\<exists>n. seg_tool_name s = Some n \<and> is_ok (validate_tool_name n))) \<and>
     (seg_source s = ExternalUser \<longrightarrow> seg_role s = RoleUser)"

definition segments_ok :: "string set \<Rightarrow> context_segment list \<Rightarrow> bool" where
  "segments_ok known ss \<longleftrightarrow>
     (\<forall>k < length ss. unat (seg_ordinal (ss ! k)) = k) \<and>
     (\<forall>s \<in> set ss. length (seg_content s) \<le> MAX_CONTEXT_SEGMENT_BYTES \<and> segment_ok known s) \<and>
     sum_list (map (length \<circ> seg_content) ss) \<le> MAX_CONTEXT_CONTENT_BYTES"

definition mc_well_formed :: "model_context_envelope \<Rightarrow> bool" where
  "mc_well_formed e \<longleftrightarrow> mc_header_ok e \<and> attachments_ok (mc_attachments e) \<and>
     segments_ok (att_id ` set (mc_attachments e)) (mc_segments e)"

lemma mc_header_checks_ok: "is_ok (all_ok (mc_header_checks e)) \<longleftrightarrow> mc_header_ok e"
  by (simp add: mc_header_checks_def mc_header_ok_def validate_identifier_ok identifier_ok_def
      validate_sha256_ok)

lemma validate_segment_ok: "is_ok (validate_segment s known) \<longleftrightarrow> segment_ok (set known) s"
  by (cases "seg_source s")
    (auto simp: segment_ok_def validate_segment_def validate_segment_source_def
      split: option.splits)

lemma validate_attachments_iff:
  "validate_attachments [] as = Inr known \<longleftrightarrow> attachments_ok as \<and> known = rev (map att_id as)"
  by (auto simp: validate_attachments_ok attachments_ok_def validate_identifier_ok
      identifier_ok_def)

lemma validate_segments_iff:
  assumes "ss \<noteq> []"
  shows "is_ok (validate_segments known 0 0 ss) \<longleftrightarrow> segments_ok (set known) ss"
  using assms by (simp add: validate_segments_ok segments_ok_def validate_segment_ok)

lemma mc_validate_material_iff: "mc_validate_material e = Inr () \<longleftrightarrow> mc_well_formed e"
proof -
  have "mc_validate_material e = Inr () \<longleftrightarrow> mc_header_ok e \<and>
    (\<exists>known. validate_attachments [] (mc_attachments e) = Inr known \<and>
       is_ok (validate_segments known 0 0 (mc_segments e)))"
    by (auto simp: mc_validate_material_def ebind_Inr_iff is_ok_unit simp flip: mc_header_checks_ok)
  also have "\<dots> \<longleftrightarrow> mc_header_ok e \<and> attachments_ok (mc_attachments e) \<and>
      is_ok (validate_segments (rev (map att_id (mc_attachments e))) 0 0 (mc_segments e))"
    by (simp add: validate_attachments_iff)
  also have "\<dots> \<longleftrightarrow> mc_well_formed e"
    by (auto simp: mc_well_formed_def mc_header_ok_def validate_segments_iff)
  finally show ?thesis .
qed

section \<open>The hash material\<close>

lemma map_get_fold:
  "map_get (fold (\<lambda>(k, v). map_insert k v) es acc) j =
     (case map_of (rev es) j of Some v \<Rightarrow> Some v | None \<Rightarrow> map_get acc j)"
  by (induction es arbitrary: acc)
    (auto simp: map_get_insert map_add_def split: option.splits)

fun json_get :: "json \<Rightarrow> string \<Rightarrow> json option" where
  "json_get (JObject es) k = map_get es k"
| "json_get _ k = None"

lemma json_get_object: "json_get (json_object es) k = map_of (rev es) k"
  using map_get_fold [of es "[]" k]
  by (simp add: json_object_def map_get_def split: option.splits)

lemma json_wf_map_insert:
  assumes "json_wf (JObject es)" "json_wf v"
  shows "json_wf (JObject (map_insert k v es))"
proof -
  have "list_all (\<lambda>(k, v). json_wf v) (map_insert k v es)"
    using assms by (induction es) (auto simp: keys_sorted_def)
  with assms(1) show ?thesis by (simp add: map_insert_sorted)
qed

lemma json_wf_fold:
  "json_wf (JObject acc) \<Longrightarrow> list_all (\<lambda>(k, v). json_wf v) es \<Longrightarrow>
     json_wf (JObject (fold (\<lambda>(k, v). map_insert k v) es acc))"
  by (induction es arbitrary: acc) (auto intro!: json_wf_map_insert simp del: json_wf.simps)

lemma json_wf_object: "list_all (\<lambda>(k, v). json_wf v) es \<Longrightarrow> json_wf (json_object es)"
  unfolding json_object_def by (rule json_wf_fold) (simp_all add: keys_sorted_def)

lemma number_char_digit:
  assumes "48 \<le> byte c" "byte c \<le> 57"
  shows "number_char c"
proof -
  have "list_all (\<lambda>n. number_char (char_of n)) [48..<58]" by code_simp
  moreover have "byte c \<in> set [48..<58]"
    using assms by (simp only: set_upt atLeastLessThan_iff) simp
  ultimately have "number_char (char_of (byte c))" unfolding list_all_iff by blast
  then show ?thesis by (simp add: byte_def)
qed

lemma digits_number: "list_all number_char (show_nat n)"
  using show_nat_digits number_char_digit by (auto simp: list_all_iff)

lemma json_wf_nat [simp]: "json_wf (JNumber (show_nat n))"
  by (simp add: digits_number)

lemma attachment_material_wf [simp]: "json_wf (attachment_material a)"
  unfolding attachment_material_def by (rule json_wf_object) (simp add: digits_number)

lemma segment_material_wf [simp]: "json_wf (segment_material s)"
proof -
  have o: "json_wf (JObject (insert_optional_string k v es))" if "json_wf (JObject es)" for k v es
    using that unfolding insert_optional_string_def
    by (cases v) (auto intro: json_wf_map_insert simp del: json_wf.simps simp: json_wf.simps(6))
  show ?thesis unfolding segment_material_def
    by (intro o json_wf_fold) (simp_all add: keys_sorted_def digits_number)
qed

lemma mc_material_wf: "json_wf (model_context_hash_material e)"
  unfolding model_context_hash_material_def
  by (rule json_wf_object) (simp add: list_all_iff)

lemma action_material_wf: "json_wf (ae_arguments e) \<Longrightarrow> json_wf (action_hash_material e)"
  unfolding action_hash_material_def
  by (rule json_wf_object) (simp add: json_wf_object)

lemma map_get_optional:
  "map_get (insert_optional_string k v es) j =
     (if j = k \<and> v \<noteq> None then map_option JString v else map_get es j)"
  by (cases v) (simp_all add: insert_optional_string_def map_get_insert)

lemma context_role_name_inject: "context_role_name a = context_role_name b \<Longrightarrow> a = b"
  by (cases a; cases b) simp_all

lemma context_source_name_inject: "context_source_name a = context_source_name b \<Longrightarrow> a = b"
  by (cases a; cases b) simp_all

lemma segment_material_get:
  "json_get (segment_material s) ''ordinal'' = Some (JNumber (show_nat (unat (seg_ordinal s))))"
  "json_get (segment_material s) ''role'' = Some (JString (context_role_name (seg_role s)))"
  "json_get (segment_material s) ''source'' = Some (JString (context_source_name (seg_source s)))"
  "json_get (segment_material s) ''content'' = Some (JString (seg_content s))"
  "json_get (segment_material s) ''tool_name'' = map_option JString (seg_tool_name s)"
  "json_get (segment_material s) ''attachment_id'' = map_option JString (seg_attachment_id s)"
  unfolding segment_material_def json_get.simps map_get_optional map_get_fold
  by (simp_all add: map_get_def)

lemma option_map_JString_inject: "map_option JString a = map_option JString b \<Longrightarrow> a = b"
  by (cases a; cases b) simp_all

lemma show_unat_inject [simp]: "show_nat (unat a) = show_nat (unat b) \<longleftrightarrow> a = b"
  by (auto dest: show_nat_inject simp: word_unat_eq_iff)

lemma segment_material_inject:
  assumes "segment_material s = segment_material t"
  shows "s = t"
proof -
  have g: "json_get (segment_material s) k = json_get (segment_material t) k" for k
    using assms by simp
  have "seg_ordinal s = seg_ordinal t"
    using g [of "''ordinal''"] by (auto simp: segment_material_get dest: show_nat_inject)
  moreover have "seg_role s = seg_role t"
    using g [of "''role''"] by (auto simp: segment_material_get dest: context_role_name_inject)
  moreover have "seg_source s = seg_source t"
    using g [of "''source''"] by (auto simp: segment_material_get dest: context_source_name_inject)
  moreover have "seg_content s = seg_content t"
    using g [of "''content''"] by (simp add: segment_material_get)
  moreover have "seg_tool_name s = seg_tool_name t"
    using g [of "''tool_name''"] by (auto simp: segment_material_get dest: option_map_JString_inject)
  moreover have "seg_attachment_id s = seg_attachment_id t"
    using g [of "''attachment_id''"]
    by (auto simp: segment_material_get dest: option_map_JString_inject)
  ultimately show ?thesis by simp
qed

lemma attachment_material_inject:
  assumes "attachment_material a = attachment_material b"
  shows "a = b"
proof -
  have g: "json_get (attachment_material a) k = json_get (attachment_material b) k" for k
    using assms by simp
  show ?thesis
    using g [of "''attachment_id''"] g [of "''media_type''"] g [of "''byte_length''"]
      g [of "''sha256''"]
    by (auto simp: attachment_material_def json_get_object intro!: context_attachment.equality
        dest: show_nat_inject)
qed

lemma mc_material_inject:
  assumes "model_context_hash_material d = model_context_hash_material e"
    "mc_context_hash d = mc_context_hash e"
  shows "d = e"
proof -
  have g: "json_get (model_context_hash_material d) k = json_get (model_context_hash_material e) k"
    for k using assms by simp
  have "map segment_material (mc_segments d) = map segment_material (mc_segments e)"
    using g [of "''segments''"] by (simp add: model_context_hash_material_def json_get_object)
  then have "mc_segments d = mc_segments e"
    by (rule map_injective) (simp add: inj_on_def segment_material_inject)
  moreover have "map attachment_material (mc_attachments d) = map attachment_material (mc_attachments e)"
    using g [of "''attachments''"] by (simp add: model_context_hash_material_def json_get_object)
  then have "mc_attachments d = mc_attachments e"
    by (rule map_injective) (simp add: inj_on_def attachment_material_inject)
  moreover note g [of "''schema_version''"] g [of "''session_id''"] g [of "''run_id''"]
    g [of "''principal_id''"] g [of "''provider_id''"] g [of "''model_id''"]
    g [of "''policy_version''"] g [of "''policy_hash''"] g [of "''provider_context_hash''"]
    g [of "''system_prompt_hash''"] g [of "''tool_schema_hash''"]
    g [of "''workspace_manifest_hash''"]
  ultimately show ?thesis
    using assms(2)
    by (simp add: model_context_hash_material_def json_get_object)
qed

lemma action_material_inject:
  assumes "action_hash_material d = action_hash_material e" "ae_action_hash d = ae_action_hash e"
  shows "d = e"
proof -
  have g: "json_get (action_hash_material d) k = json_get (action_hash_material e) k"
    for k using assms by simp
  have r: "json_object [(''kind'', JString (ar_kind (ae_resource d))),
       (''locator'', JString (ar_locator (ae_resource d)))] =
     json_object [(''kind'', JString (ar_kind (ae_resource e))),
       (''locator'', JString (ar_locator (ae_resource e)))]" (is "?l = ?r")
    using g [of "''resource''"] by (simp add: action_hash_material_def json_get_object)
  have "json_get ?l k = json_get ?r k" for k by (simp add: r)
  from this [of "''kind''"] this [of "''locator''"] have "ae_resource d = ae_resource e"
    by (simp add: json_get_object)
  moreover note g [of "''schema_version''"] g [of "''tool_name''"] g [of "''arguments''"]
    g [of "''principal_id''"] g [of "''session_id''"] g [of "''run_id''"]
    g [of "''tool_call_id''"] g [of "''policy_version''"] g [of "''policy_hash''"]
    g [of "''context_hash''"]
  ultimately show ?thesis
    using assms(2) by (simp add: action_hash_material_def json_get_object)
qed

section \<open>Sealing and verification\<close>

lemma set_map_insert: "set (map_insert k v es) \<subseteq> insert (k, v) (set es)"
  by (induction es) (auto split: if_splits)

lemma set_fold_insert: "set (fold (\<lambda>(k, v). map_insert k v) es acc) \<subseteq> set es \<union> set acc"
proof (induction es arbitrary: acc)
  case (Cons e es)
  obtain k v where "e = (k, v)" by (cases e)
  with Cons [of "map_insert k v acc"] set_map_insert [of k v acc] show ?case by auto
qed simp

lemma json_depth_JObject: "json_depth (JObject es) \<le> Suc n \<longleftrightarrow> (\<forall>(k, v) \<in> set es. json_depth v \<le> n)"
  using foldr_max_le [of 0 "map (\<lambda>(k, v). Suc (json_depth v)) es" "Suc n"] by auto

lemma json_depth_JArray: "json_depth (JArray vs) \<le> Suc n \<longleftrightarrow> (\<forall>v \<in> set vs. json_depth v \<le> n)"
  using foldr_max_le [of 0 "map (\<lambda>v. Suc (json_depth v)) vs" "Suc n"] by auto

lemma json_depth_object:
  "\<forall>(k, v) \<in> set es. json_depth v \<le> n \<Longrightarrow> json_depth (json_object es) \<le> Suc n"
  using set_fold_insert [of es "[]"] unfolding json_object_def json_depth_JObject by auto

lemma json_depth_get: "json_get j k = Some v \<Longrightarrow> json_depth v < json_depth j"
proof (cases j)
  case (JObject es)
  assume "json_get j k = Some v"
  with JObject have "(k, v) \<in> set es" by (simp add: map_get_def map_of_SomeD)
  with JObject show ?thesis
    using json_depth_JObject [of es "json_depth j - 1"]
      foldr_max_le [of 0 "map (\<lambda>(k, v). Suc (json_depth v)) es" "json_depth j"]
    by fastforce
qed simp_all

lemma json_depth_fold_insert:
  assumes "\<forall>(k, v) \<in> set es. json_depth v \<le> n" "\<forall>(k, v) \<in> set acc. json_depth v \<le> n"
  shows "\<forall>(k, v) \<in> set (fold (\<lambda>(k, v). map_insert k v) es acc). json_depth v \<le> n"
  using assms set_fold_insert [of es acc] by blast

lemma segment_material_depth: "json_depth (segment_material s) \<le> 1"
proof -
  have o: "\<forall>(k, v) \<in> set (insert_optional_string k v es). json_depth v \<le> 0"
    if "\<forall>(k, v) \<in> set es. json_depth v \<le> 0" for k v es
    using that set_map_insert [of k _ es]
    by (cases v) (fastforce simp: insert_optional_string_def)+
  show ?thesis
    unfolding segment_material_def One_nat_def json_depth_JObject
    by (intro o json_depth_fold_insert) simp_all
qed

lemma mc_material_depth: "json_depth (model_context_hash_material e) \<le> 3"
proof -
  have "json_depth (attachment_material a) \<le> Suc 0" for a
    unfolding attachment_material_def by (rule json_depth_object) simp
  then have "json_depth (JArray (map attachment_material as)) \<le> Suc (Suc 0)" for as
    unfolding json_depth_JArray by simp
  moreover have "json_depth (JArray (map segment_material ss)) \<le> Suc (Suc 0)" for ss
    using segment_material_depth unfolding json_depth_JArray by simp
  ultimately show ?thesis
    unfolding model_context_hash_material_def numeral_3_eq_3
    by (intro json_depth_object) (simp del: json_depth.simps add: json_depth.simps(3-))
qed

lemma action_material_depth:
  "json_depth (action_hash_material e) \<le> 32 \<longleftrightarrow> json_depth (ae_arguments e) \<le> 31"
proof
  assume "json_depth (action_hash_material e) \<le> 32"
  moreover have "json_get (action_hash_material e) ''arguments'' = Some (ae_arguments e)"
    by (simp add: action_hash_material_def json_get_object)
  ultimately show "json_depth (ae_arguments e) \<le> 31"
    using json_depth_get by fastforce
next
  assume "json_depth (ae_arguments e) \<le> 31"
  moreover have "json_depth (json_object [(''kind'', JString a), (''locator'', JString b)]) \<le> 31"
    for a b
    using json_depth_object [of "[(''kind'', JString a), (''locator'', JString b)]" 0] by simp
  ultimately have "json_depth (action_hash_material e) \<le> Suc 31"
    unfolding action_hash_material_def
    by (intro json_depth_object) (auto intro: order_trans)
  then show "json_depth (action_hash_material e) \<le> 32" by simp
qed

lemma hash_canonical_ok: "is_ok (hash_canonical X v) \<longleftrightarrow> json_depth v \<le> MAX_JSON_DEPTH"
  using write_ok_iff_depth [of X 0 v]
  by (cases "canonical_json X v") (auto simp: hash_canonical_def canonical_json_def)

lemma hash_canonical_sha: "sha_laws X \<Longrightarrow> hash_canonical X v = Inr h \<Longrightarrow> is_sha256_hex h"
  by (auto simp: hash_canonical_def ebind_Inr_iff sha256_hex_def sha_hex_is_sha256)

text \<open>Two canonical texts that differ and have one digest.\<close>

definition text_collision :: "externs \<Rightarrow> json \<Rightarrow> json \<Rightarrow> bool" where
  "text_collision X v v' \<longleftrightarrow> (\<exists>s s'. canonical_json X v = Inr s \<and> canonical_json X v' = Inr s' \<and>
     s \<noteq> s' \<and> sha256_hex X s = sha256_hex X s')"

lemma hash_canonical_binds:
  assumes "json_str_laws X" "json_wf v" "json_wf v'"
    "hash_canonical X v = Inr h" "hash_canonical X v' = Inr h"
  shows "v = v' \<or> text_collision X v v'"
proof -
  from assms(4,5) obtain s s' where s: "canonical_json X v = Inr s" "canonical_json X v' = Inr s'"
    "sha256_hex X s = sha256_hex X s'" by (auto simp: hash_canonical_def ebind_Inr_iff)
  show ?thesis
  proof (cases "s = s'")
    case True
    with s canonical_json_inject assms(1-3) show ?thesis by blast
  next
    case False
    with s show ?thesis unfolding text_collision_def by blast
  qed
qed

lemma mc_seal_material [simp]:
  "mc_validate_material (e\<lparr>mc_context_hash := h\<rparr>) = mc_validate_material e"
  "model_context_hash_material (e\<lparr>mc_context_hash := h\<rparr>) = model_context_hash_material e"
  by (simp_all add: mc_validate_material_def mc_header_checks_def model_context_hash_material_def)

lemma ae_seal_material [simp]:
  "ae_validate_material X (e\<lparr>ae_action_hash := h\<rparr>) = ae_validate_material X e"
  "action_hash_material (e\<lparr>ae_action_hash := h\<rparr>) = action_hash_material e"
  by (simp_all add: ae_validate_material_def action_hash_material_def)

lemma mc_verify_iff:
  "mc_verify X e = Inr () \<longleftrightarrow> mc_well_formed e \<and> is_sha256_hex (mc_context_hash e) \<and>
     mc_compute_hash X e = Inr (mc_context_hash e)"
  by (auto simp: mc_verify_def ebind_Inr_iff mc_validate_material_iff is_ok_unit
      simp flip: validate_sha256_ok [of "''context_hash''"])

definition ae_well_formed :: "externs \<Rightarrow> action_envelope \<Rightarrow> bool" where
  "ae_well_formed X e \<longleftrightarrow>
     ae_schema_version e = ACTION_ENVELOPE_SCHEMA_VERSION \<and>
     is_ok (validate_tool_name (ae_tool_name e)) \<and>
     identifier_ok MAX_RESOURCE_KIND_BYTES (ar_kind (ae_resource e)) \<and>
     identifier_ok MAX_RESOURCE_LOCATOR_BYTES (ar_locator (ae_resource e)) \<and>
     list_all (identifier_ok MAX_IDENTIFIER_BYTES)
       [ae_principal_id e, ae_session_id e, ae_run_id e, ae_tool_call_id e] \<and>
     identifier_ok MAX_POLICY_VERSION_BYTES (ae_policy_version e) \<and>
     is_sha256_hex (ae_policy_hash e) \<and> is_sha256_hex (ae_context_hash e) \<and>
     json_depth (ae_arguments e) \<le> MAX_JSON_DEPTH \<and>
     (\<exists>t. canonical_json X (ae_arguments e) = Inr t \<and> length t \<le> MAX_ACTION_ARGUMENT_BYTES)"

lemma ae_validate_material_iff: "ae_validate_material X e = Inr () \<longleftrightarrow> ae_well_formed X e"
  by (simp add: ae_validate_material_def ae_well_formed_def ebind_Inr_iff all_ok_iff
      validate_identifier_ok identifier_ok_def validate_sha256_ok limits_iff_depth)

lemma ae_verify_iff:
  "ae_verify X e = Inr () \<longleftrightarrow> ae_well_formed X e \<and> is_sha256_hex (ae_action_hash e) \<and>
     ae_compute_hash X e = Inr (ae_action_hash e)"
  by (auto simp: ae_verify_def ebind_Inr_iff ae_validate_material_iff is_ok_unit
      simp flip: validate_sha256_ok [of "''action_hash''"])

section \<open>Properties\<close>

definition demo_digest :: string where
  "demo_digest = replicate 64 CHR ''a''"

definition demo_segment :: context_segment where
  "demo_segment = \<lparr>seg_ordinal = 0, seg_role = RoleUser, seg_source = ExternalUser,
     seg_content = ''hi'', seg_tool_name = None, seg_attachment_id = None\<rparr>"

definition demo_context :: model_context_envelope where
  "demo_context = \<lparr>mc_schema_version = MODEL_CONTEXT_SCHEMA_VERSION, mc_session_id = ''s'',
     mc_run_id = ''r'', mc_principal_id = ''p'', mc_provider_id = ''v'', mc_model_id = ''m'',
     mc_policy_version = ''1'', mc_policy_hash = demo_digest,
     mc_provider_context_hash = demo_digest, mc_system_prompt_hash = demo_digest,
     mc_tool_schema_hash = demo_digest, mc_workspace_manifest_hash = demo_digest,
     mc_segments = [demo_segment], mc_attachments = [], mc_context_hash = []\<rparr>"

definition demo_action :: action_envelope where
  "demo_action = \<lparr>ae_schema_version = ACTION_ENVELOPE_SCHEMA_VERSION, ae_tool_name = ''read'',
     ae_arguments = JObject [(''path'', JString ''a'')],
     ae_resource = \<lparr>ar_kind = ''file'', ar_locator = ''a''\<rparr>, ae_principal_id = ''p'',
     ae_session_id = ''s'', ae_run_id = ''r'', ae_tool_call_id = ''c'', ae_policy_version = ''1'',
     ae_policy_hash = demo_digest, ae_context_hash = demo_digest, ae_action_hash = []\<rparr>"

lemma demo_digest_ok [simp]: "is_sha256_hex demo_digest"
  by (simp add: is_sha256_hex_def validate_sha256_def SHA256_HEX_LEN_def demo_digest_def
      is_ascii_digit_def char_le_def list_all_iff)

lemma demo_digest_not_blank [simp]: "\<not> blank demo_digest"
proof -
  have "demo_digest = CHR ''a'' # replicate 63 CHR ''a''"
    by (simp add: demo_digest_def numeral_eq_Suc)
  moreover have "\<not> blank (CHR ''a'' # replicate 63 CHR ''a'')"
    by (rule not_blank_Cons)
      (simp_all add: utf8_len_def is_ws_def is_whitespace_cp_def byte_def)
  ultimately show ?thesis by simp
qed

lemmas well_formed_eval = mc_well_formed_def mc_header_ok_def identifier_ok_def
  attachments_ok_def segments_ok_def segment_ok_def has_control_def envelope_limits str_eval

lemma demo_context_ok: "mc_well_formed demo_context"
  by (simp add: demo_context_def demo_segment_def well_formed_eval)

lemma demo_action_ok: "ae_well_formed demo demo_action"
  by (simp add: ae_well_formed_def demo_action_def well_formed_eval validate_tool_name_ok
      tool_name_char_def MAX_JSON_DEPTH_def canonical_json_def write_canonical_json.simps
      demo_def toy_json_str_def)

text \<open>
  Sealing succeeds on exactly the model contexts that satisfy the contract limits, it
  changes only the hash field, and what it returns passes \<open>verify\<close>.
\<close>

lemma context_seal_verifies:
  assumes "sha_laws X"
  shows "(is_ok (mc_seal X e) \<longleftrightarrow> mc_well_formed e) \<and>
    (\<forall>e'. mc_seal X e = Inr e' \<longrightarrow>
       e' = e\<lparr>mc_context_hash := mc_context_hash e'\<rparr> \<and> mc_verify X e' = Inr ())"
proof -
  have ok: "\<exists>h. mc_compute_hash X e = Inr h" for e
    using hash_canonical_ok [of X "model_context_hash_material e"] mc_material_depth [of e]
    by (simp add: mc_compute_hash_def MAX_JSON_DEPTH_def is_ok_def)
  obtain h where h: "mc_compute_hash X e = Inr h" using ok by blast
  have "is_sha256_hex h" using h assms by (auto simp: mc_compute_hash_def hash_canonical_sha)
  moreover have "mc_compute_hash X (e\<lparr>mc_context_hash := k\<rparr>) = Inr h" for k
    using h by (simp add: mc_compute_hash_def)
  moreover have "mc_well_formed (e\<lparr>mc_context_hash := k\<rparr>) = mc_well_formed e" for k
    by (metis mc_seal_material(1) mc_validate_material_iff)
  ultimately show ?thesis
    using h by (auto simp: mc_seal_def ebind_Inr_iff mc_validate_material_iff mc_verify_iff is_ok_def)
qed

text \<open>The context hash binds the whole envelope, up to a collision of the canonical texts.\<close>

lemma context_hash_binds:
  assumes "json_str_laws X" "mc_verify X d = Inr ()" "mc_verify X e = Inr ()"
    "mc_context_hash d = mc_context_hash e"
  shows "d = e \<or>
    text_collision X (model_context_hash_material d) (model_context_hash_material e)"
  using hash_canonical_binds [OF assms(1) mc_material_wf mc_material_wf] mc_material_inject
    assms(2-) unfolding mc_verify_iff mc_compute_hash_def by metis

lemma demo_context_verified:
  obtains e where "mc_verify demo e = Inr ()" "mc_run_id e = ''r''"
proof -
  obtain h where h: "mc_compute_hash demo demo_context = Inr h"
    using hash_canonical_ok [of demo "model_context_hash_material demo_context"]
      mc_material_depth [of demo_context]
    by (auto simp: mc_compute_hash_def MAX_JSON_DEPTH_def is_ok_def)
  let ?e = "demo_context\<lparr>mc_context_hash := h\<rparr>"
  have "mc_well_formed ?e"
    using demo_context_ok by (metis mc_seal_material(1) mc_validate_material_iff)
  with h have "mc_verify demo ?e = Inr ()"
    using hash_canonical_sha [OF demo_laws(2)]
    by (auto simp: mc_verify_iff mc_compute_hash_def)
  with that [of ?e] show ?thesis by (simp add: demo_context_def)
qed

text \<open>
  \<open>seal\<close> of an action succeeds exactly when the action satisfies the contract limits
  and its arguments nest at most 31 deep (one less than the limit the validation itself states,
  since the hash material wraps them once), and the sealed action passes \<open>verify\<close>.
\<close>

lemma action_seal_verifies:
  assumes "sha_laws X"
  shows "(is_ok (ae_seal X e) \<longleftrightarrow> ae_well_formed X e \<and> json_depth (ae_arguments e) \<le> 31) \<and>
    (\<forall>e'. ae_seal X e = Inr e' \<longrightarrow>
       e' = e\<lparr>ae_action_hash := ae_action_hash e'\<rparr> \<and> ae_verify X e' = Inr ())"
proof -
  have ok: "is_ok (ae_compute_hash X e) \<longleftrightarrow> json_depth (ae_arguments e) \<le> 31"
    by (simp add: ae_compute_hash_def hash_canonical_ok action_material_depth MAX_JSON_DEPTH_def)
  have sha: "is_sha256_hex h" if "ae_compute_hash X e = Inr h" for h
    using that assms by (auto simp: ae_compute_hash_def hash_canonical_sha)
  have same: "ae_compute_hash X (e\<lparr>ae_action_hash := k\<rparr>) = ae_compute_hash X e"
    "ae_well_formed X (e\<lparr>ae_action_hash := k\<rparr>) = ae_well_formed X e" for k
    by (simp_all add: ae_compute_hash_def flip: ae_validate_material_iff)
  show ?thesis
    using ok sha by (auto simp: ae_seal_def ebind_Inr_iff ae_validate_material_iff ae_verify_iff
        is_ok_def same)
qed

text \<open>
  Claim C24: sealing and verifying agree. Sealing succeeds on exactly the model contexts that satisfy
  the contract limits, and on exactly the actions that satisfy them and whose arguments nest at most
  31 deep (one less than the limit the validation itself states, since the hash material wraps them
  once); it changes only the hash field, and what it returns passes \<open>verify\<close>.
\<close>

theorem envelope_seals_verify:
  assumes "sha_laws X"
  shows "(is_ok (mc_seal X c) \<longleftrightarrow> mc_well_formed c) \<and>
    (is_ok (ae_seal X a) \<longleftrightarrow> ae_well_formed X a \<and> json_depth (ae_arguments a) \<le> 31) \<and>
    (\<forall>c'. mc_seal X c = Inr c' \<longrightarrow>
       c' = c\<lparr>mc_context_hash := mc_context_hash c'\<rparr> \<and> mc_verify X c' = Inr ()) \<and>
    (\<forall>a'. ae_seal X a = Inr a' \<longrightarrow>
       a' = a\<lparr>ae_action_hash := ae_action_hash a'\<rparr> \<and> ae_verify X a' = Inr ())"
  using context_seal_verifies [OF assms, of c] action_seal_verifies [OF assms, of a] by blast

lemma envelope_seals_verify_witness:
  "\<exists>c a. mc_seal demo demo_context = Inr c \<and> mc_verify demo c = Inr () \<and>
     ae_seal demo demo_action = Inr a \<and> ae_verify demo a = Inr ()"
proof -
  have "json_depth (ae_arguments demo_action) \<le> 31" by (simp add: demo_action_def)
  then have "is_ok (mc_seal demo demo_context)" "is_ok (ae_seal demo demo_action)"
    using envelope_seals_verify [OF demo_laws(2), of demo_context demo_action] demo_context_ok
      demo_action_ok by blast+
  then show ?thesis
    using envelope_seals_verify [OF demo_laws(2), of demo_context demo_action] unfolding is_ok_def by blast
qed

text \<open>
  The action hash binds tool, arguments, resource, principal, session, run, tool call, policy and
  context.
\<close>

lemma action_hash_binds:
  assumes "json_str_laws X" "json_wf (ae_arguments d)" "json_wf (ae_arguments e)"
    "ae_verify X d = Inr ()" "ae_verify X e = Inr ()" "ae_action_hash d = ae_action_hash e"
  shows "d = e \<or> text_collision X (action_hash_material d) (action_hash_material e)"
  using hash_canonical_binds [OF assms(1) action_material_wf [OF assms(2)]
      action_material_wf [OF assms(3)]] action_material_inject
    assms(4-) unfolding ae_verify_iff ae_compute_hash_def by metis

lemma materials_differ: "model_context_hash_material c \<noteq> action_hash_material a"
proof
  assume e: "model_context_hash_material c = action_hash_material a"
  have "json_get (model_context_hash_material c) ''tool_name'' =
      json_get (action_hash_material a) ''tool_name''" by (simp add: e)
  then show False
    by (simp add: model_context_hash_material_def action_hash_material_def json_get_object)
qed

text \<open>
  Claim C23: a hash names one envelope. Two verified model contexts with the same hash are equal in
  every field; two verified actions with the same hash are equal in tool, arguments, resource,
  principal, session, run, tool call, policy and context; and no hash is shared by a context and an
  action, so neither can be presented as the other. Each time the alternative is a SHA-256
  collision of two different canonical texts.
\<close>

theorem envelope_hashes_bind:
  assumes "json_str_laws X" "json_wf (ae_arguments a)" "json_wf (ae_arguments b)"
    "ae_verify X a = Inr ()" "mc_verify X c = Inr ()"
  shows "(mc_verify X d = Inr () \<and> mc_context_hash c = mc_context_hash d \<longrightarrow>
      c = d \<or> text_collision X (model_context_hash_material c) (model_context_hash_material d)) \<and>
    (ae_verify X b = Inr () \<and> ae_action_hash a = ae_action_hash b \<longrightarrow>
      a = b \<or> text_collision X (action_hash_material a) (action_hash_material b)) \<and>
    (mc_context_hash c = ae_action_hash a \<longrightarrow>
      text_collision X (model_context_hash_material c) (action_hash_material a))"
proof (intro conjI impI)
  assume "mc_context_hash c = ae_action_hash a"
  then show "text_collision X (model_context_hash_material c) (action_hash_material a)"
    using hash_canonical_binds [OF assms(1) mc_material_wf action_material_wf [OF assms(2)]]
      materials_differ assms(4,5)
    unfolding mc_verify_iff mc_compute_hash_def ae_verify_iff ae_compute_hash_def by metis
qed (use context_hash_binds [OF assms(1,5)] action_hash_binds [OF assms(1-4)] in blast)+

lemma envelope_hashes_bind_witness:
  "\<exists>a c. ae_tool_name a = ''read'' \<and> mc_run_id c = ''r'' \<and>
     (mc_context_hash c = ae_action_hash a \<longrightarrow>
        text_collision demo (model_context_hash_material c) (action_hash_material a))"
proof -
  have "is_ok (ae_compute_hash demo demo_action)"
    using action_material_depth [of demo_action]
    by (simp add: ae_compute_hash_def hash_canonical_ok MAX_JSON_DEPTH_def demo_action_def)
  then obtain h where h: "ae_compute_hash demo demo_action = Inr h" by (auto simp: is_ok_def)
  let ?a = "demo_action\<lparr>ae_action_hash := h\<rparr>"
  have "ae_well_formed demo ?a"
    using demo_action_ok by (metis ae_seal_material(1) ae_validate_material_iff)
  with h have a: "ae_verify demo ?a = Inr ()"
    using hash_canonical_sha [OF demo_laws(2)]
    by (auto simp: ae_verify_iff ae_compute_hash_def)
  have wf: "json_wf (ae_arguments ?a)" "ae_tool_name ?a = ''read''"
    by (simp_all add: demo_action_def keys_sorted_def)
  obtain c where c: "mc_verify demo c = Inr ()" "mc_run_id c = ''r''" by (rule demo_context_verified)
  show ?thesis
    using envelope_hashes_bind [OF demo_laws(5) wf(1) wf(1) a c(1)] wf(2) c(2) by blast
qed

end
