(* ===== verification/ActionPolicy.thy ===== *)
theory ActionPolicy
  imports Envelope
begin

text \<open>
  The strict baseline policy of \<open>envelope.rs\<close>: the known tools, the heartbeat argument schema,
  the risk detectors and \<open>ActionEnvelope::evaluate_strict\<close>.
\<close>

datatype known_tool = KRead | KWrite | KEdit | KApplyPatch | KExec | KBash | KBrowser | KHeartbeat
  | KUnknown

definition known_tool_from_name :: "string \<Rightarrow> known_tool" where
  "known_tool_from_name n =
     (if n = ''read'' \<or> n = ''read_file'' then KRead
      else if n = ''write'' \<or> n = ''write_file'' then KWrite
      else if n = ''edit'' then KEdit
      else if n = ''apply_patch'' then KApplyPatch
      else if n = ''exec'' then KExec
      else if n = ''bash'' then KBash
      else if n = ''browser'' then KBrowser
      else if n = ''heartbeat_respond'' then KHeartbeat
      else KUnknown)"

section \<open>The heartbeat schema\<close>

definition HEARTBEAT_ALLOWED_KEYS :: "string list" where
  "HEARTBEAT_ALLOWED_KEYS = [''outcome'', ''notify'', ''summary'', ''notificationText'', ''reason'',
     ''priority'', ''nextCheck'', ''scratch'']"
definition HEARTBEAT_REQUIRED_KEYS :: "string list" where
  "HEARTBEAT_REQUIRED_KEYS = [''outcome'', ''notify'', ''summary'']"
definition HEARTBEAT_OUTCOMES :: "string list" where
  "HEARTBEAT_OUTCOMES = [''no_change'', ''progress'', ''done'', ''blocked'', ''needs_attention'']"
definition HEARTBEAT_PRIORITIES :: "string list" where
  "HEARTBEAT_PRIORITIES = [''low'', ''normal'', ''high'']"
definition MAX_HEARTBEAT_TEXT_BYTES :: nat where "MAX_HEARTBEAT_TEXT_BYTES = 4096"
definition MAX_HEARTBEAT_SCRATCH_BYTES :: nat where "MAX_HEARTBEAT_SCRATCH_BYTES = 262144"

fun json_string_with :: "(string \<Rightarrow> bool) \<Rightarrow> json option \<Rightarrow> bool" where
  "json_string_with P (Some (JString s)) = P s"
| "json_string_with P _ = False"

text \<open>An optional key: absent, or a string within the bound.\<close>

definition json_optional_string :: "(string \<Rightarrow> bool) \<Rightarrow> json option \<Rightarrow> bool" where
  "json_optional_string P v \<longleftrightarrow> v = None \<or> json_string_with P v"

definition validate_heartbeat_schema :: "json \<Rightarrow> bool" where
  "validate_heartbeat_schema arguments =
     (case arguments of
        JObject es \<Rightarrow>
          list_all (\<lambda>(k, _). k \<in> set HEARTBEAT_ALLOWED_KEYS) es \<and>
          list_all (\<lambda>k. map_get es k \<noteq> None) HEARTBEAT_REQUIRED_KEYS \<and>
          json_string_with (\<lambda>s. s \<in> set HEARTBEAT_OUTCOMES) (map_get es ''outcome'') \<and>
          (case map_get es ''notify'' of Some (JBool _) \<Rightarrow> True | _ \<Rightarrow> False) \<and>
          json_string_with (\<lambda>s. \<not> blank s \<and> length s \<le> MAX_HEARTBEAT_TEXT_BYTES)
            (map_get es ''summary'') \<and>
          list_all (\<lambda>k. json_optional_string (\<lambda>s. length s \<le> MAX_HEARTBEAT_TEXT_BYTES)
            (map_get es k)) [''notificationText'', ''reason'', ''nextCheck''] \<and>
          json_optional_string (\<lambda>s. s \<in> set HEARTBEAT_PRIORITIES) (map_get es ''priority'') \<and>
          json_optional_string (\<lambda>s. length s \<le> MAX_HEARTBEAT_SCRATCH_BYTES)
            (map_get es ''scratch'')
      | _ \<Rightarrow> False)"

section \<open>Risk detectors\<close>

datatype action_disposition = Allow | RequireAuthorization | Deny

datatype action_risk_class = UnknownTool | PathTraversal | CredentialAccess
  | ProtectedResourceMutation | DestructiveShell | PrivilegeEscalation | RemoteCodeExecution
  | BrowserScriptExecution | FilesystemMutation | ShellExecution | ExternalInteraction
  | ControlSchemaViolation | ControlAction

definition is_deny_class :: "action_risk_class \<Rightarrow> bool" where
  "is_deny_class r \<longleftrightarrow> r \<in> {UnknownTool, PathTraversal, CredentialAccess,
     ProtectedResourceMutation, DestructiveShell, PrivilegeEscalation, RemoteCodeExecution,
     BrowserScriptExecution, ControlSchemaViolation}"

record action_policy_decision =
  apd_disposition :: action_disposition
  apd_risk_classes :: "action_risk_class list"

definition decision_allowed :: action_policy_decision where
  "decision_allowed = \<lparr>apd_disposition = Allow, apd_risk_classes = []\<rparr>"
definition decision_requires_authorization ::
  "action_risk_class list \<Rightarrow> action_policy_decision" where
  "decision_requires_authorization rs =
     \<lparr>apd_disposition = RequireAuthorization, apd_risk_classes = rs\<rparr>"
definition decision_denied :: "action_risk_class list \<Rightarrow> action_policy_decision" where
  "decision_denied rs = \<lparr>apd_disposition = Deny, apd_risk_classes = rs\<rparr>"

definition backslash :: char where "backslash = CHR 92"

definition contains_path_traversal :: "string \<Rightarrow> bool" where
  "contains_path_traversal locator \<longleftrightarrow>
     ''..'' \<in> set (split_on CHR ''/'' (replace_char backslash CHR ''/'' locator))"

definition references_credentials :: "string \<Rightarrow> bool" where
  "references_credentials v = contains_any v [''/etc/shadow'', ''.ssh/'', ''id_rsa'',
     ''id_ed25519'', ''.aws/credentials'', ''.config/gcloud/credentials'', ''keychain'']"

definition references_protected_write_resource :: "string \<Rightarrow> bool" where
  "references_protected_write_resource v =
     (let normalized = replace_char backslash CHR ''/'' v in
        contains_any normalized [''/bin/'', ''/boot/'', ''/dev/'', ''/etc/'', ''/proc/'', ''/root/'',
          ''/sbin/'', ''/sys/'', ''/usr/''] \<or>
        list_ex (\<lambda>t. t \<in> set [''/'', ''/bin'', ''/boot'', ''/dev'', ''/etc'', ''/proc'', ''/root'',
          ''/sbin'', ''/sys'', ''/usr'']) (split_whitespace normalized))"

definition contains_destructive_shell :: "string \<Rightarrow> bool" where
  "contains_destructive_shell v = contains_any v [''rm -rf'', ''rm -fr'', ''mkfs'', ''wipefs'',
     ''dd if='', ''shutdown'', ''reboot'', '':(){:|:&};:'']"

definition contains_privilege_escalation :: "string \<Rightarrow> bool" where
  "contains_privilege_escalation v =
     contains_any v [''sudo '', ''su -c'', ''chmod 777'', ''chmod -r 777'', ''chown -r'']"

definition contains_remote_code_execution :: "string \<Rightarrow> bool" where
  "contains_remote_code_execution v =
     (let downloads = contains v ''curl '' \<or> contains v ''wget '';
          piped_shell = contains v ''| sh'' \<or> contains v ''| bash''
      in downloads \<and> piped_shell \<or> contains v ''eval $('' \<or>
         contains v (''eval '' @ CHR 34 # ''$(''))"

definition contains_browser_script_execution :: "string \<Rightarrow> bool" where
  "contains_browser_script_execution v \<longleftrightarrow>
     contains v ''javascript:'' \<or> contains v ''evaluate_script'' \<or> contains v ''execute_script''"

text \<open>\<open>retain(|risk| seen.insert(risk))\<close>: the first of each class.\<close>

fun dedup_from :: "'a list \<Rightarrow> 'a list \<Rightarrow> 'a list" where
  "dedup_from seen [] = []"
| "dedup_from seen (r # rs) =
     (if r \<in> set seen then dedup_from seen rs else r # dedup_from (r # seen) rs)"

definition deduplicate_risks :: "action_risk_class list \<Rightarrow> action_risk_class list" where
  "deduplicate_risks rs = dedup_from [] rs"

section \<open>\<open>evaluate_strict\<close>\<close>

definition searchable_text :: "externs \<Rightarrow> action_envelope \<Rightarrow> string" where
  "searchable_text X e =
     lowercase X (ar_locator (ae_resource e)) @ collect_json_strings X (ae_arguments e)"

definition push_if :: "bool \<Rightarrow> 'a \<Rightarrow> 'a list \<Rightarrow> 'a list" where
  "push_if b r rs = (if b then rs @ [r] else rs)"

definition strict_risks :: "externs \<Rightarrow> action_envelope \<Rightarrow> action_risk_class list" where
  "strict_risks X e =
     (let tool = known_tool_from_name (ae_tool_name e);
          text = searchable_text X e;
          shell = tool \<in> {KExec, KBash, KHeartbeat};
          r1 = push_if (contains_path_traversal text) PathTraversal [];
          r2 = push_if (references_credentials text) CredentialAccess r1;
          r3 = push_if (tool \<in> {KWrite, KEdit, KApplyPatch} \<and>
                 references_protected_write_resource text) ProtectedResourceMutation r2;
          r4 = push_if (shell \<and> contains_destructive_shell text) DestructiveShell r3;
          r5 = push_if (shell \<and> contains_privilege_escalation text) PrivilegeEscalation r4;
          r6 = push_if (shell \<and> contains_remote_code_execution text) RemoteCodeExecution r5;
          r7 = push_if (tool = KBrowser \<and> contains_browser_script_execution text)
                 BrowserScriptExecution r6;
          r8 = push_if (tool = KHeartbeat \<and> \<not> validate_heartbeat_schema (ae_arguments e))
                 ControlSchemaViolation r7
      in deduplicate_risks r8)"

text \<open>The class pushed for a known tool that is neither denied nor allowed outright.\<close>

fun authorization_risk :: "known_tool \<Rightarrow> action_risk_class" where
  "authorization_risk KWrite = FilesystemMutation"
| "authorization_risk KEdit = FilesystemMutation"
| "authorization_risk KApplyPatch = FilesystemMutation"
| "authorization_risk KExec = ShellExecution"
| "authorization_risk KBash = ShellExecution"
| "authorization_risk KBrowser = ExternalInteraction"
| "authorization_risk KHeartbeat = ControlAction"
| "authorization_risk _ = UnknownTool"

definition evaluate_strict ::
  "externs \<Rightarrow> action_envelope \<Rightarrow> envelope_error + action_policy_decision" where
  "evaluate_strict X e =
     ebind (ae_verify X e) (\<lambda>_.
       let tool = known_tool_from_name (ae_tool_name e) in
       if tool = KUnknown then Inr (decision_denied [UnknownTool])
       else
         let risks = strict_risks X e in
         if list_ex is_deny_class risks then Inr (decision_denied risks)
         else if tool = KRead then Inr decision_allowed
         else Inr (decision_requires_authorization (risks @ [authorization_risk tool])))"

section \<open>Facts\<close>

lemma set_dedup_from: "set (dedup_from seen rs) \<union> set seen = set rs \<union> set seen"
proof (induction rs arbitrary: seen)
  case (Cons r rs)
  from Cons [of "r # seen"] Cons [of seen] show ?case by (auto split: if_splits)
qed simp

lemma set_deduplicate [simp]: "set (deduplicate_risks rs) = set rs"
  using set_dedup_from [of "[]" rs] by (simp add: deduplicate_risks_def)

lemma distinct_dedup_from: "distinct (dedup_from seen rs) \<and> set (dedup_from seen rs) \<inter> set seen = {}"
proof (induction rs arbitrary: seen)
  case (Cons r rs)
  from Cons [of "r # seen"] Cons [of seen] show ?case by auto
qed simp

lemma set_push_if [simp]: "set (push_if b r rs) = (if b then insert r (set rs) else set rs)"
  by (simp add: push_if_def)

lemma list_ex_deny: "list_ex is_deny_class rs \<longleftrightarrow> (\<exists>r \<in> set rs. is_deny_class r)"
  by (simp add: list_ex_iff)

lemma set_strict_risks:
  "r \<in> set (strict_risks X e) \<longleftrightarrow>
     (let tool = known_tool_from_name (ae_tool_name e); text = searchable_text X e;
          shell = tool \<in> {KExec, KBash, KHeartbeat} in
      r = PathTraversal \<and> contains_path_traversal text \<or>
      r = CredentialAccess \<and> references_credentials text \<or>
      r = ProtectedResourceMutation \<and> tool \<in> {KWrite, KEdit, KApplyPatch} \<and>
        references_protected_write_resource text \<or>
      r = DestructiveShell \<and> shell \<and> contains_destructive_shell text \<or>
      r = PrivilegeEscalation \<and> shell \<and> contains_privilege_escalation text \<or>
      r = RemoteCodeExecution \<and> shell \<and> contains_remote_code_execution text \<or>
      r = BrowserScriptExecution \<and> tool = KBrowser \<and> contains_browser_script_execution text \<or>
      r = ControlSchemaViolation \<and> tool = KHeartbeat \<and>
        \<not> validate_heartbeat_schema (ae_arguments e))"
  unfolding strict_risks_def Let_def set_deduplicate set_push_if by auto

text \<open>Every detected risk is a deny class.\<close>

lemma strict_risks_deny: "r \<in> set (strict_risks X e) \<Longrightarrow> is_deny_class r"
  unfolding set_strict_risks Let_def is_deny_class_def by auto

lemma strict_risks_no_deny: "\<not> list_ex is_deny_class (strict_risks X e) \<longleftrightarrow> strict_risks X e = []"
proof (cases "strict_risks X e")
  case (Cons r rs)
  then have "is_deny_class r" using strict_risks_deny [of r X e] by simp
  with Cons show ?thesis by (simp add: list_ex_deny)
qed simp

lemma evaluate_strict_cases:
  assumes "ae_verify X e = Inr ()"
  shows "evaluate_strict X e = Inr
    (if known_tool_from_name (ae_tool_name e) = KUnknown then decision_denied [UnknownTool]
     else if strict_risks X e \<noteq> [] then decision_denied (strict_risks X e)
     else if known_tool_from_name (ae_tool_name e) = KRead then decision_allowed
     else decision_requires_authorization
       [authorization_risk (known_tool_from_name (ae_tool_name e))])"
  using assms strict_risks_no_deny [of X e]
  by (auto simp: evaluate_strict_def Let_def)

text \<open>The strings and keys of a value, at any depth.\<close>

fun json_texts :: "json \<Rightarrow> string list" where
  "json_texts (JString s) = [s]"
| "json_texts (JArray vs) = concat (map json_texts vs)"
| "json_texts (JObject es) = concat (map (\<lambda>(k, v). k # json_texts v) es)"
| "json_texts _ = []"

lemma contains_concat: "x \<in> set xs \<Longrightarrow> contains x p \<Longrightarrow> contains (concat xs) p"
proof -
  assume "x \<in> set xs" and c: "contains x p"
  then obtain a b where "xs = a @ x # b" by (meson split_list)
  with contains_append [OF c, of "concat a" "concat b"] show ?thesis by simp
qed

lemma collect_finds_text:
  "s \<in> set (json_texts v) \<Longrightarrow> contains (collect_json_strings X v) (lowercase X s)"
proof (induction v)
  case (JString t)
  then show ?case
    using contains_append [of "lowercase X s" "lowercase X s" "[CHR 10]" "[]"]
    by (simp add: contains_sublist del: contains.simps)
next
  case (JArray vs)
  then obtain v where v: "v \<in> set vs" "s \<in> set (json_texts v)" by auto
  with JArray.IH show ?case by (auto intro!: contains_concat [of "collect_json_strings X v"])
next
  case (JObject es)
  then obtain k v where v: "(k, v) \<in> set es" "s = k \<or> s \<in> set (json_texts v)" by auto
  have "contains (CHR 10 # lowercase X k @ collect_json_strings X v) (lowercase X s)"
    using v(2)
  proof
    assume "s = k"
    then show ?thesis
      by (simp add: contains_sublist sublist_def) (metis append_Cons append_Nil)
  next
    assume "s \<in> set (json_texts v)"
    with JObject.IH [OF v(1)] have "contains (collect_json_strings X v) (lowercase X s)" by simp
    from contains_append [OF this, of "CHR 10 # lowercase X k" "[]"] show ?thesis by simp
  qed
  with v(1) show ?case by (auto intro!: contains_concat)
qed simp_all

lemma contains_trans: "contains a b \<Longrightarrow> contains b c \<Longrightarrow> contains a c"
  unfolding contains_sublist by (rule sublist_order.order.trans)

lemma contains_any_mono: "contains a b \<Longrightarrow> contains_any b ps \<Longrightarrow> contains_any a ps"
  unfolding contains_any_def using contains_trans by blast

section \<open>The searched text, text by text\<close>

text \<open>
  The policy searches one text: the locator, every key and every string, each behind a newline. What
  it finds there, it finds in one of them; but a path component is only seen as such between slashes,
  so of the components at the edge of a text only the first of the first and the last of the last
  count.
\<close>

definition policy_texts :: "externs \<Rightarrow> action_envelope \<Rightarrow> string list" where
  "policy_texts X e = map (lowercase X) (ar_locator (ae_resource e) # json_texts (ae_arguments e))"

definition slashed :: "string \<Rightarrow> string" where
  "slashed t = replace_char backslash CHR ''/'' t"

definition visible_traversal :: "string list \<Rightarrow> bool" where
  "visible_traversal ts \<longleftrightarrow> (\<exists>t \<in> set ts. contains t ''/../'') \<or> prefix ''../'' (hd ts) \<or>
     suffix ''/..'' (last ts) \<or> ts = [''..'']"

definition texts_below :: "string list \<Rightarrow> string" where
  "texts_below ts = concat (map (\<lambda>t. CHR 10 # t) ts)"

lemma texts_below_simps [simp]: "texts_below [] = []" "texts_below (t # ts) = CHR 10 # t @ texts_below ts"
  by (simp_all add: texts_below_def)

lemma texts_below_append [simp]: "texts_below (ts @ us) = texts_below ts @ texts_below us"
  by (simp add: texts_below_def)

lemma texts_below_concat: "texts_below (concat tss) = concat (map texts_below tss)"
  by (induction tss) simp_all

lemma collect_lines: "collect_json_strings X v = texts_below (map (lowercase X) (json_texts v))"
proof (induction v)
  case (JArray vs)
  then show ?case by (simp add: map_concat texts_below_concat comp_def cong: map_cong)
next
  case (JObject es)
  then have "map (\<lambda>(k, v). CHR 10 # lowercase X k @ collect_json_strings X v) es =
      map (\<lambda>(k, v). texts_below (map (lowercase X) (k # json_texts v))) es"
    by (intro map_cong refl) (auto split: prod.split)
  then show ?case by (simp add: map_concat texts_below_concat comp_def split_def cong: map_cong)
qed simp_all

lemma searchable_lines: "\<exists>t ts. policy_texts X e = t # ts \<and> searchable_text X e = t @ texts_below ts"
  by (simp add: policy_texts_def searchable_text_def collect_lines)

lemma contains_line:
  assumes "CHR 10 \<notin> set p" "p \<noteq> []"
  shows "contains (a @ CHR 10 # b) p \<longleftrightarrow> contains a p \<or> contains b p"
proof -
  have "\<not> prefix q (CHR 10 # b)" if "p = r @ q" "q \<noteq> []" for q r
    using that assms(1) by (cases q) auto
  then show ?thesis
    unfolding contains_sublist sublist_append sublist_Cons_right
    by (metis append_Nil append_Nil2 assms(2) suffix_imp_sublist)
qed

lemma contains_lines:
  assumes "CHR 10 \<notin> set p" "p \<noteq> []"
  shows "contains (t @ texts_below ts) p \<longleftrightarrow> (\<exists>u \<in> set (t # ts). contains u p)"
  by (induction ts arbitrary: t) (simp_all add: contains_line [OF assms])

lemma credentials_lines:
  "references_credentials (t @ texts_below ts) \<longleftrightarrow> (\<exists>u \<in> set (t # ts). references_credentials u)"
  by (simp add: references_credentials_def contains_lines) blast

text \<open>A component of a text split at a delimiter lies between two of them, or at an edge.\<close>

lemma split_on_append: "split_on d (a @ d # b) = split_on d a @ split_on d b"
  by (induction a) (auto split: list.split)

lemma split_on_single: "d \<notin> set a \<Longrightarrow> split_on d a = [a]"
  by (induction a) auto

lemma split_on_component:
  assumes "d \<notin> set x"
  shows "x \<in> set (split_on d s) \<longleftrightarrow>
    s = x \<or> prefix (x @ [d]) s \<or> suffix (d # x) s \<or> contains s (d # x @ [d])"
proof
  assume "x \<in> set (split_on d s)"
  then show "s = x \<or> prefix (x @ [d]) s \<or> suffix (d # x) s \<or> contains s (d # x @ [d])"
  proof (induction "length s" arbitrary: s rule: less_induct)
    case less
    show ?case
    proof (cases "d \<in> set s")
      case False
      then show ?thesis using less.prems by (simp add: split_on_single)
    next
      case True
      then obtain a b where s: "s = a @ d # b" "d \<notin> set a" by (meson split_list_first)
      then have "x = a \<or> x \<in> set (split_on d b)"
        using less.prems by (auto simp: split_on_append split_on_single)
      then show ?thesis
      proof
        assume "x = a"
        then show ?thesis by (simp add: s(1))
      next
        assume "x \<in> set (split_on d b)"
        from less.hyps [OF _ this] s(1)
        consider "b = x" | "prefix (x @ [d]) b" | "suffix (d # x) b" | "contains b (d # x @ [d])" by auto
        then show ?thesis
        proof cases
          case 1
          then show ?thesis by (simp add: s(1) suffix_def)
        next
          case 2
          then have "contains s (d # x @ [d])" by (auto simp: s(1) contains_sublist sublist_def prefix_def)
          then show ?thesis by blast
        next
          case 3
          then show ?thesis by (auto simp: s(1) suffix_def)
        next
          case 4
          then show ?thesis using contains_append [of b _ "a @ [d]" "[]"] by (simp add: s(1))
        qed
      qed
    qed
  qed
next
  assume "s = x \<or> prefix (x @ [d]) s \<or> suffix (d # x) s \<or> contains s (d # x @ [d])"
  then show "x \<in> set (split_on d s)"
    using assms by (auto simp: prefix_def suffix_def contains_sublist sublist_def split_on_append split_on_single)
qed

lemma slashed_lines: "slashed (t @ texts_below ts) = slashed t @ texts_below (map slashed ts)"
  by (induction ts arbitrary: t) (simp_all add: slashed_def replace_char_def backslash_def texts_below_def)

lemma prefix_line: "CHR 10 \<notin> set p \<Longrightarrow> prefix p (t @ texts_below ts) \<longleftrightarrow> prefix p t"
proof (induction p arbitrary: t)
  case (Cons c p)
  then show ?case by (cases t; cases ts) auto
qed simp

lemma suffix_line: "CHR 10 \<notin> set p \<Longrightarrow> suffix p (t @ texts_below ts) \<longleftrightarrow> suffix p (last (t # ts))"
proof (induction ts arbitrary: t)
  case (Cons u ts)
  have "suffix p (t @ CHR 10 # v) \<longleftrightarrow> suffix p v" for v
  proof
    assume s: "suffix p (t @ CHR 10 # v)"
    show "suffix p v"
    proof (rule ccontr)
      assume "\<not> suffix p v"
      then have "suffix (CHR 10 # v) p"
        using s by (metis suffix_Cons suffix_same_cases suffixI)
      with Cons.prems show False by (auto simp: suffix_def)
    qed
  qed (simp add: suffix_ConsI suffix_appendI)
  then show ?case using Cons.IH [of u] Cons.prems by simp
qed simp

lemma traversal_lines:
  "contains_path_traversal (t @ texts_below ts) \<longleftrightarrow> visible_traversal (map slashed (t # ts))"
proof -
  have "slashed t @ texts_below (map slashed ts) = ''..'' \<longleftrightarrow> map slashed (t # ts) = [''..'']"
  proof (cases ts)
    case (Cons u us)
    have "slashed t @ texts_below (map slashed ts) \<noteq> ''..''"
      by (rule notI, drule arg_cong [of _ _ "\<lambda>s. CHR 10 \<in> set s"]) (simp add: Cons)
    then show ?thesis by (simp add: Cons)
  qed simp
  then show ?thesis
    unfolding contains_path_traversal_def slashed_def [symmetric] slashed_lines
    by (subst split_on_component)
      (auto simp: visible_traversal_def contains_lines prefix_line suffix_line last_map
        simp del: contains.simps)
qed

section \<open>Properties\<close>

lemma evaluate_strict_verified: "evaluate_strict X e = Inr d \<Longrightarrow> ae_verify X e = Inr ()"
  by (auto simp: evaluate_strict_def ebind_Inr_iff)

lemma authorization_risk_not_deny:
  "t \<noteq> KUnknown \<Longrightarrow> t \<noteq> KRead \<Longrightarrow> \<not> is_deny_class (authorization_risk t)"
  by (cases t) (auto simp: is_deny_class_def)

lemmas policy_decision_defs =
  decision_denied_def decision_allowed_def decision_requires_authorization_def

lemma demo_sealed:
  assumes "ae_well_formed demo a" "json_depth (ae_arguments a) \<le> 31"
  obtains h where "ae_verify demo (a\<lparr>ae_action_hash := h\<rparr>) = Inr ()"
proof -
  have "is_ok (ae_compute_hash demo a)"
    using action_material_depth [of a] assms(2)
    by (simp add: ae_compute_hash_def hash_canonical_ok MAX_JSON_DEPTH_def)
  then obtain h where h: "ae_compute_hash demo a = Inr h" by (auto simp: is_ok_def)
  moreover have "ae_well_formed demo (a\<lparr>ae_action_hash := h\<rparr>)"
    using assms(1) by (metis ae_seal_material(1) ae_validate_material_iff)
  ultimately have "ae_verify demo (a\<lparr>ae_action_hash := h\<rparr>) = Inr ()"
    using hash_canonical_sha [OF demo_laws(2)] by (auto simp: ae_verify_iff ae_compute_hash_def)
  then show thesis by (rule that)
qed

lemmas demo_action_eval = ae_well_formed_def demo_action_def well_formed_eval
  validate_tool_name_ok tool_name_char_def MAX_JSON_DEPTH_def canonical_json_def
  write_canonical_json.simps demo_def toy_json_str_def show_bool_def

lemma strict_risks_read:
  assumes "known_tool_from_name (ae_tool_name e) = KRead"
  shows "strict_risks X e = [] \<longleftrightarrow> \<not> contains_path_traversal (searchable_text X e) \<and>
    \<not> references_credentials (searchable_text X e)"
proof -
  have "r \<in> set (strict_risks X e) \<longleftrightarrow>
      r = PathTraversal \<and> contains_path_traversal (searchable_text X e) \<or>
      r = CredentialAccess \<and> references_credentials (searchable_text X e)" for r
    unfolding set_strict_risks Let_def assms by simp
  then show ?thesis by (metis empty_iff empty_set list.set_intros(1) neq_Nil_conv)
qed



text \<open>
  Claim C26: no nesting hides a credential path. If any string or key at any depth of the
  arguments (or the locator) mentions one once lower-cased, the action is denied, whatever its
  tool.
\<close>

theorem nested_credential_denied:
  assumes "ae_verify X e = Inr ()"
    "t \<in> insert (ar_locator (ae_resource e)) (set (json_texts (ae_arguments e)))"
    "references_credentials (lowercase X t)"
  shows "\<exists>d. evaluate_strict X e = Inr d \<and> apd_disposition d = Deny"
proof -
  have "contains (searchable_text X e) (lowercase X t)"
    using assms(2)
  proof
    assume "t = ar_locator (ae_resource e)"
    then show ?thesis by (auto simp: searchable_text_def contains_sublist sublist_def)
  next
    assume "t \<in> set (json_texts (ae_arguments e))"
    from contains_append [OF collect_finds_text [OF this, of X], of _ "[]"] show ?thesis
      by (simp add: searchable_text_def)
  qed
  then have "references_credentials (searchable_text X e)"
    using assms(3) unfolding references_credentials_def by (rule contains_any_mono)
  then have "CredentialAccess \<in> set (strict_risks X e)"
    unfolding set_strict_risks Let_def by blast
  then have "strict_risks X e \<noteq> []" by auto
  with evaluate_strict_cases [OF assms(1)] show ?thesis
    by (auto simp: decision_denied_def split: if_splits)
qed

lemma nested_credential_denied_witness:
  "\<exists>e. ae_tool_name e = ''read'' \<and>
     (\<exists>d. evaluate_strict demo e = Inr d \<and> apd_disposition d = Deny)"
proof -
  let ?a = "demo_action\<lparr>ae_arguments := JArray [JArray [JString ''ID_RSA'']]\<rparr>"
  have ok: "ae_well_formed demo ?a" by (simp add: demo_action_eval)
  obtain h where v: "ae_verify demo (?a\<lparr>ae_action_hash := h\<rparr>) = Inr ()"
    by (rule demo_sealed [OF ok]) simp
  let ?e = "?a\<lparr>ae_action_hash := h\<rparr>"
  have "references_credentials (lowercase demo ''ID_RSA'')"
    by code_simp
  moreover have "''ID_RSA'' \<in> insert (ar_locator (ae_resource ?e)) (set (json_texts (ae_arguments ?e)))"
    by simp
  moreover have "ae_tool_name ?e = ''read''" by (simp add: demo_action_def)
  ultimately show ?thesis using nested_credential_denied [OF v] by blast
qed

lemma json_string_with_iff: "json_string_with P v \<longleftrightarrow> (\<exists>s. v = Some (JString s) \<and> P s)"
  by (cases "(P, v)" rule: json_string_with.cases) auto

lemma heartbeat_value:
  assumes "validate_heartbeat_schema (JObject es)" "k \<in> set HEARTBEAT_ALLOWED_KEYS"
    "map_get es k = Some v"
  shows "(\<exists>s. v = JString s \<and> length s \<le> MAX_HEARTBEAT_SCRATCH_BYTES) \<or> (\<exists>b. v = JBool b)"
proof -
  have len: "length s \<le> MAX_HEARTBEAT_SCRATCH_BYTES"
    if "s \<in> set HEARTBEAT_OUTCOMES \<or> s \<in> set HEARTBEAT_PRIORITIES \<or>
      length s \<le> MAX_HEARTBEAT_TEXT_BYTES" for s
    using that by (auto simp: HEARTBEAT_OUTCOMES_def HEARTBEAT_PRIORITIES_def
        MAX_HEARTBEAT_TEXT_BYTES_def MAX_HEARTBEAT_SCRATCH_BYTES_def)
  have h: "json_string_with (\<lambda>s. s \<in> set HEARTBEAT_OUTCOMES) (map_get es ''outcome'')"
    "case map_get es ''notify'' of Some (JBool _) \<Rightarrow> True | _ \<Rightarrow> False"
    "json_string_with (\<lambda>s. \<not> blank s \<and> length s \<le> MAX_HEARTBEAT_TEXT_BYTES) (map_get es ''summary'')"
    "json_optional_string (\<lambda>s. length s \<le> MAX_HEARTBEAT_TEXT_BYTES) (map_get es ''notificationText'')"
    "json_optional_string (\<lambda>s. length s \<le> MAX_HEARTBEAT_TEXT_BYTES) (map_get es ''reason'')"
    "json_optional_string (\<lambda>s. length s \<le> MAX_HEARTBEAT_TEXT_BYTES) (map_get es ''nextCheck'')"
    "json_optional_string (\<lambda>s. s \<in> set HEARTBEAT_PRIORITIES) (map_get es ''priority'')"
    "json_optional_string (\<lambda>s. length s \<le> MAX_HEARTBEAT_SCRATCH_BYTES) (map_get es ''scratch'')"
    using assms(1) by (simp_all add: validate_heartbeat_schema_def)
  from assms(2) have "k = ''notify'' \<or> k \<in> {''outcome'', ''summary'', ''notificationText'', ''reason'',
      ''priority'', ''nextCheck'', ''scratch''}"
    by (auto simp: HEARTBEAT_ALLOWED_KEYS_def)
  then show ?thesis
  proof
    assume "k = ''notify''"
    with h(2) assms(3) show ?thesis by (cases v) auto
  next
    have opt: ?thesis if "json_optional_string P (map_get es k)"
      "\<And>s. P s \<Longrightarrow> length s \<le> MAX_HEARTBEAT_SCRATCH_BYTES" for P
      using that assms(3) by (auto simp: json_optional_string_def json_string_with_iff)
    have req: ?thesis if "json_string_with P (map_get es k)"
      "\<And>s. P s \<Longrightarrow> length s \<le> MAX_HEARTBEAT_SCRATCH_BYTES" for P
      using that by (intro opt [of P]) (auto simp: json_optional_string_def)
    assume "k \<in> {''outcome'', ''summary'', ''notificationText'', ''reason'',
      ''priority'', ''nextCheck'', ''scratch''}"
    then show ?thesis
    proof (elim insertE emptyE)
      assume k: "k = ''outcome''"
      show ?thesis by (rule req [OF h(1) [folded k] len]) simp
    next
      assume k: "k = ''summary''"
      show ?thesis by (rule req [OF h(3) [folded k] len]) simp
    next
      assume k: "k = ''notificationText''"
      show ?thesis by (rule opt [OF h(4) [folded k] len]) simp
    next
      assume k: "k = ''reason''"
      show ?thesis by (rule opt [OF h(5) [folded k] len]) simp
    next
      assume k: "k = ''priority''"
      show ?thesis by (rule opt [OF h(7) [folded k] len]) simp
    next
      assume k: "k = ''nextCheck''"
      show ?thesis by (rule opt [OF h(6) [folded k] len]) simp
    next
      assume k: "k = ''scratch''"
      show ?thesis by (rule opt [OF h(8) [folded k]]) simp
    qed
  qed
qed

text \<open>
  A heartbeat that is not denied carries nothing executable. Its arguments are one
  flat object over the eight allowed keys whose values are booleans or strings (of at most 256
  KiB), no shell risk pattern occurs in it, and it still only earns \<open>RequireAuthorization\<close>.
\<close>

lemma heartbeat_never_bypasses:
  assumes "evaluate_strict X e = Inr d" "ae_tool_name e = ''heartbeat_respond''"
    "apd_disposition d \<noteq> Deny" "json_wf (ae_arguments e)"
  shows "d = decision_requires_authorization [ControlAction] \<and>
    \<not> contains_destructive_shell (searchable_text X e) \<and>
    (\<exists>es. ae_arguments e = JObject es \<and> (\<forall>(k, v) \<in> set es. k \<in> set HEARTBEAT_ALLOWED_KEYS \<and>
       (case v of JString s \<Rightarrow> length s \<le> MAX_HEARTBEAT_SCRATCH_BYTES | JBool _ \<Rightarrow> True | _ \<Rightarrow> False)))"
proof -
  have t: "known_tool_from_name (ae_tool_name e) = KHeartbeat"
    by (simp add: assms(2) known_tool_from_name_def)
  have v: "ae_verify X e = Inr ()" by (rule evaluate_strict_verified [OF assms(1)])
  have none: "strict_risks X e = []" and d: "d = decision_requires_authorization [ControlAction]"
    using evaluate_strict_cases [OF v] assms(1,3)
    by (auto simp: t policy_decision_defs split: if_splits)
  have "ControlSchemaViolation \<notin> set (strict_risks X e)" "DestructiveShell \<notin> set (strict_risks X e)"
    by (simp_all add: none)
  then have h: "validate_heartbeat_schema (ae_arguments e)"
    and shell: "\<not> contains_destructive_shell (searchable_text X e)"
    unfolding set_strict_risks Let_def t by auto
  from h obtain es where es: "ae_arguments e = JObject es"
    by (auto simp: validate_heartbeat_schema_def split: json.splits)
  have "k \<in> set HEARTBEAT_ALLOWED_KEYS \<and>
       (case v of JString s \<Rightarrow> length s \<le> MAX_HEARTBEAT_SCRATCH_BYTES | JBool _ \<Rightarrow> True | _ \<Rightarrow> False)"
    if kv: "(k, v) \<in> set es" for k v
  proof -
    have "distinct (map fst es)"
      using assms(4) by (simp add: es keys_sorted_def strict_sorted_iff)
    with kv have m: "map_get es k = Some v" by (simp add: map_get_def)
    have k: "k \<in> set HEARTBEAT_ALLOWED_KEYS"
      using h kv by (auto simp: validate_heartbeat_schema_def es list_all_iff)
    from heartbeat_value [OF h [unfolded es] k m] k show ?thesis by auto
  qed
  with d shell es show ?thesis by auto
qed

definition demo_heartbeat :: action_envelope where
  "demo_heartbeat = demo_action\<lparr>ae_tool_name := ''heartbeat_respond'', ae_arguments := JObject
     [(''notify'', JBool False), (''outcome'', JString ''done''), (''summary'', JString ''ok'')]\<rparr>"

lemma heartbeat_never_bypasses_witness:
  "\<exists>e. evaluate_strict demo e = Inr (decision_requires_authorization [ControlAction]) \<and>
     \<not> contains_destructive_shell (searchable_text demo e)"
proof -
  have ok: "ae_well_formed demo demo_heartbeat"
    by (simp add: demo_action_eval demo_heartbeat_def)
  obtain h where v: "ae_verify demo (demo_heartbeat\<lparr>ae_action_hash := h\<rparr>) = Inr ()" (is "ae_verify _ ?e = _")
    by (rule demo_sealed [OF ok]) (simp add: demo_heartbeat_def)
  have f: "ae_tool_name ?e = ''heartbeat_respond''"
    "searchable_text demo ?e = searchable_text demo demo_heartbeat"
    "ae_arguments ?e = ae_arguments demo_heartbeat"
    by (simp_all add: demo_heartbeat_def searchable_text_def)
  have searched: "searchable_text demo demo_heartbeat = ''a'' @ CHR 10 # ''notify'' @ CHR 10 # ''outcome'' @
      CHR 10 # ''done'' @ CHR 10 # ''summary'' @ CHR 10 # ''ok''"
    by (simp add: demo_heartbeat_def demo_action_def searchable_text_def demo_def
        to_ascii_lowercase_def ascii_lower_char_def char_le_def)
  have "validate_heartbeat_schema (ae_arguments demo_heartbeat)"
    by (simp add: demo_heartbeat_def validate_heartbeat_schema_def HEARTBEAT_ALLOWED_KEYS_def
        HEARTBEAT_REQUIRED_KEYS_def HEARTBEAT_OUTCOMES_def MAX_HEARTBEAT_TEXT_BYTES_def map_get_def
        json_optional_string_def str_eval)
  moreover have "known_tool_from_name ''heartbeat_respond'' = KHeartbeat"
    by (simp add: known_tool_from_name_def)
  moreover have "\<not> contains_path_traversal (searchable_text demo demo_heartbeat)"
    "\<not> references_credentials (searchable_text demo demo_heartbeat)"
    "\<not> contains_destructive_shell (searchable_text demo demo_heartbeat)"
    "\<not> contains_privilege_escalation (searchable_text demo demo_heartbeat)"
    "\<not> contains_remote_code_execution (searchable_text demo demo_heartbeat)"
    unfolding searched
    by (simp_all add: contains_path_traversal_def references_credentials_def replace_char_def
        backslash_def contains_destructive_shell_def contains_privilege_escalation_def
        contains_remote_code_execution_def)
  ultimately have "strict_risks demo ?e = []"
    unfolding strict_risks_def f Let_def by (simp add: push_if_def deduplicate_risks_def)
  with evaluate_strict_cases [OF v] have e: "evaluate_strict demo ?e =
      Inr (decision_requires_authorization [ControlAction])"
    by (simp add: f known_tool_from_name_def)
  have wf: "json_wf (ae_arguments ?e)"
    by (simp add: demo_heartbeat_def keys_sorted_def)
  show ?thesis
    using heartbeat_never_bypasses [OF e f(1) _ wf] e
    by (auto simp: decision_requires_authorization_def)
qed

end
