(* ===== verification/Capability.thy ===== *)
theory Capability
  imports Envelope ActionSemantics
begin

text \<open>
  \<open>capability.rs\<close>: the decision ledger, the signed single-use capability token and the store's
  four operations (record, issue, consume, prune) under its one lock, each a function on the
  store and the world (clock, UUID source, signing engine).

  The theorems: the index of the ledger never dangles; recording is idempotent and detects
  conflicting scopes; a token carries exactly the scope of its decision; consumption authorizes
  only when every binding matches; over any interleaving of operations a token is authorized at
  most once and a decision yields at most one token; the signed form determines every
  authority-bearing field.
\<close>

definition AUTHORITY_PROVIDER_EXECUTE :: string where
  "AUTHORITY_PROVIDER_EXECUTE = ''provider.execute''"
definition AUTHORITY_ACTION_EXECUTE :: string where
  "AUTHORITY_ACTION_EXECUTE = ''action.execute''"

lemmas authority_defs = AUTHORITY_PROVIDER_EXECUTE_def AUTHORITY_ACTION_EXECUTE_def

text \<open>\<open>IndexInvariantPanic\<close> stands for the \<open>expect("index/decision invariant")\<close> panic.\<close>

datatype capability_error = EmptyField string | MalformedDigest string | InvalidTtl
  | TransactionScopeConflict | WrongAuthority | IndexInvariantPanic

record decision_request =
  dr_gov_tx_id :: string
  dr_session_id :: string
  dr_principal_fingerprint :: string
  dr_authority :: string
  dr_backend :: string
  dr_model :: string
  dr_action_class :: string
  dr_sentinel_verdict_id :: string
  dr_policy_hash :: string
  dr_authorization_basis :: string
  dr_agency :: string
  dr_drs :: u8
  dr_run_id :: string
  dr_context_hash :: string
  dr_policy_version :: string
  dr_action_hash :: string
  dr_tool_name :: string
  dr_resource_kind :: string
  dr_resource_locator :: string
  dr_tool_call_id :: string
  dr_action_plane :: action_plane
  dr_normalized_action :: string
  dr_required_for_safe_completion :: bool

record decision =
  dc_decision_id :: string
  dc_gov_tx_id :: string
  dc_session_id :: string
  dc_principal_fingerprint :: string
  dc_authority :: string
  dc_backend :: string
  dc_model :: string
  dc_action_class :: string
  dc_sentinel_verdict_id :: string
  dc_policy_hash :: string
  dc_authorization_basis :: string
  dc_agency :: string
  dc_drs :: u8
  dc_authorized_at :: int
  dc_issued :: bool
  dc_run_id :: string
  dc_context_hash :: string
  dc_policy_version :: string
  dc_action_hash :: string
  dc_tool_name :: string
  dc_resource_kind :: string
  dc_resource_locator :: string
  dc_tool_call_id :: string
  dc_action_plane :: action_plane
  dc_normalized_action :: string
  dc_required_for_safe_completion :: bool

definition nonempty :: "string \<Rightarrow> string \<Rightarrow> capability_error + unit" where
  "nonempty v name = guard_ok (\<not> blank v) (EmptyField name)"

definition decision_request_validate :: "decision_request \<Rightarrow> capability_error + unit" where
  "decision_request_validate r = all_ok ([
     nonempty (dr_gov_tx_id r) ''gov_tx_id'',
     nonempty (dr_session_id r) ''session_id'',
     nonempty (dr_principal_fingerprint r) ''principal_fingerprint'',
     nonempty (dr_sentinel_verdict_id r) ''sentinel_verdict_id'',
     nonempty (dr_policy_hash r) ''policy_hash'',
     nonempty (dr_run_id r) ''run_id'',
     nonempty (dr_context_hash r) ''context_hash'',
     nonempty (dr_policy_version r) ''policy_version'',
     guard_ok (is_sha256_hex (dr_context_hash r)) (MalformedDigest ''context_hash''),
     guard_ok (is_sha256_hex (dr_policy_hash r)) (MalformedDigest ''policy_hash'')] @
     (if dr_authority r = AUTHORITY_PROVIDER_EXECUTE then
       [nonempty (dr_backend r) ''backend'',
        nonempty (dr_model r) ''model'',
        nonempty (dr_action_class r) ''action_class'']
      else if dr_authority r = AUTHORITY_ACTION_EXECUTE then
       [nonempty (dr_action_hash r) ''action_hash'',
        nonempty (dr_tool_name r) ''tool_name'',
        nonempty (dr_resource_kind r) ''resource_kind'',
        nonempty (dr_resource_locator r) ''resource_locator'',
        nonempty (dr_tool_call_id r) ''tool_call_id'',
        nonempty (dr_normalized_action r) ''normalized_action'',
        guard_ok (is_sha256_hex (dr_action_hash r)) (MalformedDigest ''action_hash'')]
      else [Inl WrongAuthority]))"

definition same_scope :: "decision_request \<Rightarrow> decision \<Rightarrow> bool" where
  "same_scope r d \<longleftrightarrow>
     dc_session_id d = dr_session_id r \<and>
     dc_principal_fingerprint d = dr_principal_fingerprint r \<and>
     dc_backend d = dr_backend r \<and>
     dc_model d = dr_model r \<and>
     dc_action_class d = dr_action_class r \<and>
     dc_run_id d = dr_run_id r \<and>
     dc_context_hash d = dr_context_hash r \<and>
     dc_policy_version d = dr_policy_version r \<and>
     dc_action_hash d = dr_action_hash r \<and>
     dc_tool_name d = dr_tool_name r \<and>
     dc_resource_kind d = dr_resource_kind r \<and>
     dc_resource_locator d = dr_resource_locator r \<and>
     dc_tool_call_id d = dr_tool_call_id r \<and>
     dc_action_plane d = dr_action_plane r \<and>
     dc_normalized_action d = dr_normalized_action r \<and>
     dc_required_for_safe_completion d = dr_required_for_safe_completion r"

section \<open>Tokens\<close>

record capability_token =
  ct_token_id :: string
  ct_haap_decision_id :: string
  ct_gov_tx_id :: string
  ct_session_id :: string
  ct_principal_fingerprint :: string
  ct_authority :: string
  ct_backend :: string
  ct_model :: string
  ct_action_class :: string
  ct_sentinel_verdict_id :: string
  ct_policy_hash :: string
  ct_issued_at :: int
  ct_expires_at :: int
  ct_max_uses :: u32
  ct_use_count :: u32
  ct_signature :: string
  ct_run_id :: string
  ct_context_hash :: string
  ct_policy_version :: string
  ct_action_hash :: string
  ct_tool_name :: string
  ct_resource_kind :: string
  ct_resource_locator :: string
  ct_tool_call_id :: string
  ct_action_plane :: action_plane
  ct_normalized_action :: string
  ct_required_for_safe_completion :: bool

definition ct_fields :: "capability_token \<Rightarrow> string list" where
  "ct_fields t =
     [ct_token_id t, ct_haap_decision_id t, ct_gov_tx_id t, ct_session_id t,
      ct_principal_fingerprint t, ct_authority t, ct_backend t, ct_model t, ct_action_class t,
      ct_sentinel_verdict_id t, ct_policy_hash t, show_int (timestamp (ct_issued_at t)),
      show_int (timestamp (ct_expires_at t)), show_nat (unat (ct_max_uses t)), ct_run_id t,
      ct_context_hash t, ct_policy_version t, ct_action_hash t, ct_tool_name t,
      ct_resource_kind t, ct_resource_locator t, ct_tool_call_id t,
      plane_str (ct_action_plane t), ct_normalized_action t,
      show_bool (ct_required_for_safe_completion t)]"

definition ct_canonical :: "capability_token \<Rightarrow> string" where
  "ct_canonical t = join bar (ct_fields t)"

datatype issue_outcome = Issued capability_token | DecisionNotFound | AlreadyIssued

datatype consume_outcome = Authorized | NotFound | SignatureInvalid | AlreadyConsumed | Expired
  | TransactionMismatch | SessionMismatch | PrincipalMismatch | AuthorityMismatch
  | BackendMismatch | ModelMismatch | RunMismatch | ContextHashMismatch | PolicyVersionMismatch
  | PolicyHashMismatch | ActionHashMismatch | ToolMismatch | ResourceMismatch
  | ToolCallIdMismatch | PlaneMismatch

definition consume_authorized :: "consume_outcome \<Rightarrow> bool" where
  "consume_authorized c \<longleftrightarrow> c = Authorized"

fun as_audit_str :: "consume_outcome \<Rightarrow> string" where
  "as_audit_str Authorized = ''CAPABILITY_CONSUMED''"
| "as_audit_str NotFound = ''CAPABILITY_NOT_FOUND''"
| "as_audit_str SignatureInvalid = ''CAPABILITY_SIGNATURE_INVALID''"
| "as_audit_str AlreadyConsumed = ''CAPABILITY_REPLAY_REJECTED''"
| "as_audit_str Expired = ''CAPABILITY_EXPIRED''"
| "as_audit_str TransactionMismatch = ''CAPABILITY_TX_MISMATCH''"
| "as_audit_str SessionMismatch = ''CAPABILITY_SESSION_MISMATCH''"
| "as_audit_str PrincipalMismatch = ''CAPABILITY_PRINCIPAL_MISMATCH''"
| "as_audit_str AuthorityMismatch = ''CAPABILITY_AUTHORITY_MISMATCH''"
| "as_audit_str BackendMismatch = ''CAPABILITY_BACKEND_MISMATCH''"
| "as_audit_str ModelMismatch = ''CAPABILITY_MODEL_MISMATCH''"
| "as_audit_str RunMismatch = ''CAPABILITY_RUN_MISMATCH''"
| "as_audit_str ContextHashMismatch = ''CAPABILITY_CONTEXT_HASH_MISMATCH''"
| "as_audit_str PolicyVersionMismatch = ''CAPABILITY_POLICY_VERSION_MISMATCH''"
| "as_audit_str PolicyHashMismatch = ''CAPABILITY_POLICY_HASH_MISMATCH''"
| "as_audit_str ActionHashMismatch = ''CAPABILITY_ACTION_HASH_MISMATCH''"
| "as_audit_str ToolMismatch = ''CAPABILITY_TOOL_MISMATCH''"
| "as_audit_str ResourceMismatch = ''CAPABILITY_RESOURCE_MISMATCH''"
| "as_audit_str ToolCallIdMismatch = ''CAPABILITY_TOOL_CALL_ID_MISMATCH''"
| "as_audit_str PlaneMismatch = ''CAPABILITY_PLANE_MISMATCH''"

record presented_binding =
  pb_token_id :: string
  pb_gov_tx_id :: string
  pb_session_id :: string
  pb_principal_fingerprint :: string
  pb_authority :: string
  pb_backend :: string
  pb_model :: string
  pb_run_id :: string
  pb_context_hash :: string
  pb_policy_version :: string
  pb_policy_hash :: string
  pb_action_hash :: string
  pb_tool_name :: string
  pb_resource_kind :: string
  pb_resource_locator :: string
  pb_tool_call_id :: string
  pb_plane :: string

section \<open>The store\<close>

record capability_store =
  cs_decisions :: "decision hashmap"
  cs_capabilities :: "capability_token hashmap"
  cs_decision_by_tx :: "string hashmap"
  cs_default_ttl_secs :: int

definition tx_key :: "string \<Rightarrow> string \<Rightarrow> string" where
  "tx_key gov_tx_id authority = gov_tx_id @ bar @ authority"

definition capability_store_new :: capability_store where
  "capability_store_new = \<lparr>cs_decisions = [], cs_capabilities = [], cs_decision_by_tx = [],
     cs_default_ttl_secs = 30\<rparr>"

definition with_ttl_secs :: "int \<Rightarrow> capability_store \<Rightarrow> capability_error + capability_store" where
  "with_ttl_secs ttl st =
     (if ttl \<le> 0 then Inl InvalidTtl else Inr (st\<lparr>cs_default_ttl_secs := ttl\<rparr>))"

definition decision_of_request :: "string \<Rightarrow> int \<Rightarrow> decision_request \<Rightarrow> decision" where
  "decision_of_request i authorized_at r =
     \<lparr>dc_decision_id = i, dc_gov_tx_id = dr_gov_tx_id r, dc_session_id = dr_session_id r,
      dc_principal_fingerprint = dr_principal_fingerprint r, dc_authority = dr_authority r,
      dc_backend = dr_backend r, dc_model = dr_model r, dc_action_class = dr_action_class r,
      dc_sentinel_verdict_id = dr_sentinel_verdict_id r, dc_policy_hash = dr_policy_hash r,
      dc_authorization_basis = dr_authorization_basis r, dc_agency = dr_agency r,
      dc_drs = dr_drs r, dc_authorized_at = authorized_at, dc_issued = False, dc_run_id = dr_run_id r,
      dc_context_hash = dr_context_hash r, dc_policy_version = dr_policy_version r,
      dc_action_hash = dr_action_hash r, dc_tool_name = dr_tool_name r,
      dc_resource_kind = dr_resource_kind r, dc_resource_locator = dr_resource_locator r,
      dc_tool_call_id = dr_tool_call_id r, dc_action_plane = dr_action_plane r,
      dc_normalized_action = dr_normalized_action r,
      dc_required_for_safe_completion = dr_required_for_safe_completion r\<rparr>"

definition record_decision :: "externs \<Rightarrow> decision_request \<Rightarrow> capability_store \<Rightarrow> world \<Rightarrow>
    (capability_error + string) \<times> capability_store \<times> world" where
  "record_decision X r st w =
     (case decision_request_validate r of
        Inl e \<Rightarrow> (Inl e, st, w)
      | Inr _ \<Rightarrow>
          let key = tx_key (dr_gov_tx_id r) (dr_authority r) in
          (case hm_get (cs_decision_by_tx st) key of
             Some existing_id \<Rightarrow>
               (case hm_get (cs_decisions st) existing_id of
                  None \<Rightarrow> (Inl IndexInvariantPanic, st, w)
                | Some existing \<Rightarrow>
                    if same_scope r existing then (Inr existing_id, st, w)
                    else (Inl TransactionScopeConflict, st, w))
           | None \<Rightarrow>
               let decision_id = ''DEC-'' @ uuid_simple X (ids w);
                   d = decision_of_request decision_id (now X w) r
               in (Inr decision_id,
                   st\<lparr>cs_decisions := hm_insert decision_id d (cs_decisions st),
                      cs_decision_by_tx := hm_insert key decision_id (cs_decision_by_tx st)\<rparr>,
                   tick (draw_id w))))"

definition token_of_decision :: "string \<Rightarrow> int \<Rightarrow> int \<Rightarrow> decision \<Rightarrow> capability_token" where
  "token_of_decision i issued_at expires_at d =
     \<lparr>ct_token_id = i, ct_haap_decision_id = dc_decision_id d, ct_gov_tx_id = dc_gov_tx_id d,
      ct_session_id = dc_session_id d, ct_principal_fingerprint = dc_principal_fingerprint d,
      ct_authority = dc_authority d, ct_backend = dc_backend d, ct_model = dc_model d,
      ct_action_class = dc_action_class d, ct_sentinel_verdict_id = dc_sentinel_verdict_id d,
      ct_policy_hash = dc_policy_hash d, ct_issued_at = issued_at, ct_expires_at = expires_at,
      ct_max_uses = 1, ct_use_count = 0, ct_signature = [], ct_run_id = dc_run_id d,
      ct_context_hash = dc_context_hash d, ct_policy_version = dc_policy_version d,
      ct_action_hash = dc_action_hash d, ct_tool_name = dc_tool_name d,
      ct_resource_kind = dc_resource_kind d, ct_resource_locator = dc_resource_locator d,
      ct_tool_call_id = dc_tool_call_id d, ct_action_plane = dc_action_plane d,
      ct_normalized_action = dc_normalized_action d,
      ct_required_for_safe_completion = dc_required_for_safe_completion d\<rparr>"

definition issue_after_authorization :: "externs \<Rightarrow> string \<Rightarrow> capability_store \<Rightarrow> world \<Rightarrow>
    issue_outcome \<times> capability_store \<times> world" where
  "issue_after_authorization X decision_id st w =
     (case hm_get (cs_decisions st) decision_id of
        None \<Rightarrow> (DecisionNotFound, st, w)
      | Some d \<Rightarrow>
          if dc_issued d then (AlreadyIssued, st, w)
          else
            let token_id = ''CAP-'' @ uuid_simple X (ids w);
                issued_at = now X w;
                expires_at = issued_at + secs (cs_default_ttl_secs st);
                unsigned = token_of_decision token_id issued_at expires_at d;
                token = unsigned\<lparr>ct_signature := engine_sign X (eng w) (ct_canonical unsigned)\<rparr>
            in (Issued token,
                st\<lparr>cs_decisions := hm_modify decision_id (\<lambda>d. d\<lparr>dc_issued := True\<rparr>) (cs_decisions st),
                   cs_capabilities := hm_insert token_id token (cs_capabilities st)\<rparr>,
                tick (draw_id w)))"

text \<open>The scope checks of \<open>consume\<close>, in order: the first that fails names the outcome.\<close>

definition binding_checks :: "capability_token \<Rightarrow> presented_binding \<Rightarrow> (bool \<times> consume_outcome) list"
  where
  "binding_checks t p =
     [(ct_authority t \<in> {AUTHORITY_PROVIDER_EXECUTE, AUTHORITY_ACTION_EXECUTE} \<and>
         ct_authority t = pb_authority p, AuthorityMismatch),
      (ct_principal_fingerprint t = pb_principal_fingerprint p, PrincipalMismatch),
      (ct_gov_tx_id t = pb_gov_tx_id p, TransactionMismatch),
      (ct_session_id t = pb_session_id p, SessionMismatch),
      (ct_run_id t = pb_run_id p, RunMismatch),
      (ct_context_hash t = pb_context_hash p, ContextHashMismatch),
      (ct_policy_version t = pb_policy_version p, PolicyVersionMismatch),
      (ct_policy_hash t = pb_policy_hash p, PolicyHashMismatch),
      (ct_backend t = pb_backend p, BackendMismatch),
      (ct_model t = pb_model p, ModelMismatch)] @
     (if ct_authority t = AUTHORITY_ACTION_EXECUTE then
        [(ct_action_hash t = pb_action_hash p, ActionHashMismatch),
         (ct_tool_name t = pb_tool_name p, ToolMismatch),
         (ct_resource_kind t = pb_resource_kind p \<and> ct_resource_locator t = pb_resource_locator p,
            ResourceMismatch),
         (ct_tool_call_id t = pb_tool_call_id p, ToolCallIdMismatch),
         (plane_str (ct_action_plane t) = pb_plane p, PlaneMismatch)]
      else [])"

definition consume :: "externs \<Rightarrow> presented_binding \<Rightarrow> capability_store \<Rightarrow> world \<Rightarrow>
    consume_outcome \<times> capability_store \<times> world" where
  "consume X p st w =
     (case hm_get (cs_capabilities st) (pb_token_id p) of
        None \<Rightarrow> (NotFound, st, w)
      | Some t \<Rightarrow>
          if \<not> verify_ok X (eng w) (ct_canonical t) (ct_signature t) then (SignatureInvalid, st, w)
          else if ct_max_uses t \<le> ct_use_count t then (AlreadyConsumed, st, w)
          else if ct_expires_at t \<le> now X w then (Expired, st, tick w)
          else (case first_failure (binding_checks t p) of
                  Some out \<Rightarrow> (out, st, tick w)
                | None \<Rightarrow>
                    (Authorized,
                     st\<lparr>cs_capabilities := hm_modify (pb_token_id p)
                          (\<lambda>t. t\<lparr>ct_use_count := ct_use_count t + 1\<rparr>) (cs_capabilities st)\<rparr>,
                     tick w)))"

text \<open>\<open>retain\<close> reads the clock once per entry.\<close>

fun retain_unexpired :: "externs \<Rightarrow> world \<Rightarrow> capability_token hashmap \<Rightarrow>
    capability_token hashmap \<times> world" where
  "retain_unexpired X w [] = ([], w)"
| "retain_unexpired X w ((k, t) # m) =
     (let (m', w') = retain_unexpired X (tick w) m
      in (if now X w < ct_expires_at t then ((k, t) # m', w') else (m', w')))"

definition prune_expired :: "externs \<Rightarrow> capability_store \<Rightarrow> world \<Rightarrow>
    nat \<times> capability_store \<times> world" where
  "prune_expired X st w =
     (let (kept, w') = retain_unexpired X w (cs_capabilities st)
      in (length (cs_capabilities st) - length kept, st\<lparr>cs_capabilities := kept\<rparr>, w'))"

section \<open>Facts about the pieces\<close>

lemma binding_checks_pass:
  "first_failure (binding_checks t p) = None \<longleftrightarrow>
     ct_authority t \<in> {AUTHORITY_PROVIDER_EXECUTE, AUTHORITY_ACTION_EXECUTE} \<and>
     ct_authority t = pb_authority p \<and> ct_principal_fingerprint t = pb_principal_fingerprint p \<and>
     ct_gov_tx_id t = pb_gov_tx_id p \<and> ct_session_id t = pb_session_id p \<and>
     ct_run_id t = pb_run_id p \<and> ct_context_hash t = pb_context_hash p \<and>
     ct_policy_version t = pb_policy_version p \<and> ct_policy_hash t = pb_policy_hash p \<and>
     ct_backend t = pb_backend p \<and> ct_model t = pb_model p \<and>
     (ct_authority t = AUTHORITY_ACTION_EXECUTE \<longrightarrow>
        ct_action_hash t = pb_action_hash p \<and> ct_tool_name t = pb_tool_name p \<and>
        ct_resource_kind t = pb_resource_kind p \<and> ct_resource_locator t = pb_resource_locator p \<and>
        ct_tool_call_id t = pb_tool_call_id p \<and> plane_str (ct_action_plane t) = pb_plane p)"
  by (auto simp: first_failure_None binding_checks_def)

lemma binding_checks_not_authorized:
  "first_failure (binding_checks t p) = Some out \<Longrightarrow> out \<noteq> Authorized"
proof -
  have m: "first_failure cs = Some out \<Longrightarrow> out \<in> snd ` set cs" for cs :: "(bool \<times> 'o) list" and out
    by (induction cs) (auto split: if_splits)
  assume "first_failure (binding_checks t p) = Some out"
  from m [OF this] show ?thesis by (auto simp: binding_checks_def split: if_splits)
qed

lemma consume_authorized_iff:
  "fst (consume X p st w) = Authorized \<longleftrightarrow>
     (\<exists>t. hm_get (cs_capabilities st) (pb_token_id p) = Some t \<and>
        verify_ok X (eng w) (ct_canonical t) (ct_signature t) \<and> ct_use_count t < ct_max_uses t \<and>
        now X w < ct_expires_at t \<and> first_failure (binding_checks t p) = None)"
  by (auto simp: consume_def not_le dest: binding_checks_not_authorized split: option.splits)

text \<open>What \<open>consume\<close> leaves of the store: only an authorized token changes, by one use.\<close>

lemma consume_store:
  "fst (snd (consume X p st w)) =
     (if fst (consume X p st w) = Authorized
      then st\<lparr>cs_capabilities := hm_modify (pb_token_id p)
             (\<lambda>t. t\<lparr>ct_use_count := ct_use_count t + 1\<rparr>) (cs_capabilities st)\<rparr>
      else st)"
  by (auto simp: consume_def dest: binding_checks_not_authorized split: option.splits)

lemma consume_world: "world_le w (snd (snd (consume X p st w)))"
  by (auto simp: consume_def split: option.splits)

lemma retain_unexpired_world: "world_le w (snd (retain_unexpired X w m))"
proof (induction m arbitrary: w)
  case (Cons e m)
  obtain k t where "e = (k, t)" by (cases e)
  with Cons [of "tick w"] show ?case
    by (auto simp: Let_def split_def intro: world_le_trans [OF world_le_tick(1)])
qed simp

lemma retain_unexpired_subset:
  "set (fst (retain_unexpired X w m)) \<subseteq> set m \<and>
   (distinct (map fst m) \<longrightarrow> distinct (map fst (fst (retain_unexpired X w m))))"
proof (induction m arbitrary: w)
  case (Cons e m)
  obtain k t where e: "e = (k, t)" by (cases e)
  from Cons [of "tick w"] show ?case
    by (auto simp: e Let_def split_def)
qed simp

lemma prune_get:
  assumes "hm_ok (cs_capabilities st)"
    "hm_get (cs_capabilities (fst (snd (prune_expired X st w)))) k = Some t"
  shows "hm_get (cs_capabilities st) k = Some t"
proof -
  have "(k, t) \<in> set (fst (retain_unexpired X w (cs_capabilities st)))"
    using assms(2) by (auto simp: prune_expired_def split_def Let_def intro: hm_get_in_set)
  then have "(k, t) \<in> set (cs_capabilities st)" using retain_unexpired_subset by blast
  with assms(1) show ?thesis by (simp add: hm_get_def hm_ok_def)
qed

lemma prune_frame [simp]:
  "cs_decisions (fst (snd (prune_expired X st w))) = cs_decisions st"
  "cs_decision_by_tx (fst (snd (prune_expired X st w))) = cs_decision_by_tx st"
  by (simp_all add: prune_expired_def split_def Let_def)

text \<open>
  The key of the decision index is ambiguous in general, but not for the two authorities a
  validated request can carry.
\<close>

lemma authority_no_bar:
  "a \<in> {AUTHORITY_PROVIDER_EXECUTE, AUTHORITY_ACTION_EXECUTE} \<Longrightarrow> CHR ''|'' \<notin> set a"
  by (auto simp: authority_defs)

lemma tx_key_inject:
  assumes "CHR ''|'' \<notin> set a" "CHR ''|'' \<notin> set b" "tx_key x a = tx_key y b"
  shows "x = y \<and> a = b"
proof -
  have "rev a @ CHR ''|'' # rev x = rev b @ CHR ''|'' # rev y"
    using arg_cong [OF assms(3), of rev] by (simp add: tx_key_def bar_def)
  with assms(1,2) have "rev a = rev b \<and> rev x = rev y"
    by (intro append_delim_eq) auto
  then show ?thesis by simp
qed

lemma validate_authority:
  "decision_request_validate r = Inr u \<Longrightarrow>
     dr_authority r \<in> {AUTHORITY_PROVIDER_EXECUTE, AUTHORITY_ACTION_EXECUTE}"
  by (auto simp: decision_request_validate_def all_ok_iff split: if_splits)

section \<open>The invariant of the store\<close>

definition token_scope :: "capability_token \<Rightarrow> decision \<Rightarrow> bool" where
  "token_scope t d \<longleftrightarrow>
     ct_haap_decision_id t = dc_decision_id d \<and> ct_gov_tx_id t = dc_gov_tx_id d \<and>
     ct_session_id t = dc_session_id d \<and>
     ct_principal_fingerprint t = dc_principal_fingerprint d \<and>
     ct_authority t = dc_authority d \<and> ct_backend t = dc_backend d \<and> ct_model t = dc_model d \<and>
     ct_action_class t = dc_action_class d \<and>
     ct_sentinel_verdict_id t = dc_sentinel_verdict_id d \<and> ct_policy_hash t = dc_policy_hash d \<and>
     ct_run_id t = dc_run_id d \<and> ct_context_hash t = dc_context_hash d \<and>
     ct_policy_version t = dc_policy_version d \<and> ct_action_hash t = dc_action_hash d \<and>
     ct_tool_name t = dc_tool_name d \<and> ct_resource_kind t = dc_resource_kind d \<and>
     ct_resource_locator t = dc_resource_locator d \<and> ct_tool_call_id t = dc_tool_call_id d \<and>
     ct_action_plane t = dc_action_plane d \<and> ct_normalized_action t = dc_normalized_action d \<and>
     ct_required_for_safe_completion t = dc_required_for_safe_completion d"

definition drawn_id :: "externs \<Rightarrow> world \<Rightarrow> string \<Rightarrow> string \<Rightarrow> bool" where
  "drawn_id X w pre i \<longleftrightarrow> (\<exists>n < ids w. i = pre @ uuid_simple X n)"

definition decisions_inv :: "externs \<Rightarrow> capability_store \<times> world \<Rightarrow> bool" where
  "decisions_inv X = (\<lambda>(st, w).
     (\<forall>k i. hm_get (cs_decision_by_tx st) k = Some i \<longrightarrow>
        (\<exists>d. hm_get (cs_decisions st) i = Some d \<and> k = tx_key (dc_gov_tx_id d) (dc_authority d))) \<and>
     (\<forall>i d. hm_get (cs_decisions st) i = Some d \<longrightarrow> dc_decision_id d = i \<and> drawn_id X w ''DEC-'' i \<and>
        dc_authority d \<in> {AUTHORITY_PROVIDER_EXECUTE, AUTHORITY_ACTION_EXECUTE} \<and>
        hm_get (cs_decision_by_tx st) (tx_key (dc_gov_tx_id d) (dc_authority d)) = Some i))"

definition tokens_inv :: "externs \<Rightarrow> capability_store \<times> world \<Rightarrow> bool" where
  "tokens_inv X = (\<lambda>(st, w). hm_ok (cs_capabilities st) \<and>
     (\<forall>k t. hm_get (cs_capabilities st) k = Some t \<longrightarrow>
        ct_token_id t = k \<and> drawn_id X w ''CAP-'' k \<and> ct_max_uses t = 1 \<and> ct_use_count t \<le> 1 \<and>
        verify_ok X (eng w) (ct_canonical t) (ct_signature t) \<and>
        (\<exists>d. hm_get (cs_decisions st) (ct_haap_decision_id t) = Some d \<and> dc_issued d \<and>
           token_scope t d)))"

definition cap_inv :: "externs \<Rightarrow> capability_store \<times> world \<Rightarrow> bool" where
  "cap_inv X s \<longleftrightarrow> engine_ok X (eng (snd s)) \<and> decisions_inv X s \<and> tokens_inv X s"

lemma drawn_id_mono: "world_le w w' \<Longrightarrow> drawn_id X w p i \<Longrightarrow> drawn_id X w' p i"
  by (auto simp: drawn_id_def world_le_def intro: less_le_trans)

lemma world_le_verify: "world_le w w' \<Longrightarrow> verify_ok X (eng w') = verify_ok X (eng w)"
  by (rule verify_ok_cong) (simp add: world_le_def)

lemma cap_inv_world: "cap_inv X (st, w) \<Longrightarrow> world_le w w' \<Longrightarrow> cap_inv X (st, w')"
proof -
  assume i: "cap_inv X (st, w)" and le: "world_le w w'"
  have d: "drawn_id X w p i \<Longrightarrow> drawn_id X w' p i" for p i by (rule drawn_id_mono [OF le])
  have "decisions_inv X (st, w')" "tokens_inv X (st, w')" 
    using i d unfolding cap_inv_def decisions_inv_def tokens_inv_def split world_le_verify [OF le]
    by blast+
  with i le show ?thesis by (simp add: cap_inv_def world_le_engine_ok)
qed

lemma cap_inv_new: "engine_ok X (eng w) \<Longrightarrow> cap_inv X (capability_store_new, w)"
  by (simp add: cap_inv_def decisions_inv_def tokens_inv_def capability_store_new_def)

lemma drawn_fresh:
  assumes "uuid_laws X" "drawn_id X w p i"
  shows "i \<noteq> p @ uuid_simple X (ids w)"
  using assms by (auto simp: drawn_id_def uuid_laws_def dest: injD)

lemma drawn_id_next: "drawn_id X (tick (draw_id w)) p (p @ uuid_simple X (ids w))"
  by (auto simp: drawn_id_def)

lemma record_decision_new:
  assumes "decision_request_validate r = Inr ()"
    "hm_get (cs_decision_by_tx st) (tx_key (dr_gov_tx_id r) (dr_authority r)) = None"
  shows "record_decision X r st w =
    (let decision_id = ''DEC-'' @ uuid_simple X (ids w);
         d = decision_of_request decision_id (now X w) r
     in (Inr decision_id,
         st\<lparr>cs_decisions := hm_insert decision_id d (cs_decisions st),
            cs_decision_by_tx := hm_insert (tx_key (dr_gov_tx_id r) (dr_authority r)) decision_id
              (cs_decision_by_tx st)\<rparr>,
         tick (draw_id w)))"
  using assms by (simp add: record_decision_def Let_def)

text \<open>Recording either leaves everything alone or inserts one fresh decision.\<close>

lemma record_decision_unchanged:
  assumes "\<not> (decision_request_validate r = Inr () \<and>
    hm_get (cs_decision_by_tx st) (tx_key (dr_gov_tx_id r) (dr_authority r)) = None)"
  shows "snd (record_decision X r st w) = (st, w)"
  using assms by (auto simp: record_decision_def Let_def split: sum.splits option.splits)

lemma decision_of_request_sel [simp]:
  "dc_decision_id (decision_of_request i t r) = i"
  "dc_gov_tx_id (decision_of_request i t r) = dr_gov_tx_id r"
  "dc_authority (decision_of_request i t r) = dr_authority r"
  "dc_issued (decision_of_request i t r) = False"
  by (simp_all add: decision_of_request_def)

lemma decisions_inv_insert:
  assumes inv: "decisions_inv X (st, w)" and "hm_get (cs_decisions st) i = None"
    and "hm_get (cs_decision_by_tx st) k = None" and k: "k = tx_key (dc_gov_tx_id d) (dc_authority d)"
    and new: "dc_decision_id d = i" "drawn_id X w ''DEC-'' i"
      "dc_authority d \<in> {AUTHORITY_PROVIDER_EXECUTE, AUTHORITY_ACTION_EXECUTE}"
  shows "decisions_inv X (st\<lparr>cs_decisions := hm_insert i d (cs_decisions st),
            cs_decision_by_tx := hm_insert k i (cs_decision_by_tx st)\<rparr>, w)"
  unfolding decisions_inv_def split
proof (intro conjI allI impI)
  let ?st = "st\<lparr>cs_decisions := hm_insert i d (cs_decisions st),
            cs_decision_by_tx := hm_insert k i (cs_decision_by_tx st)\<rparr>"
  fix k' j assume j: "hm_get (cs_decision_by_tx ?st) k' = Some j"
  show "\<exists>e. hm_get (cs_decisions ?st) j = Some e \<and> k' = tx_key (dc_gov_tx_id e) (dc_authority e)"
  proof (cases "k' = k")
    case True
    with j k show ?thesis by simp
  next
    case False
    with j inv obtain e where "hm_get (cs_decisions st) j = Some e"
      "k' = tx_key (dc_gov_tx_id e) (dc_authority e)"
      unfolding decisions_inv_def split by auto
    with assms(2) show ?thesis by (auto intro!: exI [of _ e])
  qed
next
  let ?st = "st\<lparr>cs_decisions := hm_insert i d (cs_decisions st),
            cs_decision_by_tx := hm_insert k i (cs_decision_by_tx st)\<rparr>"
  fix j e assume e: "hm_get (cs_decisions ?st) j = Some e"
  have old: "dc_decision_id e = j \<and> drawn_id X w ''DEC-'' j \<and>
      dc_authority e \<in> {AUTHORITY_PROVIDER_EXECUTE, AUTHORITY_ACTION_EXECUTE} \<and>
      hm_get (cs_decision_by_tx st) (tx_key (dc_gov_tx_id e) (dc_authority e)) = Some j" if "j \<noteq> i"
    using that e inv unfolding decisions_inv_def split by simp
  have "e = d" if "j = i" using that e by simp
  then show "dc_decision_id e = j" "drawn_id X w ''DEC-'' j"
    "dc_authority e \<in> {AUTHORITY_PROVIDER_EXECUTE, AUTHORITY_ACTION_EXECUTE}"
    "hm_get (cs_decision_by_tx ?st) (tx_key (dc_gov_tx_id e) (dc_authority e)) = Some j"
    using old new k assms(3) by (cases "j = i"; auto)+
qed

lemma tokens_inv_insert_decision:
  assumes "tokens_inv X (st, w)" "hm_get (cs_decisions st) i = None"
  shows "tokens_inv X (st\<lparr>cs_decisions := hm_insert i d (cs_decisions st), cs_decision_by_tx := m\<rparr>, w)"
proof -
  have "ct_haap_decision_id t \<noteq> i" if "hm_get (cs_capabilities st) k = Some t" for k t
    using assms that unfolding tokens_inv_def split by fastforce
  with assms(1) show ?thesis unfolding tokens_inv_def split by simp
qed

lemma decision_id_fresh:
  assumes "uuid_laws X" "decisions_inv X (st, w)"
  shows "hm_get (cs_decisions st) (''DEC-'' @ uuid_simple X (ids w)) = None"
proof (rule ccontr)
  assume "hm_get (cs_decisions st) (''DEC-'' @ uuid_simple X (ids w)) \<noteq> None"
  with assms(2) have "drawn_id X w ''DEC-'' (''DEC-'' @ uuid_simple X (ids w))"
    unfolding decisions_inv_def split by blast
  with drawn_fresh [OF assms(1)] show False by blast
qed

lemma record_decision_inv:
  assumes "uuid_laws X" "cap_inv X (st, w)"
  shows "cap_inv X (snd (record_decision X r st w))"
proof (cases "decision_request_validate r = Inr () \<and>
    hm_get (cs_decision_by_tx st) (tx_key (dr_gov_tx_id r) (dr_authority r)) = None")
  case False
  with record_decision_unchanged [OF this] assms(2) show ?thesis by simp
next
  case True
  let ?i = "''DEC-'' @ uuid_simple X (ids w)" and ?w = "tick (draw_id w)"
  have le: "world_le w ?w" using world_le_trans world_le_tick by blast
  have inv: "decisions_inv X (st, ?w)" "tokens_inv X (st, ?w)"
    using cap_inv_world [OF assms(2) le] by (simp_all add: cap_inv_def)
  have fresh: "hm_get (cs_decisions st) ?i = None"
    using decision_id_fresh [OF assms(1)] assms(2) by (simp add: cap_inv_def)
  have "drawn_id X ?w ''DEC-'' ?i" by (rule drawn_id_next)
  with True fresh have "decisions_inv X (snd (record_decision X r st w))"
    unfolding record_decision_new [OF conjunct1 [OF True] conjunct2 [OF True]] Let_def snd_conv
    by (intro decisions_inv_insert [OF inv(1)]) (simp_all add: validate_authority [simplified])
  moreover have "tokens_inv X (snd (record_decision X r st w))"
    unfolding record_decision_new [OF conjunct1 [OF True] conjunct2 [OF True]] Let_def snd_conv
    by (rule tokens_inv_insert_decision [OF inv(2) fresh])
  moreover have "eng (snd (snd (record_decision X r st w))) = eng w"
    unfolding record_decision_new [OF conjunct1 [OF True] conjunct2 [OF True]] by (simp add: Let_def)
  ultimately show ?thesis using assms(2) by (simp add: cap_inv_def)
qed

definition issued_token :: "externs \<Rightarrow> capability_store \<Rightarrow> world \<Rightarrow> decision \<Rightarrow> capability_token" where
  "issued_token X st w d =
     (let unsigned = token_of_decision (''CAP-'' @ uuid_simple X (ids w)) (now X w)
            (now X w + secs (cs_default_ttl_secs st)) d
      in unsigned\<lparr>ct_signature := engine_sign X (eng w) (ct_canonical unsigned)\<rparr>)"

lemma issue_outcome_cases:
  "issue_after_authorization X i st w =
     (case hm_get (cs_decisions st) i of
        None \<Rightarrow> (DecisionNotFound, st, w)
      | Some d \<Rightarrow> if dc_issued d then (AlreadyIssued, st, w)
          else (Issued (issued_token X st w d),
                st\<lparr>cs_decisions := hm_modify i (\<lambda>d. d\<lparr>dc_issued := True\<rparr>) (cs_decisions st),
                   cs_capabilities := hm_insert (''CAP-'' @ uuid_simple X (ids w))
                     (issued_token X st w d) (cs_capabilities st)\<rparr>,
                tick (draw_id w)))"
  by (simp add: issue_after_authorization_def issued_token_def Let_def split: option.split)

lemma ct_canonical_signature [simp]:
  "ct_canonical (t\<lparr>ct_signature := s\<rparr>) = ct_canonical t"
  "ct_canonical (t\<lparr>ct_use_count := u\<rparr>) = ct_canonical t"
  by (simp_all add: ct_canonical_def ct_fields_def)

lemma issued_token_fields [simp]:
  "ct_token_id (issued_token X st w d) = ''CAP-'' @ uuid_simple X (ids w)"
  "ct_max_uses (issued_token X st w d) = 1" "ct_use_count (issued_token X st w d) = 0"
  "ct_haap_decision_id (issued_token X st w d) = dc_decision_id d"
  "ct_expires_at (issued_token X st w d) = now X w + secs (cs_default_ttl_secs st)"
  by (simp_all add: issued_token_def token_of_decision_def Let_def)

lemma issued_token_signature [simp]:
  "ct_signature (issued_token X st w d) =
     engine_sign X (eng w) (ct_canonical (issued_token X st w d))"
  by (simp add: issued_token_def Let_def)

lemma issued_token_scope: "token_scope (issued_token X st w d) d"
  by (simp add: issued_token_def token_of_decision_def token_scope_def Let_def)

lemma token_scope_issued [simp]:
  "token_scope t (d\<lparr>dc_issued := b\<rparr>) = token_scope t d"
  "token_scope (t\<lparr>ct_use_count := u\<rparr>) d = token_scope t d"
  by (simp_all add: token_scope_def)

lemma decisions_inv_mark:
  assumes "decisions_inv X (st, w)"
  shows "decisions_inv X (st\<lparr>cs_decisions := hm_modify i (\<lambda>d. d\<lparr>dc_issued := True\<rparr>) (cs_decisions st),
     cs_capabilities := m\<rparr>, w)"
proof -
  let ?m = "hm_modify i (\<lambda>d. d\<lparr>dc_issued := True\<rparr>) (cs_decisions st)"
  have fwd: "\<exists>e. hm_get ?m j = Some e \<and> dc_gov_tx_id e = dc_gov_tx_id d \<and> dc_authority e = dc_authority d"
    if "hm_get (cs_decisions st) j = Some d" for j d
    using that by (cases "j = i") (simp_all add: hm_get_modify)
  have bwd: "\<exists>d. hm_get (cs_decisions st) j = Some d \<and> dc_gov_tx_id e = dc_gov_tx_id d \<and>
      dc_authority e = dc_authority d \<and> dc_decision_id e = dc_decision_id d"
    if "hm_get ?m j = Some e" for j e
    using that by (auto simp: hm_get_modify split: if_splits)
  have "(\<forall>k j. hm_get (cs_decision_by_tx st) k = Some j \<longrightarrow>
        (\<exists>d. hm_get ?m j = Some d \<and> k = tx_key (dc_gov_tx_id d) (dc_authority d)))"
    using assms fwd unfolding decisions_inv_def split by metis
  moreover have "(\<forall>j d. hm_get ?m j = Some d \<longrightarrow> dc_decision_id d = j \<and> drawn_id X w ''DEC-'' j \<and>
        dc_authority d \<in> {AUTHORITY_PROVIDER_EXECUTE, AUTHORITY_ACTION_EXECUTE} \<and>
        hm_get (cs_decision_by_tx st) (tx_key (dc_gov_tx_id d) (dc_authority d)) = Some j)"
  proof (intro allI impI)
    fix j e assume "hm_get ?m j = Some e"
    from bwd [OF this] obtain d where d: "hm_get (cs_decisions st) j = Some d"
      "dc_gov_tx_id e = dc_gov_tx_id d" "dc_authority e = dc_authority d"
      "dc_decision_id e = dc_decision_id d" by blast
    from assms d(1) have "dc_decision_id d = j \<and> drawn_id X w ''DEC-'' j \<and>
        dc_authority d \<in> {AUTHORITY_PROVIDER_EXECUTE, AUTHORITY_ACTION_EXECUTE} \<and>
        hm_get (cs_decision_by_tx st) (tx_key (dc_gov_tx_id d) (dc_authority d)) = Some j"
      unfolding decisions_inv_def split by blast
    with d show "dc_decision_id e = j \<and> drawn_id X w ''DEC-'' j \<and>
        dc_authority e \<in> {AUTHORITY_PROVIDER_EXECUTE, AUTHORITY_ACTION_EXECUTE} \<and>
        hm_get (cs_decision_by_tx st) (tx_key (dc_gov_tx_id e) (dc_authority e)) = Some j"
      by simp
  qed
  moreover have "cs_decisions (st\<lparr>cs_decisions := ?m, cs_capabilities := m\<rparr>) = ?m"
    "cs_decision_by_tx (st\<lparr>cs_decisions := ?m, cs_capabilities := m\<rparr>) = cs_decision_by_tx st"
    by simp_all
  ultimately show ?thesis unfolding decisions_inv_def split by presburger
qed

lemma tokens_inv_issue:
  assumes inv: "tokens_inv X (st, w)" and d: "hm_get (cs_decisions st) i = Some d"
    and t: "ct_token_id t = k" "drawn_id X w ''CAP-'' k" "ct_max_uses t = 1" "ct_use_count t \<le> 1"
      "verify_ok X (eng w) (ct_canonical t) (ct_signature t)" "token_scope t d"
      "ct_haap_decision_id t = i"
  shows "tokens_inv X (st\<lparr>cs_decisions := hm_modify i (\<lambda>d. d\<lparr>dc_issued := True\<rparr>) (cs_decisions st),
     cs_capabilities := hm_insert k t (cs_capabilities st)\<rparr>, w)"
  unfolding tokens_inv_def split
proof (intro conjI allI impI)
  let ?st = "st\<lparr>cs_decisions := hm_modify i (\<lambda>d. d\<lparr>dc_issued := True\<rparr>) (cs_decisions st),
     cs_capabilities := hm_insert k t (cs_capabilities st)\<rparr>"
  show "hm_ok (cs_capabilities ?st)" using inv by (simp add: tokens_inv_def)
  fix j u assume u: "hm_get (cs_capabilities ?st) j = Some u"
  have "ct_token_id u = j \<and> drawn_id X w ''CAP-'' j \<and> ct_max_uses u = 1 \<and> ct_use_count u \<le> 1 \<and>
      verify_ok X (eng w) (ct_canonical u) (ct_signature u) \<and>
      (\<exists>e. hm_get (cs_decisions st) (ct_haap_decision_id u) = Some e \<and> token_scope u e \<and>
         (dc_issued e \<or> ct_haap_decision_id u = i))"
  proof (cases "j = k")
    case True
    with u t d show ?thesis by auto
  next
    case False
    with u inv show ?thesis unfolding tokens_inv_def split by auto
  qed
  then show "ct_token_id u = j" "drawn_id X w ''CAP-'' j" "ct_max_uses u = 1" "ct_use_count u \<le> 1"
    "verify_ok X (eng w) (ct_canonical u) (ct_signature u)"
    "\<exists>e. hm_get (cs_decisions ?st) (ct_haap_decision_id u) = Some e \<and> dc_issued e \<and> token_scope u e"
    by (auto simp: hm_get_modify)
qed

lemma token_id_fresh:
  assumes "uuid_laws X" "tokens_inv X (st, w)"
  shows "hm_get (cs_capabilities st) (''CAP-'' @ uuid_simple X (ids w)) = None"
proof (rule ccontr)
  assume "hm_get (cs_capabilities st) (''CAP-'' @ uuid_simple X (ids w)) \<noteq> None"
  with assms(2) have "drawn_id X w ''CAP-'' (''CAP-'' @ uuid_simple X (ids w))"
    unfolding tokens_inv_def split by blast
  with drawn_fresh [OF assms(1)] show False by blast
qed

lemma issue_inv:
  assumes laws: "hex_laws X" "ed_laws X" and "cap_inv X (st, w)"
  shows "cap_inv X (snd (issue_after_authorization X i st w))"
proof (cases "\<exists>d. hm_get (cs_decisions st) i = Some d \<and> \<not> dc_issued d")
  case False
  with assms(3) show ?thesis by (auto simp: issue_outcome_cases split: option.splits)
next
  case True
  then obtain d where d: "hm_get (cs_decisions st) i = Some d" "\<not> dc_issued d" by blast
  let ?w = "tick (draw_id w)"
  have le: "world_le w ?w" using world_le_trans world_le_tick by blast
  have inv: "cap_inv X (st, ?w)" by (rule cap_inv_world [OF assms(3) le])
  then have eo: "engine_ok X (eng w)" and id: "dc_decision_id d = i"
    using d by (auto simp: cap_inv_def decisions_inv_def)
  let ?t = "issued_token X st w d"
  have "verify_ok X (eng ?w) (ct_canonical ?t) (ct_signature ?t)"
    using sign_verifies [OF laws eo] by simp
  moreover have "tokens_inv X (st, ?w)" using inv by (simp add: cap_inv_def)
  ultimately have "tokens_inv X (snd (issue_after_authorization X i st w))"
    using d id tokens_inv_issue [OF _ d(1) _ drawn_id_next [of X w "''CAP-''"], of ?t]
    by (simp add: issue_outcome_cases issued_token_scope del: token_scope_issued)
  moreover have "decisions_inv X (snd (issue_after_authorization X i st w))"
    using inv d by (simp add: issue_outcome_cases cap_inv_def decisions_inv_mark)
  ultimately show ?thesis using eo d by (simp add: cap_inv_def issue_outcome_cases)
qed

lemma consume_inv:
  assumes "cap_inv X (st, w)"
  shows "cap_inv X (snd (consume X p st w))"
proof -
  have inv: "cap_inv X (st, snd (snd (consume X p st w)))"
    by (rule cap_inv_world [OF assms consume_world])
  show ?thesis
  proof (cases "fst (consume X p st w) = Authorized")
    case False
    with inv show ?thesis by (metis consume_store prod.collapse)
  next
    case True
    then obtain t where t: "hm_get (cs_capabilities st) (pb_token_id p) = Some t"
      "ct_use_count t < ct_max_uses t" by (auto simp: consume_authorized_iff)
    from assms t(1) have "ct_max_uses t = 1" by (simp add: cap_inv_def tokens_inv_def)
    with t(2) have "ct_use_count t = 0" by (simp add: word_less_1)
    then have u: "ct_use_count t + 1 \<le> 1" by simp
    have s: "fst (snd (consume X p st w)) = st\<lparr>cs_capabilities := hm_modify (pb_token_id p)
        (\<lambda>t. t\<lparr>ct_use_count := ct_use_count t + 1\<rparr>) (cs_capabilities st)\<rparr>" (is "_ = ?st")
      using True by (simp add: consume_store)
    have "decisions_inv X (?st, w')" "tokens_inv X (?st, w')" if "cap_inv X (st, w')" for w'
      using that t(1) u unfolding cap_inv_def decisions_inv_def tokens_inv_def split
      by (auto simp: hm_get_modify split: if_splits)
    with inv have "cap_inv X (?st, snd (snd (consume X p st w)))" by (simp add: cap_inv_def)
    with s show ?thesis by (metis prod.collapse)
  qed
qed

lemma prune_inv:
  assumes "cap_inv X (st, w)"
  shows "cap_inv X (snd (prune_expired X st w))"
proof -
  have le: "world_le w (snd (snd (prune_expired X st w)))"
    using retain_unexpired_world by (simp add: prune_expired_def split_def Let_def)
  have inv: "cap_inv X (st, snd (snd (prune_expired X st w)))" by (rule cap_inv_world [OF assms le])
  have ok: "hm_ok (cs_capabilities st)" using assms by (simp add: cap_inv_def tokens_inv_def)
  then have "hm_ok (cs_capabilities (fst (snd (prune_expired X st w))))"
    using retain_unexpired_subset [of X w "cs_capabilities st"]
    by (simp add: prune_expired_def split_def Let_def hm_ok_def)
  with inv prune_get [OF ok, of X w]
  have "tokens_inv X (fst (snd (prune_expired X st w)), snd (snd (prune_expired X st w)))"
    unfolding cap_inv_def tokens_inv_def split prune_frame by blast
  moreover have "decisions_inv X (fst (snd (prune_expired X st w)), snd (snd (prune_expired X st w)))"
    using inv unfolding cap_inv_def decisions_inv_def split prune_frame by blast
  ultimately show ?thesis using inv by (simp add: cap_inv_def)
qed

section \<open>Runs of the store\<close>

text \<open>
  The operations any caller may interleave. \<open>CapEnv\<close> is what the rest of the spine does to the
  shared world in between: it draws ids and clock values and extends the hash chain.
\<close>

datatype cap_op = CapRecord decision_request | CapIssue string | CapConsume presented_binding
  | CapPrune | CapEnv world

fun cap_step :: "externs \<Rightarrow> cap_op \<Rightarrow> capability_store \<times> world \<Rightarrow> capability_store \<times> world" where
  "cap_step X (CapRecord r) (st, w) = snd (record_decision X r st w)"
| "cap_step X (CapIssue i) (st, w) = snd (issue_after_authorization X i st w)"
| "cap_step X (CapConsume p) (st, w) = snd (consume X p st w)"
| "cap_step X CapPrune (st, w) = snd (prune_expired X st w)"
| "cap_step X (CapEnv w') (st, w) = (st, if world_le w w' then w' else w)"

text \<open>The token an operation authorizes, and the decision an operation issues from.\<close>

fun redeems :: "externs \<Rightarrow> cap_op \<Rightarrow> capability_store \<times> world \<Rightarrow> string option" where
  "redeems X (CapConsume p) (st, w) =
     (if fst (consume X p st w) = Authorized then Some (pb_token_id p) else None)"
| "redeems X _ _ = None"

fun issues :: "externs \<Rightarrow> cap_op \<Rightarrow> capability_store \<times> world \<Rightarrow> string option" where
  "issues X (CapIssue i) (st, w) =
     (case fst (issue_after_authorization X i st w) of Issued t \<Rightarrow> Some i | _ \<Rightarrow> None)"
| "issues X _ _ = None"

definition cap_redeem_step where
  "cap_redeem_step X x s = (redeems X x s, cap_step X x s)"

definition cap_issue_step where
  "cap_issue_step X x s = (issues X x s, cap_step X x s)"

definition cap_laws :: "externs \<Rightarrow> bool" where
  "cap_laws X \<longleftrightarrow> uuid_laws X \<and> hex_laws X \<and> ed_laws X"

lemma cap_step_inv:
  assumes "cap_laws X" "cap_inv X s"
  shows "cap_inv X (cap_step X x s)"
proof -
  obtain st w where "s = (st, w)" by (cases s)
  with assms show ?thesis
    by (cases x)
      (auto simp: cap_laws_def intro: record_decision_inv issue_inv consume_inv prune_inv cap_inv_world)
qed

lemma record_decision_world: "world_le w (snd (snd (record_decision X r st w)))"
  by (auto simp: record_decision_def Let_def intro: world_le_trans [OF world_le_tick(2)]
      split: sum.split option.split)

lemma issue_world: "world_le w (snd (snd (issue_after_authorization X i st w)))"
  by (auto simp: issue_outcome_cases intro: world_le_trans [OF world_le_tick(2)]
      split: option.split)

lemma prune_world: "world_le w (snd (snd (prune_expired X st w)))"
  using retain_unexpired_world by (simp add: prune_expired_def split_def Let_def)

lemma cap_step_world: "world_le (snd s) (snd (cap_step X x s))"
proof -
  obtain st w where "s = (st, w)" by (cases s)
  then show ?thesis
    by (cases x) (auto intro: record_decision_world issue_world consume_world prune_world)
qed

text \<open>A token that was drawn and is either gone or used up; a decision that was issued.\<close>

definition token_spent :: "externs \<Rightarrow> capability_store \<times> world \<Rightarrow> string \<Rightarrow> bool" where
  "token_spent X s i \<longleftrightarrow> drawn_id X (snd s) ''CAP-'' i \<and>
     (\<forall>t. hm_get (cs_capabilities (fst s)) i = Some t \<longrightarrow> ct_max_uses t \<le> ct_use_count t)"

definition decision_spent :: "capability_store \<times> world \<Rightarrow> string \<Rightarrow> bool" where
  "decision_spent s i \<longleftrightarrow> (\<exists>d. hm_get (cs_decisions (fst s)) i = Some d \<and> dc_issued d)"

lemma record_capabilities [simp]:
  "cs_capabilities (fst (snd (record_decision X r st w))) = cs_capabilities st"
  by (auto simp: record_decision_def Let_def split: sum.split option.split)

lemma token_spent_refused:
  "token_spent X (st, w) (pb_token_id p) \<Longrightarrow> fst (consume X p st w) \<noteq> Authorized"
  by (auto simp: consume_authorized_iff token_spent_def)

lemma token_spent_kept:
  assumes laws: "cap_laws X" and inv: "cap_inv X s" and sp: "token_spent X s i"
  shows "token_spent X (cap_step X x s) i"
proof -
  obtain st w where s: "s = (st, w)" by (cases s)
  have dr: "drawn_id X (snd (cap_step X x s)) ''CAP-'' i"
    using sp drawn_id_mono [OF cap_step_world] by (simp add: token_spent_def)
  have "ct_max_uses t \<le> ct_use_count t"
    if t: "hm_get (cs_capabilities (fst (cap_step X x s))) i = Some t" for t
  proof -
    have old: "ct_max_uses t \<le> ct_use_count t" if "hm_get (cs_capabilities st) i = Some t"
      using sp that by (simp add: token_spent_def s)
    show ?thesis
    proof (cases x)
      case (CapIssue j)
      have "i \<noteq> ''CAP-'' @ uuid_simple X (ids w)"
        using laws sp by (intro drawn_fresh) (auto simp: token_spent_def s cap_laws_def)
      with t CapIssue old s show ?thesis
        by (auto simp: issue_outcome_cases split: option.splits if_splits)
    next
      case (CapConsume p)
      with t old sp s token_spent_refused [of X st w p] show ?thesis
        by (auto simp: consume_store hm_get_modify split: if_splits)
    next
      case CapPrune
      with t s prune_get [of st X w i t] inv old show ?thesis
        by (auto simp: cap_inv_def tokens_inv_def)
    qed (use t s old in auto)
  qed
  with dr show ?thesis by (simp add: token_spent_def)
qed

lemma consume_spends:
  assumes "cap_inv X (st, w)" "fst (consume X p st w) = Authorized"
  shows "token_spent X (snd (consume X p st w)) (pb_token_id p)"
proof -
  obtain t where t: "hm_get (cs_capabilities st) (pb_token_id p) = Some t"
    "ct_use_count t < ct_max_uses t" using assms(2) by (auto simp: consume_authorized_iff)
  with assms(1) have "drawn_id X w ''CAP-'' (pb_token_id p)" "ct_max_uses t = 1"
    by (auto simp: cap_inv_def tokens_inv_def)
  moreover from this t(2) have "ct_use_count t = 0" by (simp add: word_less_1)
  ultimately show ?thesis
    using t assms(2) drawn_id_mono [OF consume_world]
    by (simp add: token_spent_def consume_store hm_get_modify)
qed

interpretation redeem: single_use "cap_redeem_step X" "\<lambda>s. cap_laws X \<and> cap_inv X s" "token_spent X"
  for X
proof unfold_locales
  fix s i x assume inv: "cap_laws X \<and> cap_inv X s"
  obtain st w where s: "s = (st, w)" by (cases s)
  show "cap_laws X \<and> cap_inv X (snd (cap_redeem_step X x s))"
    using inv by (simp add: cap_redeem_step_def cap_step_inv)
  show "token_spent X (snd (cap_redeem_step X x s)) i" if "token_spent X s i"
    using inv that by (simp add: cap_redeem_step_def token_spent_kept)
  show "fst (cap_redeem_step X x s) \<noteq> Some i" if "token_spent X s i"
    using that token_spent_refused s
    by (cases x) (auto simp: cap_redeem_step_def split: if_splits)
  show "token_spent X (snd (cap_redeem_step X x s)) i" if "fst (cap_redeem_step X x s) = Some i"
    using that inv consume_spends s
    by (cases x) (auto simp: cap_redeem_step_def split: if_splits)
qed

lemma decision_spent_kept:
  assumes laws: "cap_laws X" and inv: "cap_inv X s" and sp: "decision_spent s i"
  shows "decision_spent (cap_step X x s) i"
proof -
  obtain st w where s: "s = (st, w)" by (cases s)
  from sp obtain d where d: "hm_get (cs_decisions st) i = Some d" "dc_issued d"
    by (auto simp: decision_spent_def s)
  have fresh: "i \<noteq> ''DEC-'' @ uuid_simple X (ids w)"
    using decision_id_fresh laws inv d(1) by (auto simp: s cap_laws_def cap_inv_def)
  show ?thesis
  proof (cases x)
    case (CapRecord r)
    with d fresh s show ?thesis
      by (auto simp: decision_spent_def record_decision_def Let_def split: sum.split option.split)
  next
    case (CapIssue j)
    with d s show ?thesis
      by (cases "i = j") (auto simp: decision_spent_def issue_outcome_cases hm_get_modify
          split: option.split)
  next
    case (CapConsume p)
    with d s show ?thesis by (simp add: decision_spent_def consume_store)
  qed (use d s in \<open>auto simp: decision_spent_def\<close>)
qed

interpretation issuance: single_use "cap_issue_step X" "\<lambda>s. cap_laws X \<and> cap_inv X s"
  decision_spent for X
proof unfold_locales
  fix s i x assume inv: "cap_laws X \<and> cap_inv X s"
  obtain st w where s: "s = (st, w)" by (cases s)
  show "cap_laws X \<and> cap_inv X (snd (cap_issue_step X x s))"
    using inv by (simp add: cap_issue_step_def cap_step_inv)
  show "decision_spent (snd (cap_issue_step X x s)) i" if "decision_spent s i"
    using inv that by (simp add: cap_issue_step_def decision_spent_kept)
  show "fst (cap_issue_step X x s) \<noteq> Some i" if "decision_spent s i"
    using that s by (cases x) (auto simp: cap_issue_step_def decision_spent_def
        issue_outcome_cases split: option.splits)
  show "decision_spent (snd (cap_issue_step X x s)) i" if "fst (cap_issue_step X x s) = Some i"
    using that s by (cases x) (auto simp: cap_issue_step_def decision_spent_def
        issue_outcome_cases hm_get_modify split: option.splits if_splits)
qed

section \<open>Properties\<close>

definition demo_request :: decision_request where
  "demo_request = \<lparr>dr_gov_tx_id = ''tx'', dr_session_id = ''s'', dr_principal_fingerprint = ''p'',
     dr_authority = AUTHORITY_PROVIDER_EXECUTE, dr_backend = ''b'', dr_model = ''m'',
     dr_action_class = ''a'', dr_sentinel_verdict_id = ''v'', dr_policy_hash = demo_digest,
     dr_authorization_basis = ''BelowRiskThreshold'', dr_agency = ''A'', dr_drs = 10,
     dr_run_id = ''r'', dr_context_hash = demo_digest, dr_policy_version = ''1'',
     dr_action_hash = [], dr_tool_name = [], dr_resource_kind = [], dr_resource_locator = [],
     dr_tool_call_id = [], dr_action_plane = PlaneTool, dr_normalized_action = [],
     dr_required_for_safe_completion = True\<rparr>"

lemma demo_request_ok: "decision_request_validate demo_request = Inr ()"
  by (simp add: decision_request_validate_def all_ok_iff nonempty_def demo_request_def
      authority_defs) (simp add: str_eval)

text \<open>What a holder presents for a token: the token's own scope.\<close>

definition binding_of :: "capability_token \<Rightarrow> presented_binding" where
  "binding_of t =
     \<lparr>pb_token_id = ct_token_id t, pb_gov_tx_id = ct_gov_tx_id t, pb_session_id = ct_session_id t,
      pb_principal_fingerprint = ct_principal_fingerprint t, pb_authority = ct_authority t,
      pb_backend = ct_backend t, pb_model = ct_model t, pb_run_id = ct_run_id t,
      pb_context_hash = ct_context_hash t, pb_policy_version = ct_policy_version t,
      pb_policy_hash = ct_policy_hash t, pb_action_hash = ct_action_hash t,
      pb_tool_name = ct_tool_name t, pb_resource_kind = ct_resource_kind t,
      pb_resource_locator = ct_resource_locator t, pb_tool_call_id = ct_tool_call_id t,
      pb_plane = plane_str (ct_action_plane t)\<rparr>"

text \<open>A concrete store: the demo request recorded by a fresh store.\<close>

definition demo_dec_id :: string where "demo_dec_id = ''DEC-'' @ uuid_simple demo 0"
definition demo_cap_id :: string where "demo_cap_id = ''CAP-'' @ uuid_simple demo 1"

definition demo_recorded :: "capability_store \<times> world" where
  "demo_recorded = snd (record_decision demo demo_request capability_store_new demo_world)"

lemma demo_record:
  "record_decision demo demo_request capability_store_new demo_world =
     (Inr demo_dec_id, fst demo_recorded, tick (draw_id demo_world))"
  "hm_get (cs_decisions (fst demo_recorded)) demo_dec_id =
     Some (decision_of_request demo_dec_id (now demo demo_world) demo_request)"
  "cs_default_ttl_secs (fst demo_recorded) = 30"
  by (simp_all add: demo_recorded_def record_decision_def demo_request_ok Let_def demo_dec_id_def
      capability_store_new_def demo_world_def)

lemma demo_cap_laws: "cap_laws demo"
  by (simp add: cap_laws_def demo_laws)

lemma demo_inv: "cap_inv demo (capability_store_new, demo_world)"
  "cap_inv demo (fst demo_recorded, tick (draw_id demo_world))"
proof -
  show 1: "cap_inv demo (capability_store_new, demo_world)"
    by (rule cap_inv_new [OF demo_engine_ok])
  show "cap_inv demo (fst demo_recorded, tick (draw_id demo_world))"
    using record_decision_inv [OF demo_laws(4) 1, of demo_request] demo_record(1) by simp
qed

definition demo_token :: capability_token where
  "demo_token = issued_token demo (fst demo_recorded) (tick (draw_id demo_world))
     (decision_of_request demo_dec_id (now demo demo_world) demo_request)"

definition demo_issued :: "capability_store \<times> world" where
  "demo_issued = snd (issue_after_authorization demo demo_dec_id (fst demo_recorded)
     (tick (draw_id demo_world)))"

lemma demo_issue:
  "issue_after_authorization demo demo_dec_id (fst demo_recorded) (tick (draw_id demo_world)) =
     (Issued demo_token, fst demo_issued, tick (draw_id (tick (draw_id demo_world))))"
  by (simp add: issue_outcome_cases demo_record demo_token_def demo_issued_def)

lemma demo_ttl:
  "now demo (tick (draw_id (tick (draw_id demo_world)))) <
     now demo (tick (draw_id demo_world)) + secs (cs_default_ttl_secs (fst demo_recorded))"
  by (simp add: demo_record demo_world_def now_def demo_def secs_def)

text \<open>
  Claim C2: capabilities are single use. Over any interleaving of recording, issuing, consuming,
  pruning and foreign activity, from a fresh store, no token is authorized twice and no decision
  yields two tokens.
\<close>

theorem capability_single_use:
  assumes "cap_laws X" "engine_ok X (eng w)"
  shows "distinct (grants (cap_redeem_step X) ops (capability_store_new, w)) \<and>
    distinct (grants (cap_issue_step X) ops (capability_store_new, w))"
  using redeem.granted_once issuance.granted_once assms cap_inv_new by blast

lemma capability_single_use_witness:
  "distinct (grants (cap_redeem_step demo)
      [CapRecord demo_request, CapIssue demo_dec_id, CapConsume (binding_of demo_token),
       CapConsume (binding_of demo_token)] (capability_store_new, demo_world)) \<and>
    distinct (grants (cap_issue_step demo)
      [CapRecord demo_request, CapIssue demo_dec_id, CapIssue demo_dec_id]
      (capability_store_new, demo_world))"
  using capability_single_use [OF demo_cap_laws demo_engine_ok] by blast

text \<open>
  Claim C27: \<open>consume\<close> authorizes only what was bound. If it answers \<open>Authorized\<close> then the token is
  stored with a valid signature, unused and unexpired, and every field presented (principal,
  authority, transaction, session, run, context hash, policy version and hash, backend, model,
  and for an action also action hash, tool, resource, tool call and plane) equals the token's;
  in a reachable store these are the fields of the decision the token was issued from.
\<close>

theorem consume_authorizes_only_bound:
  assumes "fst (consume X p st w) = Authorized" "cap_inv X (st, w)"
  shows "\<exists>t d. hm_get (cs_capabilities st) (pb_token_id p) = Some t \<and>
    verify_ok X (eng w) (ct_canonical t) (ct_signature t) \<and> ct_use_count t = 0 \<and>
    now X w < ct_expires_at t \<and>
    hm_get (cs_decisions st) (ct_haap_decision_id t) = Some d \<and> dc_issued d \<and>
    pb_principal_fingerprint p = dc_principal_fingerprint d \<and> pb_authority p = dc_authority d \<and>
    pb_gov_tx_id p = dc_gov_tx_id d \<and> pb_session_id p = dc_session_id d \<and>
    pb_run_id p = dc_run_id d \<and> pb_context_hash p = dc_context_hash d \<and>
    pb_policy_version p = dc_policy_version d \<and> pb_policy_hash p = dc_policy_hash d \<and>
    pb_backend p = dc_backend d \<and> pb_model p = dc_model d \<and>
    (dc_authority d = AUTHORITY_ACTION_EXECUTE \<longrightarrow>
       pb_action_hash p = dc_action_hash d \<and> pb_tool_name p = dc_tool_name d \<and>
       pb_resource_kind p = dc_resource_kind d \<and> pb_resource_locator p = dc_resource_locator d \<and>
       pb_tool_call_id p = dc_tool_call_id d \<and> pb_plane p = plane_str (dc_action_plane d))"
proof -
  from assms(1) obtain t where t: "hm_get (cs_capabilities st) (pb_token_id p) = Some t"
    "verify_ok X (eng w) (ct_canonical t) (ct_signature t)" "ct_use_count t < ct_max_uses t"
    "now X w < ct_expires_at t" and b: "first_failure (binding_checks t p) = None"
    by (auto simp: consume_authorized_iff)
  with assms(2) obtain d where d: "hm_get (cs_decisions st) (ct_haap_decision_id t) = Some d"
    "dc_issued d" "token_scope t d" and "ct_max_uses t = 1"
    unfolding cap_inv_def tokens_inv_def split by blast
  with t(3) have "ct_use_count t = 0" by (simp add: word_less_1)
  moreover have "pb_principal_fingerprint p = dc_principal_fingerprint d \<and>
    pb_authority p = dc_authority d \<and> pb_gov_tx_id p = dc_gov_tx_id d \<and>
    pb_session_id p = dc_session_id d \<and> pb_run_id p = dc_run_id d \<and>
    pb_context_hash p = dc_context_hash d \<and> pb_policy_version p = dc_policy_version d \<and>
    pb_policy_hash p = dc_policy_hash d \<and> pb_backend p = dc_backend d \<and> pb_model p = dc_model d"
    using b d(3) by (simp add: binding_checks_pass token_scope_def)
  moreover have "dc_authority d = AUTHORITY_ACTION_EXECUTE \<longrightarrow>
       pb_action_hash p = dc_action_hash d \<and> pb_tool_name p = dc_tool_name d \<and>
       pb_resource_kind p = dc_resource_kind d \<and> pb_resource_locator p = dc_resource_locator d \<and>
       pb_tool_call_id p = dc_tool_call_id d \<and> pb_plane p = plane_str (dc_action_plane d)"
    using b d(3) by (auto simp: binding_checks_pass token_scope_def)
  ultimately show ?thesis using t d by blast
qed

text \<open>
  A freshly issued token works once. In a reachable store, issuing from an unissued
  decision returns a token with the decision's scope; presenting that scope before the expiry is
  authorized, and presenting it again is rejected as a replay (while the signature check still
  runs first).
\<close>

lemma issued_token_usable_once:
  assumes laws: "cap_laws X" and inv: "cap_inv X (st, w)"
    and d: "hm_get (cs_decisions st) i = Some d" "\<not> dc_issued d"
    and issue: "issue_after_authorization X i st w = (out, st1, w1)"
    and ttl: "now X w1 < now X w + secs (cs_default_ttl_secs st)"
  shows "\<exists>t. out = Issued t \<and> token_scope t d \<and>
    (\<exists>st2 w2. consume X (binding_of t) st1 w1 = (Authorized, st2, w2) \<and>
       fst (consume X (binding_of t) st2 w2) = AlreadyConsumed)"
proof -
  let ?t = "issued_token X st w d" and ?k = "''CAP-'' @ uuid_simple X (ids w)"
  have out: "out = Issued ?t" and w1: "w1 = tick (draw_id w)"
    and caps: "cs_capabilities st1 = hm_insert ?k ?t (cs_capabilities st)"
    using issue d by (auto simp: issue_outcome_cases)
  have k: "pb_token_id (binding_of ?t) = ?k" by (simp add: binding_of_def)
  have auth: "dc_authority d \<in> {AUTHORITY_PROVIDER_EXECUTE, AUTHORITY_ACTION_EXECUTE}"
    using inv d(1) unfolding cap_inv_def decisions_inv_def split by blast
  have "ct_authority ?t = dc_authority d" using issued_token_scope by (simp add: token_scope_def)
  with auth have b: "first_failure (binding_checks ?t (binding_of ?t)) = None"
    by (simp add: binding_checks_pass binding_of_def)
  have v: "verify_ok X (eng w) (ct_canonical ?t) (ct_signature ?t)"
    using laws inv by (simp add: cap_laws_def cap_inv_def sign_verifies)
  obtain st2 w2 where c: "consume X (binding_of ?t) st1 w1 = (Authorized, st2, w2)"
    using b v ttl w1 caps k by (auto simp: consume_def)
  have "cs_capabilities st2 = hm_modify ?k (\<lambda>t. t\<lparr>ct_use_count := ct_use_count t + 1\<rparr>)
      (hm_insert ?k ?t (cs_capabilities st))"
    using consume_store [of X "binding_of ?t" st1 w1] c k caps by simp
  then have "hm_get (cs_capabilities st2) ?k = Some (?t\<lparr>ct_use_count := 1\<rparr>)"
    by (simp add: hm_get_modify)
  moreover have "verify_ok X (eng w2) = verify_ok X (eng w)"
    using consume_world [of w1 X "binding_of ?t" st1] c w1 by (simp add: world_le_verify)
  ultimately have "fst (consume X (binding_of ?t) st2 w2) = AlreadyConsumed"
    using v k by (simp add: consume_def)
  with out c show ?thesis using issued_token_scope by blast
qed

lemma validate_no_panic: "decision_request_validate r \<noteq> Inl IndexInvariantPanic"
proof
  have find: "all_ok rs = Inl e \<Longrightarrow> Inl e \<in> set rs" for rs :: "('e + unit) list" and e
    by (induction rs) (auto simp: all_ok.simps split: sum.splits)
  have guard_eq: "Inl e = guard_ok b d \<longleftrightarrow> \<not> b \<and> e = d" for e d :: capability_error and b
    by (auto simp: guard_ok_def)
  assume "decision_request_validate r = Inl IndexInvariantPanic"
  from find [OF this [unfolded decision_request_validate_def]] show False
    by (auto simp: nonempty_def guard_eq split: if_splits)
qed

lemma record_decision_facts:
  assumes "cap_laws X" "cap_inv X (st, w)" "record_decision X r st w = (res, st1, w1)"
  shows "res \<noteq> Inl IndexInvariantPanic \<and> cap_inv X (st1, w1) \<and>
    (\<forall>i. res = Inr i \<longrightarrow> record_decision X r st1 w1 = (Inr i, st1, w1) \<and>
       (\<exists>d. hm_get (cs_decisions st1) i = Some d \<and> same_scope r d \<and>
          dc_gov_tx_id d = dr_gov_tx_id r \<and> dc_authority d = dr_authority r)) \<and>
    (\<forall>e. res = Inl e \<longrightarrow> st1 = st)"
proof -
  let ?k = "tx_key (dr_gov_tx_id r) (dr_authority r)"
  have inv1: "cap_inv X (st1, w1)"
    using record_decision_inv assms by (metis cap_laws_def snd_conv)
  have idx: "\<exists>d. hm_get (cs_decisions st) i = Some d \<and> ?k = tx_key (dc_gov_tx_id d) (dc_authority d) \<and>
      dc_authority d \<in> {AUTHORITY_PROVIDER_EXECUTE, AUTHORITY_ACTION_EXECUTE}"
    if "hm_get (cs_decision_by_tx st) ?k = Some i" for i
    using assms(2) that unfolding cap_inv_def decisions_inv_def split by blast
  show ?thesis
  proof (cases "decision_request_validate r")
    case (Inl e)
    moreover have "e \<noteq> IndexInvariantPanic" using Inl validate_no_panic by auto
    ultimately show ?thesis using assms(2,3) by (auto simp: record_decision_def)
  next
    case (Inr u)
    have auth: "dr_authority r \<in> {AUTHORITY_PROVIDER_EXECUTE, AUTHORITY_ACTION_EXECUTE}"
      using Inr by (rule validate_authority)
    show ?thesis
    proof (cases "hm_get (cs_decision_by_tx st) ?k")
      case None
      then show ?thesis
        using assms(3) Inr inv1
        by (auto simp: record_decision_new Let_def record_decision_def decision_of_request_def
            same_scope_def)
    next
      case (Some i)
      from idx [OF this] obtain d where d: "hm_get (cs_decisions st) i = Some d"
        "?k = tx_key (dc_gov_tx_id d) (dc_authority d)"
        "dc_authority d \<in> {AUTHORITY_PROVIDER_EXECUTE, AUTHORITY_ACTION_EXECUTE}" by blast
      then have "dr_gov_tx_id r = dc_gov_tx_id d \<and> dr_authority r = dc_authority d"
        using auth authority_no_bar by (intro tx_key_inject) auto
      with d(1) Some Inr assms(3) inv1 show ?thesis
        by (auto simp: record_decision_def split: if_splits)
    qed
  qed
qed

text \<open>
  What a recording promises, field by field: which requests it accepts, and which decision stands for
  a request.
\<close>

definition acceptable_request :: "decision_request \<Rightarrow> bool" where
  "acceptable_request r \<longleftrightarrow>
     list_all (\<lambda>v. \<not> blank v) [dr_gov_tx_id r, dr_session_id r, dr_principal_fingerprint r,
       dr_sentinel_verdict_id r, dr_policy_hash r, dr_run_id r, dr_context_hash r, dr_policy_version r] \<and>
     is_sha256_hex (dr_context_hash r) \<and> is_sha256_hex (dr_policy_hash r) \<and>
     (dr_authority r = AUTHORITY_PROVIDER_EXECUTE \<and>
        list_all (\<lambda>v. \<not> blank v) [dr_backend r, dr_model r, dr_action_class r] \<or>
      dr_authority r = AUTHORITY_ACTION_EXECUTE \<and>
        list_all (\<lambda>v. \<not> blank v) [dr_action_hash r, dr_tool_name r, dr_resource_kind r,
          dr_resource_locator r, dr_tool_call_id r, dr_normalized_action r] \<and>
        is_sha256_hex (dr_action_hash r))"

definition stands_for :: "decision \<Rightarrow> decision_request \<Rightarrow> bool" where
  "stands_for d r \<longleftrightarrow> dc_gov_tx_id d = dr_gov_tx_id r \<and> dc_authority d = dr_authority r \<and>
     [dc_session_id d, dc_principal_fingerprint d, dc_backend d, dc_model d, dc_action_class d,
      dc_run_id d, dc_context_hash d, dc_policy_version d, dc_action_hash d, dc_tool_name d,
      dc_resource_kind d, dc_resource_locator d, dc_tool_call_id d, dc_normalized_action d] =
     [dr_session_id r, dr_principal_fingerprint r, dr_backend r, dr_model r, dr_action_class r,
      dr_run_id r, dr_context_hash r, dr_policy_version r, dr_action_hash r, dr_tool_name r,
      dr_resource_kind r, dr_resource_locator r, dr_tool_call_id r, dr_normalized_action r] \<and>
     dc_action_plane d = dr_action_plane r \<and>
     dc_required_for_safe_completion d = dr_required_for_safe_completion r"

text \<open>The decision on file for the transaction and the authority of a request, if there is one.\<close>

definition on_file :: "capability_store \<Rightarrow> decision_request \<Rightarrow> string \<Rightarrow> decision \<Rightarrow> bool" where
  "on_file st r i d \<longleftrightarrow> hm_get (cs_decisions st) i = Some d \<and>
     dc_gov_tx_id d = dr_gov_tx_id r \<and> dc_authority d = dr_authority r"

lemma validate_iff: "decision_request_validate r = Inr () \<longleftrightarrow> acceptable_request r"
  by (auto simp: decision_request_validate_def all_ok_iff nonempty_def acceptable_request_def authority_defs)

lemma same_scope_iff:
  "dc_gov_tx_id d = dr_gov_tx_id r \<Longrightarrow> dc_authority d = dr_authority r \<Longrightarrow> same_scope r d \<longleftrightarrow> stands_for d r"
  by (auto simp: same_scope_def stands_for_def)

lemma record_refused:
  assumes "\<not> acceptable_request r"
  shows "\<exists>e. record_decision X r st w = (Inl e, st, w)"
proof -
  obtain e where "decision_request_validate r = Inl e"
    using assms validate_iff [of r] by (cases "decision_request_validate r") auto
  then show ?thesis by (simp add: record_decision_def)
qed

lemma record_on_file:
  assumes "cap_inv X (st, w)" "acceptable_request r" "on_file st r i d"
  shows "record_decision X r st w = (if stands_for d r then Inr i else Inl TransactionScopeConflict, st, w)"
proof -
  have "hm_get (cs_decision_by_tx st) (tx_key (dr_gov_tx_id r) (dr_authority r)) = Some i"
    using assms(1,3) unfolding cap_inv_def decisions_inv_def on_file_def split by metis
  then show ?thesis
    using assms(2,3) same_scope_iff [of d r]
    by (simp add: record_decision_def on_file_def flip: validate_iff)
qed

lemma record_first:
  assumes laws: "cap_laws X" and inv: "cap_inv X (st, w)" and ok: "acceptable_request r"
    and none: "\<And>i d. \<not> on_file st r i d" and rec: "record_decision X r st w = (res, st1, w1)"
  shows "\<exists>i d. res = Inr i \<and> hm_get (cs_decisions st) i = None \<and>
    cs_decisions st1 = hm_insert i d (cs_decisions st) \<and> cs_capabilities st1 = cs_capabilities st \<and>
    stands_for d r \<and> \<not> dc_issued d \<and> dc_policy_hash d = dr_policy_hash r \<and>
    dc_sentinel_verdict_id d = dr_sentinel_verdict_id r"
proof -
  have v: "decision_request_validate r = Inr ()" using ok by (simp add: validate_iff)
  have no: "hm_get (cs_decision_by_tx st) (tx_key (dr_gov_tx_id r) (dr_authority r)) = None"
  proof (rule ccontr)
    assume "hm_get (cs_decision_by_tx st) (tx_key (dr_gov_tx_id r) (dr_authority r)) \<noteq> None"
    then obtain i d where d: "hm_get (cs_decisions st) i = Some d"
      "tx_key (dr_gov_tx_id r) (dr_authority r) = tx_key (dc_gov_tx_id d) (dc_authority d)"
      "dc_authority d \<in> {AUTHORITY_PROVIDER_EXECUTE, AUTHORITY_ACTION_EXECUTE}"
      using inv unfolding cap_inv_def decisions_inv_def split by blast
    then have "dr_gov_tx_id r = dc_gov_tx_id d \<and> dr_authority r = dc_authority d"
      using validate_authority [OF v] authority_no_bar by (intro tx_key_inject) auto
    with none [of i d] d(1) show False by (simp add: on_file_def)
  qed
  define i where "i = ''DEC-'' @ uuid_simple X (ids w)"
  define d where "d = decision_of_request i (now X w) r"
  have "hm_get (cs_decisions st) i = None"
    using decision_id_fresh [of X st w] laws inv by (simp add: cap_inv_def cap_laws_def i_def)
  moreover have "res = Inr i" "cs_decisions st1 = hm_insert i d (cs_decisions st)"
    "cs_capabilities st1 = cs_capabilities st"
    using rec [unfolded record_decision_new [OF v no]] by (auto simp: Let_def d_def i_def)
  moreover have "stands_for d r" "\<not> dc_issued d" "dc_policy_hash d = dr_policy_hash r"
    "dc_sentinel_verdict_id d = dr_sentinel_verdict_id r"
    by (simp_all add: d_def stands_for_def decision_of_request_def)
  ultimately show ?thesis by blast
qed

text \<open>
  Claim C29: recording is idempotent, conflicts are detected, and the index never dangles. In a
  reachable store the \<open>expect\<close> of \<open>record_decision\<close> cannot panic; a request that was recorded
  once returns the same decision again and changes nothing; a request with a blank required field, a
  malformed digest or an unknown authority is refused and changes nothing; a request for a
  transaction and authority that have a decision on file gets that decision if every field of its
  scope agrees, and otherwise is rejected as a conflict, and either way changes nothing; the first
  request for them inserts one unissued decision under an unused id, with the scope, the policy hash
  and the verdict of the request. No decision on file is ever replaced.
\<close>

theorem record_decision_idempotent:
  assumes "cap_laws X" "cap_inv X (st, w)" "record_decision X r st w = (res, st1, w1)"
  shows "res \<noteq> Inl IndexInvariantPanic \<and> cap_inv X (st1, w1) \<and>
    (\<forall>i. res = Inr i \<longrightarrow> record_decision X r st1 w1 = (Inr i, st1, w1) \<and>
       (\<exists>d. hm_get (cs_decisions st1) i = Some d \<and> stands_for d r)) \<and>
    (\<forall>e. res = Inl e \<longrightarrow> st1 = st \<and> w1 = w) \<and>
    (\<not> acceptable_request r \<longrightarrow> (\<exists>e. res = Inl e)) \<and>
    (\<forall>i d. acceptable_request r \<and> on_file st r i d \<longrightarrow>
       (res, st1, w1) = (if stands_for d r then Inr i else Inl TransactionScopeConflict, st, w)) \<and>
    (acceptable_request r \<and> (\<forall>i d. \<not> on_file st r i d) \<longrightarrow>
       (\<exists>i d. res = Inr i \<and> hm_get (cs_decisions st) i = None \<and>
          cs_decisions st1 = hm_insert i d (cs_decisions st) \<and> cs_capabilities st1 = cs_capabilities st \<and>
          stands_for d r \<and> \<not> dc_issued d \<and> dc_policy_hash d = dr_policy_hash r \<and>
          dc_sentinel_verdict_id d = dr_sentinel_verdict_id r)) \<and>
    (\<forall>i d. hm_get (cs_decisions st) i = Some d \<longrightarrow> hm_get (cs_decisions st1) i = Some d)"
proof (intro conjI)
  note facts = record_decision_facts [OF assms]
  show "res \<noteq> Inl IndexInvariantPanic" "cap_inv X (st1, w1)" using facts by blast+
  show "\<forall>i. res = Inr i \<longrightarrow> record_decision X r st1 w1 = (Inr i, st1, w1) \<and>
      (\<exists>d. hm_get (cs_decisions st1) i = Some d \<and> stands_for d r)"
    using facts same_scope_iff by metis
  have first: "\<exists>i d. res = Inr i \<and> hm_get (cs_decisions st) i = None \<and>
      cs_decisions st1 = hm_insert i d (cs_decisions st) \<and> cs_capabilities st1 = cs_capabilities st \<and>
      stands_for d r \<and> \<not> dc_issued d \<and> dc_policy_hash d = dr_policy_hash r \<and>
      dc_sentinel_verdict_id d = dr_sentinel_verdict_id r"
    if "acceptable_request r" "\<forall>i d. \<not> on_file st r i d"
    using record_first [OF assms(1,2) that(1) _ assms(3)] that(2) by simp
  then show "acceptable_request r \<and> (\<forall>i d. \<not> on_file st r i d) \<longrightarrow>
       (\<exists>i d. res = Inr i \<and> hm_get (cs_decisions st) i = None \<and>
          cs_decisions st1 = hm_insert i d (cs_decisions st) \<and> cs_capabilities st1 = cs_capabilities st \<and>
          stands_for d r \<and> \<not> dc_issued d \<and> dc_policy_hash d = dr_policy_hash r \<and>
          dc_sentinel_verdict_id d = dr_sentinel_verdict_id r)" by blast
  have filed: "(res, st1, w1) = (if stands_for d r then Inr i else Inl TransactionScopeConflict, st, w)"
    if "acceptable_request r" "on_file st r i d" for i d
    using record_on_file [OF assms(2) that] assms(3) by simp
  then show "\<forall>i d. acceptable_request r \<and> on_file st r i d \<longrightarrow>
      (res, st1, w1) = (if stands_for d r then Inr i else Inl TransactionScopeConflict, st, w)" by blast
  have refused: "\<exists>e. (res, st1, w1) = (Inl e, st, w)" if "\<not> acceptable_request r"
    using record_refused [OF that, of X st w] assms(3) by simp
  then show "\<not> acceptable_request r \<longrightarrow> (\<exists>e. res = Inl e)" by auto
  show "\<forall>e. res = Inl e \<longrightarrow> st1 = st \<and> w1 = w"
    using refused filed first by (metis prod.inject sum.distinct(1))
  show "\<forall>i d. hm_get (cs_decisions st) i = Some d \<longrightarrow> hm_get (cs_decisions st1) i = Some d"
    using refused filed first by (cases "acceptable_request r") (fastforce split: if_splits)+
qed

text \<open>
  Claim C30: the signed form of a token determines every authority-bearing field. Two tokens
  whose fields contain no separator and whose signed texts agree carry the same scope, the same
  use limit and the same issue and expiry second.
\<close>

theorem token_canonical_binds:
  assumes "\<forall>f \<in> set (ct_fields t). CHR ''|'' \<notin> set f" "\<forall>f \<in> set (ct_fields u). CHR ''|'' \<notin> set f"
    "ct_canonical t = ct_canonical u"
  shows "\<exists>x y s c. u = t\<lparr>ct_issued_at := x, ct_expires_at := y, ct_signature := s, ct_use_count := c\<rparr> \<and>
    timestamp x = timestamp (ct_issued_at t) \<and> timestamp y = timestamp (ct_expires_at t)"
proof -
  have "ct_fields t = ct_fields u"
    by (rule join_inject [of _ _ "CHR ''|''"])
      (use assms in \<open>simp_all add: ct_canonical_def bar_def\<close>, simp add: ct_fields_def)
  note f = this [unfolded ct_fields_def list.inject]
  have bool: "ct_required_for_safe_completion t = ct_required_for_safe_completion u"
    using f by (simp add: show_bool_def split: if_splits)
  have uses: "ct_max_uses t = ct_max_uses u" using f by simp
  have plane: "ct_action_plane t = ct_action_plane u" using f by simp
  have times: "timestamp (ct_issued_at t) = timestamp (ct_issued_at u)"
    "timestamp (ct_expires_at t) = timestamp (ct_expires_at u)"
    using f show_int_inject by blast+
  have "u = t\<lparr>ct_issued_at := ct_issued_at u, ct_expires_at := ct_expires_at u,
      ct_signature := ct_signature u, ct_use_count := ct_use_count u\<rparr>"
    by (rule capability_token.equality) (simp_all add: f bool uses plane)
  then show ?thesis using times by (intro exI conjI) (assumption, simp_all)
qed

lemma consume_authorizes_only_bound_witness:
  "\<exists>p st w t. fst (consume demo p st w) = Authorized \<and>
     hm_get (cs_capabilities st) (pb_token_id p) = Some t \<and> ct_use_count t = 0"
proof -
  let ?w = "tick (draw_id (tick (draw_id demo_world)))" and ?t = "demo_token"
  have caps: "hm_get (cs_capabilities (fst demo_issued)) (ct_token_id ?t) = Some ?t"
    by (simp add: demo_issued_def issue_outcome_cases demo_record demo_token_def)
  have "first_failure (binding_checks ?t (binding_of ?t)) = None"
    using issued_token_scope [of demo "fst demo_recorded" "tick (draw_id demo_world)"]
    by (simp add: binding_checks_pass binding_of_def demo_token_def token_scope_def demo_request_def)
  moreover have "verify_ok demo (eng ?w) (ct_canonical ?t) (ct_signature ?t)"
    using sign_verifies [OF demo_laws(1,3) demo_engine_ok] by (simp add: demo_token_def)
  moreover have "now demo ?w < ct_expires_at ?t"
    using demo_ttl by (simp add: demo_token_def)
  ultimately have "fst (consume demo (binding_of ?t) (fst demo_issued) ?w) = Authorized"
    using caps by (simp add: consume_authorized_iff binding_of_def demo_token_def)
  moreover have "cap_inv demo (fst demo_issued, ?w)"
    using issue_inv [OF demo_laws(1,3) demo_inv(2), of demo_dec_id] demo_issue by simp
  ultimately show ?thesis using consume_authorizes_only_bound by blast
qed

text \<open>Retried unchanged, under another model, and without a run.\<close>

lemma record_decision_idempotent_witness:
  "let again = (\<lambda>r. record_decision demo r (fst demo_recorded) (tick (draw_id demo_world))) in
   again demo_request = (Inr demo_dec_id, fst demo_recorded, tick (draw_id demo_world)) \<and>
   again (demo_request\<lparr>dr_model := ''n''\<rparr>) =
     (Inl TransactionScopeConflict, fst demo_recorded, tick (draw_id demo_world)) \<and>
   (\<exists>e. again (demo_request\<lparr>dr_run_id := []\<rparr>) = (Inl e, fst demo_recorded, tick (draw_id demo_world)))"
proof -
  let ?st = "fst demo_recorded" and ?w = "tick (draw_id demo_world)"
  have same: "record_decision demo demo_request ?st ?w = (Inr demo_dec_id, ?st, ?w)"
    using record_decision_idempotent [OF demo_cap_laws demo_inv(1) demo_record(1)] by blast
  obtain d where d: "hm_get (cs_decisions ?st) demo_dec_id = Some d" "stands_for d demo_request"
    using record_decision_idempotent [OF demo_cap_laws demo_inv(1) demo_record(1)] by blast
  let ?n = "demo_request\<lparr>dr_model := ''n''\<rparr>" and ?e = "demo_request\<lparr>dr_run_id := []\<rparr>"
  have "acceptable_request demo_request" using demo_request_ok by (simp add: validate_iff)
  then have n: "acceptable_request ?n"
    by (simp add: acceptable_request_def demo_request_def) (simp add: str_eval authority_defs)
  have "on_file ?st ?n demo_dec_id d" "\<not> stands_for d ?n"
    using d by (auto simp: on_file_def stands_for_def demo_request_def)
  moreover obtain res st1 w1 where "record_decision demo ?n ?st ?w = (res, st1, w1)" by (metis prod_cases3)
  moreover note record_decision_idempotent [OF demo_cap_laws demo_inv(2) this]
  ultimately have conflict: "record_decision demo ?n ?st ?w = (Inl TransactionScopeConflict, ?st, ?w)"
    using n by auto
  obtain res st1 w1 where e: "record_decision demo ?e ?st ?w = (res, st1, w1)" by (metis prod_cases3)
  have "\<not> acceptable_request ?e" by (simp add: acceptable_request_def demo_request_def)
  with record_decision_idempotent [OF demo_cap_laws demo_inv(2) e] e show ?thesis
    unfolding Let_def using same conflict by blast
qed

lemma token_canonical_binds_witness:
  "\<exists>x y s c. demo_token\<lparr>ct_use_count := 1\<rparr> =
     demo_token\<lparr>ct_issued_at := x, ct_expires_at := y, ct_signature := s, ct_use_count := c\<rparr> \<and>
     timestamp x = timestamp (ct_issued_at demo_token) \<and>
     timestamp y = timestamp (ct_expires_at demo_token)"
proof -
  have f: "\<forall>f \<in> set (ct_fields demo_token). CHR ''|'' \<notin> set f"
    using show_nat_no_bar show_int_no_bar
    by (simp add: ct_fields_def demo_token_def issued_token_def token_of_decision_def Let_def
        decision_of_request_def demo_request_def demo_dec_id_def demo_def authority_defs
        demo_digest_def show_bool_def)
  moreover have "ct_fields (demo_token\<lparr>ct_use_count := 1\<rparr>) = ct_fields demo_token"
    by (simp add: ct_fields_def)
  ultimately show ?thesis
    by (intro token_canonical_binds) simp_all
qed

text \<open>
  The scope an idempotent retry must match omits the policy hash and the verdict. A
  request that differs from a recorded one only in policy hash, verdict id, basis, agency or DRS
  is answered with the recorded decision, so the token it leads to carries the old policy hash.
\<close>

lemma retry_ignores_policy_hash:
  assumes "cap_laws X" "cap_inv X (st, w)" "record_decision X r st w = (Inr i, st1, w1)"
    "is_sha256_hex h" "\<not> blank h" "\<not> blank v"
  shows "fst (record_decision X (r\<lparr>dr_policy_hash := h, dr_sentinel_verdict_id := v,
      dr_authorization_basis := b, dr_agency := a, dr_drs := n\<rparr>) st1 w1) = Inr i"
proof -
  let ?r = "r\<lparr>dr_policy_hash := h, dr_sentinel_verdict_id := v,
      dr_authorization_basis := b, dr_agency := a, dr_drs := n\<rparr>"
  have ok: "decision_request_validate r = Inr ()"
    using assms(3) by (cases "decision_request_validate r") (auto simp: record_decision_def)
  have ok': "decision_request_validate ?r = Inr ()"
    using ok assms(4-6)
    by (simp add: decision_request_validate_def all_ok_iff nonempty_def split: if_splits)
  have "\<exists>d. hm_get (cs_decision_by_tx st1) (tx_key (dr_gov_tx_id r) (dr_authority r)) = Some i \<and>
      hm_get (cs_decisions st1) i = Some d \<and> same_scope r d"
    using assms(3) ok
    by (auto simp: record_decision_def Let_def same_scope_def decision_of_request_def
        split: option.splits if_splits)
  then show ?thesis
    using ok' by (auto simp: record_decision_def same_scope_def)
qed

lemma retry_ignores_policy_hash_witness:
  "fst (record_decision demo (demo_request\<lparr>dr_policy_hash := replicate 64 CHR ''b'',
      dr_sentinel_verdict_id := ''w'', dr_authorization_basis := [], dr_agency := [],
      dr_drs := 0\<rparr>) (fst demo_recorded) (tick (draw_id demo_world))) = Inr demo_dec_id"
proof (rule retry_ignores_policy_hash [OF demo_cap_laws demo_inv(1) demo_record(1)])
  show "is_sha256_hex (replicate 64 CHR ''b'')"
    by (simp add: is_sha256_hex_def validate_sha256_def SHA256_HEX_LEN_def
      is_ascii_digit_def char_le_def list_all_iff)
  have "\<not> blank (CHR ''b'' # replicate 63 CHR ''b'')"
    by (rule not_blank_Cons) (simp_all add: utf8_len_def is_ws_def is_whitespace_cp_def byte_def)
  then show "\<not> blank (replicate 64 CHR ''b'')" by (simp add: numeral_eq_Suc)
  show "\<not> blank ''w''" by (simp add: str_eval)
qed

end
