(* ===== verification/VerdictLedger.thy ===== *)
theory VerdictLedger
  imports Signal
begin

text \<open>
  \<open>verdict_ledger.rs\<close>: the records of inbound verdicts and the two indexes of finally approved
  ones, by transaction and by context hash.

  The theorems: every index entry points to an approved record of the key it is filed under; a
  lookup by context hash can only find an approval of that context in that session; a legacy
  approval, which carries no context, is never found by one.
\<close>

record verdict_record =
  vr_verdict_id :: string
  vr_gov_tx_id :: string
  vr_session_id :: string
  vr_final_approved :: bool
  vr_direction :: direction
  vr_violation_class :: "string option"
  vr_severity :: severity
  vr_confidence :: f32
  vr_payload_hash :: string
  vr_signal_signature :: string
  vr_recorded_at :: int
  vr_context_hash :: "string option"
  vr_run_id :: "string option"

datatype resolve_outcome = ResFound | ResNotFound | ResTransactionMismatch | ResSessionMismatch

datatype context_resolve_outcome = CtxFound | CtxNotFound | CtxSessionMismatch

record verdict_ledger =
  vl_verdicts :: "verdict_record hashmap"
  vl_approved_by_tx :: "string hashmap"
  vl_approved_by_context :: "string hashmap"

definition verdict_ledger_new :: verdict_ledger where
  "verdict_ledger_new = \<lparr>vl_verdicts = [], vl_approved_by_tx = [], vl_approved_by_context = []\<rparr>"

definition verdict_of_signal :: "string \<Rightarrow> string \<Rightarrow> bool \<Rightarrow> signal \<Rightarrow> int \<Rightarrow> string option \<Rightarrow>
    string option \<Rightarrow> verdict_record" where
  "verdict_of_signal verdict_id gov_tx_id approved s recorded_at ctx run =
     \<lparr>vr_verdict_id = verdict_id, vr_gov_tx_id = gov_tx_id, vr_session_id = sg_session_id s,
      vr_final_approved = approved, vr_direction = sg_direction s,
      vr_violation_class = sg_violation_class s, vr_severity = sg_severity s,
      vr_confidence = sg_confidence s, vr_payload_hash = sg_payload_hash s,
      vr_signal_signature = (case sg_signature s of None \<Rightarrow> [] | Some g \<Rightarrow> g),
      vr_recorded_at = recorded_at, vr_context_hash = ctx, vr_run_id = run\<rparr>"

definition ledger_key :: "string \<Rightarrow> string \<Rightarrow> string" where
  "ledger_key a session_id = a @ bar @ session_id"

definition ledger_record :: "externs \<Rightarrow> string \<Rightarrow> signal \<Rightarrow> verdict_ledger \<Rightarrow> world \<Rightarrow>
    string \<times> verdict_ledger \<times> world" where
  "ledger_record X gov_tx_id s l w =
     (let verdict_id = ''SV-'' @ uuid_simple X (ids w)
      in (verdict_id,
          l\<lparr>vl_verdicts := hm_insert verdict_id
              (verdict_of_signal verdict_id gov_tx_id False s (now X w) None None) (vl_verdicts l)\<rparr>,
          tick (draw_id w)))"

definition record_final_approved_inner :: "externs \<Rightarrow> string \<Rightarrow> signal \<Rightarrow> string option \<Rightarrow>
    string option \<Rightarrow> verdict_ledger \<Rightarrow> world \<Rightarrow> string \<times> verdict_ledger \<times> world" where
  "record_final_approved_inner X gov_tx_id s ctx run l w =
     (let verdict_id = ''SV-'' @ uuid_simple X (ids w);
          l1 = l\<lparr>vl_verdicts := hm_insert verdict_id
                 (verdict_of_signal verdict_id gov_tx_id True s (now X w) ctx run) (vl_verdicts l)\<rparr>;
          l2 = l1\<lparr>vl_approved_by_tx :=
                 hm_insert (ledger_key gov_tx_id (sg_session_id s)) verdict_id (vl_approved_by_tx l1)\<rparr>;
          l3 = (case ctx of
                  None \<Rightarrow> l2
                | Some c \<Rightarrow> l2\<lparr>vl_approved_by_context :=
                    hm_insert (ledger_key c (sg_session_id s)) verdict_id (vl_approved_by_context l2)\<rparr>)
      in (verdict_id, l3, tick (draw_id w)))"

definition record_final_approved :: "externs \<Rightarrow> string \<Rightarrow> signal \<Rightarrow> verdict_ledger \<Rightarrow> world \<Rightarrow>
    string \<times> verdict_ledger \<times> world" where
  "record_final_approved X gov_tx_id s l w =
     record_final_approved_inner X gov_tx_id s None None l w"

definition record_final_approved_with_context :: "externs \<Rightarrow> string \<Rightarrow> signal \<Rightarrow> string \<Rightarrow> string \<Rightarrow>
    verdict_ledger \<Rightarrow> world \<Rightarrow> string \<times> verdict_ledger \<times> world" where
  "record_final_approved_with_context X gov_tx_id s ctx run l w =
     record_final_approved_inner X gov_tx_id s (Some ctx) (Some run) l w"

definition approved_verdict_id :: "string \<Rightarrow> string \<Rightarrow> verdict_ledger \<Rightarrow> string option" where
  "approved_verdict_id gov_tx_id session_id l =
     hm_get (vl_approved_by_tx l) (ledger_key gov_tx_id session_id)"

definition approved_verdict_id_by_context :: "string \<Rightarrow> string \<Rightarrow> verdict_ledger \<Rightarrow> string option" where
  "approved_verdict_id_by_context ctx session_id l =
     hm_get (vl_approved_by_context l) (ledger_key ctx session_id)"

definition resolve_by_context :: "string \<Rightarrow> string \<Rightarrow> verdict_ledger \<Rightarrow>
    context_resolve_outcome \<times> verdict_record option" where
  "resolve_by_context verdict_id session_id l =
     (case hm_get (vl_verdicts l) verdict_id of
        None \<Rightarrow> (CtxNotFound, None)
      | Some r \<Rightarrow>
          if vr_session_id r \<noteq> session_id then (CtxSessionMismatch, Some r) else (CtxFound, Some r))"

definition resolve :: "string \<Rightarrow> string \<Rightarrow> string \<Rightarrow> verdict_ledger \<Rightarrow>
    resolve_outcome \<times> verdict_record option" where
  "resolve verdict_id gov_tx_id session_id l =
     (case hm_get (vl_verdicts l) verdict_id of
        None \<Rightarrow> (ResNotFound, None)
      | Some r \<Rightarrow>
          if vr_gov_tx_id r \<noteq> gov_tx_id then (ResTransactionMismatch, Some r)
          else if vr_session_id r \<noteq> session_id then (ResSessionMismatch, Some r)
          else (ResFound, Some r))"

section \<open>The invariant of the ledger\<close>

lemma ledger_key_inject:
  assumes "CHR ''|'' \<notin> set a" "CHR ''|'' \<notin> set b" "ledger_key a s = ledger_key b t"
  shows "a = b \<and> s = t"
  using append_delim_eq [of "CHR ''|''" a b s t] assms by (simp add: ledger_key_def bar_def)

definition verdicts_ok :: "externs \<Rightarrow> verdict_record hashmap \<Rightarrow> nat \<Rightarrow> bool" where
  "verdicts_ok X m n \<longleftrightarrow> (\<forall>i r. hm_get m i = Some r \<longrightarrow>
     vr_verdict_id r = i \<and> (\<exists>k < n. i = ''SV-'' @ uuid_simple X k) \<and>
     (\<forall>c. vr_context_hash r = Some c \<longrightarrow> CHR ''|'' \<notin> set c \<and> vr_final_approved r))"

definition tx_index_ok :: "verdict_record hashmap \<Rightarrow> string hashmap \<Rightarrow> bool" where
  "tx_index_ok m ix \<longleftrightarrow> (\<forall>k i. hm_get ix k = Some i \<longrightarrow>
     (\<exists>r. hm_get m i = Some r \<and> vr_final_approved r \<and>
        k = ledger_key (vr_gov_tx_id r) (vr_session_id r)))"

definition context_index_ok :: "verdict_record hashmap \<Rightarrow> string hashmap \<Rightarrow> bool" where
  "context_index_ok m ix \<longleftrightarrow> (\<forall>k i. hm_get ix k = Some i \<longrightarrow>
     (\<exists>r c. hm_get m i = Some r \<and> vr_final_approved r \<and> vr_context_hash r = Some c \<and>
        k = ledger_key c (vr_session_id r)))"

definition ledger_inv :: "externs \<Rightarrow> verdict_ledger \<Rightarrow> world \<Rightarrow> bool" where
  "ledger_inv X l w \<longleftrightarrow> verdicts_ok X (vl_verdicts l) (ids w) \<and>
     tx_index_ok (vl_verdicts l) (vl_approved_by_tx l) \<and>
     context_index_ok (vl_verdicts l) (vl_approved_by_context l)"

lemma verdict_of_signal_sel [simp]:
  "vr_verdict_id (verdict_of_signal i tx a s t c n) = i"
  "vr_gov_tx_id (verdict_of_signal i tx a s t c n) = tx"
  "vr_session_id (verdict_of_signal i tx a s t c n) = sg_session_id s"
  "vr_final_approved (verdict_of_signal i tx a s t c n) = a"
  "vr_context_hash (verdict_of_signal i tx a s t c n) = c"
  "vr_run_id (verdict_of_signal i tx a s t c n) = n"
  by (simp_all add: verdict_of_signal_def)

lemma ledger_inv_new: "ledger_inv X verdict_ledger_new w"
  by (simp add: ledger_inv_def verdict_ledger_new_def verdicts_ok_def tx_index_ok_def
      context_index_ok_def)

lemma ledger_inv_world: "ledger_inv X l w \<Longrightarrow> ids w \<le> ids w' \<Longrightarrow> ledger_inv X l w'"
  unfolding ledger_inv_def verdicts_ok_def by (meson less_le_trans)

lemma tx_index_mono:
  "tx_index_ok m ix \<Longrightarrow> (\<And>i r. hm_get m i = Some r \<Longrightarrow> hm_get m' i = Some r) \<Longrightarrow> tx_index_ok m' ix"
  unfolding tx_index_ok_def by blast

lemma context_index_mono:
  "context_index_ok m ix \<Longrightarrow> (\<And>i r. hm_get m i = Some r \<Longrightarrow> hm_get m' i = Some r) \<Longrightarrow>
     context_index_ok m' ix"
  unfolding context_index_ok_def by blast

text \<open>A new record under a fresh id keeps everything the indexes point to.\<close>

lemma ledger_inv_insert:
  assumes u: "uuid_laws X" and inv: "ledger_inv X l w"
    and i: "i = ''SV-'' @ uuid_simple X (ids w)"
    and r: "vr_verdict_id r = i"
      "\<And>c. vr_context_hash r = Some c \<Longrightarrow> CHR ''|'' \<notin> set c \<and> vr_final_approved r"
  shows "ledger_inv X (l\<lparr>vl_verdicts := hm_insert i r (vl_verdicts l)\<rparr>) (tick (draw_id w))"
proof -
  have v: "verdicts_ok X (vl_verdicts l) (ids w)" using inv by (simp add: ledger_inv_def)
  have fresh: "j \<noteq> i" if "hm_get (vl_verdicts l) j = Some s" for j s
  proof
    assume "j = i"
    with that v i obtain n where "n < ids w" "uuid_simple X n = uuid_simple X (ids w)"
      unfolding verdicts_ok_def by (metis same_append_eq)
    with u show False by (auto simp: uuid_laws_def dest: injD)
  qed
  then have keep: "hm_get (hm_insert i r (vl_verdicts l)) j = Some s"
    if "hm_get (vl_verdicts l) j = Some s" for j s
    using that by auto
  have "verdicts_ok X (hm_insert i r (vl_verdicts l)) (Suc (ids w))"
    using v i r unfolding verdicts_ok_def hm_get_insert
    by (metis less_Suc_eq option.inject)
  moreover have "tx_index_ok (hm_insert i r (vl_verdicts l)) (vl_approved_by_tx l)"
    by (rule tx_index_mono [of "vl_verdicts l"]) (use inv keep in \<open>simp_all add: ledger_inv_def\<close>)
  moreover have "context_index_ok (hm_insert i r (vl_verdicts l)) (vl_approved_by_context l)"
    by (rule context_index_mono [of "vl_verdicts l"])
      (use inv keep in \<open>simp_all add: ledger_inv_def\<close>)
  ultimately show ?thesis by (simp add: ledger_inv_def)
qed

lemma ledger_record_inv:
  assumes "uuid_laws X" "ledger_inv X l w"
  shows "ledger_inv X (fst (snd (ledger_record X tx s l w))) (snd (snd (ledger_record X tx s l w)))"
  using ledger_inv_insert [OF assms refl, of "verdict_of_signal _ tx False s (now X w) None None"]
  by (simp add: ledger_record_def Let_def)

lemma record_final_inv:
  assumes "uuid_laws X" "ledger_inv X l w" "\<And>c. ctx = Some c \<Longrightarrow> CHR ''|'' \<notin> set c"
  shows "ledger_inv X (fst (snd (record_final_approved_inner X tx s ctx run l w)))
    (snd (snd (record_final_approved_inner X tx s ctx run l w)))"
proof -
  let ?i = "''SV-'' @ uuid_simple X (ids w)"
  let ?r = "verdict_of_signal ?i tx True s (now X w) ctx run"
  have 1: "ledger_inv X (l\<lparr>vl_verdicts := hm_insert ?i ?r (vl_verdicts l)\<rparr>) (tick (draw_id w))"
    using assms by (intro ledger_inv_insert) auto
  have 2: "ledger_inv X (l\<lparr>vl_approved_by_tx := hm_insert k i (vl_approved_by_tx l)\<rparr>) w"
    if "ledger_inv X l w" "hm_get (vl_verdicts l) i = Some r" "vr_final_approved r"
      "k = ledger_key (vr_gov_tx_id r) (vr_session_id r)" for l w k i r
    using that by (simp add: ledger_inv_def tx_index_ok_def)
  have 3: "ledger_inv X (l\<lparr>vl_approved_by_context := hm_insert k i (vl_approved_by_context l)\<rparr>) w"
    if "ledger_inv X l w" "hm_get (vl_verdicts l) i = Some r" "vr_final_approved r"
      "vr_context_hash r = Some c" "k = ledger_key c (vr_session_id r)" for l w k i r c
    using that by (simp add: ledger_inv_def context_index_ok_def)
  show ?thesis
  proof (cases ctx)
    case None
    with 2 [OF 1, where i = ?i and r = ?r] show ?thesis
      by (simp add: record_final_approved_inner_def Let_def)
  next
    case (Some c)
    with 3 [OF 2 [OF 1, where i = ?i and r = ?r], where i = ?i and r = ?r and c = c] show ?thesis
      by (simp add: record_final_approved_inner_def Let_def)
  qed
qed

section \<open>Reachable ledgers\<close>

text \<open>
  What the pipeline does to its ledger, interleaved with foreign draws from the UUID source. A
  context hash that reaches the ledger comes from a verified envelope, so it is a hex digest and
  has no separator.
\<close>

inductive ledger_reachable :: "externs \<Rightarrow> verdict_ledger \<Rightarrow> world \<Rightarrow> bool" for X where
  fresh: "ledger_reachable X verdict_ledger_new w"
| verdict: "ledger_reachable X l w \<Longrightarrow> ledger_record X tx s l w = (i, l', w') \<Longrightarrow>
    ledger_reachable X l' w'"
| legacy: "ledger_reachable X l w \<Longrightarrow> record_final_approved X tx s l w = (i, l', w') \<Longrightarrow>
    ledger_reachable X l' w'"
| approved: "ledger_reachable X l w \<Longrightarrow> CHR ''|'' \<notin> set c \<Longrightarrow>
    record_final_approved_with_context X tx s c run l w = (i, l', w') \<Longrightarrow> ledger_reachable X l' w'"
| foreign: "ledger_reachable X l w \<Longrightarrow> world_le w w' \<Longrightarrow> ledger_reachable X l w'"

lemma ledger_reachable_inv: "ledger_reachable X l w \<Longrightarrow> uuid_laws X \<Longrightarrow> ledger_inv X l w"
proof (induction rule: ledger_reachable.induct)
  case (fresh w)
  show ?case by (rule ledger_inv_new)
next
  case (verdict l w tx s i l' w')
  then show ?case using ledger_record_inv [of X l w tx s] by simp
next
  case (legacy l w tx s i l' w')
  then show ?case
    using record_final_inv [of X l w None tx s None] by (simp add: record_final_approved_def)
next
  case (approved l w c tx s run i l' w')
  then show ?case
    using record_final_inv [of X l w "Some c" tx s "Some run"]
    by (simp add: record_final_approved_with_context_def)
next
  case (foreign l w w')
  then show ?case by (auto simp: world_le_def intro: ledger_inv_world)
qed

text \<open>
  Claim C19: an authorization finds only an approval of its own context. In a reachable ledger, a
  lookup by (context hash, session) that succeeds leads to a stored record which resolves as
  found, is finally approved, and carries exactly that context hash and session; so the session
  mismatch outcome cannot occur after such a lookup, and a legacy approval is never found.
\<close>

theorem context_lookup_sound:
  assumes "uuid_laws X" "ledger_reachable X l w" "CHR ''|'' \<notin> set c"
    "approved_verdict_id_by_context c sid l = Some i"
  shows "\<exists>r. resolve_by_context i sid l = (CtxFound, Some r) \<and> vr_verdict_id r = i \<and>
    vr_final_approved r \<and> vr_context_hash r = Some c \<and> vr_session_id r = sid"
proof -
  have inv: "ledger_inv X l w" by (rule ledger_reachable_inv [OF assms(2,1)])
  with assms(4) obtain r c' where r: "hm_get (vl_verdicts l) i = Some r" "vr_final_approved r"
    "vr_context_hash r = Some c'" "ledger_key c sid = ledger_key c' (vr_session_id r)"
    unfolding ledger_inv_def context_index_ok_def approved_verdict_id_by_context_def by blast
  with inv have "CHR ''|'' \<notin> set c'" "vr_verdict_id r = i"
    unfolding ledger_inv_def verdicts_ok_def by blast+
  moreover from this have "c = c' \<and> sid = vr_session_id r"
    by (intro ledger_key_inject) (use assms(3) r(4) in auto)
  ultimately show ?thesis using r by (simp add: resolve_by_context_def)
qed

definition demo_signal :: signal where
  "demo_signal = fst (clean_signal demo demo_world Sentinel Inbound ''s'' ''h'')"

lemma context_lookup_sound_witness:
  "\<exists>l i r. approved_verdict_id_by_context ''c'' ''s'' l = Some i \<and>
     resolve_by_context i ''s'' l = (CtxFound, Some r) \<and> vr_context_hash r = Some ''c''"
proof -
  obtain i l w where a: "record_final_approved_with_context demo ''tx'' demo_signal ''c'' ''r''
      verdict_ledger_new demo_world = (i, l, w)" by (metis surj_pair)
  have reach: "ledger_reachable demo l w"
    by (rule ledger_reachable.approved [OF ledger_reachable.fresh _ a]) simp
  have look: "approved_verdict_id_by_context ''c'' ''s'' l = Some i"
    using a by (auto simp: record_final_approved_with_context_def record_final_approved_inner_def
        Let_def approved_verdict_id_by_context_def demo_signal_def)
  show ?thesis using context_lookup_sound [OF demo_laws(4) reach _ look] look by auto
qed

text \<open>
  The transaction index is ambiguous for ids that contain the separator: an approval
  filed under one (transaction, session) pair is returned for another, and only the check of
  \<open>resolve\<close> tells them apart.
\<close>

lemma transaction_lookup_ambiguous:
  "\<exists>i l r. record_final_approved demo ''a|b'' demo_signal verdict_ledger_new demo_world =
       (i, l, tick (draw_id demo_world)) \<and>
     approved_verdict_id ''a'' ''b|s'' l = Some i \<and>
     resolve i ''a'' ''b|s'' l = (ResTransactionMismatch, Some r)"
  by (simp add: record_final_approved_def record_final_approved_inner_def Let_def resolve_def
      approved_verdict_id_def demo_signal_def verdict_ledger_new_def ledger_key_def bar_def)

end
