(* ===== verification/Evidence.thy ===== *)
theory Evidence
  imports Capability
begin

text \<open>
  The evidence plane of \<open>evidence.rs\<close>: signed, hash-linked events, the external sink with its
  deferred queue, checkpoints, and the two offline verifiers.

  The theorems: whatever is appended, the snapshot verifies; the canonical material of an event
  determines the event; two verified snapshots with one length and one head hash are the same or
  exhibit a hash collision, so a snapshot accepted against a checkpoint is neither truncated nor
  altered; the sink receives exactly the appended events in order, with the queue holding the
  rest.

  The sink is the interface \<open>EvidenceSink\<close>: a write function over a state of its own, with the
  law that a successful write adds the event at the end and a failed one adds nothing.
\<close>

definition EVIDENCE_SCHEMA_VERSION :: string where
  "EVIDENCE_SCHEMA_VERSION = ''logos.govsec-evidence.v1''"
definition EVIDENCE_CHECKPOINT_SCHEMA_VERSION :: string where
  "EVIDENCE_CHECKPOINT_SCHEMA_VERSION = ''logos.govsec-evidence-checkpoint.v1''"

datatype evidence_event_type = ContextApproved | ContextRefused | ProviderAuthorized
  | ProviderRefused | ActionAuthorized | ActionRefused | CapabilityConsumed | CapabilityRejected
  | OutboundReleased | OutboundWithheld

fun event_type_str :: "evidence_event_type \<Rightarrow> string" where
  "event_type_str ContextApproved = ''CONTEXT_APPROVED''"
| "event_type_str ContextRefused = ''CONTEXT_REFUSED''"
| "event_type_str ProviderAuthorized = ''PROVIDER_AUTHORIZED''"
| "event_type_str ProviderRefused = ''PROVIDER_REFUSED''"
| "event_type_str ActionAuthorized = ''ACTION_AUTHORIZED''"
| "event_type_str ActionRefused = ''ACTION_REFUSED''"
| "event_type_str CapabilityConsumed = ''CAPABILITY_CONSUMED''"
| "event_type_str CapabilityRejected = ''CAPABILITY_REJECTED''"
| "event_type_str OutboundReleased = ''OUTBOUND_RELEASED''"
| "event_type_str OutboundWithheld = ''OUTBOUND_WITHHELD''"

record evidence_payload =
  ep_gov_tx_id :: "string option"
  ep_session_id :: "string option"
  ep_run_id :: "string option"
  ep_principal_fingerprint :: "string option"
  ep_authority :: "string option"
  ep_context_hash :: "string option"
  ep_decision_id :: "string option"
  ep_capability_id :: "string option"
  ep_action_hash :: "string option"
  ep_outbound_hash :: "string option"
  ep_tool_name :: "string option"
  ep_resource_kind :: "string option"
  ep_resource_locator_hash :: "string option"
  ep_tool_call_id :: "string option"
  ep_policy_version :: "string option"
  ep_policy_hash :: "string option"
  ep_outcome :: string

text \<open>\<open>EvidencePayload::default()\<close>\<close>

definition payload_default :: evidence_payload where
  "payload_default = \<lparr>ep_gov_tx_id = None, ep_session_id = None, ep_run_id = None,
     ep_principal_fingerprint = None, ep_authority = None, ep_context_hash = None,
     ep_decision_id = None, ep_capability_id = None, ep_action_hash = None,
     ep_outbound_hash = None, ep_tool_name = None, ep_resource_kind = None,
     ep_resource_locator_hash = None, ep_tool_call_id = None, ep_policy_version = None,
     ep_policy_hash = None, ep_outcome = []\<rparr>"

record evidence_event =
  ee_schema_version :: string
  ee_epoch_id :: string
  ee_epoch_parent_hash :: "string option"
  ee_sequence :: u64
  ee_event_id :: string
  ee_timestamp :: int
  ee_event_type :: evidence_event_type
  ee_payload :: evidence_payload
  ee_previous_event_hash :: string
  ee_event_hash :: string
  ee_signer_fingerprint :: string
  ee_signer_public_key :: string
  ee_signature :: string

record evidence_checkpoint =
  ec_schema_version :: string
  ec_epoch_id :: string
  ec_last_sequence :: u64
  ec_head_hash :: string
  ec_signer_fingerprint :: string
  ec_signer_public_key :: string
  ec_created_at :: int
  ec_checkpoint_hash :: string
  ec_signature :: string

record sink_error =
  se_sink :: string
  se_message :: string

definition show_sink_error :: "sink_error \<Rightarrow> string" where
  "show_sink_error e = ''evidence sink '' @ se_sink e @ '' failed: '' @ se_message e"

text \<open>A sink: its name and its \<open>write\<close>, over the state behind it.\<close>

record 's evidence_sink =
  sk_name :: string
  sk_write :: "evidence_event \<Rightarrow> 's \<Rightarrow> (sink_error + unit) \<times> 's"

datatype sink_status = NotConfigured | Delivered string | Deferred string string

record append_receipt =
  er_event_id :: string
  er_event_hash :: string
  er_sequence :: u64
  er_epoch_id :: string
  er_sink_status :: sink_status

datatype verification_error = InvalidCheckpoint | CheckpointSignerMismatch | SchemaMismatch u64
  | MixedEpoch | MixedSigner | SignerFingerprintMismatch | InvalidSequence u64 u64
  | ParentMismatch u64 | EvHashMismatch u64 | EvSignatureInvalid u64

section \<open>Canonical material and signatures\<close>

definition enc :: "externs \<Rightarrow> string \<Rightarrow> string" where
  "enc X v = hex_encode X v"

definition enc_opt :: "externs \<Rightarrow> string option \<Rightarrow> string" where
  "enc_opt X v = (case v of Some s \<Rightarrow> CHR ''1'' # enc X s | None \<Rightarrow> ''0'')"

definition event_fields :: "externs \<Rightarrow> evidence_event \<Rightarrow> string list" where
  "event_fields X e =
     (let p = ee_payload e in
      [enc X (ee_schema_version e), enc X (ee_epoch_id e), enc_opt X (ee_epoch_parent_hash e),
       show_nat (unat (ee_sequence e)), enc X (ee_event_id e),
       show_int (timestamp_nanos (ee_timestamp e)), event_type_str (ee_event_type e),
       enc_opt X (ep_gov_tx_id p), enc_opt X (ep_session_id p), enc_opt X (ep_run_id p),
       enc_opt X (ep_principal_fingerprint p), enc_opt X (ep_authority p),
       enc_opt X (ep_context_hash p), enc_opt X (ep_decision_id p),
       enc_opt X (ep_capability_id p), enc_opt X (ep_action_hash p),
       enc_opt X (ep_outbound_hash p), enc_opt X (ep_tool_name p), enc_opt X (ep_resource_kind p),
       enc_opt X (ep_resource_locator_hash p), enc_opt X (ep_tool_call_id p),
       enc_opt X (ep_policy_version p), enc_opt X (ep_policy_hash p), enc X (ep_outcome p),
       enc X (ee_previous_event_hash e), enc X (ee_signer_fingerprint e),
       enc X (ee_signer_public_key e)])"

definition canonical_event_material :: "externs \<Rightarrow> evidence_event \<Rightarrow> string" where
  "canonical_event_material X e = join bar (event_fields X e)"

definition canonical_checkpoint_material :: "externs \<Rightarrow> string \<Rightarrow> string \<Rightarrow> u64 \<Rightarrow> string \<Rightarrow> string \<Rightarrow>
    string \<Rightarrow> int \<Rightarrow> string" where
  "canonical_checkpoint_material X schema epoch last_seq head fp pk created =
     join bar [enc X schema, enc X epoch, show_nat (unat last_seq), enc X head, enc X fp, enc X pk,
       show_int (timestamp_nanos created)]"

definition signer_fingerprint :: "externs \<Rightarrow> string \<Rightarrow> string option" where
  "signer_fingerprint X public_key_hex =
     (case hex_decode X public_key_hex of
        None \<Rightarrow> None
      | Some bytes \<Rightarrow>
          if length bytes \<noteq> 32 \<or> \<not> ed_key_ok X bytes then None
          else Some (take 16 (compute_hash X public_key_hex)))"

definition verify_signature_hex :: "externs \<Rightarrow> string \<Rightarrow> string \<Rightarrow> string \<Rightarrow> bool" where
  "verify_signature_hex X public_key_hex data signature_hex =
     (case hex_decode X public_key_hex of
        None \<Rightarrow> False
      | Some key \<Rightarrow>
          if length key \<noteq> 32 \<or> \<not> ed_key_ok X key then False
          else (case hex_decode X signature_hex of
                  None \<Rightarrow> False
                | Some sig \<Rightarrow> length sig = 64 \<and> ed_verify X key data sig))"

definition event_recompute_hash :: "externs \<Rightarrow> evidence_event \<Rightarrow> string" where
  "event_recompute_hash X e = compute_hash X (canonical_event_material X e)"

definition event_verify_signature :: "externs \<Rightarrow> evidence_event \<Rightarrow> bool" where
  "event_verify_signature X e =
     verify_signature_hex X (ee_signer_public_key e) (ee_event_hash e) (ee_signature e)"

definition checkpoint_recompute_hash :: "externs \<Rightarrow> evidence_checkpoint \<Rightarrow> string" where
  "checkpoint_recompute_hash X c = compute_hash X (canonical_checkpoint_material X
     (ec_schema_version c) (ec_epoch_id c) (ec_last_sequence c) (ec_head_hash c)
     (ec_signer_fingerprint c) (ec_signer_public_key c) (ec_created_at c))"

definition checkpoint_verify :: "externs \<Rightarrow> evidence_checkpoint \<Rightarrow> bool" where
  "checkpoint_verify X c =
     (if ec_schema_version c \<noteq> EVIDENCE_CHECKPOINT_SCHEMA_VERSION then False
      else case signer_fingerprint X (ec_signer_public_key c) of
        None \<Rightarrow> False
      | Some fp \<Rightarrow>
          if fp \<noteq> ec_signer_fingerprint c then False
          else if checkpoint_recompute_hash X c \<noteq> ec_checkpoint_hash c then False
          else verify_signature_hex X (ec_signer_public_key c) (ec_checkpoint_hash c)
                 (ec_signature c))"

section \<open>The plane\<close>

record 's evidence_plane =
  ev_epoch_id :: string
  ev_epoch_parent_hash :: "string option"
  ev_head_hash :: string
  ev_next_sequence :: u64
  ev_events :: "evidence_event list"
  ev_pending_sink :: "evidence_event list"
  ev_sink :: "'s evidence_sink option"
  ev_sink_state :: 's

definition genesis_hash :: "externs \<Rightarrow> string \<Rightarrow> string \<Rightarrow> string" where
  "genesis_hash X epoch signer =
     compute_hash X (EVIDENCE_SCHEMA_VERSION @ ''|GENESIS|'' @ epoch @ bar @ signer)"

text \<open>\<open>epoch_parent_hash.unwrap_or_else(genesis)\<close>\<close>

definition start_hash :: "externs \<Rightarrow> string option \<Rightarrow> string \<Rightarrow> string \<Rightarrow> string" where
  "start_hash X parent epoch signer =
     (case parent of Some p \<Rightarrow> p | None \<Rightarrow> genesis_hash X epoch signer)"

definition with_parent_hash :: "externs \<Rightarrow> string option \<Rightarrow> 's evidence_sink option \<Rightarrow> 's \<Rightarrow> world \<Rightarrow>
    's evidence_plane \<times> world" where
  "with_parent_hash X parent sink s w =
     (let epoch = ''EVP-'' @ uuid_simple X (ids w);
          signer = verifying_key_fingerprint X (eng w);
          head = start_hash X parent epoch signer
      in (\<lparr>ev_epoch_id = epoch, ev_epoch_parent_hash = parent, ev_head_hash = head,
           ev_next_sequence = 1, ev_events = [], ev_pending_sink = [], ev_sink = sink,
           ev_sink_state = s\<rparr>, draw_id w))"

definition evidence_new :: "externs \<Rightarrow> 's evidence_sink option \<Rightarrow> 's \<Rightarrow> world \<Rightarrow>
    's evidence_plane \<times> world" where
  "evidence_new X sink s w = with_parent_hash X None sink s w"

definition evidence_from_checkpoint :: "externs \<Rightarrow> evidence_checkpoint \<Rightarrow> 's evidence_sink option \<Rightarrow>
    's \<Rightarrow> world \<Rightarrow> (verification_error + 's evidence_plane) \<times> world" where
  "evidence_from_checkpoint X c sink s w =
     (if \<not> checkpoint_verify X c then (Inl InvalidCheckpoint, w)
      else if ec_signer_public_key c \<noteq> verifying_key_hex X (eng w) \<or>
              ec_signer_fingerprint c \<noteq> verifying_key_fingerprint X (eng w)
      then (Inl CheckpointSignerMismatch, w)
      else (let (pl, w') = with_parent_hash X (Some (ec_head_hash c)) sink s w in (Inr pl, w')))"

definition sink_offer :: "evidence_event \<Rightarrow> 's evidence_plane \<Rightarrow> sink_status \<times> 's evidence_plane" where
  "sink_offer e pl =
     (case ev_sink pl of
        None \<Rightarrow> (NotConfigured, pl)
      | Some sk \<Rightarrow>
          if ev_pending_sink pl \<noteq> [] then
            (Deferred (sk_name sk) ''prior deferred evidence pending'',
             pl\<lparr>ev_pending_sink := ev_pending_sink pl @ [e]\<rparr>)
          else
            (case sk_write sk e (ev_sink_state pl) of
               (Inr _, s) \<Rightarrow> (Delivered (sk_name sk), pl\<lparr>ev_sink_state := s\<rparr>)
             | (Inl err, s) \<Rightarrow>
                 (Deferred (sk_name sk) (show_sink_error err),
                  pl\<lparr>ev_sink_state := s, ev_pending_sink := ev_pending_sink pl @ [e]\<rparr>)))"

definition unsigned_event :: "externs \<Rightarrow> world \<Rightarrow> evidence_event_type \<Rightarrow> evidence_payload \<Rightarrow>
    's evidence_plane \<Rightarrow> evidence_event" where
  "unsigned_event X w ty payload pl =
     \<lparr>ee_schema_version = EVIDENCE_SCHEMA_VERSION, ee_epoch_id = ev_epoch_id pl,
      ee_epoch_parent_hash = ev_epoch_parent_hash pl, ee_sequence = ev_next_sequence pl,
      ee_event_id = ''EVE-'' @ uuid_simple X (ids w), ee_timestamp = now X w,
      ee_event_type = ty, ee_payload = payload, ee_previous_event_hash = ev_head_hash pl,
      ee_event_hash = [], ee_signer_fingerprint = verifying_key_fingerprint X (eng w),
      ee_signer_public_key = verifying_key_hex X (eng w), ee_signature = []\<rparr>"

definition new_event :: "externs \<Rightarrow> world \<Rightarrow> evidence_event_type \<Rightarrow> evidence_payload \<Rightarrow>
    's evidence_plane \<Rightarrow> evidence_event" where
  "new_event X w ty payload pl =
     (let e = unsigned_event X w ty payload pl;
          event_hash = compute_hash X (canonical_event_material X e)
      in e\<lparr>ee_signature := engine_sign X (eng w) event_hash, ee_event_hash := event_hash\<rparr>)"

definition evidence_append :: "externs \<Rightarrow> evidence_event_type \<Rightarrow> evidence_payload \<Rightarrow>
    's evidence_plane \<Rightarrow> world \<Rightarrow> append_receipt \<times> 's evidence_plane \<times> world" where
  "evidence_append X ty payload pl w =
     (let e = new_event X w ty payload pl;
          pl1 = pl\<lparr>ev_events := ev_events pl @ [e], ev_head_hash := ee_event_hash e,
                   ev_next_sequence := ev_next_sequence pl + 1\<rparr>;
          (status, pl2) = sink_offer e pl1
      in (\<lparr>er_event_id = ee_event_id e, er_event_hash = ee_event_hash e,
           er_sequence = ee_sequence e, er_epoch_id = ee_epoch_id e, er_sink_status = status\<rparr>,
          pl2, draw_id (tick w)))"

definition evidence_snapshot :: "'s evidence_plane \<Rightarrow> evidence_event list" where
  "evidence_snapshot pl = ev_events pl"

definition evidence_len :: "'s evidence_plane \<Rightarrow> nat" where
  "evidence_len pl = length (ev_events pl)"

definition pending_sink_count :: "'s evidence_plane \<Rightarrow> nat" where
  "pending_sink_count pl = length (ev_pending_sink pl)"

text \<open>The \<open>while let\<close> of \<open>flush_pending\<close>: the result, the remaining queue, the sink state.\<close>

fun flush_loop :: "(evidence_event \<Rightarrow> 's \<Rightarrow> (sink_error + unit) \<times> 's) \<Rightarrow> evidence_event list \<Rightarrow> 's \<Rightarrow>
    nat \<Rightarrow> (sink_error + nat) \<times> evidence_event list \<times> 's" where
  "flush_loop write [] s delivered = (Inr delivered, [], s)"
| "flush_loop write (e # es) s delivered =
     (case write e s of
        (Inl err, s') \<Rightarrow> (Inl err, e # es, s')
      | (Inr _, s') \<Rightarrow> flush_loop write es s' (Suc delivered))"

definition flush_pending :: "'s evidence_plane \<Rightarrow> (sink_error + nat) \<times> 's evidence_plane" where
  "flush_pending pl =
     (case ev_sink pl of
        None \<Rightarrow> (Inr 0, pl)
      | Some sk \<Rightarrow>
          (case flush_loop (sk_write sk) (ev_pending_sink pl) (ev_sink_state pl) 0 of
             (res, pending, s) \<Rightarrow> (res, pl\<lparr>ev_pending_sink := pending, ev_sink_state := s\<rparr>)))"

definition evidence_checkpoint_of :: "externs \<Rightarrow> 's evidence_plane \<Rightarrow> world \<Rightarrow>
    evidence_checkpoint \<times> world" where
  "evidence_checkpoint_of X pl w =
     (let created = now X w;
          fp = verifying_key_fingerprint X (eng w);
          pk = verifying_key_hex X (eng w);
          last_seq = sat_sub (ev_next_sequence pl) 1;
          h = compute_hash X (canonical_checkpoint_material X EVIDENCE_CHECKPOINT_SCHEMA_VERSION
                (ev_epoch_id pl) last_seq (ev_head_hash pl) fp pk created)
      in (\<lparr>ec_schema_version = EVIDENCE_CHECKPOINT_SCHEMA_VERSION, ec_epoch_id = ev_epoch_id pl,
           ec_last_sequence = last_seq, ec_head_hash = ev_head_hash pl,
           ec_signer_fingerprint = fp, ec_signer_public_key = pk, ec_created_at = created,
           ec_checkpoint_hash = h, ec_signature = engine_sign X (eng w) h\<rparr>, tick w))"

section \<open>Offline verification\<close>

definition event_check :: "externs \<Rightarrow> evidence_event \<Rightarrow> string \<Rightarrow> u64 \<Rightarrow> string \<Rightarrow> evidence_event \<Rightarrow>
    verification_error + unit" where
  "event_check X first fp expected previous_hash e = all_ok [
     guard_ok (ee_schema_version e = EVIDENCE_SCHEMA_VERSION) (SchemaMismatch (ee_sequence e)),
     guard_ok (ee_epoch_id e = ee_epoch_id first \<and>
        ee_epoch_parent_hash e = ee_epoch_parent_hash first) MixedEpoch,
     guard_ok (ee_signer_public_key e = ee_signer_public_key first \<and> ee_signer_fingerprint e = fp)
       MixedSigner,
     guard_ok (ee_sequence e = expected) (InvalidSequence expected (ee_sequence e)),
     guard_ok (ee_previous_event_hash e = previous_hash) (ParentMismatch (ee_sequence e)),
     guard_ok (event_recompute_hash X e = ee_event_hash e) (EvHashMismatch (ee_sequence e)),
     guard_ok (event_verify_signature X e) (EvSignatureInvalid (ee_sequence e))]"

fun verify_events :: "externs \<Rightarrow> evidence_event \<Rightarrow> string \<Rightarrow> nat \<Rightarrow> string \<Rightarrow> evidence_event list \<Rightarrow>
    verification_error + unit" where
  "verify_events X first fp index previous_hash [] = Inr ()"
| "verify_events X first fp index previous_hash (e # es) =
     ebind (event_check X first fp (of_nat index + 1) previous_hash e)
       (\<lambda>_. verify_events X first fp (Suc index) (ee_event_hash e) es)"

definition verify_snapshot :: "externs \<Rightarrow> evidence_event list \<Rightarrow> verification_error + unit" where
  "verify_snapshot X events =
     (case events of
        [] \<Rightarrow> Inr ()
      | first # _ \<Rightarrow>
          (case signer_fingerprint X (ee_signer_public_key first) of
             None \<Rightarrow> Inl SignerFingerprintMismatch
           | Some fp \<Rightarrow>
               if fp \<noteq> ee_signer_fingerprint first then Inl SignerFingerprintMismatch
               else verify_events X first fp 0
                 (start_hash X (ee_epoch_parent_hash first) (ee_epoch_id first) fp) events))"

definition verify_snapshot_against_checkpoint :: "externs \<Rightarrow> evidence_event list \<Rightarrow>
    evidence_checkpoint \<Rightarrow> verification_error + unit" where
  "verify_snapshot_against_checkpoint X events c =
     (if \<not> checkpoint_verify X c then Inl InvalidCheckpoint
      else ebind (verify_snapshot X events) (\<lambda>_.
        if events = [] then
          (if ec_last_sequence c = 0 then Inr () else Inl (InvalidSequence (ec_last_sequence c) 0))
        else let l = last events in all_ok [
          guard_ok (ee_epoch_id l = ec_epoch_id c) MixedEpoch,
          guard_ok (ee_signer_public_key l = ec_signer_public_key c \<and>
            ee_signer_fingerprint l = ec_signer_fingerprint c) MixedSigner,
          guard_ok (ee_sequence l = ec_last_sequence c)
            (InvalidSequence (ec_last_sequence c) (ee_sequence l)),
          guard_ok (ee_event_hash l = ec_head_hash c) (ParentMismatch (ee_sequence l))]))"

section \<open>The sink interface\<close>

locale lawful_sink =
  fixes put :: "evidence_event \<Rightarrow> 's \<Rightarrow> (sink_error + unit) \<times> 's"
    and contents :: "'s \<Rightarrow> evidence_event list"
  assumes write_ok: "put e s = (Inr u, s') \<Longrightarrow> contents s' = contents s @ [e]"
    and write_err: "put e s = (Inl err, s') \<Longrightarrow> contents s' = contents s"
begin

lemma flush_fifo:
  "flush_loop put q s n = (res, q', s') \<Longrightarrow> contents s' @ q' = contents s @ q"
proof (induction q arbitrary: s n)
  case (Cons e q)
  then show ?case
    using write_ok [of e s] write_err [of e s] by (auto split: prod.splits sum.splits)
qed simp

lemma offer_fifo:
  assumes "ev_sink pl = Some sk" "sk_write sk = put" "sink_offer e pl = (status, pl')"
  shows "contents (ev_sink_state pl') @ ev_pending_sink pl' =
     contents (ev_sink_state pl) @ ev_pending_sink pl @ [e]"
  using assms write_ok [of e "ev_sink_state pl"] write_err [of e "ev_sink_state pl"]
  by (auto simp: sink_offer_def split: if_splits prod.splits sum.splits)

end

text \<open>\<open>MemoryEvidenceSink\<close>: its state is the vector of events.\<close>

definition memory_write :: "evidence_event \<Rightarrow> evidence_event list \<Rightarrow>
    (sink_error + unit) \<times> evidence_event list" where
  "memory_write e s = (Inr (), s @ [e])"

definition memory_sink :: "evidence_event list evidence_sink" where
  "memory_sink = \<lparr>sk_name = ''memory'', sk_write = memory_write\<rparr>"

interpretation memory: lawful_sink memory_write "\<lambda>s. s"
  by unfold_locales (simp_all add: memory_write_def)

section \<open>Runs of the plane\<close>

datatype ev_op = EvAppend evidence_event_type evidence_payload | EvFlush | EvForeign world

fun ev_step :: "externs \<Rightarrow> ev_op \<Rightarrow> 's evidence_plane \<times> world \<Rightarrow> 's evidence_plane \<times> world" where
  "ev_step X (EvAppend ty p) (pl, w) = snd (evidence_append X ty p pl w)"
| "ev_step X EvFlush (pl, w) = (snd (flush_pending pl), w)"
| "ev_step X (EvForeign w') (pl, w) = (pl, if world_le w w' then w' else w)"

lemma sink_offer_frame [simp]:
  "ev_events (snd (sink_offer e pl)) = ev_events pl"
  "ev_head_hash (snd (sink_offer e pl)) = ev_head_hash pl"
  "ev_next_sequence (snd (sink_offer e pl)) = ev_next_sequence pl"
  "ev_epoch_id (snd (sink_offer e pl)) = ev_epoch_id pl"
  "ev_epoch_parent_hash (snd (sink_offer e pl)) = ev_epoch_parent_hash pl"
  "ev_sink (snd (sink_offer e pl)) = ev_sink pl"
  by (auto simp: sink_offer_def split: option.split sum.split prod.split)

lemma flush_frame [simp]:
  "ev_events (snd (flush_pending pl)) = ev_events pl"
  "ev_head_hash (snd (flush_pending pl)) = ev_head_hash pl"
  "ev_next_sequence (snd (flush_pending pl)) = ev_next_sequence pl"
  "ev_epoch_id (snd (flush_pending pl)) = ev_epoch_id pl"
  "ev_epoch_parent_hash (snd (flush_pending pl)) = ev_epoch_parent_hash pl"
  "ev_sink (snd (flush_pending pl)) = ev_sink pl"
  by (auto simp: flush_pending_def split: option.split prod.split)

lemma append_frame [simp]:
  "ev_events (fst (snd (evidence_append X ty p pl w))) = ev_events pl @ [new_event X w ty p pl]"
  "ev_head_hash (fst (snd (evidence_append X ty p pl w))) = ee_event_hash (new_event X w ty p pl)"
  "ev_next_sequence (fst (snd (evidence_append X ty p pl w))) = ev_next_sequence pl + 1"
  "ev_epoch_id (fst (snd (evidence_append X ty p pl w))) = ev_epoch_id pl"
  "ev_epoch_parent_hash (fst (snd (evidence_append X ty p pl w))) = ev_epoch_parent_hash pl"
  "ev_sink (fst (snd (evidence_append X ty p pl w))) = ev_sink pl"
  "snd (snd (evidence_append X ty p pl w)) = draw_id (tick w)"
  by (simp_all add: evidence_append_def Let_def split_def)

interpretation event_log: append_only "\<lambda>(pl, w). ev_events pl" "ev_step X" for X
proof unfold_locales
  fix s :: "'s evidence_plane \<times> world" and x
  obtain pl w where "s = (pl, w)" by (cases s)
  then show "prefix ((\<lambda>(pl, w). ev_events pl) s) ((\<lambda>(pl, w). ev_events pl) (ev_step X x s))"
    by (cases x) (auto simp: split_def)
qed

definition delivery_inv :: "('s \<Rightarrow> evidence_event list) \<Rightarrow> 's evidence_plane \<Rightarrow> evidence_event list \<Rightarrow>
    bool" where
  "delivery_inv contents pl base \<longleftrightarrow>
     contents (ev_sink_state pl) @ ev_pending_sink pl = base @ ev_events pl"

context lawful_sink begin

lemma step_delivery:
  assumes "ev_sink pl = Some sk" "sk_write sk = put" "delivery_inv contents pl base"
  shows "delivery_inv contents (fst (ev_step X x (pl, w))) base \<and>
    ev_sink (fst (ev_step X x (pl, w))) = Some sk"
proof (cases x)
  case (EvAppend ty p)
  let ?e = "new_event X w ty p pl"
  let ?pl = "pl\<lparr>ev_events := ev_events pl @ [?e], ev_head_hash := ee_event_hash ?e,
                   ev_next_sequence := ev_next_sequence pl + 1\<rparr>"
  have f: "fst (snd (evidence_append X ty p pl w)) = snd (sink_offer ?e ?pl)"
    by (simp add: evidence_append_def Let_def split_def)
  have "contents (ev_sink_state (snd (sink_offer ?e ?pl))) @ ev_pending_sink (snd (sink_offer ?e ?pl)) =
      contents (ev_sink_state pl) @ ev_pending_sink pl @ [?e]"
    using offer_fifo [of ?pl sk ?e "fst (sink_offer ?e ?pl)" "snd (sink_offer ?e ?pl)"] assms(1,2)
    by simp
  with assms EvAppend show ?thesis by (simp add: delivery_inv_def f)
next
  case EvFlush
  obtain res q s where q: "flush_loop put (ev_pending_sink pl) (ev_sink_state pl) 0 = (res, q, s)"
    by (metis surj_pair)
  with assms EvFlush flush_fifo [OF q] show ?thesis
    by (simp add: flush_pending_def delivery_inv_def)
qed (use assms in simp)

lemma run_delivery:
  assumes "ev_sink pl = Some sk" "sk_write sk = put" "delivery_inv contents pl base"
  shows "delivery_inv contents (fst (fold (ev_step X) ops (pl, w))) base"
  using assms
proof (induction ops arbitrary: pl w)
  case (Cons x ops)
  obtain pl' w' where s: "ev_step X x (pl, w) = (pl', w')" by (metis surj_pair)
  from step_delivery [OF Cons.prems, of X x w] s
  have "delivery_inv contents pl' base" "ev_sink pl' = Some sk" by simp_all
  with Cons.IH [of pl' w'] Cons.prems(2) s show ?case by simp
qed simp

end

section \<open>Appending keeps the chain verifiable\<close>

definition chain_end :: "string \<Rightarrow> evidence_event list \<Rightarrow> string" where
  "chain_end prev es = (if es = [] then prev else ee_event_hash (last es))"

lemma chain_end_Cons: "chain_end prev (e # es) = chain_end (ee_event_hash e) es"
  by (simp add: chain_end_def)

lemma verify_events_snoc:
  "verify_events X f fp i prev (es @ [e]) = Inr () \<longleftrightarrow>
     verify_events X f fp i prev es = Inr () \<and>
     event_check X f fp (of_nat (i + length es) + 1) (chain_end prev es) e = Inr ()"
  by (induction es arbitrary: i prev)
    (auto simp: ebind_Inr_iff chain_end_Cons, simp_all add: chain_end_def)

text \<open>Only epoch, parent and public key of the first event matter to the checks.\<close>

lemma verify_events_cong:
  assumes "ee_epoch_id f = ee_epoch_id g" "ee_epoch_parent_hash f = ee_epoch_parent_hash g"
    "ee_signer_public_key f = ee_signer_public_key g"
  shows "verify_events X f fp i prev es = verify_events X g fp i prev es"
  using assms by (induction es arbitrary: i prev) (simp_all add: event_check_def)

definition plane_start :: "externs \<Rightarrow> 's evidence_plane \<Rightarrow> string \<Rightarrow> string" where
  "plane_start X pl fp = start_hash X (ev_epoch_parent_hash pl) (ev_epoch_id pl) fp"

definition plane_inv :: "externs \<Rightarrow> 's evidence_plane \<times> world \<Rightarrow> bool" where
  "plane_inv X = (\<lambda>(pl, w). engine_ok X (eng w) \<and>
     ev_next_sequence pl = of_nat (length (ev_events pl)) + 1 \<and>
     ev_head_hash pl = chain_end (plane_start X pl (verifying_key_fingerprint X (eng w))) (ev_events pl) \<and>
     (\<forall>f. ee_epoch_id f = ev_epoch_id pl \<longrightarrow> ee_epoch_parent_hash f = ev_epoch_parent_hash pl \<longrightarrow>
        ee_signer_public_key f = verifying_key_hex X (eng w) \<longrightarrow>
        verify_events X f (verifying_key_fingerprint X (eng w)) 0
          (plane_start X pl (verifying_key_fingerprint X (eng w))) (ev_events pl) = Inr ()))"

lemma world_le_key:
  "world_le w w' \<Longrightarrow> verifying_key_hex X (eng w') = verifying_key_hex X (eng w)"
  "world_le w w' \<Longrightarrow> verifying_key_fingerprint X (eng w') = verifying_key_fingerprint X (eng w)"
  by (simp_all add: world_le_def verifying_key_hex_def verifying_key_fingerprint_def)

lemma plane_inv_world: "plane_inv X (pl, w) \<Longrightarrow> world_le w w' \<Longrightarrow> plane_inv X (pl, w')"
  by (simp add: plane_inv_def world_le_key world_le_engine_ok)

lemma verify_own_signature:
  assumes "hex_laws X" "ed_laws X" "engine_ok X e"
  shows "verify_signature_hex X (verifying_key_hex X e) data (engine_sign X e data)"
  using assms by (simp add: verify_signature_hex_def verifying_key_hex_def hex_laws_def ed_laws_def
      engine_ok_def engine_sign_def)

lemma own_fingerprint:
  assumes "hex_laws X" "ed_laws X" "engine_ok X e"
  shows "signer_fingerprint X (verifying_key_hex X e) = Some (verifying_key_fingerprint X e)"
  using assms by (simp add: signer_fingerprint_def verifying_key_hex_def hex_laws_def ed_laws_def
      engine_ok_def verifying_key_fingerprint_def)

lemma event_material_unsigned [simp]:
  "canonical_event_material X (e\<lparr>ee_signature := s, ee_event_hash := h\<rparr>) =
   canonical_event_material X e"
  by (simp add: canonical_event_material_def event_fields_def)

lemma unsigned_event_sel:
  "ee_schema_version (unsigned_event X w ty p pl) = EVIDENCE_SCHEMA_VERSION"
  "ee_epoch_id (unsigned_event X w ty p pl) = ev_epoch_id pl"
  "ee_epoch_parent_hash (unsigned_event X w ty p pl) = ev_epoch_parent_hash pl"
  "ee_sequence (unsigned_event X w ty p pl) = ev_next_sequence pl"
  "ee_previous_event_hash (unsigned_event X w ty p pl) = ev_head_hash pl"
  "ee_signer_fingerprint (unsigned_event X w ty p pl) = verifying_key_fingerprint X (eng w)"
  "ee_signer_public_key (unsigned_event X w ty p pl) = verifying_key_hex X (eng w)"
  by (simp_all add: unsigned_event_def)

lemma new_event_check:
  assumes laws: "hex_laws X" "ed_laws X" "engine_ok X (eng w)"
    and f: "ee_epoch_id f = ev_epoch_id pl" "ee_epoch_parent_hash f = ev_epoch_parent_hash pl"
      "ee_signer_public_key f = verifying_key_hex X (eng w)"
  shows "event_check X f (verifying_key_fingerprint X (eng w)) (ev_next_sequence pl)
    (ev_head_hash pl) (new_event X w ty p pl) = Inr ()"
  using f verify_own_signature [OF laws]
  by (simp add: event_check_def all_ok_iff new_event_def Let_def event_recompute_hash_def
      event_verify_signature_def unsigned_event_sel)

lemma append_plane_inv:
  assumes "hex_laws X" "ed_laws X" "plane_inv X (pl, w)"
  shows "plane_inv X (snd (evidence_append X ty p pl w))"
proof -
  obtain r pl' w' where a: "evidence_append X ty p pl w = (r, pl', w')" by (metis surj_pair)
  let ?fp = "verifying_key_fingerprint X (eng w)" and ?e = "new_event X w ty p pl"
  have f: "ev_events pl' = ev_events pl @ [?e]" "ev_head_hash pl' = ee_event_hash ?e"
    "ev_next_sequence pl' = ev_next_sequence pl + 1" "ev_epoch_id pl' = ev_epoch_id pl"
    "ev_epoch_parent_hash pl' = ev_epoch_parent_hash pl" "w' = draw_id (tick w)"
    using append_frame [of X ty p pl w] by (simp_all add: a)
  have start: "plane_start X pl' ?fp = plane_start X pl ?fp" by (simp add: plane_start_def f)
  have eo: "engine_ok X (eng w)" and
    inv: "ev_next_sequence pl = of_nat (length (ev_events pl)) + 1"
      "ev_head_hash pl = chain_end (plane_start X pl ?fp) (ev_events pl)"
    using assms(3) by (simp_all add: plane_inv_def)
  have "verify_events X g ?fp 0 (plane_start X pl ?fp) (ev_events pl @ [?e]) = Inr ()"
    if "ee_epoch_id g = ev_epoch_id pl" "ee_epoch_parent_hash g = ev_epoch_parent_hash pl"
      "ee_signer_public_key g = verifying_key_hex X (eng w)" for g
    using assms(3) that new_event_check [OF assms(1,2) eo that, of ty p] inv
    by (simp add: verify_events_snoc plane_inv_def)
  moreover have "verifying_key_hex X (eng w') = verifying_key_hex X (eng w)"
    "verifying_key_fingerprint X (eng w') = ?fp" "eng w' = eng w"
    by (simp_all add: f)
  ultimately show ?thesis
    using eo inv by (simp add: a plane_inv_def f start chain_end_def add.commute)
qed

lemma with_parent_inv:
  "engine_ok X (eng w) \<Longrightarrow> plane_inv X (with_parent_hash X parent sink s w)"
  by (simp add: with_parent_hash_def plane_inv_def Let_def plane_start_def chain_end_def)

lemma ev_step_inv:
  assumes "hex_laws X" "ed_laws X" "plane_inv X s"
  shows "plane_inv X (ev_step X x s)"
proof -
  obtain pl w where s: "s = (pl, w)" by (cases s)
  have "plane_inv X (snd (flush_pending pl), w)" if "plane_inv X (pl, w)"
    using that by (simp add: plane_inv_def plane_start_def)
  with assms s show ?thesis
    by (cases x) (auto intro: append_plane_inv plane_inv_world)
qed

lemma ev_run_inv:
  assumes "hex_laws X" "ed_laws X" "plane_inv X s"
  shows "plane_inv X (fold (ev_step X) ops s)"
  using assms(3) by (induction ops arbitrary: s) (simp_all add: ev_step_inv [OF assms(1,2)])

lemma verify_events_fields:
  assumes "verify_events X f fp i prev es = Inr ()" "e \<in> set es"
  shows "ee_signer_public_key e = ee_signer_public_key f \<and> ee_signer_fingerprint e = fp \<and>
    ee_epoch_id e = ee_epoch_id f \<and> ee_epoch_parent_hash e = ee_epoch_parent_hash f"
  using assms
  by (induction es arbitrary: i prev) (auto simp: ebind_Inr_iff event_check_def all_ok_iff)

text \<open>The invariant of the plane gives the verifier's verdict on its snapshot.\<close>

lemma plane_inv_verifies:
  assumes laws: "hex_laws X" "ed_laws X" and inv: "plane_inv X (pl, w)"
  shows "verify_snapshot X (ev_events pl) = Inr ()"
proof (cases "ev_events pl")
  case Nil
  then show ?thesis by (simp add: verify_snapshot_def)
next
  case (Cons e es)
  let ?fp = "verifying_key_fingerprint X (eng w)"
  obtain f :: evidence_event where f: "ee_epoch_id f = ev_epoch_id pl"
    "ee_epoch_parent_hash f = ev_epoch_parent_hash pl"
    "ee_signer_public_key f = verifying_key_hex X (eng w)"
    using unsigned_event_sel(2,3,7) by blast
  with inv have v: "verify_events X f ?fp 0 (plane_start X pl ?fp) (ev_events pl) = Inr ()"
    by (simp add: plane_inv_def)
  from verify_events_fields [OF v, of e] Cons f have e: "ee_epoch_id e = ev_epoch_id pl"
    "ee_epoch_parent_hash e = ev_epoch_parent_hash pl" "ee_signer_fingerprint e = ?fp"
    "ee_signer_public_key e = verifying_key_hex X (eng w)" by simp_all
  have "engine_ok X (eng w)" using inv by (simp add: plane_inv_def)
  from own_fingerprint [OF laws this] have "signer_fingerprint X (ee_signer_public_key e) = Some ?fp"
    by (simp add: e)
  moreover have "verify_events X e ?fp 0 (plane_start X pl ?fp) (ev_events pl) = Inr ()"
    using v verify_events_cong [of e f] e f by simp
  moreover have "plane_start X pl ?fp = start_hash X (ee_epoch_parent_hash e) (ee_epoch_id e) ?fp"
    by (simp add: plane_start_def e)
  ultimately show ?thesis by (simp add: verify_snapshot_def Cons e(3))
qed

section \<open>What a hash binds\<close>

lemma enc_eq: "hex_laws X \<Longrightarrow> enc X a = enc X b \<longleftrightarrow> a = b"
  by (auto simp: enc_def dest: hex_encode_inject)

lemma enc_opt_eq: "hex_laws X \<Longrightarrow> enc_opt X a = enc_opt X b \<longleftrightarrow> a = b"
  by (cases a; cases b) (auto simp: enc_opt_def enc_eq)

lemma event_type_str_eq: "event_type_str a = event_type_str b \<longleftrightarrow> a = b"
  by (cases a; cases b) simp_all

lemma enc_no_bar: "hex_laws X \<Longrightarrow> CHR ''|'' \<notin> set (enc X a)"
  by (simp add: enc_def hex_encode_no_bar)

lemma enc_opt_no_bar: "hex_laws X \<Longrightarrow> CHR ''|'' \<notin> set (enc_opt X a)"
  by (cases a) (simp_all add: enc_opt_def enc_no_bar)

lemma event_type_no_bar: "CHR ''|'' \<notin> set (event_type_str a)"
  by (cases a) simp_all

lemma event_fields_no_bar: "hex_laws X \<Longrightarrow> \<forall>f \<in> set (event_fields X e). CHR ''|'' \<notin> set f"
  by (simp add: event_fields_def Let_def enc_no_bar enc_opt_no_bar event_type_no_bar
      show_nat_no_bar show_int_no_bar)

text \<open>
  The content of an event: everything but the signature, the time at the resolution the material
  has (nanoseconds within the representable range).
\<close>

definition event_content :: "evidence_event \<Rightarrow> evidence_event" where
  "event_content e = e\<lparr>ee_signature := [], ee_timestamp := timestamp_nanos (ee_timestamp e)\<rparr>"

lemma event_material_inject:
  assumes "hex_laws X" "canonical_event_material X d = canonical_event_material X e"
    "ee_event_hash d = ee_event_hash e"
  shows "event_content d = event_content e"
proof -
  have "event_fields X d = event_fields X e"
    by (rule join_inject [of _ _ "CHR ''|''"])
      (use assms(2) event_fields_no_bar [OF assms(1)] in
        \<open>simp_all add: canonical_event_material_def bar_def\<close>, simp add: event_fields_def Let_def)
  note f = this [unfolded event_fields_def Let_def list.inject enc_eq [OF assms(1)]
      enc_opt_eq [OF assms(1)] event_type_str_eq show_unat_inject]
  have "ee_payload d = ee_payload e"
    by (rule evidence_payload.equality) (simp_all add: f)
  moreover have "timestamp_nanos (ee_timestamp d) = timestamp_nanos (ee_timestamp e)"
    using f show_int_inject by blast
  ultimately show ?thesis
    unfolding event_content_def
    by (intro evidence_event.equality) (simp_all add: f assms(3))
qed

definition event_collision :: "externs \<Rightarrow> evidence_event list \<Rightarrow> evidence_event list \<Rightarrow> bool" where
  "event_collision X es es' \<longleftrightarrow> (\<exists>d \<in> set es. \<exists>e \<in> set es'.
     canonical_event_material X d \<noteq> canonical_event_material X e \<and>
     compute_hash X (canonical_event_material X d) = compute_hash X (canonical_event_material X e))"

lemma chain_binds:
  assumes "hex_laws X" "length es = length es'"
    "verify_events X f fp i p es = Inr ()" "verify_events X g fq j q es' = Inr ()"
    "chain_end p es = chain_end q es'"
  shows "map event_content es = map event_content es' \<or> event_collision X es es'"
  using assms(2-)
proof (induction es arbitrary: es' rule: rev_induct)
  case (snoc d ds)
  then obtain es e where es': "es' = es @ [e]" "length ds = length es"
    by (metis append_butlast_last_id length_append_singleton length_greater_0_conv
        length_butlast diff_Suc_1 zero_less_Suc)
  have v: "verify_events X f fp i p ds = Inr ()" "verify_events X g fq j q es = Inr ()"
    and d: "event_check X f fp (of_nat (i + length ds) + 1) (chain_end p ds) d = Inr ()"
    and e: "event_check X g fq (of_nat (j + length es) + 1) (chain_end q es) e = Inr ()"
    using snoc.prems(2,3) by (auto simp: es' verify_events_snoc)
  have h: "ee_event_hash d = ee_event_hash e"
    using snoc.prems(4) by (simp add: es' chain_end_def)
  with d e have m: "compute_hash X (canonical_event_material X d) =
      compute_hash X (canonical_event_material X e)"
    by (simp add: event_check_def all_ok_iff event_recompute_hash_def)
  show ?case
  proof (cases "canonical_event_material X d = canonical_event_material X e")
    case False
    with m show ?thesis by (auto simp: event_collision_def es')
  next
    case True
    have c: "event_content d = event_content e" by (rule event_material_inject [OF assms(1) True h])
    have "ee_previous_event_hash (event_content d) = ee_previous_event_hash (event_content e)"
      by (simp add: c)
    with d e have "chain_end p ds = chain_end q es"
      by (simp add: event_check_def all_ok_iff event_content_def)
    from snoc.IH [OF es'(2) v this] c show ?thesis
      by (auto simp: es' event_collision_def)
  qed
qed simp

section \<open>Properties\<close>

lemma verify_snapshot_start:
  assumes "verify_snapshot X es = Inr ()" "es \<noteq> []"
  obtains f fp where "verify_events X f fp 0 (start_hash X (ee_epoch_parent_hash f) (ee_epoch_id f) fp) es = Inr ()"
    "f = hd es"
  using assms by (cases es) (auto simp: verify_snapshot_def split: option.splits if_splits)

lemma verify_events_sequence:
  assumes "verify_events X f fp i p es = Inr ()" "es \<noteq> []"
  shows "ee_sequence (last es) = of_nat (i + length es)"
  using assms
proof (induction es rule: rev_induct)
  case (snoc e es)
  then show ?case by (simp add: verify_events_snoc event_check_def all_ok_iff add.commute)
qed simp

lemma snapshots_bind:
  assumes "hex_laws X" "verify_snapshot X es = Inr ()" "verify_snapshot X es' = Inr ()"
    "length es = length es'" "es \<noteq> [] \<Longrightarrow> ee_event_hash (last es) = ee_event_hash (last es')"
  shows "map event_content es = map event_content es' \<or> event_collision X es es'"
proof (cases "es = []")
  case True
  with assms(4) show ?thesis by simp
next
  case False
  with assms(4) have ne: "es' \<noteq> []" by auto
  obtain f fp where f: "verify_events X f fp 0 (start_hash X (ee_epoch_parent_hash f) (ee_epoch_id f) fp) es = Inr ()"
    using verify_snapshot_start [OF assms(2) False] by blast
  obtain g gp where g: "verify_events X g gp 0 (start_hash X (ee_epoch_parent_hash g) (ee_epoch_id g) gp) es' = Inr ()"
    using verify_snapshot_start [OF assms(3) ne] by blast
  show ?thesis
    using chain_binds [OF assms(1,4) f g] assms(5) False ne by (simp add: chain_end_def)
qed

definition demo_plane :: "evidence_event list evidence_plane \<times> world" where
  "demo_plane = evidence_new demo (Some memory_sink) [] demo_world"

lemma demo_plane_inv: "plane_inv demo demo_plane"
  by (simp add: demo_plane_def evidence_new_def with_parent_inv demo_engine_ok)

text \<open>
  The chain a plane builds always verifies. After any sequence of appends, flushes and
  foreign activity, on a fresh plane or on one that continues a checkpoint, and whatever the sink
  does, \<open>verify_snapshot\<close> accepts the snapshot.
\<close>

lemma evidence_chain_verifies:
  assumes "hex_laws X" "ed_laws X" "engine_ok X (eng w)"
  shows "verify_snapshot X (evidence_snapshot
    (fst (fold (ev_step X) ops (with_parent_hash X parent sink s w)))) = Inr ()"
proof -
  obtain pl w' where r: "fold (ev_step X) ops (with_parent_hash X parent sink s w) = (pl, w')"
    by (metis surj_pair)
  have "plane_inv X (fold (ev_step X) ops (with_parent_hash X parent sink s w))"
    by (rule ev_run_inv [OF assms(1,2) with_parent_inv [OF assms(3)]])
  with plane_inv_verifies [OF assms(1,2), of pl w'] show ?thesis
    by (simp add: r evidence_snapshot_def)
qed

lemma evidence_chain_verifies_witness:
  "verify_snapshot demo (evidence_snapshot (fst (fold (ev_step demo)
     [EvAppend ContextApproved payload_default, EvFlush, EvAppend ProviderRefused payload_default]
     (with_parent_hash demo (Some ''parent'') (Some memory_sink) [] demo_world)))) = Inr ()"
  by (rule evidence_chain_verifies [OF demo_laws(1,3) demo_engine_ok])

text \<open>
  Claim C20: the head hash binds the whole history. Two snapshots that both verify, have the same
  length and the same last event hash carry the same events (up to signatures), or two of their
  events exhibit a hash collision: insertion, deletion, reordering and alteration are all
  detected.
\<close>

theorem evidence_history_bound:
  assumes "hex_laws X" "verify_snapshot X es = Inr ()" "verify_snapshot X es' = Inr ()"
    "length es = length es'" "es \<noteq> [] \<Longrightarrow> ee_event_hash (last es) = ee_event_hash (last es')"
  shows "map event_content es = map event_content es' \<or> event_collision X es es'"
  using snapshots_bind [OF assms] .

lemma evidence_history_bound_witness:
  "\<exists>es. length es = 1 \<and> verify_snapshot demo es = Inr () \<and>
     (map event_content es = map event_content es \<or> event_collision demo es es)"
proof -
  let ?es = "ev_events (fst (ev_step demo (EvAppend ContextApproved payload_default) demo_plane))"
  have v: "verify_snapshot demo ?es = Inr ()"
    using plane_inv_verifies [OF demo_laws(1,3)] ev_step_inv [OF demo_laws(1,3) demo_plane_inv]
    by (metis prod.collapse)
  moreover have "length ?es = 1"
    by (simp add: demo_plane_def evidence_new_def with_parent_hash_def Let_def)
  ultimately show ?thesis
    using evidence_history_bound [OF demo_laws(1) v v] by blast
qed

lemma checkpoint_of_fields:
  "ec_last_sequence (fst (evidence_checkpoint_of X pl w)) = sat_sub (ev_next_sequence pl) 1"
  "ec_head_hash (fst (evidence_checkpoint_of X pl w)) = ev_head_hash pl"
  "ec_epoch_id (fst (evidence_checkpoint_of X pl w)) = ev_epoch_id pl"
  "ec_signer_public_key (fst (evidence_checkpoint_of X pl w)) = verifying_key_hex X (eng w)"
  "ec_signer_fingerprint (fst (evidence_checkpoint_of X pl w)) = verifying_key_fingerprint X (eng w)"
  by (simp_all add: evidence_checkpoint_of_def Let_def)

lemma own_checkpoint_verifies:
  assumes "hex_laws X" "ed_laws X" "engine_ok X (eng w)"
  shows "checkpoint_verify X (fst (evidence_checkpoint_of X pl w))"
  using own_fingerprint [OF assms] verify_own_signature [OF assms]
  by (simp add: checkpoint_verify_def evidence_checkpoint_of_def Let_def
      checkpoint_recompute_hash_def)

lemma plane_last_sequence:
  assumes "plane_inv X (pl, w)" "length (ev_events pl) < 2 ^ 64 - 1"
  shows "sat_sub (ev_next_sequence pl) 1 = of_nat (length (ev_events pl))"
proof -
  have "unat (ev_next_sequence pl) = length (ev_events pl) + 1"
    using assms by (simp add: plane_inv_def unat_word_ariths unat_of_nat)
  then have "1 \<le> ev_next_sequence pl" by (simp add: word_le_nat_alt)
  then show ?thesis using assms(1) by (simp add: sat_sub_def plane_inv_def)
qed

lemma plane_last_event:
  assumes inv: "plane_inv X (pl, w)" and ne: "ev_events pl \<noteq> []"
  shows "ee_epoch_id (last (ev_events pl)) = ev_epoch_id pl"
    and "ee_signer_fingerprint (last (ev_events pl)) = verifying_key_fingerprint X (eng w)"
    and "ee_signer_public_key (last (ev_events pl)) = verifying_key_hex X (eng w)"
    and "ee_sequence (last (ev_events pl)) = of_nat (length (ev_events pl))"
    and "ee_event_hash (last (ev_events pl)) = ev_head_hash pl"
proof -
  let ?fp = "verifying_key_fingerprint X (eng w)"
  obtain f :: evidence_event where f: "ee_epoch_id f = ev_epoch_id pl"
    "ee_epoch_parent_hash f = ev_epoch_parent_hash pl"
    "ee_signer_public_key f = verifying_key_hex X (eng w)"
    using unsigned_event_sel(2,3,7) by blast
  with inv have v: "verify_events X f ?fp 0 (plane_start X pl ?fp) (ev_events pl) = Inr ()"
    by (simp add: plane_inv_def)
  from verify_events_fields [OF v, of "last (ev_events pl)"] verify_events_sequence [OF v ne] ne f
  show "ee_epoch_id (last (ev_events pl)) = ev_epoch_id pl"
    "ee_signer_fingerprint (last (ev_events pl)) = ?fp"
    "ee_signer_public_key (last (ev_events pl)) = verifying_key_hex X (eng w)"
    "ee_sequence (last (ev_events pl)) = of_nat (length (ev_events pl))" by simp_all
  show "ee_event_hash (last (ev_events pl)) = ev_head_hash pl"
    using inv ne by (simp add: plane_inv_def chain_end_def)
qed

text \<open>Acceptance against a checkpoint fixes the last sequence number and the head hash.\<close>

lemma accepted_against:
  assumes "verify_snapshot_against_checkpoint X es c = Inr ()"
  shows "verify_snapshot X es = Inr ()" "ec_last_sequence c = of_nat (length es)"
    "es \<noteq> [] \<Longrightarrow> ee_event_hash (last es) = ec_head_hash c"
proof -
  have sv: "verify_snapshot X es = Inr ()"
    and e: "es \<noteq> [] \<Longrightarrow> ee_sequence (last es) = ec_last_sequence c \<and> ee_event_hash (last es) = ec_head_hash c"
      "es = [] \<Longrightarrow> ec_last_sequence c = 0"
    using assms by (auto simp: verify_snapshot_against_checkpoint_def Let_def ebind_Inr_iff
        all_ok_iff split: if_splits)
  from sv show "verify_snapshot X es = Inr ()" .
  show "ec_last_sequence c = of_nat (length es)"
  proof (cases "es = []")
    case False
    from verify_snapshot_start [OF sv False] obtain f fp where
      "verify_events X f fp 0 (start_hash X (ee_epoch_parent_hash f) (ee_epoch_id f) fp) es = Inr ()"
      by blast
    from verify_events_sequence [OF this False] e(1) [OF False] show ?thesis by simp
  qed (use e(2) in simp)
  show "es \<noteq> [] \<Longrightarrow> ee_event_hash (last es) = ec_head_hash c" using e(1) by simp
qed

text \<open>
  Claim C21: a checkpoint detects truncation. The plane's own snapshot is accepted against the
  plane's own checkpoint; and any snapshot accepted against that checkpoint has exactly as many
  events as were appended and the same content, unless it exhibits a hash collision (for fewer
  than 2^64 - 1 events, where sequence numbers do not wrap).
\<close>

theorem checkpoint_detects_truncation:
  assumes laws: "hex_laws X" "ed_laws X" and inv: "plane_inv X (pl, w)"
    and n: "length (ev_events pl) < 2 ^ 64 - 1"
  shows "verify_snapshot_against_checkpoint X (ev_events pl) (fst (evidence_checkpoint_of X pl w)) =
      Inr () \<and>
    (\<forall>es. length es < 2 ^ 64 \<longrightarrow>
       verify_snapshot_against_checkpoint X es (fst (evidence_checkpoint_of X pl w)) = Inr () \<longrightarrow>
       length es = length (ev_events pl) \<and>
       (map event_content es = map event_content (ev_events pl) \<or>
        event_collision X es (ev_events pl)))"
proof -
  let ?c = "fst (evidence_checkpoint_of X pl w)" and ?evs = "ev_events pl"
  have eo: "engine_ok X (eng w)" using inv by (simp add: plane_inv_def)
  have pv: "verify_snapshot X ?evs = Inr ()" by (rule plane_inv_verifies [OF laws inv])
  have seq: "ec_last_sequence ?c = of_nat (length ?evs)"
    by (simp add: checkpoint_of_fields plane_last_sequence [OF inv n])
  have own: "verify_snapshot_against_checkpoint X ?evs ?c = Inr ()"
    using own_checkpoint_verifies [OF laws eo] pv seq plane_last_event [OF inv]
    by (auto simp: verify_snapshot_against_checkpoint_def Let_def all_ok_iff checkpoint_of_fields)
  have other: "length es = length ?evs \<and>
      (map event_content es = map event_content ?evs \<or> event_collision X es ?evs)"
    if len: "length es < 2 ^ 64" and acc: "verify_snapshot_against_checkpoint X es ?c = Inr ()" for es
  proof -
    have "(of_nat (length es) :: u64) = of_nat (length ?evs)"
      using accepted_against(2) [OF acc] seq by simp
    then have "unat (of_nat (length es) :: u64) = unat (of_nat (length ?evs) :: u64)" by simp
    with len n have l: "length es = length ?evs" by (simp add: unat_of_nat)
    moreover have "es \<noteq> [] \<Longrightarrow> ee_event_hash (last es) = ee_event_hash (last ?evs)"
      using accepted_against(3) [OF acc] plane_last_event(5) [OF inv] l
      by (force simp: checkpoint_of_fields)
    ultimately show ?thesis
      using snapshots_bind [OF laws(1) accepted_against(1) [OF acc] pv l] by blast
  qed
  from own other show ?thesis by blast
qed

lemma checkpoint_detects_truncation_witness:
  "verify_snapshot_against_checkpoint demo (ev_events (fst demo_plane))
     (fst (evidence_checkpoint_of demo (fst demo_plane) (snd demo_plane))) = Inr ()"
proof -
  have "plane_inv demo (fst demo_plane, snd demo_plane)" using demo_plane_inv by simp
  moreover have "length (ev_events (fst demo_plane)) < 2 ^ 64 - 1"
    by (simp add: demo_plane_def evidence_new_def with_parent_hash_def Let_def)
  ultimately show ?thesis
    using checkpoint_detects_truncation [OF demo_laws(1,3)] by blast
qed

text \<open>
  Claim C22: the external sink sees the events in order, none lost, none twice. For any lawful
  sink, over any run of appends, flushes and foreign activity, what the sink received followed by
  the deferred queue is exactly what was appended; so once the queue is empty everything was
  delivered.
\<close>

theorem sink_receives_in_order:
  assumes "lawful_sink (sk_write sk) contents"
  shows "contents (ev_sink_state (fst (fold (ev_step X) ops (with_parent_hash X parent (Some sk) s w)))) @
      ev_pending_sink (fst (fold (ev_step X) ops (with_parent_hash X parent (Some sk) s w))) =
    contents s @ ev_events (fst (fold (ev_step X) ops (with_parent_hash X parent (Some sk) s w)))"
proof -
  obtain pl w' where i: "with_parent_hash X parent (Some sk) s w = (pl, w')" by (metis surj_pair)
  then have "ev_sink pl = Some sk" "delivery_inv contents pl (contents s)"
    by (auto simp: with_parent_hash_def Let_def delivery_inv_def)
  from lawful_sink.run_delivery [OF assms this(1) refl this(2)] show ?thesis
    by (simp add: i delivery_inv_def)
qed

text \<open>A sink that fails on every other call.\<close>

definition flaky_sink :: "(bool \<times> evidence_event list) evidence_sink" where
  "flaky_sink = \<lparr>sk_name = ''flaky'', sk_write = (\<lambda>e (up, es).
     if up then (Inr (), False, es @ [e])
     else (Inl \<lparr>se_sink = ''flaky'', se_message = ''down''\<rparr>, True, es))\<rparr>"

interpretation flaky: lawful_sink "sk_write flaky_sink" snd
  by unfold_locales (auto simp: flaky_sink_def split: if_splits)

lemma sink_receives_in_order_witness:
  "let final = fst (fold (ev_step demo) [EvAppend ContextApproved payload_default,
       EvAppend ProviderRefused payload_default, EvFlush]
       (with_parent_hash demo None (Some flaky_sink) (False, []) demo_world))
   in snd (ev_sink_state final) @ ev_pending_sink final = ev_events final"
  using sink_receives_in_order [OF flaky.lawful_sink_axioms, where s = "(False, [])"]
  unfolding Let_def snd_conv append_Nil by blast

end
