(* ===== verification/SessionMemory.thy ===== *)
theory SessionMemory
  imports Signal
begin

text \<open>
  \<open>session_memory.rs\<close>: the tactical accumulator of one session, the strategic profiles of the
  actors across sessions with their snapshot on disk, and the payload classifier.

  The theorems: the retained turns are exactly the last twenty; a signal of an amplified violation
  class locks the session, except through the velocity rule that only elevates it; a detected
  campaign is advised on for ever; a persisted snapshot is what a restart loads.
\<close>

section \<open>Tier 1: the session accumulator\<close>

definition max_retained_turns :: nat where
  "max_retained_turns = 20"

datatype request_classification = Benign | Informational | Boundary | Escalation
  | AuthorityClaim | Extraction | Obfuscated

datatype memory_state = Clear | Watching | Elevated | Escalated | Locked

record turn_record =
  tr_turn :: u32
  tr_timestamp :: int
  tr_severity :: string
  tr_confidence :: f32
  tr_classification :: request_classification
  tr_violation_class :: "string option"

record session_memory =
  sm_session_id :: string
  sm_created_at :: int
  sm_turns :: "turn_record list"
  sm_turn_count :: u32
  sm_cumulative_threat :: f32
  sm_threat_trajectory :: f32
  sm_max_confidence :: f32
  sm_escalation_velocity :: f32
  sm_boundary_probes :: u32
  sm_authority_claims :: u32
  sm_extraction_attempts :: u32
  sm_obfuscation_count :: u32
  sm_memory_state :: memory_state
  sm_escalated :: bool
  sm_escalation_reason :: "string option"

record memory_config =
  watching_threshold :: f32
  elevated_threshold :: f32
  escalated_threshold :: f32
  locked_threshold :: f32
  velocity_trigger :: f32
  boundary_probe_limit :: u32
  decay_factor :: f32

definition default_memory_config :: memory_config where
  "default_memory_config =
     \<lparr>watching_threshold = f32_lit (8 / 10), elevated_threshold = f32_lit (15 / 10),
      escalated_threshold = f32_lit (25 / 10), locked_threshold = f32_lit 4,
      velocity_trigger = f32_lit (15 / 100), boundary_probe_limit = 3,
      decay_factor = f32_lit (95 / 100)\<rparr>"

record memory_verdict =
  mv_state :: memory_state
  mv_cumulative_threat :: f32
  mv_trajectory :: f32
  mv_force_checkpoint :: bool
  mv_threshold_modifier :: f32
  mv_state_changed :: bool
  mv_escalation_reason :: "string option"

text \<open>How much a state tightens, as a rank.\<close>

fun memory_rank :: "memory_state \<Rightarrow> nat" where
  "memory_rank Clear = 0"
| "memory_rank Watching = 1"
| "memory_rank Elevated = 2"
| "memory_rank Escalated = 3"
| "memory_rank Locked = 4"

interpretation memory_level: ranked memory_rank
proof
  fix a b
  assume "memory_rank a = memory_rank b"
  then show "a = b" by (cases a; cases b) simp_all
qed

definition session_memory_new :: "externs \<Rightarrow> world \<Rightarrow> string \<Rightarrow> session_memory \<times> world" where
  "session_memory_new X w session_id =
     (\<lparr>sm_session_id = session_id, sm_created_at = now X w, sm_turns = [], sm_turn_count = 0,
       sm_cumulative_threat = 0, sm_threat_trajectory = 0, sm_max_confidence = 0,
       sm_escalation_velocity = 0, sm_boundary_probes = 0, sm_authority_claims = 0,
       sm_extraction_attempts = 0, sm_obfuscation_count = 0, sm_memory_state = Clear,
       sm_escalated = False, sm_escalation_reason = None\<rparr>, tick w)"

subsection \<open>The steps of \<open>ingest_signal\<close>, in the order of the code\<close>

definition record_turn :: "externs \<Rightarrow> world \<Rightarrow> signal \<Rightarrow> request_classification \<Rightarrow>
    session_memory \<Rightarrow> session_memory" where
  "record_turn X w s c m =
     (let n = sm_turn_count m + 1
      in m\<lparr>sm_turn_count := n,
           sm_turns := keep_last max_retained_turns (sm_turns m @
             [\<lparr>tr_turn = n, tr_timestamp = now X w, tr_severity = show_severity (sg_severity s),
               tr_confidence = sg_confidence s, tr_classification = c,
               tr_violation_class = sg_violation_class s\<rparr>])\<rparr>)"

definition count_pattern :: "request_classification \<Rightarrow> session_memory \<Rightarrow> session_memory" where
  "count_pattern c m = (case c of
       Boundary \<Rightarrow> m\<lparr>sm_boundary_probes := sm_boundary_probes m + 1\<rparr>
     | AuthorityClaim \<Rightarrow> m\<lparr>sm_authority_claims := sm_authority_claims m + 1\<rparr>
     | Extraction \<Rightarrow> m\<lparr>sm_extraction_attempts := sm_extraction_attempts m + 1\<rparr>
     | Obfuscated \<Rightarrow> m\<lparr>sm_obfuscation_count := sm_obfuscation_count m + 1\<rparr>
     | _ \<Rightarrow> m)"

fun severity_multiplier :: "severity \<Rightarrow> f32" where
  "severity_multiplier SevNone = 0"
| "severity_multiplier SevLow = f32_lit (3 / 10)"
| "severity_multiplier SevMedium = f32_lit (6 / 10)"
| "severity_multiplier SevHigh = 1"
| "severity_multiplier SevCritical = f32_lit (15 / 10)"

definition weighted_signal :: "memory_config \<Rightarrow> signal \<Rightarrow> request_classification \<Rightarrow>
    session_memory \<Rightarrow> f32" where
  "weighted_signal cfg s c m =
     (let w1 = f32_mul (sg_confidence s) (severity_multiplier (sg_severity s));
          w2 = (if boundary_probe_limit cfg < sm_boundary_probes m
                then f32_add w1 (f32_mul (f32_lit (1 / 10))
                  (f32_of_nat (unat (sm_boundary_probes m - boundary_probe_limit cfg))))
                else w1);
          w3 = (if c = AuthorityClaim then f32_add w2 (f32_lit (2 / 10)) else w2)
      in if 1 < sm_extraction_attempts m
         then f32_add w3 (f32_mul (f32_lit (15 / 100))
                (f32_of_nat (unat (sm_extraction_attempts m))))
         else w3)"

definition violation_amplifier :: "string \<Rightarrow> f32 option" where
  "violation_amplifier vc = map_of
     [(''MODEL_EXFIL'', 10), (''AUTHORITY_CLAIM'', 8), (''AGENT_BROADCAST_OVERRIDE'', 8),
      (''GOV_SURFACE_INTEL'', 4), (''RUNTIME_DOS'', 6), (''ZERO_WIDTH_CHARS'', 5),
      (''L33T_OBFUSCATION'', 5), (''BASE64_INJECTION'', 7)] vc"

definition amplify :: "string option \<Rightarrow> f32 \<Rightarrow> f32" where
  "amplify vc threat = (case vc of
       None \<Rightarrow> threat
     | Some v \<Rightarrow> (case violation_amplifier v of None \<Rightarrow> threat | Some a \<Rightarrow> f32_add threat a))"

definition accumulate :: "memory_config \<Rightarrow> signal \<Rightarrow> request_classification \<Rightarrow> session_memory \<Rightarrow>
    session_memory" where
  "accumulate cfg s c m =
     m\<lparr>sm_cumulative_threat := amplify (sg_violation_class s)
         (f32_add (f32_mul (sm_cumulative_threat m) (decay_factor cfg)) (weighted_signal cfg s c m)),
       sm_max_confidence := max (sm_max_confidence m) (sg_confidence s)\<rparr>"

text \<open>The slope over the last \<open>window\<close> turns: the four running sums, then the quotient.\<close>

definition trajectory_sums :: "f32 list \<Rightarrow> f32 \<times> f32 \<times> f32 \<times> f32" where
  "trajectory_sums ys = fold (\<lambda>(i, y) (sx, sy, sxy, sxx).
       (let x = f32_of_nat i
        in (f32_add sx x, f32_add sy y, f32_add sxy (f32_mul x y), f32_add sxx (f32_mul x x))))
     (enumerate 0 ys) (0, 0, 0, 0)"

definition compute_trajectory :: "nat \<Rightarrow> session_memory \<Rightarrow> f32" where
  "compute_trajectory window m =
     (let recent = take window (rev (sm_turns m))
      in if length recent < 2 then 0
         else let n = f32_of_nat (length recent);
                  (sx, sy, sxy, sxx) = trajectory_sums (map tr_confidence (rev recent));
                  denominator = f32_sub (f32_mul n sxx) (f32_mul sx sx)
              in if \<bar>denominator\<bar> < f32_lit (1 / 1000000) then 0
                 else f32_div (f32_sub (f32_mul n sxy) (f32_mul sx sy)) denominator)"

definition velocity_of :: "f32 \<Rightarrow> session_memory \<Rightarrow> f32" where
  "velocity_of weighted m =
     (if 1 < sm_turn_count m
      then f32_div (sm_cumulative_threat m) (f32_of_nat (unat (sm_turn_count m))) else weighted)"

definition compute_state :: "memory_config \<Rightarrow> session_memory \<Rightarrow> memory_state" where
  "compute_state cfg m =
     (if velocity_trigger cfg < sm_escalation_velocity m \<and> 3 \<le> sm_turn_count m \<and>
         sm_memory_state m = Clear
      then Elevated
      else if locked_threshold cfg \<le> sm_cumulative_threat m then Locked
      else if escalated_threshold cfg \<le> sm_cumulative_threat m then Escalated
      else if elevated_threshold cfg \<le> sm_cumulative_threat m then Elevated
      else if watching_threshold cfg \<le> sm_cumulative_threat m then Watching
      else Clear)"

fun modifier_of :: "memory_state \<Rightarrow> f32" where
  "modifier_of Clear = 1"
| "modifier_of Watching = f32_lit (85 / 100)"
| "modifier_of Elevated = f32_lit (65 / 100)"
| "modifier_of Escalated = f32_lit (40 / 100)"
| "modifier_of Locked = 0"

definition threshold_modifier :: "session_memory \<Rightarrow> f32" where
  "threshold_modifier m = modifier_of (sm_memory_state m)"

definition is_checkpoint :: "memory_state \<Rightarrow> bool" where
  "is_checkpoint st \<longleftrightarrow> st = Escalated \<or> st = Locked"

definition escalation_text :: "session_memory \<Rightarrow> string" where
  "escalation_text m =
     ''SessionMemory: cumulative='' @ show_fixed 2 (sm_cumulative_threat m) @
     '' turn='' @ show_nat (unat (sm_turn_count m)) @
     '' trajectory='' @ show_fixed 3 (sm_threat_trajectory m) @
     '' velocity='' @ show_fixed 3 (sm_escalation_velocity m) @
     '' probes='' @ show_nat (unat (sm_boundary_probes m)) @
     '' auth='' @ show_nat (unat (sm_authority_claims m)) @
     '' extract='' @ show_nat (unat (sm_extraction_attempts m))"

definition note_escalation :: "session_memory \<Rightarrow> session_memory" where
  "note_escalation m =
     (if is_checkpoint (sm_memory_state m) \<and> \<not> sm_escalated m
      then m\<lparr>sm_escalated := True, sm_escalation_reason := Some (escalation_text m)\<rparr> else m)"

definition verdict_of_memory :: "memory_state \<Rightarrow> session_memory \<Rightarrow> memory_verdict" where
  "verdict_of_memory previous m =
     \<lparr>mv_state = sm_memory_state m, mv_cumulative_threat = sm_cumulative_threat m,
      mv_trajectory = sm_threat_trajectory m,
      mv_force_checkpoint = is_checkpoint (sm_memory_state m),
      mv_threshold_modifier = threshold_modifier m,
      mv_state_changed = (sm_memory_state m \<noteq> previous),
      mv_escalation_reason = sm_escalation_reason m\<rparr>"

definition ingest_signal :: "externs \<Rightarrow> memory_config \<Rightarrow> signal \<Rightarrow> request_classification \<Rightarrow>
    session_memory \<Rightarrow> world \<Rightarrow> memory_verdict \<times> session_memory \<times> world" where
  "ingest_signal X cfg s c m w =
     (let m1 = count_pattern c (record_turn X w s c m);
          m2 = accumulate cfg s c m1;
          m3 = m2\<lparr>sm_threat_trajectory := compute_trajectory 5 m2,
                   sm_escalation_velocity := velocity_of (weighted_signal cfg s c m1) m2\<rparr>;
          previous = sm_memory_state m3;
          m4 = m3\<lparr>sm_memory_state := compute_state cfg m3\<rparr>;
          m5 = note_escalation m4
      in (verdict_of_memory previous m5, m5, tick w))"

subsection \<open>The fingerprint of a session\<close>

fun type_byte :: "request_classification \<Rightarrow> u8" where
  "type_byte Benign = 0"
| "type_byte Informational = 1"
| "type_byte Boundary = 2"
| "type_byte Escalation = 3"
| "type_byte AuthorityClaim = 4"
| "type_byte Extraction = 5"
| "type_byte Obfuscated = 6"

definition fnv_step :: "u8 \<Rightarrow> u64 \<Rightarrow> u64" where
  "fnv_step b hash = Bit_Operations.xor hash (ucast b) * 0x100000001b3"

definition compute_behavior_hash :: "session_memory \<Rightarrow> u64" where
  "compute_behavior_hash m =
     fold (\<lambda>t. fnv_step (type_byte (tr_classification t))) (sm_turns m) 0xcbf29ce484222325"

record session_fingerprint =
  sf_session_id :: string
  sf_created_at :: int
  sf_turn_count :: u32
  sf_final_cumulative_threat :: f32
  sf_max_confidence :: f32
  sf_peak_trajectory :: f32
  sf_boundary_probes :: u32
  sf_authority_claims :: u32
  sf_extraction_attempts :: u32
  sf_obfuscation_count :: u32
  sf_final_state :: memory_state
  sf_escalated :: bool
  sf_behavior_hash :: u64

definition to_fingerprint :: "session_memory \<Rightarrow> session_fingerprint" where
  "to_fingerprint m =
     \<lparr>sf_session_id = sm_session_id m, sf_created_at = sm_created_at m,
      sf_turn_count = sm_turn_count m, sf_final_cumulative_threat = sm_cumulative_threat m,
      sf_max_confidence = sm_max_confidence m, sf_peak_trajectory = sm_threat_trajectory m,
      sf_boundary_probes = sm_boundary_probes m, sf_authority_claims = sm_authority_claims m,
      sf_extraction_attempts = sm_extraction_attempts m,
      sf_obfuscation_count = sm_obfuscation_count m, sf_final_state = sm_memory_state m,
      sf_escalated = sm_escalated m, sf_behavior_hash = compute_behavior_hash m\<rparr>"

section \<open>Tier 2: strategic memory\<close>

datatype strategic_threat_level = Unknown | Clean | Cautious | Suspicious | Hostile

record actor_profile =
  ap_actor_id :: string
  ap_first_seen :: int
  ap_last_seen :: int
  ap_total_sessions :: u32
  ap_escalated_sessions :: u32
  ap_session_fingerprints :: "session_fingerprint list"
  ap_strategic_threat_level :: strategic_threat_level
  ap_cumulative_risk_score :: f32
  ap_campaign_detected :: bool
  ap_campaign_description :: "string option"
  ap_recommended_initial_state :: memory_state
  ap_recommended_threshold_modifier :: f32

record session_start_advice =
  sa_initial_state :: memory_state
  sa_threshold_modifier :: f32
  sa_advisory :: "string option"

record strategic_memory =
  sta_actors :: "actor_profile hashmap"
  sta_memory_path :: "string option"

definition strategic_memory_new :: strategic_memory where
  "strategic_memory_new = \<lparr>sta_actors = [], sta_memory_path = None\<rparr>"

text \<open>
  The file system and \<open>serde_json\<close>, as the code uses them: file contents by path, whether a
  read, \<open>create_dir_all\<close>, \<open>write\<close> or \<open>rename\<close> succeeds, \<open>Path::parent\<close>, \<open>Path::with_extension\<close>
  and the two directions of the serialisation.
\<close>

record storage =
  fs_readable :: "string \<Rightarrow> bool"
  fs_mkdir_ok :: "string \<Rightarrow> bool"
  fs_write_ok :: "string \<Rightarrow> bool"
  fs_rename_ok :: "string \<Rightarrow> bool"
  fs_parent :: "string \<Rightarrow> string option"
  fs_json_tmp :: "string \<Rightarrow> string"
  fs_serialize :: "actor_profile hashmap \<Rightarrow> string option"
  fs_parse :: "string \<Rightarrow> actor_profile hashmap option"

definition with_path :: "storage \<Rightarrow> string hashmap \<Rightarrow> string option \<Rightarrow> strategic_memory" where
  "with_path S files path =
     \<lparr>sta_actors = (case path of
          None \<Rightarrow> []
        | Some p \<Rightarrow> (case hm_get files p of
              None \<Rightarrow> []
            | Some raw \<Rightarrow>
                if fs_readable S p
                then (case fs_parse S raw of Some m \<Rightarrow> m | None \<Rightarrow> []) else [])),
      sta_memory_path = path\<rparr>"

definition is_durable :: "strategic_memory \<Rightarrow> bool" where
  "is_durable M \<longleftrightarrow> sta_memory_path M \<noteq> None"

definition actor_count :: "strategic_memory \<Rightarrow> nat" where
  "actor_count M = length (sta_actors M)"

definition total_sessions :: "strategic_memory \<Rightarrow> string \<Rightarrow> u32" where
  "total_sessions M a = (case hm_get (sta_actors M) a of None \<Rightarrow> 0 | Some p \<Rightarrow> ap_total_sessions p)"

definition escalated_sessions :: "strategic_memory \<Rightarrow> string \<Rightarrow> u32" where
  "escalated_sessions M a =
     (case hm_get (sta_actors M) a of None \<Rightarrow> 0 | Some p \<Rightarrow> ap_escalated_sessions p)"

definition get_actor_profile :: "strategic_memory \<Rightarrow> string \<Rightarrow> actor_profile option" where
  "get_actor_profile M a = hm_get (sta_actors M) a"

text \<open>\<open>persist\<close>: write a temporary file, then rename it over the snapshot.\<close>

definition parent_ready :: "storage \<Rightarrow> string \<Rightarrow> bool" where
  "parent_ready S p = (case fs_parent S p of
       None \<Rightarrow> True | Some d \<Rightarrow> d = [] \<or> fs_mkdir_ok S d)"

definition persist :: "storage \<Rightarrow> strategic_memory \<Rightarrow> string hashmap \<Rightarrow> bool \<times> string hashmap" where
  "persist S M files = (case sta_memory_path M of
       None \<Rightarrow> (False, files)
     | Some p \<Rightarrow> (case fs_serialize S (sta_actors M) of
           None \<Rightarrow> (False, files)
         | Some json \<Rightarrow>
             if \<not> parent_ready S p then (False, files)
             else let tmp = fs_json_tmp S p
                  in if \<not> fs_write_ok S tmp then (False, files)
                     else let files' = hm_insert tmp json files
                          in if \<not> fs_rename_ok S p then (False, files')
                             else (True, hm_insert p json (hm_remove tmp files'))))"

definition escalation_ratio :: "actor_profile \<Rightarrow> f32" where
  "escalation_ratio p =
     (if 0 < ap_total_sessions p
      then f32_div (f32_of_nat (unat (ap_escalated_sessions p)))
             (f32_of_nat (unat (ap_total_sessions p)))
      else 0)"

definition detect_campaign :: "actor_profile \<Rightarrow> actor_profile" where
  "detect_campaign p =
     (if 3 \<le> ap_total_sessions p \<and> 2 \<le> ap_escalated_sessions p \<and>
         length (remdups (map sf_behavior_hash (take 4 (rev (ap_session_fingerprints p))))) \<le> 2
      then p\<lparr>ap_campaign_detected := True,
             ap_campaign_description := Some (''Repeated attack pattern across '' @
               show_nat (unat (ap_total_sessions p)) @ '' sessions'')\<rparr>
      else p)"

definition threat_level_of :: "f32 \<Rightarrow> actor_profile \<Rightarrow> strategic_threat_level" where
  "threat_level_of ratio p =
     (if ap_campaign_detected p then Hostile
      else if 1 / 2 < ratio \<and> 3 \<le> ap_total_sessions p then Suspicious
      else if 1 / 4 < ratio \<and> 2 \<le> ap_total_sessions p then Cautious
      else if 2 \<le> ap_total_sessions p \<and> ap_escalated_sessions p = 0 then Clean
      else Unknown)"

fun recommendation :: "strategic_threat_level \<Rightarrow> memory_state \<times> f32" where
  "recommendation Unknown = (Clear, 1)"
| "recommendation Clean = (Clear, 1)"
| "recommendation Cautious = (Watching, f32_lit (80 / 100))"
| "recommendation Suspicious = (Elevated, f32_lit (55 / 100))"
| "recommendation Hostile = (Escalated, f32_lit (30 / 100))"

definition evaluate_actor :: "actor_profile \<Rightarrow> actor_profile" where
  "evaluate_actor p0 =
     (let ratio = escalation_ratio p0;
          p = detect_campaign p0;
          level = threat_level_of ratio p;
          (st, md) = recommendation level
      in p\<lparr>ap_strategic_threat_level := level, ap_recommended_initial_state := st,
           ap_recommended_threshold_modifier := md\<rparr>)"

definition fresh_profile :: "string \<Rightarrow> int \<Rightarrow> actor_profile" where
  "fresh_profile actor_id t =
     \<lparr>ap_actor_id = actor_id, ap_first_seen = t, ap_last_seen = t, ap_total_sessions = 0,
      ap_escalated_sessions = 0, ap_session_fingerprints = [],
      ap_strategic_threat_level = Unknown, ap_cumulative_risk_score = 0,
      ap_campaign_detected = False, ap_campaign_description = None,
      ap_recommended_initial_state = Clear, ap_recommended_threshold_modifier = 1\<rparr>"

definition add_session :: "int \<Rightarrow> session_fingerprint \<Rightarrow> actor_profile \<Rightarrow> actor_profile" where
  "add_session t f p =
     p\<lparr>ap_last_seen := t, ap_total_sessions := ap_total_sessions p + 1,
       ap_escalated_sessions :=
         (if sf_escalated f then ap_escalated_sessions p + 1 else ap_escalated_sessions p),
       ap_cumulative_risk_score := f32_add (ap_cumulative_risk_score p)
         (f32_mul (sf_final_cumulative_threat f) (f32_lit (3 / 10))),
       ap_session_fingerprints := ap_session_fingerprints p @ [f]\<rparr>"

definition ingest_session :: "externs \<Rightarrow> storage \<Rightarrow> string \<Rightarrow> session_fingerprint \<Rightarrow>
    strategic_memory \<Rightarrow> string hashmap \<Rightarrow> world \<Rightarrow>
    bool \<times> strategic_memory \<times> string hashmap \<times> world" where
  "ingest_session X S actor_id f M files w =
     (let t = now X w;
          p = (case hm_get (sta_actors M) actor_id of
                 None \<Rightarrow> fresh_profile actor_id t | Some p \<Rightarrow> p);
          M' = M\<lparr>sta_actors :=
                 hm_insert actor_id (evaluate_actor (add_session t f p)) (sta_actors M)\<rparr>;
          (durable, files') = persist S M' files
      in (durable, M', files', tick w))"

definition em_dash :: string where
  "em_dash = [CHR 0xE2, CHR 0x80, CHR 0x94]"

fun debug_memory_state :: "memory_state \<Rightarrow> string" where
  "debug_memory_state Clear = ''Clear''"
| "debug_memory_state Watching = ''Watching''"
| "debug_memory_state Elevated = ''Elevated''"
| "debug_memory_state Escalated = ''Escalated''"
| "debug_memory_state Locked = ''Locked''"

fun debug_threat_level :: "strategic_threat_level \<Rightarrow> string" where
  "debug_threat_level Unknown = ''Unknown''"
| "debug_threat_level Clean = ''Clean''"
| "debug_threat_level Cautious = ''Cautious''"
| "debug_threat_level Suspicious = ''Suspicious''"
| "debug_threat_level Hostile = ''Hostile''"

definition advisory_of :: "string \<Rightarrow> actor_profile \<Rightarrow> string option" where
  "advisory_of actor_id p =
     (if ap_campaign_detected p then Some
        (''STRATEGIC MEMORY ADVISORY: Actor '' @ actor_id @ '' '' @ em_dash @ '' '' @
         show_nat (unat (ap_total_sessions p)) @ '' sessions, '' @
         show_nat (unat (ap_escalated_sessions p)) @ '' escalated. Campaign: '' @
         (case ap_campaign_description p of None \<Rightarrow> ''unclassified'' | Some d \<Rightarrow> d) @
         ''. Starting '' @ debug_memory_state (ap_recommended_initial_state p) @ '' at '' @
         show_fixed 0 (f32_mul (ap_recommended_threshold_modifier p) 100) @ ''% threshold.'')
      else if ap_strategic_threat_level p \<noteq> Clean \<and> ap_strategic_threat_level p \<noteq> Unknown
      then Some
        (''STRATEGIC MEMORY ADVISORY: Actor '' @ actor_id @ '' '' @ em_dash @ '' '' @
         debug_threat_level (ap_strategic_threat_level p) @ ''. '' @
         show_nat (unat (ap_escalated_sessions p)) @ ''/'' @
         show_nat (unat (ap_total_sessions p)) @ '' sessions escalated.'')
      else None)"

definition advise_session_start :: "strategic_memory \<Rightarrow> string \<Rightarrow> session_start_advice" where
  "advise_session_start M actor_id = (case hm_get (sta_actors M) actor_id of
       None \<Rightarrow> \<lparr>sa_initial_state = Clear, sa_threshold_modifier = 1, sa_advisory = None\<rparr>
     | Some p \<Rightarrow> \<lparr>sa_initial_state = ap_recommended_initial_state p,
                  sa_threshold_modifier = ap_recommended_threshold_modifier p,
                  sa_advisory = advisory_of actor_id p\<rparr>)"

section \<open>The payload classifier\<close>

definition zero_width_cp :: "nat \<Rightarrow> bool" where
  "zero_width_cp n \<longleftrightarrow> n \<in> {0x200B, 0x200C, 0x200D, 0x2060, 0xFEFF, 0x00AD}"

definition cyrillic_cp :: "nat \<Rightarrow> bool" where
  "cyrillic_cp n \<longleftrightarrow> 0x0400 \<le> n \<and> n \<le> 0x04FF"

definition looks_obfuscated :: "string \<Rightarrow> bool" where
  "looks_obfuscated payload =
     (let cps = map codepoint (uchars payload)
      in list_ex zero_width_cp cps \<or>
         list_ex cyrillic_cp cps \<and> list_ex (\<lambda>ch. length ch = 1 \<and> is_ascii_alphabetic (hd ch))
           (uchars payload))"

definition classify_payload :: "externs \<Rightarrow> string \<Rightarrow> request_classification" where
  "classify_payload X payload =
     (let lower = lowercase X payload
      in if contains_any lower
           [''i'' @ [CHR 39] @ ''m the developer'', ''admin override'', ''your developer'',
            ''anthropic says'', ''operator token'', ''maintenance mode'', ''your creator'',
            ''authorized user'']
         then AuthorityClaim
         else if contains_any lower
           [''system prompt'', ''your instructions'', ''your configuration'', ''policy_rule'',
            ''threshold'', ''arbiter config'', ''governance_signal'', ''show me your'']
         then Extraction
         else if looks_obfuscated payload then Obfuscated
         else if contains_any lower
           [''hypothetically'', ''in theory'', ''what if you'', ''imagine you'',
            ''just this once'', ''make an exception'']
         then Boundary
         else if contains_any lower
           [''ignore previous'', ''override'', ''bypass'', ''no restrictions'', ''forget your'',
            ''disregard'']
         then Escalation
         else if contains_any lower
           [''how does'', ''what is'', ''explain'', ''tell me about'', ''help me'', ''can you'']
         then Informational
         else Benign)"

section \<open>The retained window\<close>

definition memory_step :: "externs \<Rightarrow> memory_config \<Rightarrow> signal \<times> request_classification \<Rightarrow>
    session_memory \<times> world \<Rightarrow> session_memory \<times> world" where
  "memory_step X cfg sc mw = snd (ingest_signal X cfg (fst sc) (snd sc) (fst mw) (snd mw))"

definition session_after :: "externs \<Rightarrow> memory_config \<Rightarrow> string \<Rightarrow> world \<Rightarrow>
    (signal \<times> request_classification) list \<Rightarrow> session_memory \<times> world" where
  "session_after X cfg sid w sigs = fold (memory_step X cfg) sigs (session_memory_new X w sid)"

lemma count_pattern_frame [simp]:
  "sm_turns (count_pattern c m) = sm_turns m"
  "sm_turn_count (count_pattern c m) = sm_turn_count m"
  "sm_cumulative_threat (count_pattern c m) = sm_cumulative_threat m"
  "sm_memory_state (count_pattern c m) = sm_memory_state m"
  by (cases c; simp add: count_pattern_def)+

lemma note_escalation_frame [simp]:
  "sm_turns (note_escalation m) = sm_turns m"
  "sm_turn_count (note_escalation m) = sm_turn_count m"
  "sm_cumulative_threat (note_escalation m) = sm_cumulative_threat m"
  "sm_memory_state (note_escalation m) = sm_memory_state m"
  "sm_escalation_velocity (note_escalation m) = sm_escalation_velocity m"
  "sm_escalated (note_escalation m) \<longleftrightarrow> sm_escalated m \<or> is_checkpoint (sm_memory_state m)"
  by (auto simp: note_escalation_def)

lemma ingest_turns:
  "sm_turn_count (fst (snd (ingest_signal X cfg s c m w))) = sm_turn_count m + 1"
  "sm_turns (fst (snd (ingest_signal X cfg s c m w))) = sm_turns (record_turn X w s c m)"
  by (simp_all add: ingest_signal_def Let_def accumulate_def record_turn_def)

interpretation turn_window: bounded_window "\<lambda>mw. sm_turns (fst mw)" "memory_step X cfg"
    max_retained_turns for X cfg
  by unfold_locales (simp add: memory_step_def ingest_turns record_turn_def Let_def)

lemma keep_last_drop: "keep_last n xs = drop (length xs - n) xs"
  by (simp add: keep_last_def)

lemma keep_last_push: "keep_last n (keep_last n xs @ [x]) = keep_last n (xs @ [x])"
proof -
  have "length xs - n + (Suc (min n (length xs)) - n) = Suc (length xs) - n" if "n < length xs"
    using that by simp
  then show ?thesis
    by (cases "n < length xs") (auto simp: keep_last_drop drop_append Suc_diff_le min_def)
qed

lemma keep_last_map: "map f (keep_last n xs) = keep_last n (map f xs)"
  by (simp add: keep_last_drop drop_map)

definition turn_detail :: "turn_record \<Rightarrow> u32 \<times> string \<times> f32 \<times> request_classification" where
  "turn_detail t = (tr_turn t, tr_severity t, tr_confidence t, tr_classification t)"

definition signal_detail :: "nat \<times> signal \<times> request_classification \<Rightarrow>
    u32 \<times> string \<times> f32 \<times> request_classification" where
  "signal_detail x = (of_nat (fst x) + 1, show_severity (sg_severity (fst (snd x))),
     sg_confidence (fst (snd x)), snd (snd x))"

lemma session_after_snoc:
  "session_after X cfg sid w (sigs @ [sc]) = memory_step X cfg sc (session_after X cfg sid w sigs)"
  by (simp add: session_after_def)

text \<open>
  Claim C35: after any sequence of signals the session memory retains exactly the last twenty of
  them, each with its own turn number, severity, confidence and classification, oldest first,
  while the turn counter counts all of them (modulo the width of \<open>u32\<close>).
\<close>

theorem session_window_exact:
  "map turn_detail (sm_turns (fst (session_after X cfg sid w sigs))) =
     keep_last 20 (map signal_detail (enumerate 0 sigs)) \<and>
   sm_turn_count (fst (session_after X cfg sid w sigs)) = of_nat (length sigs)"
proof (induction sigs rule: rev_induct)
  case Nil
  show ?case by (simp add: session_after_def session_memory_new_def keep_last_def)
next
  case (snoc sc sigs)
  obtain s c where sc: "sc = (s, c)" by (cases sc)
  obtain m v where mv: "session_after X cfg sid w sigs = (m, v)" by fastforce
  from snoc mv have turns: "map turn_detail (sm_turns m) =
      keep_last 20 (map signal_detail (enumerate 0 sigs))"
    and n: "sm_turn_count m = of_nat (length sigs)" by simp_all
  have "map turn_detail (sm_turns (fst (memory_step X cfg sc (m, v)))) =
      keep_last 20 (map turn_detail (sm_turns m) @ [signal_detail (length sigs, s, c)])"
    by (simp add: memory_step_def ingest_turns record_turn_def Let_def keep_last_map sc n
        max_retained_turns_def turn_detail_def signal_detail_def)
  also have "\<dots> = keep_last 20 (map signal_detail (enumerate 0 (sigs @ [sc])))"
    by (simp add: turns keep_last_push enumerate_append_eq sc)
  finally show ?case
    by (simp add: session_after_snoc mv memory_step_def ingest_turns n add.commute)
qed

section \<open>Amplified violations\<close>

text \<open>The accumulated threat never becomes negative.\<close>

lemma weighted_nonneg:
  assumes "0 \<le> sg_confidence s"
  shows "0 \<le> weighted_signal cfg s c m"
proof -
  have "0 \<le> severity_multiplier sev" for sev
    by (cases sev) (simp_all add: f32_lit_def f32_round_nonneg)
  moreover have "0 \<le> f32_lit (1 / 10)" "0 \<le> f32_lit (2 / 10)" "0 \<le> f32_lit (15 / 100)"
    by (simp_all add: f32_lit_def f32_round_nonneg)
  ultimately show ?thesis
    using assms unfolding weighted_signal_def Let_def
    by (auto intro!: f32_nonneg split: if_splits)
qed

lemma violation_amplifier_ge_4: "violation_amplifier vc = Some a \<Longrightarrow> 4 \<le> a"
  by (auto simp: violation_amplifier_def split: if_splits)

lemma f32_round_small_int: "f32_round (numeral k) = numeral k" if "(numeral k :: int) < 16777216"
  using f32_round_exact [of "numeral k" 0 "numeral k"] that by simp

lemma amplified_threat_ge_4:
  assumes "0 \<le> t" "violation_amplifier vc = Some a"
  shows "4 \<le> amplify (Some vc) t"
proof -
  have "f32_add 0 4 \<le> f32_add t a"
    using assms(1) violation_amplifier_ge_4 [OF assms(2)] by (rule f32_add_mono)
  then show ?thesis by (simp add: amplify_def assms(2) f32_add_def f32_round_small_int)
qed

lemma amplify_nonneg: "0 \<le> t \<Longrightarrow> 0 \<le> amplify vc t"
  using amplified_threat_ge_4
  by (fastforce simp: amplify_def split: option.splits intro: f32_add_nonneg
      dest: violation_amplifier_ge_4)

lemma accumulate_nonneg:
  assumes "0 \<le> sg_confidence s" "0 \<le> sm_cumulative_threat m" "0 \<le> decay_factor cfg"
  shows "0 \<le> sm_cumulative_threat (accumulate cfg s c m)"
  using assms by (simp add: accumulate_def amplify_nonneg f32_nonneg weighted_nonneg)

lemma ingest_state:
  fixes X cfg s c m w
  defines "r \<equiv> ingest_signal X cfg s c m w"
  shows "mv_state (fst r) = sm_memory_state (fst (snd r))"
    and "sm_memory_state (fst (snd r)) =
      compute_state cfg ((fst (snd r))\<lparr>sm_memory_state := sm_memory_state m\<rparr>)"
    and "mv_force_checkpoint (fst r) = is_checkpoint (mv_state (fst r))"
    and "mv_threshold_modifier (fst r) = modifier_of (mv_state (fst r))"
    and "is_checkpoint (mv_state (fst r)) \<longrightarrow> sm_escalated (fst (snd r))"
    and "sm_cumulative_threat (fst (snd r)) = sm_cumulative_threat
      (accumulate cfg s c (count_pattern c (record_turn X w s c m)))"
  by (simp_all add: r_def ingest_signal_def Let_def verdict_of_memory_def threshold_modifier_def
      compute_state_def accumulate_def record_turn_def)

text \<open>The velocity rule of \<open>compute_state\<close>, over the memory before and after a signal.\<close>

definition velocity_rule :: "memory_config \<Rightarrow> session_memory \<Rightarrow> session_memory \<Rightarrow> bool" where
  "velocity_rule cfg before after \<longleftrightarrow> velocity_trigger cfg < sm_escalation_velocity after \<and>
     3 \<le> sm_turn_count after \<and> sm_memory_state before = Clear"

text \<open>
  A signal of one of the amplified violation classes locks the session at once under
  any configuration whose lock threshold is at most 4 (the default): the verdict is \<open>Locked\<close>,
  forces a checkpoint, records the escalation and hands the arbiter the modifier 0. The only
  exception is the velocity rule, which takes precedence over the lock threshold and only
  elevates.
\<close>

lemma amplified_violation_locks:
  assumes "sg_violation_class s = Some vc" and "violation_amplifier vc = Some a"
    and "0 \<le> sg_confidence s" and "0 \<le> sm_cumulative_threat m"
    and "0 \<le> decay_factor cfg" and "locked_threshold cfg \<le> 4"
    and "ingest_signal X cfg s c m w = (v, m', w')"
  shows "if velocity_rule cfg m m'
    then mv_state v = Elevated \<and> \<not> mv_force_checkpoint v
    else mv_state v = Locked \<and> mv_force_checkpoint v \<and> mv_threshold_modifier v = 0 \<and>
      sm_escalated m'"
proof -
  note st = ingest_state [of X cfg s c m w, unfolded assms(7) fst_conv snd_conv]
  let ?m1 = "count_pattern c (record_turn X w s c m)"
  have "4 \<le> sm_cumulative_threat m'"
    using assms(1-5) by (simp add: st(6) accumulate_def record_turn_def Let_def
        amplified_threat_ge_4 f32_nonneg weighted_nonneg)
  with assms(6) have "mv_state v = (if velocity_rule cfg m m' then Elevated else Locked)"
    by (simp add: st(1) st(2) compute_state_def velocity_rule_def)
  with st(3-5) show ?thesis by (simp add: is_checkpoint_def)
qed

definition exfil_signal :: signal where
  "exfil_signal = fst (build_signal demo demo_world Sentinel Inbound ''s1'' ''MODEL_EXFIL''
     ''SENT-EXF-001'' SevCritical 1 ''h'' ''c'')"

definition quiet_signal :: signal where
  "quiet_signal = fst (clean_signal demo demo_world Sentinel Inbound ''s1'' ''h'')"

definition fresh_memory :: session_memory where
  "fresh_memory = fst (session_memory_new demo demo_world ''s1'')"

lemma exfil_fields [simp]: "sg_violation_class exfil_signal = Some ''MODEL_EXFIL''"
  "sg_confidence exfil_signal = 1" "sg_severity exfil_signal = SevCritical"
  by (simp_all add: exfil_signal_def f32_clamp01_def)

lemma default_config_ok: "0 \<le> decay_factor default_memory_config"
  "locked_threshold default_memory_config \<le> 4"
  by (simp_all add: default_memory_config_def f32_lit_def f32_round_nonneg f32_round_small_int)

theorem amplified_violation_locks_witness:
  "mv_state (fst (ingest_signal demo default_memory_config exfil_signal Extraction fresh_memory
     demo_world)) = Locked"
proof -
  obtain v m' w' where r: "ingest_signal demo default_memory_config exfil_signal Extraction
      fresh_memory demo_world = (v, m', w')" by (metis prod_cases3)
  have "sm_turn_count fresh_memory = 0" and c: "sm_cumulative_threat fresh_memory = 0"
    by (simp_all add: fresh_memory_def session_memory_new_def)
  with ingest_turns(1) [of demo default_memory_config exfil_signal Extraction fresh_memory
      demo_world] have "sm_turn_count m' = 1" by (simp add: r)
  then have "\<not> velocity_rule default_memory_config fresh_memory m'"
    by (simp add: velocity_rule_def word_le_nat_alt)
  moreover have "violation_amplifier ''MODEL_EXFIL'' = Some 10"
    by (simp add: violation_amplifier_def)
  ultimately show ?thesis
    using amplified_violation_locks [OF exfil_fields(1) _ _ _ default_config_ok r, of 10]
    by (simp add: r c)
qed

text \<open>
  The velocity rule at work: two harmless turns followed by a \<open>MODEL_EXFIL\<close> signal accumulate
  more than twice the lock threshold, and still leave the session \<open>Elevated\<close>.
\<close>

definition idle_memory :: "u32 \<Rightarrow> session_memory \<Rightarrow> bool" where
  "idle_memory n m \<longleftrightarrow> sm_cumulative_threat m = 0 \<and> sm_turn_count m = n \<and>
     sm_memory_state m = Clear \<and> sm_boundary_probes m = 0 \<and> sm_extraction_attempts m = 0"

lemma velocity_ingest: "sm_escalation_velocity (fst (snd (ingest_signal X cfg s c m w))) =
    velocity_of (weighted_signal cfg s c (count_pattern c (record_turn X w s c m)))
      (fst (snd (ingest_signal X cfg s c m w)))"
  by (simp add: ingest_signal_def Let_def velocity_of_def)

lemma quiet_fields [simp]: "sg_violation_class quiet_signal = None"
  "sg_confidence quiet_signal = 0" "sg_severity quiet_signal = SevNone"
  by (simp_all add: quiet_signal_def)

lemma default_thresholds_pos:
  "0 < watching_threshold default_memory_config" "0 < elevated_threshold default_memory_config"
  "0 < escalated_threshold default_memory_config" "0 < locked_threshold default_memory_config"
  "0 \<le> velocity_trigger default_memory_config"
  by (simp_all add: default_memory_config_def f32_eval)

lemma quiet_keeps_idle:
  assumes "idle_memory n m"
  shows "idle_memory (n + 1) (fst (memory_step demo default_memory_config (quiet_signal, Benign)
    (m, w)))"
proof -
  obtain v m' w' where r: "ingest_signal demo default_memory_config quiet_signal Benign m w =
      (v, m', w')" by (metis prod_cases3)
  note st = ingest_state [of demo default_memory_config quiet_signal Benign m w]
  have w0: "weighted_signal default_memory_config quiet_signal Benign m1 = 0"
    if "sm_boundary_probes m1 = 0" "sm_extraction_attempts m1 = 0" for m1
    using that by (simp add: weighted_signal_def f32_mul_def default_memory_config_def Let_def)
  have threat: "sm_cumulative_threat m' = 0"
    using assms st(6) by (simp add: r accumulate_def amplify_def w0 record_turn_def
        count_pattern_def idle_memory_def f32_mul_def f32_add_def Let_def)
  have "sm_escalation_velocity m' = 0"
    using velocity_ingest [of demo default_memory_config quiet_signal Benign m w] assms threat
    by (simp add: r velocity_of_def w0 record_turn_def count_pattern_def idle_memory_def
        f32_div_def Let_def)
  then have "sm_memory_state m' = Clear"
    using st(2) assms threat default_thresholds_pos
    by (simp add: r compute_state_def idle_memory_def not_le not_less)
  moreover have "sm_turn_count m' = n + 1"
    using ingest_turns(1) [of demo default_memory_config quiet_signal Benign m w] assms
    by (simp add: r idle_memory_def)
  moreover have "sm_boundary_probes m' = 0 \<and> sm_extraction_attempts m' = 0"
    using assms r by (auto simp: ingest_signal_def Let_def idle_memory_def accumulate_def
        count_pattern_def record_turn_def note_escalation_def split: if_splits)
  ultimately show ?thesis using threat by (simp add: idle_memory_def memory_step_def r)
qed

definition two_quiet_turns :: "session_memory \<times> world" where
  "two_quiet_turns = session_after demo default_memory_config ''s1'' demo_world
     [(quiet_signal, Benign), (quiet_signal, Benign)]"

lemma two_quiet_turns_idle: "idle_memory 2 (fst two_quiet_turns)"
proof -
  let ?step = "memory_step demo default_memory_config (quiet_signal, Benign)"
  have quiet: "idle_memory (n + 1) (fst (?step mw))" if "idle_memory n (fst mw)" for n mw
    using quiet_keeps_idle [OF that, of "snd mw"] by simp
  have "idle_memory 0 (fst (session_memory_new demo demo_world ''s1''))"
    by (simp add: idle_memory_def session_memory_new_def)
  from quiet [OF quiet [OF this]] show ?thesis
    by (simp add: two_quiet_turns_def session_after_def)
qed

lemma exfil_threat_ge_10:
  assumes "idle_memory n m"
  shows "10 \<le> sm_cumulative_threat
    (fst (snd (ingest_signal X default_memory_config exfil_signal c m w)))"
proof -
  have "f32_add 0 10 \<le> f32_add t 10" if "0 \<le> t" for t
    using that by (intro f32_add_mono) simp_all
  then have "10 \<le> amplify (Some ''MODEL_EXFIL'') t" if "0 \<le> t" for t
    using that by (simp add: amplify_def violation_amplifier_def f32_add_def f32_round_small_int)
  then show ?thesis using assms
    by (simp add: ingest_state(6) accumulate_def idle_memory_def record_turn_def Let_def f32_nonneg
        weighted_nonneg default_config_ok)
qed

lemma velocity_masks_lock:
  "locked_threshold default_memory_config < 10 \<and>
   10 \<le> sm_cumulative_threat (fst (memory_step demo default_memory_config
     (exfil_signal, Benign) two_quiet_turns)) \<and>
   sm_memory_state (fst (memory_step demo default_memory_config
     (exfil_signal, Benign) two_quiet_turns)) = Elevated"
proof -
  obtain m w where mw: "two_quiet_turns = (m, w)" by (cases two_quiet_turns)
  obtain v m' w' where r: "ingest_signal demo default_memory_config exfil_signal Benign m w =
      (v, m', w')" by (metis prod_cases3)
  have idle: "idle_memory 2 m" using two_quiet_turns_idle by (simp add: mw)
  have ten: "10 \<le> sm_cumulative_threat m'"
    using exfil_threat_ge_10 [OF idle, of demo Benign w] by (simp add: r)
  have n: "sm_turn_count m' = 3"
    using ingest_turns(1) [of demo default_memory_config exfil_signal Benign m w] idle
    by (simp add: r idle_memory_def)
  have "f32_round 3 \<le> f32_round (sm_cumulative_threat m' / f32_round 3)"
    using ten by (intro f32_round_mono) (simp add: f32_round_small_int)
  then have "3 \<le> sm_escalation_velocity m'"
    using velocity_ingest [of demo default_memory_config exfil_signal Benign m w] n
    by (simp add: r velocity_of_def f32_div_def f32_of_nat_def f32_round_small_int
        word_less_nat_alt)
  moreover have "velocity_trigger default_memory_config \<le> 1"
    using f32_round_unit [of "3 / 20"] by (simp add: default_memory_config_def f32_lit_def)
  moreover have "sm_memory_state m = Clear" using idle by (simp add: idle_memory_def)
  ultimately have "sm_memory_state m' = Elevated"
    using ingest_state(2) [of demo default_memory_config exfil_signal Benign m w] n
    by (simp add: r compute_state_def word_le_nat_alt)
  with ten default_config_ok(2) show ?thesis by (simp add: mw memory_step_def r)
qed

section \<open>Strategic memory\<close>

type_synonym strategic_state = "strategic_memory \<times> string hashmap \<times> world"

definition strategic_step :: "externs \<Rightarrow> storage \<Rightarrow> string \<times> session_fingerprint \<Rightarrow>
    strategic_state \<Rightarrow> strategic_state" where
  "strategic_step X S x st = (case st of (M, files, w) \<Rightarrow>
     snd (ingest_session X S (fst x) (snd x) M files w))"

definition strategic_after :: "externs \<Rightarrow> storage \<Rightarrow> strategic_state \<Rightarrow>
    (string \<times> session_fingerprint) list \<Rightarrow> strategic_state" where
  "strategic_after X S st xs = fold (strategic_step X S) xs st"

definition profile_ok :: "actor_profile \<Rightarrow> bool" where
  "profile_ok p \<longleftrightarrow>
     recommendation (ap_strategic_threat_level p) =
       (ap_recommended_initial_state p, ap_recommended_threshold_modifier p) \<and>
     (ap_campaign_detected p \<longrightarrow> ap_strategic_threat_level p = Hostile)"

lemma evaluate_actor_ok: "profile_ok (evaluate_actor p)"
  by (simp add: profile_ok_def evaluate_actor_def Let_def split_def threat_level_of_def)

lemma evaluate_keeps_campaign:
  "ap_campaign_detected p \<Longrightarrow> ap_campaign_detected (evaluate_actor (add_session t f p))"
  by (simp add: evaluate_actor_def Let_def split_def detect_campaign_def add_session_def)

lemma ingest_session_actors:
  "hm_get (sta_actors (fst (snd (ingest_session X S a f M files w)))) b =
     (if b = a then Some (evaluate_actor (add_session (now X w) f
        (case hm_get (sta_actors M) a of None \<Rightarrow> fresh_profile a (now X w) | Some p \<Rightarrow> p)))
      else hm_get (sta_actors M) b)"
  by (simp add: ingest_session_def Let_def split_def)

definition hostile_profile :: "strategic_state \<Rightarrow> string \<Rightarrow> bool" where
  "hostile_profile st a \<longleftrightarrow> (\<exists>p. hm_get (sta_actors (fst st)) a = Some p \<and>
     ap_campaign_detected p \<and> profile_ok p)"

lemma strategic_step_hostile: "hostile_profile st a \<Longrightarrow> hostile_profile (strategic_step X S x st) a"
  by (cases st; cases x) (auto simp: hostile_profile_def strategic_step_def ingest_session_actors
      evaluate_actor_ok evaluate_keeps_campaign)

lemma strategic_run_hostile:
  "hostile_profile st a \<Longrightarrow> hostile_profile (strategic_after X S st xs) a"
  unfolding strategic_after_def
proof (induction xs arbitrary: st)
  case (Cons x xs)
  from Cons.IH [OF strategic_step_hostile [OF Cons.prems]] show ?case by simp
qed simp

lemma repeat_offence_detected:
  assumes "hm_get (sta_actors M) a = Some p" and "2 \<le> ap_total_sessions p"
    and "ap_total_sessions p < 2 ^ 31" and "1 \<le> ap_escalated_sessions p"
    and "ap_escalated_sessions p < 2 ^ 31" and "sf_escalated f"
    and "length (remdups (map sf_behavior_hash (take 4 (f # rev (ap_session_fingerprints p))))) \<le> 2"
  shows "hostile_profile (strategic_step X S (a, f) (M, files, w)) a"
proof -
  have "3 \<le> ap_total_sessions p + 1" "2 \<le> ap_escalated_sessions p + 1"
    using assms(2-5) by (simp_all add: word_le_nat_alt word_less_nat_alt unat_word_ariths)
  then have "ap_campaign_detected (evaluate_actor (add_session t f p))" for t
    using assms(6,7) by (simp add: evaluate_actor_def Let_def split_def detect_campaign_def
        add_session_def)
  then show ?thesis using assms(1)
    by (simp add: hostile_profile_def strategic_step_def ingest_session_actors evaluate_actor_ok)
qed

text \<open>
  Claim C36: an actor with at least two sessions on record, one of them escalated, whose next
  session escalates too with at most two distinct behaviour hashes among the last four, is
  treated as a campaign from then on: whatever sessions of whatever actors follow, every later
  session of the actor starts \<open>Escalated\<close> at 30 percent of the thresholds, with an advisory.
\<close>

theorem campaign_stays_hostile:
  assumes "hm_get (sta_actors M) a = Some p" and "2 \<le> ap_total_sessions p"
    and "ap_total_sessions p < 2 ^ 31" and "1 \<le> ap_escalated_sessions p"
    and "ap_escalated_sessions p < 2 ^ 31" and "sf_escalated f"
    and "length (remdups (map sf_behavior_hash (take 4 (f # rev (ap_session_fingerprints p))))) \<le> 2"
  shows "sa_initial_state (advise_session_start
      (fst (strategic_after X S (M, files, w) ((a, f) # xs))) a) = Escalated \<and>
    sa_threshold_modifier (advise_session_start
      (fst (strategic_after X S (M, files, w) ((a, f) # xs))) a) = f32_lit (30 / 100) \<and>
    sa_advisory (advise_session_start
      (fst (strategic_after X S (M, files, w) ((a, f) # xs))) a) \<noteq> None"
proof -
  let ?st = "strategic_after X S (M, files, w) ((a, f) # xs)"
  have "hostile_profile (strategic_step X S (a, f) (M, files, w)) a"
    using assms by (rule repeat_offence_detected)
  then have "hostile_profile ?st a"
    using strategic_run_hostile by (simp add: strategic_after_def)
  then obtain q where "hm_get (sta_actors (fst ?st)) a = Some q" "ap_campaign_detected q"
    "profile_ok q" by (auto simp: hostile_profile_def)
  then show ?thesis by (auto simp: advise_session_start_def advisory_of_def profile_ok_def)
qed

definition demo_storage :: storage where
  "demo_storage = \<lparr>fs_readable = (\<lambda>_. True), fs_mkdir_ok = (\<lambda>_. True), fs_write_ok = (\<lambda>_. True),
     fs_rename_ok = (\<lambda>_. True), fs_parent = (\<lambda>_. None), fs_json_tmp = (\<lambda>p. p @ ''.tmp''),
     fs_serialize = (\<lambda>m. if m = [] then Some ''{}'' else None),
     fs_parse = (\<lambda>s. if s = ''{}'' then Some [] else None)\<rparr>"

definition escalated_fp :: session_fingerprint where
  "escalated_fp = (to_fingerprint fresh_memory)\<lparr>sf_escalated := True\<rparr>"

definition demo_profile :: actor_profile where
  "demo_profile = add_session 2 escalated_fp (add_session 1 escalated_fp (fresh_profile ''eve'' 0))"

theorem campaign_stays_hostile_witness:
  "sa_initial_state (advise_session_start (fst (strategic_after demo demo_storage
     (\<lparr>sta_actors = [(''eve'', demo_profile)], sta_memory_path = None\<rparr>, [], demo_world)
     [(''eve'', escalated_fp), (''mallory'', to_fingerprint fresh_memory)])) ''eve'') = Escalated"
proof -
  let ?M = "\<lparr>sta_actors = [(''eve'', demo_profile)], sta_memory_path = None\<rparr>"
  have esc: "sf_escalated escalated_fp" by (simp add: escalated_fp_def)
  have "ap_total_sessions demo_profile = 2" "ap_escalated_sessions demo_profile = 2"
    "ap_session_fingerprints demo_profile = [escalated_fp, escalated_fp]"
    by (simp_all add: demo_profile_def add_session_def fresh_profile_def esc)
  then show ?thesis
    using campaign_stays_hostile [of ?M "''eve''" demo_profile escalated_fp demo demo_storage
        "[]" demo_world "[(''mallory'', to_fingerprint fresh_memory)]"]
    by (simp add: hm_get_def esc)
qed

text \<open>
  Claim C37: when \<open>ingest_session\<close> reports a durable write, a restart on the same path loads the
  very profiles the process held, the new session included; when it reports none, the snapshot a
  restart would load is the one from before (the temporary file never replaces it half-written).
\<close>

theorem persisted_survives_restart:
  assumes "\<forall>m s. fs_serialize S m = Some s \<longrightarrow> (\<exists>m'. fs_parse S s = Some m' \<and> hm_get m' = hm_get m)"
    and "sta_memory_path M = Some p" and "fs_json_tmp S p \<noteq> p" and "fs_readable S p"
    and "ingest_session X S a f M files w = (durable, M', files', w')"
  shows "if durable then get_actor_profile (with_path S files' (Some p)) = get_actor_profile M' \<and>
        total_sessions (with_path S files' (Some p)) a = total_sessions M a + 1
      else with_path S files' (Some p) = with_path S files (Some p)"
proof -
  have M': "sta_memory_path M' = Some p" and pers: "(durable, files') = persist S M' files"
    using assms(2,5) by (auto simp: ingest_session_def Let_def split: prod.splits)
  have "hm_get (sta_actors M') a = Some (evaluate_actor (add_session (now X w) f
      (case hm_get (sta_actors M) a of None \<Rightarrow> fresh_profile a (now X w) | Some p \<Rightarrow> p)))"
    using ingest_session_actors [of X S a f M files w a] by (simp add: assms(5))
  then have tot: "total_sessions M' a = total_sessions M a + 1"
    by (simp add: total_sessions_def evaluate_actor_def detect_campaign_def add_session_def Let_def
        split_def fresh_profile_def split: option.split)
  show ?thesis
  proof (cases durable)
    case True
    with pers obtain json where json: "fs_serialize S (sta_actors M') = Some json"
      "hm_get files' p = Some json"
      by (auto simp: persist_def M' Let_def split: option.splits if_splits)
    with assms(1) obtain m' where "fs_parse S json = Some m'" "hm_get m' = hm_get (sta_actors M')"
      by blast
    with json assms(4) tot show ?thesis
      by (simp add: True with_path_def get_actor_profile_def fun_eq_iff total_sessions_def)
  next
    case False
    with pers assms(3) have "hm_get files' p = hm_get files p"
      by (auto simp: persist_def M' Let_def split: option.splits if_splits)
    with False show ?thesis by (simp add: with_path_def)
  qed
qed

text \<open>A storage whose serialiser knows the actor map of one completed session.\<close>

definition one_session_actors :: "actor_profile hashmap" where
  "one_session_actors = [(''eve'', evaluate_actor (add_session (now demo demo_world) escalated_fp
     (fresh_profile ''eve'' (now demo demo_world))))]"

definition one_session_storage :: storage where
  "one_session_storage = demo_storage\<lparr>
     fs_serialize := (\<lambda>m. if m = one_session_actors then Some ''A'' else None),
     fs_parse := (\<lambda>s. if s = ''A'' then Some one_session_actors else None)\<rparr>"

theorem persisted_survives_restart_witness:
  "total_sessions (with_path one_session_storage (fst (snd (snd (ingest_session demo
     one_session_storage ''eve'' escalated_fp
     \<lparr>sta_actors = [], sta_memory_path = Some ''mem''\<rparr> [] demo_world)))) (Some ''mem'')) ''eve'' = 1"
proof -
  let ?M = "\<lparr>sta_actors = [], sta_memory_path = Some ''mem''\<rparr>"
  obtain d M' files' w' where r: "ingest_session demo one_session_storage ''eve'' escalated_fp ?M
      [] demo_world = (d, M', files', w')" by (metis prod_cases4)
  then have d: "d" by (simp add: ingest_session_def Let_def split_def persist_def hm_insert_def
      one_session_storage_def demo_storage_def one_session_actors_def parent_ready_def)
  have law: "\<forall>m s. fs_serialize one_session_storage m = Some s \<longrightarrow>
      (\<exists>m'. fs_parse one_session_storage s = Some m' \<and> hm_get m' = hm_get m)"
    by (simp add: one_session_storage_def split: if_splits)
  have tmp: "fs_json_tmp one_session_storage ''mem'' \<noteq> ''mem''"
    and read: "fs_readable one_session_storage ''mem''"
    by (simp_all add: one_session_storage_def demo_storage_def)
  show ?thesis
    using persisted_survives_restart [OF law _ tmp _ r] read d
    by (simp add: r total_sessions_def [of ?M])
qed

end
