(* ===== verification/OperatorReset.thy ===== *)
theory OperatorReset
  imports Externals
begin

text \<open>
  \<open>operator_reset.rs\<close>: the validated credential that authorises an operator reset.

  The facts: a configured authority holds at least 43 characters, is no placeholder, and verifies
  exactly the one credential it was configured with.
\<close>

definition min_operator_reset_token_length :: nat where
  "min_operator_reset_token_length = 43"

definition placeholder_markers :: "string list" where
  "placeholder_markers =
     [''PLACEHOLDER'', ''CHANGE_ME'', ''CHANGEME'', ''GENERATE_A_STRONG_RANDOM_TOKEN_HERE'']"

definition looks_like_placeholder :: "string \<Rightarrow> bool" where
  "looks_like_placeholder upper \<longleftrightarrow> contains_any upper placeholder_markers \<or>
     contains upper ''YOUR_'' \<and> contains upper ''_HERE''"

datatype reset_config_error = RcMissing | RcEmpty | RcTooShort | RcPlaceholder

fun show_reset_config_error :: "reset_config_error \<Rightarrow> string" where
  "show_reset_config_error RcMissing = ''SENTINEL_OPERATOR_RESET_TOKEN is not set''"
| "show_reset_config_error RcEmpty = ''SENTINEL_OPERATOR_RESET_TOKEN is empty or whitespace''"
| "show_reset_config_error RcTooShort = ''SENTINEL_OPERATOR_RESET_TOKEN must be at least '' @
     show_nat min_operator_reset_token_length @ '' characters''"
| "show_reset_config_error RcPlaceholder =
     ''SENTINEL_OPERATOR_RESET_TOKEN looks like an unfilled placeholder''"

record reset_authority =
  ra_token :: string

definition authority_from_config :: "externs \<Rightarrow> string option \<Rightarrow>
    reset_config_error + reset_authority" where
  "authority_from_config X raw = (case raw of
       None \<Rightarrow> Inl RcMissing
     | Some r \<Rightarrow>
         (let trimmed = trim r
          in if trimmed = [] then Inl RcEmpty
             else if length trimmed < min_operator_reset_token_length then Inl RcTooShort
             else if looks_like_placeholder (uppercase X trimmed) then Inl RcPlaceholder
             else Inr \<lparr>ra_token = trimmed\<rparr>))"

text \<open>\<open>ct_eq\<close> of two byte strings of one length is equality.\<close>

definition authority_verify :: "reset_authority \<Rightarrow> string \<Rightarrow> bool" where
  "authority_verify a submitted =
     (if length (ra_token a) \<noteq> length submitted then False
      else list_all2 (=) (ra_token a) submitted)"

lemma authority_verify_iff: "authority_verify a t \<longleftrightarrow> t = ra_token a"
  by (auto simp: authority_verify_def list.rel_eq)

lemma authority_from_config_Inr:
  "authority_from_config X raw = Inr a \<longleftrightarrow> (\<exists>r. raw = Some r \<and> ra_token a = trim r \<and>
     43 \<le> length (trim r) \<and> \<not> looks_like_placeholder (uppercase X (trim r)))"
  by (auto simp: authority_from_config_def min_operator_reset_token_length_def Let_def
      split: option.splits)

text \<open>A string of printing one-byte characters is its own trimmed form.\<close>

lemma uchars_plain: "\<forall>c \<in> set s. utf8_len c = 1 \<Longrightarrow> uchars s = map (\<lambda>c. [c]) s"
  by (induction s) simp_all

lemma dropWhile_none: "\<forall>x \<in> set xs. \<not> P x \<Longrightarrow> dropWhile P xs = xs"
  by (cases xs) simp_all

lemma trim_plain:
  assumes "\<forall>c \<in> set s. utf8_len c = 1 \<and> \<not> is_ws [c]"
  shows "trim s = s"
proof -
  have "uchars s = map (\<lambda>c. [c]) s" using assms by (intro uchars_plain) simp
  moreover have "concat (map (\<lambda>c. [c]) s) = s" by (induction s) simp_all
  ultimately show ?thesis using assms by (simp add: trim_def dropWhile_none)
qed

lemma hex_plain: "hex_char c \<Longrightarrow> utf8_len c = 1 \<and> \<not> is_ws [c]"
  by (auto simp: hex_char_def is_ascii_digit_def char_le_def str_eval byte_def)

lemma trim_hex: "list_all hex_char s \<Longrightarrow> trim s = s"
  using hex_plain by (intro trim_plain) (auto simp: list_all_iff)

lemma contains_set: "contains s p \<Longrightarrow> set p \<subseteq> set s"
  by (simp add: contains_sublist set_mono_sublist)

end
