(* ===== verification/Arbiter.thy ===== *)
theory Arbiter
  imports OperatorReset SessionMemory
begin

text \<open>
  \<open>arbiter.rs\<close> and the \<open>AuditEntry\<close> of \<open>crypto.rs\<close>: the per-session security state, its
  escalation by signals under thresholds and a modifier, the audit log, the operator reset.

  The theorems: only an authorised reset or the end of the conversation lowers a session's state;
  every change of state is audited, chained and signed; the log is append-only; a tighter modifier
  never yields a lower state; every outcome of a reset.
\<close>

section \<open>States and configuration\<close>

datatype security_state = S1 | S2 | S3 | S4

fun state_rank :: "security_state \<Rightarrow> nat" where
  "state_rank S1 = 0"
| "state_rank S2 = 1"
| "state_rank S3 = 2"
| "state_rank S4 = 3"

interpretation security: ranked state_rank
proof
  fix a b
  assume "state_rank a = state_rank b"
  then show "a = b" by (cases a; cases b) simp_all
qed

instantiation security_state :: linorder
begin

definition less_eq_security_state :: "security_state \<Rightarrow> security_state \<Rightarrow> bool" where
  "less_eq_security_state a b \<longleftrightarrow> state_rank a \<le> state_rank b"

definition less_security_state :: "security_state \<Rightarrow> security_state \<Rightarrow> bool" where
  "less_security_state a b \<longleftrightarrow> state_rank a < state_rank b"

instance
  by intro_classes (auto simp: less_eq_security_state_def less_security_state_def
      security.rank_eq_iff)

end

lemmas state_order = less_eq_security_state_def less_security_state_def

lemma S1_le [simp]: "S1 \<le> st" and le_S4 [simp]: "st \<le> S4"
  by (cases st; simp add: state_order)+

fun show_state :: "security_state \<Rightarrow> string" where
  "show_state S1 = ''S1_MONITOR''"
| "show_state S2 = ''S2_RESTRICT''"
| "show_state S3 = ''S3_QUARANTINE''"
| "show_state S4 = ''S4_HARDLOCK''"

datatype industry_profile = Medical | Finance | Development | Defense | Consumer

record arbiter_config =
  medium_threshold :: f32
  high_threshold :: f32
  critical_threshold :: f32
  lockdown_duration_secs :: u64
  profile_of :: industry_profile

definition default_arbiter_config :: arbiter_config where
  "default_arbiter_config = \<lparr>medium_threshold = f32_lit (70 / 100),
     high_threshold = f32_lit (80 / 100), critical_threshold = f32_lit (90 / 100),
     lockdown_duration_secs = 3600, profile_of = Consumer\<rparr>"

definition medical_config :: arbiter_config where
  "medical_config = \<lparr>medium_threshold = f32_lit (85 / 100),
     high_threshold = f32_lit (90 / 100), critical_threshold = f32_lit (95 / 100),
     lockdown_duration_secs = 1800, profile_of = Medical\<rparr>"

definition defense_config :: arbiter_config where
  "defense_config = \<lparr>medium_threshold = f32_lit (55 / 100),
     high_threshold = f32_lit (65 / 100), critical_threshold = f32_lit (75 / 100),
     lockdown_duration_secs = 7200, profile_of = Defense\<rparr>"

record session_state =
  ss_current :: security_state
  ss_locked_until :: "int option"

definition session_state_new :: session_state where
  "session_state_new = \<lparr>ss_current = S1, ss_locked_until = None\<rparr>"

record audit_entry =
  au_event_id :: string
  au_timestamp :: int
  au_session_id :: string
  au_source :: string
  au_direction :: string
  au_state_before :: string
  au_state_after :: string
  au_violation_class :: "string option"
  au_policy_rule_id :: "string option"
  au_severity :: string
  au_confidence :: f32
  au_constitutional_ref :: "string option"
  au_payload_hash :: string
  au_prev_chain_hash :: string
  au_current_chain_hash :: string
  au_signature :: string

text \<open>The shared \<open>CryptoEngine\<close> is the one of the \<open>world\<close>.\<close>

record arbiter =
  arb_config :: arbiter_config
  arb_sessions :: "session_state hashmap"
  arb_audit_log :: "audit_entry list"
  arb_authority :: "reset_authority option"

definition arbiter_new :: "arbiter_config \<Rightarrow> arbiter" where
  "arbiter_new cfg =
     \<lparr>arb_config = cfg, arb_sessions = [], arb_audit_log = [], arb_authority = None\<rparr>"

lemma arbiter_new_fields [simp]:
  "arb_config (arbiter_new cfg) = cfg" "arb_sessions (arbiter_new cfg) = []"
  "arb_audit_log (arbiter_new cfg) = []" "arb_authority (arbiter_new cfg) = None"
  by (simp_all add: arbiter_new_def)

text \<open>\<open>OnceCell::set\<close>: the first value stays.\<close>

definition configure_operator_reset_authority :: "reset_authority \<Rightarrow> arbiter \<Rightarrow>
    (string + unit) \<times> arbiter" where
  "configure_operator_reset_authority a A = (case arb_authority A of
       None \<Rightarrow> (Inr (), A\<lparr>arb_authority := Some a\<rparr>)
     | Some _ \<Rightarrow> (Inl ''Operator reset authority already configured'', A))"

fun memory_floor :: "memory_state \<Rightarrow> security_state option" where
  "memory_floor Clear = None"
| "memory_floor Watching = None"
| "memory_floor Elevated = Some S2"
| "memory_floor Escalated = Some S3"
| "memory_floor Locked = Some S4"

definition apply_memory_floor :: "memory_state \<Rightarrow> security_state \<Rightarrow> security_state" where
  "apply_memory_floor ms decided = (case memory_floor ms of
       Some f \<Rightarrow> if decided < f then f else decided
     | None \<Rightarrow> decided)"

lemma apply_memory_floor_ge: "decided \<le> apply_memory_floor ms decided"
  by (auto simp: apply_memory_floor_def split: option.split)

section \<open>Operations\<close>

definition current_state :: "arbiter \<Rightarrow> string \<Rightarrow> security_state" where
  "current_state A sid =
     (case hm_get (arb_sessions A) sid of None \<Rightarrow> S1 | Some ss \<Rightarrow> ss_current ss)"

text \<open>\<open>is_locked\<close> reads the clock only for a session with a lock.\<close>

definition is_locked :: "externs \<Rightarrow> arbiter \<Rightarrow> string \<Rightarrow> world \<Rightarrow> bool \<times> world" where
  "is_locked X A sid w =
     (case Option.bind (hm_get (arb_sessions A) sid) ss_locked_until of
        None \<Rightarrow> (False, w) | Some t \<Rightarrow> (now X w < t, tick w))"

definition audit_canonical :: "externs \<Rightarrow> string \<Rightarrow> security_state \<Rightarrow> security_state \<Rightarrow> signal \<Rightarrow>
    string" where
  "audit_canonical X sid from_st to_st s = join bar
     [sid, show_state from_st, show_state to_st, show_source (sg_source s),
      show_time X (sg_timestamp s)]"

definition write_audit_entry :: "externs \<Rightarrow> string \<Rightarrow> security_state \<Rightarrow> security_state \<Rightarrow> signal \<Rightarrow>
    arbiter \<times> world \<Rightarrow> arbiter \<times> world" where
  "write_audit_entry X sid from_st to_st s aw =
     (let (A, w) = aw;
          prev_hash = get_latest_hash (eng w);
          canonical = audit_canonical X sid from_st to_st s;
          w1 = with_eng (extend_chain X canonical) w;
          entry = \<lparr>au_event_id = uuid_display X (ids w1), au_timestamp = now X w1,
            au_session_id = sid, au_source = show_source (sg_source s),
            au_direction = show_direction (sg_direction s), au_state_before = show_state from_st,
            au_state_after = show_state to_st, au_violation_class = sg_violation_class s,
            au_policy_rule_id = sg_policy_rule_id s, au_severity = show_severity (sg_severity s),
            au_confidence = sg_confidence s, au_constitutional_ref = sg_constitutional_ref s,
            au_payload_hash = sg_payload_hash s, au_prev_chain_hash = prev_hash,
            au_current_chain_hash = get_latest_hash (eng w1),
            au_signature = engine_sign X (eng w1) canonical\<rparr>
      in (A\<lparr>arb_audit_log := arb_audit_log A @ [entry]\<rparr>, tick (draw_id w1)))"

text \<open>
  \<open>transition\<close>: the state is written through \<open>get_mut\<close>, so a session without an entry keeps none;
  the clock is read for the lock of a session that has one.
\<close>

definition set_state :: "externs \<Rightarrow> string \<Rightarrow> security_state \<Rightarrow> arbiter \<times> world \<Rightarrow>
    arbiter \<times> world" where
  "set_state X sid to_st aw =
     (let (A, w) = aw
      in case hm_get (arb_sessions A) sid of
           None \<Rightarrow> (A, w)
         | Some ss \<Rightarrow>
             if to_st = S4
             then (A\<lparr>arb_sessions := hm_insert sid \<lparr>ss_current = to_st, ss_locked_until =
                      Some (now X w + secs (sint (lockdown_duration_secs (arb_config A))))\<rparr>
                      (arb_sessions A)\<rparr>, tick w)
             else (A\<lparr>arb_sessions := hm_insert sid (ss\<lparr>ss_current := to_st\<rparr>)
                      (arb_sessions A)\<rparr>, w))"

definition transition :: "externs \<Rightarrow> string \<Rightarrow> security_state \<Rightarrow> security_state \<Rightarrow> signal \<Rightarrow>
    arbiter \<times> world \<Rightarrow> arbiter \<times> world" where
  "transition X sid from_st to_st s aw =
     (if to_st \<le> from_st then aw
      else write_audit_entry X sid from_st to_st s (set_state X sid to_st aw))"

text \<open>The target state under the thresholds \<open>med\<close>, \<open>high\<close> and \<open>crit\<close>.\<close>

definition threshold_step :: "f32 \<Rightarrow> f32 \<Rightarrow> f32 \<Rightarrow> security_state \<Rightarrow> signal \<Rightarrow> security_state" where
  "threshold_step med high crit current s = (case sg_severity s of
       SevNone \<Rightarrow> current
     | SevLow \<Rightarrow> current
     | SevMedium \<Rightarrow>
         if med \<le> sg_confidence s then (case current of S1 \<Rightarrow> S2 | other \<Rightarrow> other) else current
     | SevHigh \<Rightarrow>
         if high \<le> sg_confidence s
         then (case current of S1 \<Rightarrow> S3 | S2 \<Rightarrow> S3 | other \<Rightarrow> other)
         else if med \<le> sg_confidence s
         then (case current of S1 \<Rightarrow> S2 | other \<Rightarrow> other)
         else current
     | SevCritical \<Rightarrow>
         if crit \<le> sg_confidence s then S4
         else if high \<le> sg_confidence s
         then (case current of S1 \<Rightarrow> S3 | S2 \<Rightarrow> S3 | other \<Rightarrow> other)
         else current)"

definition determine_new_state :: "arbiter_config \<Rightarrow> security_state \<Rightarrow> signal \<Rightarrow>
    security_state" where
  "determine_new_state cfg current s =
     threshold_step (medium_threshold cfg) (high_threshold cfg) (critical_threshold cfg) current s"

definition init_session :: "string \<Rightarrow> arbiter \<Rightarrow> arbiter" where
  "init_session sid A = (case hm_get (arb_sessions A) sid of
       Some _ \<Rightarrow> A
     | None \<Rightarrow> A\<lparr>arb_sessions := hm_insert sid session_state_new (arb_sessions A)\<rparr>)"

definition expire_lock :: "externs \<Rightarrow> string \<Rightarrow> arbiter \<times> world \<Rightarrow> arbiter \<times> world" where
  "expire_lock X sid aw =
     (let (A, w) = aw
      in case hm_get (arb_sessions A) sid of
           None \<Rightarrow> (A, w)
         | Some ss \<Rightarrow> (case ss_locked_until ss of
               None \<Rightarrow> (A, w)
             | Some t \<Rightarrow>
                 if t \<le> now X w
                 then (A\<lparr>arb_sessions := hm_insert sid (ss\<lparr>ss_locked_until := None\<rparr>)
                          (arb_sessions A)\<rparr>, tick w)
                 else (A, tick w)))"

text \<open>
  The body \<open>process\<close> and \<open>process_with_modifier\<close> share, over the evaluation \<open>decide\<close> of a
  signal in a state.
\<close>

definition process_by :: "externs \<Rightarrow> (security_state \<Rightarrow> signal \<Rightarrow> security_state) \<Rightarrow> signal \<Rightarrow>
    arbiter \<times> world \<Rightarrow> security_state \<times> arbiter \<times> world" where
  "process_by X decide s aw =
     (let sid = sg_session_id s;
          (A1, w1) = expire_lock X sid (init_session sid (fst aw), snd aw)
      in if is_clean s then (current_state A1 sid, A1, w1)
         else let before = current_state A1 sid;
                  new_state = decide before s;
                  (A2, w2) = (if before < new_state
                    then transition X sid before new_state s (A1, w1) else (A1, w1))
              in (current_state A2 sid, A2, w2))"

definition arbiter_process :: "externs \<Rightarrow> signal \<Rightarrow> arbiter \<times> world \<Rightarrow>
    security_state \<times> arbiter \<times> world" where
  "arbiter_process X s aw = process_by X (determine_new_state (arb_config (fst aw))) s aw"

definition modified_step :: "f32 \<Rightarrow> arbiter_config \<Rightarrow> security_state \<Rightarrow> signal \<Rightarrow> security_state" where
  "modified_step md cfg =
     threshold_step (f32_mul (medium_threshold cfg) md) (f32_mul (high_threshold cfg) md)
       (f32_mul (critical_threshold cfg) md)"

definition process_with_modifier :: "externs \<Rightarrow> signal \<Rightarrow> f32 \<Rightarrow> arbiter \<times> world \<Rightarrow>
    security_state \<times> arbiter \<times> world" where
  "process_with_modifier X s md aw =
     (if md \<le> 0
      then if \<not> is_clean s
           then let sid = sg_session_id s;
                    before = current_state (fst aw) sid;
                    aw' = (if before < S4 then transition X sid before S4 s aw else aw)
                in (S4, aw')
           else (current_state (fst aw) (sg_session_id s), aw)
      else if \<bar>f32_sub md 1\<bar> < f32_lit (1 / 1000) then arbiter_process X s aw
      else process_by X (modified_step md (arb_config (fst aw))) s aw)"

definition forget_session :: "string \<Rightarrow> arbiter \<Rightarrow> arbiter" where
  "forget_session sid A = A\<lparr>arb_sessions := hm_remove sid (arb_sessions A)\<rparr>"

definition reset_signal :: "externs \<Rightarrow> string \<Rightarrow> string \<Rightarrow> string \<Rightarrow> world \<Rightarrow> signal \<times> world" where
  "reset_signal X sid violation rule w = builder_build X w
     (builder_constitutional_ref ''arbiter/operator_reset''
       (builder_payload_hash (compute_hash X ''sentinel/operator_reset'')
         (builder_severity SevNone 1 (builder_violation violation rule
           (builder_new SrcArbiter Inbound sid)))))"

definition write_reset_audit_entry :: "externs \<Rightarrow> string \<Rightarrow> string \<Rightarrow> string \<Rightarrow>
    arbiter \<times> world \<Rightarrow> arbiter \<times> world" where
  "write_reset_audit_entry X sid violation rule aw =
     (let st = current_state (fst aw) sid;
          target = (if violation = ''OPERATOR_RESET'' then S1 else st);
          (s, w1) = reset_signal X sid violation rule (snd aw)
      in write_audit_entry X sid st target s (fst aw, w1))"

definition operator_reset_session :: "externs \<Rightarrow> string \<Rightarrow> string \<Rightarrow> arbiter \<times> world \<Rightarrow>
    (string + unit) \<times> arbiter \<times> world" where
  "operator_reset_session X sid token aw = (case arb_authority (fst aw) of
       None \<Rightarrow> (Inl ''Operator reset authority not configured'', aw)
     | Some auth \<Rightarrow>
         if \<not> authority_verify auth token
         then (Inl ''Operator reset denied: invalid credential'',
               write_reset_audit_entry X sid ''OPERATOR_RESET_DENIED'' ''ARB-RESET-DENIED-001'' aw)
         else let (A, w) = write_reset_audit_entry X sid ''OPERATOR_RESET'' ''ARB-RESET-001'' aw
              in (Inr (), A\<lparr>arb_sessions :=
                    hm_modify sid (\<lambda>_. \<lparr>ss_current = S1, ss_locked_until = None\<rparr>)
                      (arb_sessions A)\<rparr>, w))"

definition export_audit_log :: "arbiter \<Rightarrow> audit_entry list" where
  "export_audit_log A = arb_audit_log A"

definition audit_entry_count :: "arbiter \<Rightarrow> nat" where
  "audit_entry_count A = length (arb_audit_log A)"

section \<open>Frames\<close>

lemma expire_lock_frame:
  "current_state (fst (expire_lock X sid aw)) t = current_state (fst aw) t"
  "arb_audit_log (fst (expire_lock X sid aw)) = arb_audit_log (fst aw)"
  "arb_authority (fst (expire_lock X sid aw)) = arb_authority (fst aw)"
  "arb_config (fst (expire_lock X sid aw)) = arb_config (fst aw)"
  "eng (snd (expire_lock X sid aw)) = eng (snd aw)"
  "hm_get (arb_sessions (fst aw)) sid \<noteq> None \<Longrightarrow>
     hm_get (arb_sessions (fst (expire_lock X sid aw))) sid \<noteq> None"
  by (auto simp: expire_lock_def current_state_def split: option.splits prod.splits)

lemma init_session_frame:
  "current_state (init_session sid A) t = current_state A t"
  "arb_audit_log (init_session sid A) = arb_audit_log A"
  "arb_authority (init_session sid A) = arb_authority A"
  "arb_config (init_session sid A) = arb_config A"
  "hm_get (arb_sessions (init_session sid A)) sid \<noteq> None"
  by (auto simp: init_session_def current_state_def session_state_new_def split: option.splits)

lemma set_state_frame:
  "current_state (fst (set_state X sid to_st aw)) t =
     (if t = sid \<and> hm_get (arb_sessions (fst aw)) sid \<noteq> None then to_st
      else current_state (fst aw) t)"
  "arb_audit_log (fst (set_state X sid to_st aw)) = arb_audit_log (fst aw)"
  "arb_authority (fst (set_state X sid to_st aw)) = arb_authority (fst aw)"
  "eng (snd (set_state X sid to_st aw)) = eng (snd aw)"
  by (auto simp: set_state_def current_state_def split: option.splits prod.splits)

lemma write_audit_frame:
  "arb_sessions (fst (write_audit_entry X sid a b s aw)) = arb_sessions (fst aw)"
  "arb_authority (fst (write_audit_entry X sid a b s aw)) = arb_authority (fst aw)"
  "current_state (fst (write_audit_entry X sid a b s aw)) t = current_state (fst aw) t"
  by (simp_all add: write_audit_entry_def Let_def current_state_def split: prod.splits)

lemmas arb_frames = expire_lock_frame init_session_frame set_state_frame write_audit_frame

text \<open>The entry an audited step appends, chained and signed under the engine \<open>e\<close>.\<close>

definition audits :: "externs \<Rightarrow> engine \<Rightarrow> string \<Rightarrow> security_state \<Rightarrow> security_state \<Rightarrow> signal \<Rightarrow>
    audit_entry \<Rightarrow> bool" where
  "audits X e sid a b s entry \<longleftrightarrow> au_session_id entry = sid \<and>
     au_state_before entry = show_state a \<and> au_state_after entry = show_state b \<and>
     au_violation_class entry = sg_violation_class s \<and>
     au_payload_hash entry = sg_payload_hash s \<and>
     au_prev_chain_hash entry = get_latest_hash e \<and>
     au_current_chain_hash entry =
       compute_hash X (au_prev_chain_hash entry @ audit_canonical X sid a b s) \<and>
     verify_ok X e (audit_canonical X sid a b s) (au_signature entry)"

lemma write_audit_appends:
  assumes "hex_laws X" "ed_laws X" "engine_ok X (eng (snd aw))"
  shows "\<exists>entry. arb_audit_log (fst (write_audit_entry X sid a b s aw)) =
      arb_audit_log (fst aw) @ [entry] \<and> audits X (eng (snd aw)) sid a b s entry"
  using sign_verifies [OF assms, of "audit_canonical X sid a b s"]
  by (simp add: write_audit_entry_def Let_def split_def audits_def get_latest_hash_def
      extend_chain_def last_or_default_def engine_sign_def)

lemma transition_state:
  "current_state (fst (transition X sid a b s aw)) t =
     (if a < b \<and> t = sid \<and> hm_get (arb_sessions (fst aw)) sid \<noteq> None then b
      else current_state (fst aw) t)"
  by (auto simp: transition_def arb_frames not_le)

lemma transition_authority [simp]:
  "arb_authority (fst (transition X sid a b s aw)) = arb_authority (fst aw)"
  by (simp add: transition_def arb_frames)

lemma transition_audits:
  assumes "hex_laws X" "ed_laws X" "engine_ok X (eng (snd aw))" "a < b"
  shows "\<exists>entry. arb_audit_log (fst (transition X sid a b s aw)) =
      arb_audit_log (fst aw) @ [entry] \<and> audits X (eng (snd aw)) sid a b s entry"
  using write_audit_appends [OF assms(1,2), of "set_state X sid b aw" sid a b s] assms(3,4)
  by (simp add: transition_def arb_frames not_le)

text \<open>What \<open>process_by\<close> computes, over the state before it.\<close>

definition decided :: "(security_state \<Rightarrow> signal \<Rightarrow> security_state) \<Rightarrow> security_state \<Rightarrow> signal \<Rightarrow>
    security_state" where
  "decided decide before s = (if is_clean s then before else max before (decide before s))"

lemma process_by_state:
  fixes s aw decide
  defines "sid \<equiv> sg_session_id s" and "A \<equiv> fst aw"
  shows "fst (process_by X decide s aw) = decided decide (current_state A sid) s"
    and "current_state (fst (snd (process_by X decide s aw))) t =
      (if t = sid then decided decide (current_state A sid) s else current_state A t)"
    and "arb_authority (fst (snd (process_by X decide s aw))) = arb_authority A"
  by (auto simp: process_by_def Let_def split_def decided_def transition_state arb_frames
      sid_def A_def max_def not_le)

lemma process_by_audit:
  fixes s aw decide
  defines "sid \<equiv> sg_session_id s" and "A \<equiv> fst aw"
  defines "st \<equiv> decided decide (current_state A sid) s"
  assumes "hex_laws X" "ed_laws X" "engine_ok X (eng (snd aw))"
  shows "if st = current_state A sid
      then arb_audit_log (fst (snd (process_by X decide s aw))) = arb_audit_log A
      else \<exists>e. arb_audit_log (fst (snd (process_by X decide s aw))) = arb_audit_log A @ [e] \<and>
        audits X (eng (snd aw)) sid (current_state A sid) st s e"
proof -
  let ?aw = "expire_lock X sid (init_session sid A, snd aw)"
  let ?new = "decide (current_state A sid) s"
  show ?thesis
  proof (cases "\<not> is_clean s \<and> current_state A sid < ?new")
    case True
    with transition_audits [OF assms(4,5), of ?aw "current_state A sid" ?new sid s] assms(6)
    show ?thesis
      by (auto simp: process_by_def Let_def split_def st_def decided_def max_def arb_frames
          sid_def A_def)
  next
    case False
    then show ?thesis
      by (auto simp: process_by_def Let_def split_def st_def decided_def max_def arb_frames
          sid_def A_def)
  qed
qed

text \<open>The evaluation \<open>process_with_modifier\<close> uses for a positive modifier.\<close>

definition effective_step :: "f32 \<Rightarrow> arbiter_config \<Rightarrow> security_state \<Rightarrow> signal \<Rightarrow>
    security_state" where
  "effective_step md cfg =
     (if \<bar>f32_sub md 1\<bar> < f32_lit (1 / 1000) then determine_new_state cfg else modified_step md cfg)"

lemma process_with_modifier_positive:
  "0 < md \<Longrightarrow> process_with_modifier X s md aw =
     process_by X (effective_step md (arb_config (fst aw))) s aw"
  by (simp add: process_with_modifier_def arbiter_process_def effective_step_def)

lemma process_with_modifier_zero:
  assumes "md \<le> 0"
  shows "process_with_modifier X s md aw =
    (if is_clean s then (current_state (fst aw) (sg_session_id s), aw)
     else (S4, transition X (sg_session_id s) (current_state (fst aw) (sg_session_id s)) S4 s aw))"
  using assms by (simp add: process_with_modifier_def Let_def transition_def not_less)

section \<open>Escalation is monotone\<close>

datatype arb_op = OpProcess signal | OpModified signal f32 | OpReset string string
  | OpForget string

fun arb_step :: "externs \<Rightarrow> arb_op \<Rightarrow> arbiter \<times> world \<Rightarrow> arbiter \<times> world" where
  "arb_step X (OpProcess s) aw = snd (arbiter_process X s aw)"
| "arb_step X (OpModified s md) aw = snd (process_with_modifier X s md aw)"
| "arb_step X (OpReset sid token) aw = snd (operator_reset_session X sid token aw)"
| "arb_step X (OpForget sid) aw = (forget_session sid (fst aw), snd aw)"

text \<open>The operations that may clear a session: its end, and a reset with the credential.\<close>

fun clears :: "reset_authority option \<Rightarrow> arb_op \<Rightarrow> string \<Rightarrow> bool" where
  "clears auth (OpReset sid token) t \<longleftrightarrow> sid = t \<and> (\<exists>a. auth = Some a \<and> token = ra_token a)"
| "clears auth (OpForget sid) t \<longleftrightarrow> sid = t"
| "clears auth _ t \<longleftrightarrow> False"

lemma write_reset_frame:
  "arb_sessions (fst (write_reset_audit_entry X sid v r aw)) = arb_sessions (fst aw)"
  "arb_authority (fst (write_reset_audit_entry X sid v r aw)) = arb_authority (fst aw)"
  "current_state (fst (write_reset_audit_entry X sid v r aw)) t = current_state (fst aw) t"
  by (simp_all add: write_reset_audit_entry_def Let_def split_def arb_frames)

lemma operator_reset_state:
  "current_state (fst (snd (operator_reset_session X sid token aw))) t =
     (if t = sid \<and> (\<exists>a. arb_authority (fst aw) = Some a \<and> token = ra_token a) then S1
      else current_state (fst aw) t)"
  by (auto simp: operator_reset_session_def Let_def split_def write_reset_frame
      authority_verify_iff current_state_def hm_get_modify split: option.splits)

lemma operator_reset_authority:
  "arb_authority (fst (snd (operator_reset_session X sid token aw))) = arb_authority (fst aw)"
  by (simp add: operator_reset_session_def Let_def split_def write_reset_frame split: option.split)

lemma arb_step_authority: "arb_authority (fst (arb_step X op aw)) = arb_authority (fst aw)"
proof (cases op)
  case (OpModified s md)
  then show ?thesis
    by (cases "md \<le> 0") (simp_all add: process_with_modifier_zero process_with_modifier_positive
        process_by_state)
qed (simp_all add: arbiter_process_def process_by_state operator_reset_authority
    forget_session_def)

lemma decided_ge: "before \<le> decided decide before s"
  by (simp add: decided_def)

lemma arb_step_monotone:
  assumes "\<not> clears (arb_authority (fst aw)) op sid"
  shows "current_state (fst aw) sid \<le> current_state (fst (arb_step X op aw)) sid"
proof (cases op)
  case (OpModified s md)
  then show ?thesis
    by (cases "md \<le> 0") (auto simp: process_with_modifier_zero process_with_modifier_positive
        process_by_state transition_state decided_ge)
next
  case (OpProcess s)
  then show ?thesis by (auto simp: arbiter_process_def process_by_state decided_ge)
next
  case (OpReset t token)
  with assms show ?thesis by (auto simp: operator_reset_state)
next
  case (OpForget t)
  with assms show ?thesis by (simp add: forget_session_def current_state_def)
qed

text \<open>
  Claim C1: over any sequence of signals (with any modifier), resets and session ends, the
  security state of a session never decreases unless the sequence ends that session or resets it
  with the configured operator credential: a clean signal, an expired lockdown, signals and
  resets of other sessions and resets with a wrong or unconfigured credential leave it at least
  as high.
\<close>

theorem escalation_is_monotone:
  assumes "\<forall>op \<in> set ops. \<not> clears (arb_authority (fst aw)) op sid"
  shows "current_state (fst aw) sid \<le> current_state (fst (fold (arb_step X) ops aw)) sid"
  using assms
proof (induction ops arbitrary: aw)
  case (Cons op ops)
  have "current_state (fst aw) sid \<le> current_state (fst (arb_step X op aw)) sid"
    using Cons.prems by (intro arb_step_monotone) simp
  also have "\<dots> \<le> current_state (fst (fold (arb_step X) ops (arb_step X op aw))) sid"
    using Cons.prems by (intro Cons.IH) (simp add: arb_step_authority)
  finally show ?case by simp
qed simp

definition demo_arbiter :: arbiter where
  "demo_arbiter = (arbiter_new default_arbiter_config)\<lparr>
     arb_sessions := [(''s1'', \<lparr>ss_current = S4, ss_locked_until = Some 0\<rparr>)],
     arb_authority := Some \<lparr>ra_token = ''the operator''\<rparr>\<rparr>"

theorem escalation_is_monotone_witness:
  "current_state (fst (fold (arb_step demo) [OpProcess quiet_signal, OpReset ''s1'' ''wrong'',
     OpForget ''s2''] (demo_arbiter, demo_world))) ''s1'' = S4"
proof -
  have "S4 \<le> current_state (fst (fold (arb_step demo) [OpProcess quiet_signal,
      OpReset ''s1'' ''wrong'', OpForget ''s2''] (demo_arbiter, demo_world))) ''s1''"
    using escalation_is_monotone [of "[OpProcess quiet_signal, OpReset ''s1'' ''wrong'',
      OpForget ''s2'']" "(demo_arbiter, demo_world)" "''s1''" demo]
    by (simp add: demo_arbiter_def current_state_def arbiter_new_def hm_get_def)
  then show ?thesis by (rule antisym [OF le_S4])
qed

section \<open>The audit log\<close>

lemma write_audit_extends:
  "prefix (arb_audit_log (fst aw)) (arb_audit_log (fst (write_audit_entry X sid a b s aw)))"
  by (simp add: write_audit_entry_def Let_def split_def)

lemma process_by_extends:
  "prefix (arb_audit_log (fst aw)) (arb_audit_log (fst (snd (process_by X decide s aw))))"
proof -
  have "prefix (arb_audit_log (fst aw)) (arb_audit_log (fst (transition X sid a b s
      (expire_lock X t (init_session t (fst aw), snd aw)))))" for sid a b t
    using write_audit_extends [of "set_state X sid b (expire_lock X t (init_session t (fst aw), snd aw))"]
    by (simp add: transition_def arb_frames)
  then show ?thesis by (simp add: process_by_def Let_def split_def arb_frames)
qed

lemma arb_step_extends:
  "prefix (arb_audit_log (fst aw)) (arb_audit_log (fst (arb_step X op aw)))"
proof (cases op)
  case (OpModified s md)
  have "prefix (arb_audit_log (fst aw)) (arb_audit_log (fst (transition X sid a S4 s aw)))" for sid a
    using write_audit_extends [of "set_state X sid S4 aw"] by (simp add: transition_def arb_frames)
  with OpModified show ?thesis
    by (cases "md \<le> 0") (simp_all add: process_with_modifier_zero
        process_with_modifier_positive process_by_extends)
next
  case (OpReset sid token)
  have "prefix (arb_audit_log (fst aw))
      (arb_audit_log (fst (write_reset_audit_entry X sid v r aw)))" for v r
    using write_audit_extends [of "(fst aw, snd (reset_signal X sid v r (snd aw)))"]
    by (simp add: write_reset_audit_entry_def Let_def split_def)
  with OpReset show ?thesis
    by (simp add: operator_reset_session_def Let_def split_def split: option.split)
qed (simp_all add: arbiter_process_def process_by_extends forget_session_def)

interpretation audit_log: append_only "\<lambda>aw. arb_audit_log (fst aw)" "arb_step X" for X
  by unfold_locales (rule arb_step_extends)

text \<open>
  No operation of the arbiter, an authorised reset and a forgotten session included,
  removes, reorders or alters an audit entry: the log before any sequence of operations is a
  prefix of the log after it.
\<close>

lemma audit_log_never_rewritten:
  "prefix (export_audit_log (fst aw)) (export_audit_log (fst (fold (arb_step X) ops aw)))"
  unfolding export_audit_log_def by (rule audit_log.run_extends)

lemma effective_cases:
  assumes "\<not> is_clean s \<or> 0 < md"
  shows "fst (process_with_modifier X s md aw) = (if md \<le> 0 then S4 else
    decided (effective_step md (arb_config (fst aw))) (current_state (fst aw) (sg_session_id s)) s)"
  using assms by (auto simp: process_with_modifier_zero process_with_modifier_positive
      process_by_state)

text \<open>
  The state the table holds after a signal is the answer, but for the one case of a modifier that is
  not positive and a session the table does not hold, which stays in \<open>S1\<close>. Other sessions keep theirs.
\<close>

lemma modified_stored_state:
  assumes "process_with_modifier X s md aw = (st, aw')"
  shows "current_state (fst aw') t =
    (if t \<noteq> sg_session_id s then current_state (fst aw) t
     else if md \<le> 0 \<and> hm_get (arb_sessions (fst aw)) t = None then S1 else st)"
proof (cases "md \<le> 0")
  case True
  have "current_state (fst aw) (sg_session_id s) = S4 \<or> current_state (fst aw) (sg_session_id s) < S4"
    by (metis le_S4 order_le_less)
  moreover have "current_state (fst aw) t = S1" if "hm_get (arb_sessions (fst aw)) t = None"
    using that by (simp add: current_state_def)
  ultimately show ?thesis
    using assms True by (auto simp: process_with_modifier_zero transition_state split: if_splits)
next
  case False
  then show ?thesis
    using assms process_by_state(1,2) [of X "effective_step md (arb_config (fst aw))" s aw]
    by (simp add: process_with_modifier_positive)
qed

text \<open>
  Claim C32: a signal processed with any modifier either leaves the answer at the state the session
  was in and the audit log alone, or answers a higher state and appends exactly one entry that names
  the session and both states, extends the engine's hash chain over its canonical form, and carries
  a signature that verifies under the engine's key. What the table then holds for the session is
  the state answered, except that a session the table does not know stays in \<open>S1\<close> when the modifier
  is not positive, although the answer may be \<open>S4\<close>; every other session keeps its state.
\<close>

theorem state_change_audited:
  assumes "hex_laws X" "ed_laws X" "engine_ok X (eng (snd aw))"
    and "process_with_modifier X s md aw = (st, aw')"
  shows "(st = current_state (fst aw) (sg_session_id s) \<and>
      export_audit_log (fst aw') = export_audit_log (fst aw) \<or>
    current_state (fst aw) (sg_session_id s) < st \<and>
      (\<exists>e. export_audit_log (fst aw') = export_audit_log (fst aw) @ [e] \<and>
        audits X (eng (snd aw)) (sg_session_id s) (current_state (fst aw) (sg_session_id s)) st s e)) \<and>
    (\<forall>t. current_state (fst aw') t =
       (if t \<noteq> sg_session_id s then current_state (fst aw) t
        else if md \<le> 0 \<and> hm_get (arb_sessions (fst aw)) t = None then S1 else st))"
proof (intro conjI allI modified_stored_state [OF assms(4)], cases "md \<le> 0")
  case True
  let ?before = "current_state (fst aw) (sg_session_id s)"
  show "st = ?before \<and> export_audit_log (fst aw') = export_audit_log (fst aw) \<or>
    ?before < st \<and> (\<exists>e. export_audit_log (fst aw') = export_audit_log (fst aw) @ [e] \<and>
      audits X (eng (snd aw)) (sg_session_id s) ?before st s e)"
  proof (cases "is_clean s \<or> ?before = S4")
    case True
    with \<open>md \<le> 0\<close> assms(4) show ?thesis
      by (auto simp: process_with_modifier_zero export_audit_log_def transition_def split: if_splits)
  next
    case False
    then have "?before < S4" by (metis le_S4 order_le_less)
    with transition_audits [OF assms(1-3) this] False \<open>md \<le> 0\<close> assms(4) show ?thesis
      by (auto simp: process_with_modifier_zero export_audit_log_def)
  qed
next
  case False
  let ?decide = "effective_step md (arb_config (fst aw))"
  let ?before = "current_state (fst aw) (sg_session_id s)"
  have r: "process_by X ?decide s aw = (st, aw')"
    using assms(4) False by (simp add: process_with_modifier_positive)
  then have "st = decided ?decide ?before s" using process_by_state(1) by (metis fst_conv)
  moreover have "?before \<le> decided ?decide ?before s" by (rule decided_ge)
  ultimately show "st = ?before \<and> export_audit_log (fst aw') = export_audit_log (fst aw) \<or>
    ?before < st \<and> (\<exists>e. export_audit_log (fst aw') = export_audit_log (fst aw) @ [e] \<and>
      audits X (eng (snd aw)) (sg_session_id s) ?before st s e)"
    using process_by_audit [OF assms(1-3), of ?decide s] r
    by (auto simp: export_audit_log_def order_le_less split: if_splits)
qed

text \<open>
  At a modifier of 1 the exfiltration signal raises the stored state of its session to \<open>S4\<close>; at a
  modifier of 0 it is answered and audited alike, and an unknown session stays in \<open>S1\<close>.
\<close>

theorem state_change_audited_witness:
  "let raised = (\<lambda>md stored. \<exists>e aw'. process_with_modifier demo exfil_signal md
        (arbiter_new default_arbiter_config, demo_world) = (S4, aw') \<and>
      export_audit_log (fst aw') = [e] \<and> audits demo (eng demo_world) ''s1'' S1 S4 exfil_signal e \<and>
      current_state (fst aw') ''s1'' = stored) in
    raised 1 S4 \<and> raised 0 S1"
proof -
  let ?aw = "(arbiter_new default_arbiter_config, demo_world)"
  have s: "\<not> is_clean exfil_signal" "sg_session_id exfil_signal = ''s1''"
    by (simp_all add: is_clean_def exfil_signal_def)
  have e: "engine_ok demo (eng (snd ?aw))" using demo_engine_ok by simp
  have raised: "\<exists>e aw'. process_with_modifier demo exfil_signal md ?aw = (S4, aw') \<and>
      export_audit_log (fst aw') = [e] \<and> audits demo (eng demo_world) ''s1'' S1 S4 exfil_signal e \<and>
      current_state (fst aw') ''s1'' = (if md = 0 then S1 else S4)" if md: "md \<in> {0, 1}" for md
  proof -
    obtain st aw' where r: "process_with_modifier demo exfil_signal md ?aw = (st, aw')"
      by (metis surj_pair)
    have "fst (process_with_modifier demo exfil_signal md ?aw) = S4"
      using md by (elim insertE emptyE) (simp_all add: process_with_modifier_zero s
          process_with_modifier_positive process_by_state(1) effective_step_def decided_def
          determine_new_state_def threshold_step_def exfil_signal_def default_arbiter_config_def
          is_clean_def current_state_def f32_eval)
    with r have st: "st = S4" by simp
    note t = state_change_audited [OF demo_laws(1,3) e r]
    show ?thesis using t r st md by (auto simp: s current_state_def export_audit_log_def)
  qed
  show ?thesis unfolding Let_def using raised [of 1] raised [of 0] by simp
qed

text \<open>
  The signed canonical form leaves out everything of the signal but its source and time: two
  findings that differ in class, rule, severity, confidence and payload hash get the same
  signature and chain hash.
\<close>

lemma audit_signature_ignores_finding:
  "audit_canonical X sid a b (s\<lparr>sg_violation_class := v, sg_policy_rule_id := r,
     sg_severity := sev, sg_confidence := conf, sg_payload_hash := h\<rparr>) = audit_canonical X sid a b s"
  by (simp add: audit_canonical_def)

section \<open>A modifier that is not positive\<close>

text \<open>
  With a modifier of zero or less, every signal that is not clean is answered \<open>S4\<close>,
  but the lock is recorded in the session table only for a session the table already holds: for
  an unknown session the recorded state stays \<open>S1\<close> although the answer was \<open>S4\<close>.
\<close>

lemma zero_modifier_answers_lock:
  assumes "md \<le> 0" and "\<not> is_clean s"
    and "process_with_modifier X s md aw = (st, aw')"
  shows "st = S4 \<and> current_state (fst aw') (sg_session_id s) =
    (if hm_get (arb_sessions (fst aw)) (sg_session_id s) = None then S1 else S4)"
proof -
  let ?sid = "sg_session_id s"
  have r: "st = S4" "aw' = transition X ?sid (current_state (fst aw) ?sid) S4 s aw"
    using assms by (simp_all add: process_with_modifier_zero)
  moreover have "current_state (fst aw) ?sid = S4 \<or> current_state (fst aw) ?sid < S4"
    by (metis le_S4 order_le_less)
  moreover have "current_state (fst aw) ?sid = S1" if "hm_get (arb_sessions (fst aw)) ?sid = None"
    using that by (simp add: current_state_def)
  ultimately show ?thesis by (auto simp: transition_state)
qed

theorem zero_modifier_answers_lock_witness:
  "fst (process_with_modifier demo exfil_signal 0 (arbiter_new default_arbiter_config, demo_world))
     = S4 \<and>
   current_state (fst (snd (process_with_modifier demo exfil_signal 0
     (arbiter_new default_arbiter_config, demo_world)))) (sg_session_id exfil_signal) = S1"
proof -
  obtain st aw' where r: "process_with_modifier demo exfil_signal 0
      (arbiter_new default_arbiter_config, demo_world) = (st, aw')" by (metis surj_pair)
  show ?thesis using zero_modifier_answers_lock [OF _ _ r] r
    by (simp add: is_clean_def)
qed

section \<open>Operator resets\<close>

lemma write_reset_audits:
  assumes "hex_laws X" "ed_laws X" "engine_ok X (eng (snd aw))"
  shows "\<exists>e. arb_audit_log (fst (write_reset_audit_entry X sid v r aw)) =
      arb_audit_log (fst aw) @ [e] \<and> au_violation_class e = Some v \<and> au_session_id e = sid \<and>
      au_state_before e = show_state (current_state (fst aw) sid)"
proof -
  let ?s = "fst (reset_signal X sid v r (snd aw))" and ?w = "snd (reset_signal X sid v r (snd aw))"
  have e: "eng ?w = eng (snd aw)" and v: "sg_violation_class ?s = Some v"
    by (simp_all add: reset_signal_def builder_defs)
  let ?b = "current_state (fst aw) sid"
  from write_audit_appends [OF assms(1,2), of "(fst aw, ?w)" sid ?b
      "if v = ''OPERATOR_RESET'' then S1 else ?b" ?s] assms(3)
  show ?thesis by (auto simp: write_reset_audit_entry_def Let_def split_def audits_def e v)
qed

text \<open>
  Claim C33: every outcome of an operator reset. Without a configured authority it fails and
  changes nothing; with a credential other than the configured token it fails, records one
  \<open>OPERATOR_RESET_DENIED\<close> entry and leaves every session as it was; with the token it succeeds,
  records one \<open>OPERATOR_RESET\<close> entry with the state before, and sets that session, and only that,
  back to \<open>S1\<close> without a lock. The token has at least 43 characters.
\<close>

theorem operator_reset_outcomes:
  assumes "hex_laws X" "ed_laws X" "engine_ok X (eng (snd aw))"
    and "operator_reset_session X sid token aw = (r, aw')"
    and "\<forall>a. arb_authority (fst aw) = Some a \<longrightarrow> (\<exists>raw. authority_from_config X raw = Inr a)"
  shows "case arb_authority (fst aw) of
      None \<Rightarrow> \<not> is_ok r \<and> aw' = aw
    | Some a \<Rightarrow> (\<exists>e. export_audit_log (fst aw') = export_audit_log (fst aw) @ [e] \<and>
          au_session_id e = sid \<and> au_state_before e = show_state (current_state (fst aw) sid) \<and>
          au_violation_class e = Some (if is_ok r then ''OPERATOR_RESET'' else ''OPERATOR_RESET_DENIED'')) \<and>
        is_ok r = (token = ra_token a) \<and> (is_ok r \<longrightarrow> 43 \<le> length token) \<and>
        (\<forall>t. current_state (fst aw') t =
          (if t = sid \<and> is_ok r then S1 else current_state (fst aw) t)) \<and>
        (is_ok r \<longrightarrow> \<not> fst (is_locked X (fst aw') sid w))"
proof (cases "arb_authority (fst aw)")
  case None
  with assms(4) show ?thesis by (auto simp: operator_reset_session_def)
next
  case (Some a)
  have st: "current_state (fst aw') t = (if t = sid \<and> token = ra_token a then S1
      else current_state (fst aw) t)" for t
    using operator_reset_state [of X sid token aw t] by (simp add: assms(4) Some)
  have ok: "is_ok r \<longleftrightarrow> token = ra_token a"
    using assms(4) Some by (auto simp: operator_reset_session_def authority_verify_iff split_def Let_def
        split: if_splits)
  have log: "arb_audit_log (fst aw') = arb_audit_log (fst (write_reset_audit_entry X sid
      (if is_ok r then ''OPERATOR_RESET'' else ''OPERATOR_RESET_DENIED'')
      (if is_ok r then ''ARB-RESET-001'' else ''ARB-RESET-DENIED-001'') aw))"
    using assms(4) Some
    by (auto simp: operator_reset_session_def split_def Let_def split: if_splits)
  have unlocked: "\<not> fst (is_locked X (fst aw') sid w)" if "is_ok r"
    using assms(4) Some that
    by (cases "hm_get (arb_sessions (fst aw)) sid") (auto simp: operator_reset_session_def
        is_locked_def split_def Let_def hm_get_modify write_reset_frame split: if_splits)
  have "43 \<le> length (ra_token a)" using assms(5) Some by (auto simp: authority_from_config_Inr)
  moreover obtain e where "arb_audit_log (fst aw') = arb_audit_log (fst aw) @ [e]"
    "au_violation_class e = Some (if is_ok r then ''OPERATOR_RESET'' else ''OPERATOR_RESET_DENIED'')"
    "au_session_id e = sid" "au_state_before e = show_state (current_state (fst aw) sid)"
    using write_reset_audits [OF assms(1-3)] unfolding log by blast
  ultimately show ?thesis using st ok unlocked
    by (auto simp: Some export_audit_log_def)
qed

definition strong_token :: string where
  "strong_token = replicate 43 CHR ''k''"

definition reset_arbiter :: arbiter where
  "reset_arbiter = demo_arbiter\<lparr>arb_authority := Some \<lparr>ra_token = strong_token\<rparr>\<rparr>"

lemma strong_token_valid:
  "authority_from_config demo (Some strong_token) = Inr \<lparr>ra_token = strong_token\<rparr>"
proof -
  have set: "set strong_token = {CHR ''k''}" and len: "length strong_token = 43"
    by (simp_all add: strong_token_def)
  have "trim strong_token = strong_token" by (rule trim_plain) (simp add: set str_eval)
  moreover have "\<not> looks_like_placeholder strong_token"
    by (auto simp: looks_like_placeholder_def placeholder_markers_def set dest!: contains_set)
  moreover have "uppercase demo = (\<lambda>s. s)" by (simp add: demo_def)
  ultimately show ?thesis by (simp add: authority_from_config_Inr len)
qed

theorem operator_reset_outcomes_witness:
  "current_state (fst (snd (operator_reset_session demo ''s1'' strong_token
     (reset_arbiter, demo_world)))) ''s1'' = S1"
proof -
  obtain r aw' where r: "operator_reset_session demo ''s1'' strong_token
      (reset_arbiter, demo_world) = (r, aw')" by (metis surj_pair)
  have a: "arb_authority reset_arbiter = Some \<lparr>ra_token = strong_token\<rparr>"
    by (simp add: reset_arbiter_def)
  with strong_token_valid have "\<forall>a. arb_authority (fst (reset_arbiter, demo_world)) = Some a \<longrightarrow>
      (\<exists>raw. authority_from_config demo raw = Inr a)" by auto
  from operator_reset_outcomes [OF demo_laws(1,3) _ r this] show ?thesis
    using demo_engine_ok by (auto simp: r a)
qed

section \<open>Tighter modifiers\<close>

lemma threshold_step_antitone:
  assumes "m' \<le> m" "h' \<le> h" "c' \<le> c"
  shows "threshold_step m h c st s \<le> threshold_step m' h' c' st s"
  using assms by (cases "sg_severity s"; cases st) (auto simp: threshold_step_def state_order)

lemma decided_mono:
  "d st s \<le> d' st s \<Longrightarrow> decided d st s \<le> decided d' st s"
  by (auto simp: decided_def max_def)

definition config_ok :: "arbiter_config \<Rightarrow> bool" where
  "config_ok cfg \<longleftrightarrow> (\<forall>c \<in> {medium_threshold cfg, high_threshold cfg, critical_threshold cfg}.
     0 \<le> c \<and> f32_round c = c)"

definition effective_threshold :: "f32 \<Rightarrow> f32 \<Rightarrow> f32" where
  "effective_threshold md c = (if \<bar>f32_sub md 1\<bar> < f32_lit (1 / 1000) then c else f32_mul c md)"

lemma effective_step_eq:
  "effective_step md cfg = threshold_step (effective_threshold md (medium_threshold cfg))
     (effective_threshold md (high_threshold cfg)) (effective_threshold md (critical_threshold cfg))"
  by (auto simp: effective_step_def effective_threshold_def determine_new_state_def modified_step_def
      fun_eq_iff)

lemma near_one_between:
  assumes "m1 \<le> m2" "m2 \<le> 1 \<and> m \<in> {m1, m2} \<or> 1 \<le> m1 \<and> m \<in> {m1, m2}"
  shows "m2 \<le> 1 \<Longrightarrow> \<bar>f32_sub m2 1\<bar> \<le> \<bar>f32_sub m1 1\<bar>"
    and "1 \<le> m1 \<Longrightarrow> \<bar>f32_sub m1 1\<bar> \<le> \<bar>f32_sub m2 1\<bar>"
proof -
  have mono: "f32_sub m1 1 \<le> f32_sub m2 1" using assms(1) by (simp add: f32_sub_def f32_round_mono)
  { assume "m2 \<le> 1"
    then have "f32_sub m2 1 \<le> 0" by (simp add: f32_sub_def f32_round_nonpos)
    with mono show "\<bar>f32_sub m2 1\<bar> \<le> \<bar>f32_sub m1 1\<bar>" by simp }
  { assume "1 \<le> m1"
    then have "0 \<le> f32_sub m1 1" by (simp add: f32_sub_def f32_round_nonneg)
    with mono show "\<bar>f32_sub m1 1\<bar> \<le> \<bar>f32_sub m2 1\<bar>" by simp }
qed

lemma effective_threshold_mono:
  assumes "m1 \<le> m2" "0 \<le> c" "f32_round c = c"
  shows "effective_threshold m1 c \<le> effective_threshold m2 c"
proof -
  let ?near = "\<lambda>m. \<bar>f32_sub m 1\<bar> < f32_lit (1 / 1000)"
  have low: "f32_mul c m1 \<le> c" if "m1 \<le> 1"
    using f32_mul_mono [OF assms(2) that] assms(3) by simp
  have high: "c \<le> f32_mul c m2" if "1 \<le> m2"
    using f32_mul_mono [OF assms(2) that] assms(3) by simp
  have "1 \<le> m2" if "?near m1" "\<not> ?near m2"
    using near_one_between(1) [OF assms(1), of m1] that by fastforce
  moreover have "m1 \<le> 1" if "\<not> ?near m1" "?near m2"
    using near_one_between(2) [OF assms(1), of m1] that by fastforce
  moreover have "f32_mul c m1 \<le> f32_mul c m2" using assms(1,2) by (simp add: f32_mul_mono)
  ultimately show ?thesis using low high by (auto simp: effective_threshold_def)
qed

text \<open>
  Claim C34: a smaller modifier is never more lenient. For thresholds that are nonnegative \<open>f32\<close>
  values, the answer to a signal under a modifier is at least the answer under any larger one,
  across all three paths of the code: the lock at zero, the unscaled path near 1, the scaled one.
\<close>

theorem tighter_modifier_never_lowers:
  assumes "config_ok (arb_config (fst aw))" and "m1 \<le> m2"
  shows "fst (process_with_modifier X s m2 aw) \<le> fst (process_with_modifier X s m1 aw)"
proof (cases "is_clean s \<or> m1 \<le> 0")
  case True
  then show ?thesis
    by (cases "m1 \<le> 0"; cases "m2 \<le> 0") (auto simp: process_with_modifier_zero
        process_with_modifier_positive process_by_state decided_def)
next
  case False
  have mono: "effective_threshold m1 c \<le> effective_threshold m2 c"
    if "c \<in> {medium_threshold (arb_config (fst aw)), high_threshold (arb_config (fst aw)),
      critical_threshold (arb_config (fst aw))}" for c
    using assms that by (intro effective_threshold_mono) (auto simp: config_ok_def)
  then have "effective_step m2 (arb_config (fst aw)) st s \<le>
      effective_step m1 (arb_config (fst aw)) st s" for st
    unfolding effective_step_eq by (intro threshold_step_antitone) simp_all
  then show ?thesis using False assms(2)
    by (simp add: process_with_modifier_positive process_by_state decided_mono)
qed

lemma default_arbiter_config_ok: "config_ok default_arbiter_config"
  by (simp add: config_ok_def default_arbiter_config_def f32_eval)

theorem tighter_modifier_never_lowers_witness:
  "fst (process_with_modifier demo exfil_signal (modifier_of Watching)
      (arbiter_new default_arbiter_config, demo_world))
   \<le> fst (process_with_modifier demo exfil_signal (modifier_of Locked)
      (arbiter_new default_arbiter_config, demo_world))"
proof (rule tighter_modifier_never_lowers)
  show "config_ok (arb_config (fst (arbiter_new default_arbiter_config, demo_world)))"
    by (simp add: default_arbiter_config_ok)
  show "modifier_of Locked \<le> modifier_of Watching" by (simp add: f32_lit_def f32_round_nonneg)
qed

end
