(* ===== verification/Haap.thy ===== *)
theory Haap
  imports Signal
begin

text \<open>
  \<open>haap.rs\<close>: agency levels, intent tokens and their builder, and the gate that authorises an
  action, halts it for a human, or blocks it.

  The theorems: exactly when the gate lets an action through; a token of \<open>n\<close> uses is accepted at
  most \<open>n\<close> times while it is not registered again; a built and registered token is accepted for
  its session up to its ceiling.
\<close>

section \<open>Agency levels\<close>

datatype agency_level = Analyze | DraftActions | ModifyConfig | ExecuteActions | FinancialOps
  | RootAuthority

fun agency_rank :: "agency_level \<Rightarrow> nat" where
  "agency_rank Analyze = 0"
| "agency_rank DraftActions = 1"
| "agency_rank ModifyConfig = 2"
| "agency_rank ExecuteActions = 3"
| "agency_rank FinancialOps = 4"
| "agency_rank RootAuthority = 5"

interpretation agency: ranked agency_rank
proof
  fix a b
  assume "agency_rank a = agency_rank b"
  then show "a = b" by (cases a; cases b) simp_all
qed

instantiation agency_level :: linorder
begin

definition less_eq_agency_level :: "agency_level \<Rightarrow> agency_level \<Rightarrow> bool" where
  "less_eq_agency_level a b \<longleftrightarrow> agency_rank a \<le> agency_rank b"

definition less_agency_level :: "agency_level \<Rightarrow> agency_level \<Rightarrow> bool" where
  "less_agency_level a b \<longleftrightarrow> agency_rank a < agency_rank b"

instance
  by intro_classes (auto simp: less_eq_agency_level_def less_agency_level_def
      agency.rank_eq_iff)

end

fun gate_threshold :: "agency_level \<Rightarrow> u8 option" where
  "gate_threshold Analyze = None"
| "gate_threshold DraftActions = None"
| "gate_threshold ModifyConfig = Some 40"
| "gate_threshold ExecuteActions = Some 60"
| "gate_threshold FinancialOps = Some 0"
| "gate_threshold RootAuthority = Some 0"

definition requires_dual_signoff :: "agency_level \<Rightarrow> bool" where
  "requires_dual_signoff a \<longleftrightarrow> a = RootAuthority"

fun show_agency :: "agency_level \<Rightarrow> string" where
  "show_agency Analyze = ''ANALYZE''"
| "show_agency DraftActions = ''DRAFT_ACTIONS''"
| "show_agency ModifyConfig = ''MODIFY_CONFIG''"
| "show_agency ExecuteActions = ''EXECUTE_ACTIONS''"
| "show_agency FinancialOps = ''FINANCIAL_OPS''"
| "show_agency RootAuthority = ''ROOT_AUTHORITY''"

section \<open>Intent tokens\<close>

record intent_token =
  it_token_id :: string
  it_issued_by :: string
  it_session_id :: string
  it_agency_ceiling :: agency_level
  it_permitted_actions :: "string list"
  it_forbidden_actions :: "string list"
  it_expires_at :: int
  it_max_uses :: "u32 option"
  it_signature :: string
  it_use_count :: u32

definition it_canonical :: "intent_token \<Rightarrow> string" where
  "it_canonical t = join bar
     [it_token_id t, it_issued_by t, it_session_id t, show_agency (it_agency_ceiling t),
      show_int (timestamp (it_expires_at t)), join '','' (it_permitted_actions t)]"

text \<open>\<open>is_expired\<close> against one reading \<open>t0\<close> of the clock.\<close>

definition is_expired :: "int \<Rightarrow> intent_token \<Rightarrow> bool" where
  "is_expired t0 t \<longleftrightarrow> it_expires_at t < t0"

definition is_exhausted :: "intent_token \<Rightarrow> bool" where
  "is_exhausted t = (case it_max_uses t of None \<Rightarrow> False | Some m \<Rightarrow> m \<le> it_use_count t)"

definition is_valid :: "int \<Rightarrow> intent_token \<Rightarrow> bool" where
  "is_valid t0 t \<longleftrightarrow> \<not> is_expired t0 t \<and> \<not> is_exhausted t"

text \<open>The signed form leaves out the use limit, the use count and the forbidden actions.\<close>

lemma it_canonical_ignores_limits:
  "it_canonical (t\<lparr>it_max_uses := m, it_use_count := n, it_forbidden_actions := f\<rparr>) = it_canonical t"
  by (simp add: it_canonical_def)

record intent_token_builder =
  ib_issued_by :: string
  ib_session_id :: string
  ib_agency_ceiling :: agency_level
  ib_permitted_actions :: "string list"
  ib_forbidden_actions :: "string list"
  ib_duration_secs :: u64
  ib_max_uses :: "u32 option"

definition token_builder_new :: "string \<Rightarrow> string \<Rightarrow> intent_token_builder" where
  "token_builder_new issued_by session_id =
     \<lparr>ib_issued_by = issued_by, ib_session_id = session_id, ib_agency_ceiling = ExecuteActions,
      ib_permitted_actions = [], ib_forbidden_actions = [], ib_duration_secs = 14400,
      ib_max_uses = None\<rparr>"

definition token_agency :: "agency_level \<Rightarrow> intent_token_builder \<Rightarrow> intent_token_builder" where
  "token_agency l b = b\<lparr>ib_agency_ceiling := l\<rparr>"

definition token_permit :: "string \<Rightarrow> intent_token_builder \<Rightarrow> intent_token_builder" where
  "token_permit a b = b\<lparr>ib_permitted_actions := ib_permitted_actions b @ [a]\<rparr>"

definition token_forbid :: "string \<Rightarrow> intent_token_builder \<Rightarrow> intent_token_builder" where
  "token_forbid a b = b\<lparr>ib_forbidden_actions := ib_forbidden_actions b @ [a]\<rparr>"

definition token_expires_in :: "u64 \<Rightarrow> intent_token_builder \<Rightarrow> intent_token_builder" where
  "token_expires_in s b = b\<lparr>ib_duration_secs := s\<rparr>"

definition token_max_uses :: "u32 \<Rightarrow> intent_token_builder \<Rightarrow> intent_token_builder" where
  "token_max_uses n b = b\<lparr>ib_max_uses := Some n\<rparr>"

definition token_build :: "externs \<Rightarrow> intent_token_builder \<Rightarrow> world \<Rightarrow> intent_token \<times> world" where
  "token_build X b w =
     (let t = \<lparr>it_token_id = ''IT-'' @ uuid_simple X (ids w), it_issued_by = ib_issued_by b,
            it_session_id = ib_session_id b, it_agency_ceiling = ib_agency_ceiling b,
            it_permitted_actions = ib_permitted_actions b,
            it_forbidden_actions = ib_forbidden_actions b,
            it_expires_at = now X w + secs (sint (ib_duration_secs b)),
            it_max_uses = ib_max_uses b, it_signature = [], it_use_count = 0\<rparr>
      in (t\<lparr>it_signature := engine_sign X (eng w) (it_canonical t)\<rparr>, tick (draw_id w)))"

section \<open>Verdicts and the gate\<close>

datatype haap_verdict =
    HvAuthorized u8 agency_level
  | HvGateRequired u8 agency_level string signal
  | HvTokenVerified string agency_level "u32 option" signal
  | HvTokenRejected string signal
  | HvConstitutionalBlock u8 signal

fun is_blocked :: "haap_verdict \<Rightarrow> bool" where
  "is_blocked (HvGateRequired _ _ _ _) = True"
| "is_blocked (HvTokenRejected _ _) = True"
| "is_blocked (HvConstitutionalBlock _ _) = True"
| "is_blocked _ = False"

fun to_governance_signal :: "haap_verdict \<Rightarrow> signal option" where
  "to_governance_signal (HvGateRequired _ _ _ s) = Some s"
| "to_governance_signal (HvTokenVerified _ _ _ s) = Some s"
| "to_governance_signal (HvTokenRejected _ s) = Some s"
| "to_governance_signal (HvConstitutionalBlock _ s) = Some s"
| "to_governance_signal (HvAuthorized _ _) = None"

record haap_config =
  execute_ceiling :: u8
  constitutional_block_threshold :: u8
  default_token_duration_secs :: u64

definition default_haap_config :: haap_config where
  "default_haap_config = \<lparr>execute_ceiling = 60, constitutional_block_threshold = 96,
     default_token_duration_secs = 14400\<rparr>"

record haap_gate =
  hg_config :: haap_config
  hg_tokens :: "intent_token hashmap"
  hg_preauth :: "(string \<times> int) list hashmap"

definition haap_new :: "haap_config \<Rightarrow> haap_gate" where
  "haap_new cfg = \<lparr>hg_config = cfg, hg_tokens = [], hg_preauth = []\<rparr>"

definition register_token :: "externs \<Rightarrow> intent_token \<Rightarrow> haap_gate \<Rightarrow> world \<Rightarrow>
    (string + unit) \<times> haap_gate \<times> world" where
  "register_token X t g w =
     (if is_expired (now X w) t then (Inl ''Token is already expired'', g, tick w)
      else if it_signature t = [] then (Inl ''Token has no signature'', g, tick w)
      else (Inr (), g\<lparr>hg_tokens := hm_insert (it_token_id t) t (hg_tokens g)\<rparr>, tick w))"

definition preauthorize :: "externs \<Rightarrow> string \<Rightarrow> string \<Rightarrow> u64 \<Rightarrow> haap_gate \<Rightarrow> world \<Rightarrow>
    haap_gate \<times> world" where
  "preauthorize X sid cls duration g w =
     (let expiry = now X w + secs (sint duration);
          entries = (case hm_get (hg_preauth g) sid of None \<Rightarrow> [] | Some es \<Rightarrow> es)
      in (g\<lparr>hg_preauth := hm_insert sid (entries @ [(cls, expiry)]) (hg_preauth g)\<rparr>, tick w))"

definition revoke_session :: "string \<Rightarrow> haap_gate \<Rightarrow> haap_gate" where
  "revoke_session sid g =
     g\<lparr>hg_preauth := hm_remove sid (hg_preauth g),
       hg_tokens := hm_retain (\<lambda>t. it_session_id t \<noteq> sid) (hg_tokens g)\<rparr>"

definition is_preauthorized :: "externs \<Rightarrow> string \<Rightarrow> string \<Rightarrow> haap_gate \<times> world \<Rightarrow>
    bool \<times> haap_gate \<times> world" where
  "is_preauthorized X sid cls gw =
     (let (g, w) = gw
      in case hm_get (hg_preauth g) sid of
           None \<Rightarrow> (False, g, tick w)
         | Some es \<Rightarrow>
             let live = filter (\<lambda>(_, expiry). now X w < expiry) es
             in (list_ex (\<lambda>(c, _). c = cls) live,
                 g\<lparr>hg_preauth := hm_insert sid live (hg_preauth g)\<rparr>, tick w))"

text \<open>\<open>HaapGate::build_signal\<close> and its use in a rejection.\<close>

definition haap_signal :: "externs \<Rightarrow> string \<Rightarrow> string \<Rightarrow> string \<Rightarrow> severity \<Rightarrow> f32 \<Rightarrow> string \<Rightarrow>
    string \<Rightarrow> world \<Rightarrow> signal \<times> world" where
  "haap_signal X sid violation rule sev conf hash cref w =
     build_signal X w Sentinel Inbound sid violation rule sev conf hash cref"

definition reject_token :: "externs \<Rightarrow> string \<Rightarrow> string \<Rightarrow> string \<Rightarrow> severity \<Rightarrow> f32 \<Rightarrow> string \<Rightarrow>
    string \<Rightarrow> haap_gate \<Rightarrow> world \<Rightarrow> haap_verdict \<times> haap_gate \<times> world" where
  "reject_token X sid violation rule sev conf hash reason g w =
     (let (s, w') = haap_signal X sid violation rule sev conf hash ''haap/token_verification'' w
      in (HvTokenRejected reason s, g, w'))"

definition accept_token :: "externs \<Rightarrow> string \<Rightarrow> agency_level \<Rightarrow> string \<Rightarrow> string \<Rightarrow> intent_token \<Rightarrow>
    haap_gate \<Rightarrow> world \<Rightarrow> haap_verdict \<times> haap_gate \<times> world" where
  "accept_token X sid ag token_id hash t g w =
     (let t' = t\<lparr>it_use_count := it_use_count t + 1\<rparr>;
          remaining = map_option (\<lambda>m. sat_sub m (it_use_count t')) (it_max_uses t');
          (s, w') = haap_signal X sid ''HAAP_TOKEN_VERIFIED'' ''HAAP-OK-001'' SevNone 0 hash
            ''haap/token_verified'' w
      in (HvTokenVerified (it_token_id t') ag remaining s,
          g\<lparr>hg_tokens := hm_insert token_id t' (hg_tokens g)\<rparr>, w'))"

definition verify_token :: "externs \<Rightarrow> string \<Rightarrow> agency_level \<Rightarrow> string \<Rightarrow> string \<Rightarrow>
    haap_gate \<times> world \<Rightarrow> haap_verdict \<times> haap_gate \<times> world" where
  "verify_token X sid ag token_id hash gw =
     (let (g, w) = gw
      in case hm_get (hg_tokens g) token_id of
           None \<Rightarrow> reject_token X sid ''TOKEN_NOT_FOUND'' ''HAAP-TOKEN-001'' SevHigh
             (f32_lit (92 / 100)) hash
             (''Token '' @ [CHR 39] @ token_id @ [CHR 39] @ '' not found in registry'') g w
         | Some t \<Rightarrow>
             if it_session_id t \<noteq> sid
             then reject_token X sid ''TOKEN_SESSION_MISMATCH'' ''HAAP-TOKEN-002'' SevCritical
               (f32_lit (97 / 100)) hash ''Token is bound to a different session'' g w
             else if is_expired (now X w) t
             then reject_token X sid ''TOKEN_EXPIRED'' ''HAAP-TOKEN-003'' SevHigh
               (f32_lit (90 / 100)) hash
               (''Token '' @ [CHR 39] @ token_id @ [CHR 39] @ '' expired at '' @
                show_time X (it_expires_at t)) g (tick w)
             else if is_exhausted t
             then reject_token X sid ''TOKEN_EXHAUSTED'' ''HAAP-TOKEN-004'' SevHigh
               (f32_lit (90 / 100)) hash
               (''Token '' @ [CHR 39] @ token_id @ [CHR 39] @ '' has no remaining uses'') g (tick w)
             else if it_agency_ceiling t < ag
             then reject_token X sid ''TOKEN_AGENCY_INSUFFICIENT'' ''HAAP-TOKEN-005'' SevHigh
               (f32_lit (92 / 100)) hash
               (''Token ceiling '' @ show_agency (it_agency_ceiling t) @
                '' does not cover requested agency '' @ show_agency ag) g (tick w)
             else if \<not> verify_ok X (eng w) (it_canonical t) (it_signature t)
             then reject_token X sid ''TOKEN_SIGNATURE_INVALID'' ''HAAP-TOKEN-006'' SevCritical
               (f32_lit (99 / 100)) hash ''Token signature verification failed'' g (tick w)
             else accept_token X sid ag token_id hash t g (tick w))"

definition below_gate :: "agency_level \<Rightarrow> u8 \<Rightarrow> bool" where
  "below_gate ag drs = (case gate_threshold ag of None \<Rightarrow> True | Some t \<Rightarrow> drs < t)"

definition haap_payload_hash :: "externs \<Rightarrow> string \<Rightarrow> agency_level \<Rightarrow> u8 \<Rightarrow> string \<Rightarrow> string" where
  "haap_payload_hash X sid ag drs cls = compute_hash X
     (join bar [''haap'', sid, show_agency ag, show_nat (unat drs), cls])"

definition gate_reason :: "string \<Rightarrow> agency_level \<Rightarrow> u8 \<Rightarrow> string" where
  "gate_reason cls ag drs = ''Action '' @ [CHR 39] @ cls @ [CHR 39] @ '' at agency level '' @
     show_agency ag @ '' requires human authorization (DRS='' @ show_nat (unat drs) @
     ''). Present a valid Intent Token to proceed.''"

definition haap_evaluate :: "externs \<Rightarrow> string \<Rightarrow> agency_level \<Rightarrow> u8 \<Rightarrow> string \<Rightarrow> string option \<Rightarrow>
    haap_gate \<times> world \<Rightarrow> haap_verdict \<times> haap_gate \<times> world" where
  "haap_evaluate X sid ag drs cls token gw =
     (let (g, w) = gw;
          hash = haap_payload_hash X sid ag drs cls
      in if constitutional_block_threshold (hg_config g) \<le> drs
         then let (s, w') = haap_signal X sid ''CONSTITUTIONAL_BLOCK'' ''HAAP-CONST-001''
                    SevCritical (f32_lit (99 / 100)) hash ''haap/constitutional_block'' w
              in (HvConstitutionalBlock drs s, g, w')
         else if below_gate ag drs then (HvAuthorized drs ag, g, w)
         else let (pre, g1, w1) = is_preauthorized X sid cls (g, w)
              in if pre then (HvAuthorized drs ag, g1, w1)
                 else (case token of
                     Some token_id \<Rightarrow> verify_token X sid ag token_id hash (g1, w1)
                   | None \<Rightarrow>
                       let (s, w2) = haap_signal X sid ''HAAP_GATE_REQUIRED'' ''HAAP-GATE-001''
                             SevHigh (f32_lit (90 / 100)) hash ''haap/authorization_required'' w1
                       in (HvGateRequired drs ag (gate_reason cls ag drs) s, g1, w2)))"

section \<open>When the gate opens\<close>

definition token_covers :: "externs \<Rightarrow> engine \<Rightarrow> int \<Rightarrow> string \<Rightarrow> agency_level \<Rightarrow> intent_token \<Rightarrow>
    bool" where
  "token_covers X e t0 sid ag t \<longleftrightarrow> it_session_id t = sid \<and> is_valid t0 t \<and>
     ag \<le> it_agency_ceiling t \<and> verify_ok X e (it_canonical t) (it_signature t)"

definition live_preauth :: "int \<Rightarrow> string \<Rightarrow> string \<Rightarrow> haap_gate \<Rightarrow> bool" where
  "live_preauth t0 sid cls g \<longleftrightarrow> (\<exists>es expiry. hm_get (hg_preauth g) sid = Some es \<and>
     (cls, expiry) \<in> set es \<and> t0 < expiry)"

lemma reject_token_simps [simp]:
  "is_blocked (fst (reject_token X sid v r sev c h reason g w))"
  "fst (snd (reject_token X sid v r sev c h reason g w)) = g"
  "\<exists>s. fst (reject_token X sid v r sev c h reason g w) = HvTokenRejected reason s"
  by (simp_all add: reject_token_def split_def Let_def)

lemma accept_token_simps [simp]:
  "\<not> is_blocked (fst (accept_token X sid ag tid h t g w))"
  "fst (snd (accept_token X sid ag tid h t g w)) =
     g\<lparr>hg_tokens := hm_insert tid (t\<lparr>it_use_count := it_use_count t + 1\<rparr>) (hg_tokens g)\<rparr>"
  by (simp_all add: accept_token_def split_def Let_def)

lemma verify_token_cases:
  "verify_token X sid ag tid h (g, w) =
     (case hm_get (hg_tokens g) tid of
        Some t \<Rightarrow> if token_covers X (eng w) (now X w) sid ag t
          then accept_token X sid ag tid h t g (tick w)
          else verify_token X sid ag tid h (g, w)
      | None \<Rightarrow> verify_token X sid ag tid h (g, w))"
  by (auto simp: verify_token_def token_covers_def is_valid_def not_less split: option.split)

lemma verify_token_rejects:
  assumes "\<forall>t. hm_get (hg_tokens g) tid = Some t \<longrightarrow> \<not> token_covers X (eng w) (now X w) sid ag t"
  shows "is_blocked (fst (verify_token X sid ag tid h (g, w))) \<and>
    fst (snd (verify_token X sid ag tid h (g, w))) = g"
  using assms by (auto simp: verify_token_def token_covers_def is_valid_def not_less
      split: option.split)

lemma is_preauthorized_result:
  "fst (is_preauthorized X sid cls (g, w)) \<longleftrightarrow> live_preauth (now X w) sid cls g"
  "hg_tokens (fst (snd (is_preauthorized X sid cls (g, w)))) = hg_tokens g"
  "hg_config (fst (snd (is_preauthorized X sid cls (g, w)))) = hg_config g"
  "snd (snd (is_preauthorized X sid cls (g, w))) = tick w"
  by (auto simp: is_preauthorized_def live_preauth_def Let_def list_ex_iff split: option.split)

text \<open>The registered token an evaluation may use, read after the pre-authorisation check.\<close>

definition presented :: "externs \<Rightarrow> string \<Rightarrow> agency_level \<Rightarrow> string option \<Rightarrow> haap_gate \<Rightarrow> world \<Rightarrow>
    intent_token option" where
  "presented X sid ag token g w =
     (case Option.bind token (hm_get (hg_tokens g)) of
        None \<Rightarrow> None
      | Some t \<Rightarrow> if token_covers X (eng w) (now X (tick w)) sid ag t then Some t else None)"

lemma gate_opens_iff:
  "\<not> is_blocked (fst (haap_evaluate X sid ag drs cls token (g, w))) \<longleftrightarrow>
     drs < constitutional_block_threshold (hg_config g) \<and>
     (below_gate ag drs \<or> live_preauth (now X w) sid cls g \<or>
      (\<exists>t. presented X sid ag token g w = Some t))"
proof -
  obtain pre g1 w1 where p: "is_preauthorized X sid cls (g, w) = (pre, g1, w1)"
    by (metis prod_cases3)
  note pr = is_preauthorized_result [of X sid cls g w, unfolded p fst_conv snd_conv]
  have none: "presented X sid ag None g w = None" by (simp add: presented_def)
  have v: "is_blocked (fst (verify_token X sid ag tid h (g1, tick w))) \<longleftrightarrow>
      presented X sid ag (Some tid) g w = None" for tid h
  proof (cases "hm_get (hg_tokens g) tid")
    case None
    then show ?thesis using verify_token_rejects [of g1 tid X "tick w" sid ag h]
      by (simp add: presented_def pr)
  next
    case (Some t)
    show ?thesis
    proof (cases "token_covers X (eng w) (now X (tick w)) sid ag t")
      case True
      with Some verify_token_cases [of X sid ag tid h g1 "tick w"] show ?thesis
        by (simp add: presented_def pr)
    next
      case False
      with Some verify_token_rejects [of g1 tid X "tick w" sid ag h] show ?thesis
        by (simp add: presented_def pr)
    qed
  qed
  show ?thesis
    by (auto simp: haap_evaluate_def Let_def split_def p pr v not_le none not_None_eq
        split: option.split)
qed

text \<open>
  The source documents dual sign-off for \<open>RootAuthority\<close>, but \<open>requires_dual_signoff\<close> has no caller:
  a single authorisation of either kind lets a root action through.
\<close>

lemma root_gate_opens_iff:
  "\<not> is_blocked (fst (haap_evaluate X sid RootAuthority drs cls token (g, w))) \<longleftrightarrow>
     drs < constitutional_block_threshold (hg_config g) \<and>
     (live_preauth (now X w) sid cls g \<or> (\<exists>t. presented X sid RootAuthority token g w = Some t))"
  by (simp add: gate_opens_iff below_gate_def)


text \<open>
  A token built by the operator's builder and accepted by the registry opens the gate
  for its session: any action whose score is below the constitutional threshold and whose agency
  level does not exceed the token's ceiling is let through, while the token is unexpired and may
  be used at least once.
\<close>

lemma built_token_opens_gate:
  assumes "hex_laws X" "ed_laws X" "engine_ok X (eng w)"
    and "token_build X b w = (t, w1)" and "register_token X t g w1 = (r, g', w2)" and "is_ok r"
    and "ag \<le> ib_agency_ceiling b" and "drs < constitutional_block_threshold (hg_config g)"
    and "now X (tick w2) \<le> it_expires_at t" and "ib_max_uses b \<noteq> Some 0"
  shows "\<not> is_blocked (fst (haap_evaluate X (ib_session_id b) ag drs cls
    (Some (it_token_id t)) (g', w2)))"
proof -
  have g': "g' = g\<lparr>hg_tokens := hm_insert (it_token_id t) t (hg_tokens g)\<rparr>" "w2 = tick w1"
    using assms(5,6) by (auto simp: register_token_def split: if_splits)
  have w1: "eng w1 = eng w" using assms(4) by (auto simp: token_build_def Let_def)
  have "it_signature t = engine_sign X (eng w) (it_canonical t)" "it_session_id t = ib_session_id b"
    "it_agency_ceiling t = ib_agency_ceiling b" "\<not> is_exhausted t"
    using assms(4,10) by (auto simp: token_build_def Let_def it_canonical_def is_exhausted_def
        split: option.split)
  with sign_verifies [OF assms(1-3), of "it_canonical t"] assms(7,9)
  have "token_covers X (eng w2) (now X (tick w2)) (ib_session_id b) ag t"
    by (simp add: token_covers_def is_valid_def is_expired_def g' w1)
  then show ?thesis using assms(8) by (simp add: gate_opens_iff presented_def g')
qed

section \<open>Uses of a token\<close>

datatype haap_op = HaEvaluate string agency_level u8 string "string option"
  | HaRegister intent_token | HaPreauthorize string string u64 | HaRevoke string

text \<open>A step, with the identifier of the token it accepts, if any.\<close>

fun accepted_token :: "haap_verdict \<Rightarrow> string option" where
  "accepted_token (HvTokenVerified tid _ _ _) = Some tid"
| "accepted_token _ = None"

fun haap_step :: "externs \<Rightarrow> haap_op \<Rightarrow> haap_gate \<times> world \<Rightarrow>
    string option \<times> haap_gate \<times> world" where
  "haap_step X (HaEvaluate sid ag drs cls token) gw =
     apfst accepted_token (haap_evaluate X sid ag drs cls token gw)"
| "haap_step X (HaRegister t) gw = (None, snd (register_token X t (fst gw) (snd gw)))"
| "haap_step X (HaPreauthorize sid cls d) gw = (None, preauthorize X sid cls d (fst gw) (snd gw))"
| "haap_step X (HaRevoke sid) gw = (None, revoke_session sid (fst gw), snd gw)"

fun registers :: "string \<Rightarrow> haap_op \<Rightarrow> bool" where
  "registers tid (HaRegister t) \<longleftrightarrow> it_token_id t = tid"
| "registers tid _ \<longleftrightarrow> False"

definition tokens_ok :: "haap_gate \<Rightarrow> bool" where
  "tokens_ok g \<longleftrightarrow> hm_ok (hg_tokens g) \<and>
     (\<forall>k t. hm_get (hg_tokens g) k = Some t \<longrightarrow> it_token_id t = k)"

text \<open>
  How many acceptances of a token are left: none for one that is not registered, no bound for one
  without a maximum.
\<close>

definition uses_left :: "haap_gate \<Rightarrow> string \<Rightarrow> nat option" where
  "uses_left g tid = (case hm_get (hg_tokens g) tid of
       None \<Rightarrow> Some 0
     | Some t \<Rightarrow> map_option (\<lambda>m. unat m - unat (it_use_count t)) (it_max_uses t))"

definition at_most :: "nat \<Rightarrow> nat option \<Rightarrow> bool" where
  "at_most n b = (case b of None \<Rightarrow> True | Some m \<Rightarrow> n \<le> m)"

text \<open>
  What one step does to the token table, as seen from the identifier \<open>tid\<close>: an acceptance uses
  one of the uses left, any other step that does not register \<open>tid\<close> leaves at most as many.
\<close>

definition step_budget :: "string \<Rightarrow> haap_gate \<Rightarrow> string option \<times> haap_gate \<times> world \<Rightarrow> bool" where
  "step_budget tid g r \<longleftrightarrow> tokens_ok (fst (snd r)) \<and>
     (\<forall>n. at_most n (uses_left (fst (snd r)) tid) \<longrightarrow>
        at_most (if fst r = Some tid then Suc n else n) (uses_left g tid))"

lemma budget_same_tokens:
  assumes "tokens_ok g" "fst r = None" "hg_tokens (fst (snd r)) = hg_tokens g"
  shows "step_budget tid g r"
  using assms by (simp add: step_budget_def tokens_ok_def uses_left_def)

lemma reject_budget:
  assumes "tokens_ok g"
  shows "step_budget tid g (apfst accepted_token (reject_token X sid v r sev c h reason g w))"
  by (rule budget_same_tokens) (simp_all add: assms reject_token_def split_def Let_def)

lemma accept_budget:
  assumes "tokens_ok g" "hm_get (hg_tokens g) k = Some t" "\<not> is_exhausted t"
  shows "step_budget tid g (apfst accepted_token (accept_token X sid ag k h t g w))"
proof -
  have k: "it_token_id t = k" using assms by (auto simp: tokens_ok_def)
  let ?r = "apfst accepted_token (accept_token X sid ag k h t g w)"
  let ?g = "g\<lparr>hg_tokens := hm_insert k (t\<lparr>it_use_count := it_use_count t + 1\<rparr>) (hg_tokens g)\<rparr>"
  have r: "fst ?r = Some k" "fst (snd ?r) = ?g"
    by (simp_all add: k) (simp add: accept_token_def split_def Let_def k)
  have "tokens_ok ?g" using assms(1) k by (simp add: tokens_ok_def)
  moreover have "at_most (if k = tid then Suc n else n) (uses_left g tid)"
    if "at_most n (uses_left ?g tid)" for n
  proof (cases "k = tid \<and> it_max_uses t \<noteq> None")
    case True
    then obtain m where m: "it_max_uses t = Some m" by auto
    with assms(3) have lt: "unat (it_use_count t) < unat m"
      by (simp add: is_exhausted_def word_less_nat_alt word_le_nat_alt)
    moreover have "unat m < 2 ^ 32" using unsigned_less [of m] by simp
    ultimately have "unat (it_use_count t + 1) = Suc (unat (it_use_count t))"
      by (simp add: unat_word_ariths)
    with that True assms(2) m lt show ?thesis by (simp add: uses_left_def at_most_def)
  next
    case False
    with that assms(2) show ?thesis by (auto simp: uses_left_def at_most_def)
  qed
  ultimately show ?thesis unfolding step_budget_def r option.inject by blast
qed

lemma verify_budget:
  assumes "tokens_ok g"
  shows "step_budget tid g (apfst accepted_token (verify_token X sid ag k h (g, w)))"
  using assms by (auto simp: verify_token_def intro: reject_budget accept_budget
      split: option.split)

lemma evaluate_budget:
  assumes "tokens_ok g"
  shows "step_budget tid g (apfst accepted_token (haap_evaluate X sid ag drs cls token (g, w)))"
proof -
  obtain pre g1 w1 where p: "is_preauthorized X sid cls (g, w) = (pre, g1, w1)"
    by (metis prod_cases3)
  have g1: "hg_tokens g1 = hg_tokens g" using is_preauthorized_result(2) [of X sid cls g w] p by simp
  then have "tokens_ok g1" using assms by (simp add: tokens_ok_def)
  with verify_budget [of g1 tid X sid ag] g1 have v:
    "step_budget tid g (apfst accepted_token (verify_token X sid ag k h (g1, w1)))" for k h
    by (simp add: step_budget_def uses_left_def)
  show ?thesis
    by (auto simp: haap_evaluate_def Let_def split_def p v intro!: budget_same_tokens assms g1
        split: option.split)
qed

lemma haap_step_budget:
  assumes "tokens_ok g" "\<not> registers tid op"
  shows "step_budget tid g (haap_step X op (g, w))"
proof (cases op)
  case (HaRegister t)
  with assms show ?thesis
    by (auto simp: register_token_def step_budget_def tokens_ok_def uses_left_def)
next
  case (HaRevoke sid)
  with assms show ?thesis
    by (auto simp: revoke_session_def step_budget_def tokens_ok_def uses_left_def hm_get_retain
        at_most_def split: option.splits if_splits)
qed (use assms in \<open>auto simp: evaluate_budget preauthorize_def Let_def intro: budget_same_tokens\<close>)

lemma grants_within_budget:
  assumes "tokens_ok g" "\<forall>op \<in> set ops. \<not> registers tid op"
  shows "at_most (count_list (grants (haap_step X) ops (g, w)) tid) (uses_left g tid)"
  using assms
proof (induction ops arbitrary: g w)
  case Nil
  then show ?case by (simp add: at_most_def split: option.split)
next
  case (Cons op ops)
  obtain acc g' w' where r: "haap_step X op (g, w) = (acc, g', w')" by (metis prod_cases3)
  from haap_step_budget [of g tid op X w] Cons.prems have b: "tokens_ok g'"
    "at_most n (uses_left g' tid) \<Longrightarrow> at_most (if acc = Some tid then Suc n else n) (uses_left g tid)"
    for n by (auto simp: step_budget_def r)
  from Cons.IH [OF b(1)] Cons.prems have "at_most (count_list (grants (haap_step X) ops (g', w')) tid)
      (uses_left g' tid)" by simp
  from b(2) [OF this] show ?case by (auto simp: r split: option.splits)
qed

text \<open>
  Claim C31: whatever evaluations, pre-authorisations, revocations and registrations of other
  tokens follow, a registered intent token with a maximum of \<open>n\<close> uses is accepted at most \<open>n\<close>
  minus its recorded uses times, by any session, at any agency level, under any clock.
\<close>

theorem intent_token_uses_bounded:
  assumes "tokens_ok g" and "hm_get (hg_tokens g) tid = Some t" and "it_max_uses t = Some n"
    and "\<forall>op \<in> set ops. \<not> registers tid op"
  shows "count_list (grants (haap_step X) ops (g, w)) tid \<le> unat n - unat (it_use_count t)"
  using grants_within_budget [OF assms(1,4), of X w] assms(2,3)
  by (simp add: uses_left_def at_most_def)

definition demo_builder :: intent_token_builder where
  "demo_builder = token_max_uses 1 (token_builder_new ''op'' ''s1'')"

definition demo_token :: intent_token where
  "demo_token = fst (token_build demo demo_builder demo_world)"

definition demo_gate :: haap_gate where
  "demo_gate = (haap_new default_haap_config)\<lparr>hg_tokens := [(it_token_id demo_token, demo_token)]\<rparr>"

theorem intent_token_uses_bounded_witness:
  "count_list (grants (haap_step demo)
     (replicate 3 (HaEvaluate ''s1'' ExecuteActions 70 ''deploy'' (Some (it_token_id demo_token))))
     (demo_gate, demo_world)) (it_token_id demo_token) \<le> 1"
proof -
  have "tokens_ok demo_gate"
    by (simp add: tokens_ok_def demo_gate_def hm_ok_def hm_get_def)
  moreover have "hm_get (hg_tokens demo_gate) (it_token_id demo_token) = Some demo_token"
    by (simp add: demo_gate_def hm_get_def)
  moreover have "it_max_uses demo_token = Some 1" "it_use_count demo_token = 0"
    by (simp_all add: demo_token_def token_build_def Let_def demo_builder_def token_max_uses_def)
  ultimately show ?thesis
    using intent_token_uses_bounded [of demo_gate "it_token_id demo_token" demo_token 1
        "replicate 3 (HaEvaluate ''s1'' ExecuteActions 70 ''deploy'' (Some (it_token_id demo_token)))"
        demo demo_world] by simp
qed

lemma demo_sign_nonempty: "engine_sign demo e m \<noteq> []"
proof -
  have "length (ed_sign demo k m) = 64" for k using demo_ed by (simp add: ed_laws_def)
  moreover have "hex_encode demo s \<noteq> []" if "length s = 64" for s
    using that by (cases s) (simp_all add: demo_def)
  ultimately show ?thesis by (simp add: engine_sign_def)
qed

lemma built_token_opens_gate_witness:
  "\<not> is_blocked (fst (haap_evaluate demo ''s1'' ExecuteActions 70 ''deploy''
     (Some (it_token_id demo_token))
     (snd (register_token demo demo_token (haap_new default_haap_config)
       (snd (token_build demo demo_builder demo_world))))))"
proof -
  obtain t w1 where b: "token_build demo demo_builder demo_world = (t, w1)" by (metis surj_pair)
  obtain r g' w2 where r: "register_token demo t (haap_new default_haap_config) w1 = (r, g', w2)"
    by (metis prod_cases3)
  have clk: "now demo w = secs (int (ticks w))" for w by (simp add: now_def demo_def)
  have fields: "ib_duration_secs demo_builder = 14400" "ib_max_uses demo_builder = Some 1"
    "ib_session_id demo_builder = ''s1''" "ib_agency_ceiling demo_builder = ExecuteActions"
    "constitutional_block_threshold (hg_config (haap_new default_haap_config)) = 96"
    by (simp_all add: demo_builder_def token_max_uses_def token_builder_new_def haap_new_def
        default_haap_config_def)
  have t: "it_expires_at t = now demo demo_world + secs 14400"
      "\<exists>m. it_signature t = engine_sign demo (eng demo_world) m" "ticks w1 = Suc (ticks demo_world)"
    using b fields by (auto simp: token_build_def Let_def)
  then have t: "it_expires_at t = secs 14400" "it_signature t \<noteq> []" "ticks w1 = 1"
    using demo_sign_nonempty by (simp_all add: clk secs_def demo_world_def) metis
  have "is_ok r" "ticks w2 = 2"
    using r t by (auto simp: register_token_def is_expired_def clk secs_def)
  then show ?thesis
    using built_token_opens_gate [OF demo_laws(1,3) demo_engine_ok b r, of ExecuteActions 70] t
    by (simp add: b r fields demo_token_def clk secs_def)
qed

end
