(* ===== verification/GovMem.thy ===== *)
theory GovMem
  imports SessionMemory
begin

text \<open>
  \<open>govmem.rs\<close>: the blocking decision over the session accumulators, and the turns and layer
  signals the second mode records. The sentence embedder and the memory policy agent are
  placeholders in the source and are not modelled; no decision depends on them.

  The pipeline's session map, shared by the two components in the source, is an argument.
\<close>

datatype govmem_mode = GovMemV1 | GovMemV2

datatype message_direction = UserToSystem | SystemToUser

datatype human_label = TrueAttack | FalsePositive | LabelBenign | Uncertain

record gm_message =
  gmm_turn :: u32
  gmm_timestamp :: int
  gmm_content :: string
  gmm_direction :: message_direction
  gmm_blocked :: bool

record layer_signal =
  ls_layer :: string
  ls_timestamp :: int
  ls_severity :: severity
  ls_violation :: "string option"
  ls_confidence :: f32

record govmem_session =
  gs_session_id :: string
  gs_created_at :: int
  gs_department_id :: "string option"
  gs_agent_id :: "string option"
  gs_messages :: "gm_message list"
  gs_embedding_trajectory :: "f32 list list"
  gs_layer_signals :: "layer_signal list"
  gs_v1_session :: session_memory
  gs_semantic_drift_score :: f32
  gs_mpa_anomaly_score :: f32
  gs_flagged_for_review :: bool
  gs_human_label :: "human_label option"

record govmem =
  gm_v2_sessions :: "govmem_session hashmap"
  gm_block_threshold :: f32
  gm_mode :: govmem_mode

definition default_block_threshold :: f32 where
  "default_block_threshold = f32_lit (7 / 10)"

text \<open>Every value of the model is finite; a parsed NaN or infinity is \<open>None\<close> below.\<close>

definition valid_block_threshold :: "f32 \<Rightarrow> bool" where
  "valid_block_threshold v \<longleftrightarrow> 0 \<le> v \<and> v < 1"

datatype env_read = EnvNotPresent | EnvUnreadable | EnvValue string

datatype block_config_error = ThresholdUnreadable | ThresholdInvalid string

text \<open>
  \<open>parse\<close> is \<open>str::parse::<f32>\<close>; the two panics of the source are errors here: either one ends
  the start-up.
\<close>

definition configured_block_threshold ::
  "(string \<Rightarrow> f32 option) \<Rightarrow> env_read \<Rightarrow> block_config_error + f32" where
  "configured_block_threshold parse env = (case env of
       EnvNotPresent \<Rightarrow> Inr default_block_threshold
     | EnvUnreadable \<Rightarrow> Inl ThresholdUnreadable
     | EnvValue raw \<Rightarrow> (case parse raw of
           None \<Rightarrow> Inl (ThresholdInvalid raw)
         | Some v \<Rightarrow> if \<not> valid_block_threshold v then Inl (ThresholdInvalid raw) else Inr v))"

definition govmem_new :: "(string \<Rightarrow> f32 option) \<Rightarrow> env_read \<Rightarrow> govmem_mode \<Rightarrow>
    block_config_error + govmem" where
  "govmem_new parse env mode = ebind (configured_block_threshold parse env)
     (\<lambda>t. Inr \<lparr>gm_v2_sessions = [], gm_block_threshold = t, gm_mode = mode\<rparr>)"

definition record_turn_v2 :: "externs \<Rightarrow> string \<Rightarrow> string \<Rightarrow> message_direction \<Rightarrow> bool \<Rightarrow>
    string option \<Rightarrow> string option \<Rightarrow> govmem \<times> world \<Rightarrow> govmem \<times> world" where
  "record_turn_v2 X sid msg dir blocked dept agent gw =
     (let (g, w) = gw;
          (s, w1) = (case hm_get (gm_v2_sessions g) sid of
              Some s \<Rightarrow> (s, w)
            | None \<Rightarrow>
                let (v1, w') = session_memory_new X (tick w) sid
                in (\<lparr>gs_session_id = sid, gs_created_at = now X w, gs_department_id = dept,
                     gs_agent_id = agent, gs_messages = [], gs_embedding_trajectory = [],
                     gs_layer_signals = [], gs_v1_session = v1, gs_semantic_drift_score = 0,
                     gs_mpa_anomaly_score = 0, gs_flagged_for_review = False,
                     gs_human_label = None\<rparr>, w'));
          m = \<lparr>gmm_turn = of_nat (length (gs_messages s)) + 1, gmm_timestamp = now X w1,
               gmm_content = msg, gmm_direction = dir, gmm_blocked = blocked\<rparr>
      in (g\<lparr>gm_v2_sessions :=
             hm_insert sid (s\<lparr>gs_messages := gs_messages s @ [m]\<rparr>) (gm_v2_sessions g)\<rparr>, tick w1))"

definition govmem_record_turn :: "externs \<Rightarrow> string \<Rightarrow> string \<Rightarrow> message_direction \<Rightarrow> bool \<Rightarrow>
    string option \<Rightarrow> string option \<Rightarrow> govmem \<times> world \<Rightarrow> govmem \<times> world" where
  "govmem_record_turn X sid msg dir blocked dept agent gw = (case gm_mode (fst gw) of
       GovMemV1 \<Rightarrow> gw
     | GovMemV2 \<Rightarrow> record_turn_v2 X sid msg dir blocked dept agent gw)"

definition record_layer_signal :: "externs \<Rightarrow> string \<Rightarrow> string \<Rightarrow> signal \<Rightarrow>
    govmem \<times> world \<Rightarrow> govmem \<times> world" where
  "record_layer_signal X sid layer s gw =
     (let (g, w) = gw
      in if gm_mode g \<noteq> GovMemV2 then gw
         else (case hm_get (gm_v2_sessions g) sid of
             None \<Rightarrow> gw
           | Some gs \<Rightarrow>
               (g\<lparr>gm_v2_sessions := hm_insert sid (gs\<lparr>gs_layer_signals := gs_layer_signals gs @
                    [\<lparr>ls_layer = layer, ls_timestamp = now X w, ls_severity = sg_severity s,
                      ls_violation = sg_violation_class s, ls_confidence = sg_confidence s\<rparr>]\<rparr>)
                    (gm_v2_sessions g)\<rparr>, tick w)))"

definition get_drift_score :: "govmem \<Rightarrow> string \<Rightarrow> f32" where
  "get_drift_score g sid = (case gm_mode g of
       GovMemV1 \<Rightarrow> 0
     | GovMemV2 \<Rightarrow> (case hm_get (gm_v2_sessions g) sid of
           None \<Rightarrow> 0 | Some gs \<Rightarrow> gs_semantic_drift_score gs))"

definition should_block :: "govmem \<Rightarrow> session_memory hashmap \<Rightarrow> string \<Rightarrow> string option \<Rightarrow> bool" where
  "should_block g memories sid dept = (case hm_get memories sid of
       Some m \<Rightarrow> gm_block_threshold g < f32_sub 1 (threshold_modifier m)
     | None \<Rightarrow> False)"

text \<open>The placeholders of the embedding and the policy model: constants, which nothing reads.\<close>

definition embedder_encode :: "string \<Rightarrow> f32 list" where
  "embedder_encode t = replicate 384 0"

definition agent_predict :: "govmem_session \<Rightarrow> f32" where
  "agent_predict s = 0"

section \<open>The blocking decision\<close>

lemma block_score_mono:
  assumes "memory_rank a \<le> memory_rank b"
  shows "f32_sub 1 (modifier_of a) \<le> f32_sub 1 (modifier_of b)"
proof -
  have "modifier_of b \<le> modifier_of a"
    using assms by (cases a; cases b) (simp_all add: f32_eval)
  then show ?thesis by (simp add: f32_sub_def f32_round_mono)
qed

lemma locked_score: "f32_sub 1 (modifier_of Locked) = 1"
  and clear_score: "f32_sub 1 (modifier_of Clear) = 0"
  by (simp_all add: f32_sub_def)

lemma escalated_score: "f32_sub 1 (modifier_of Escalated) \<le> default_block_threshold"
  by (simp add: f32_eval default_block_threshold_def)

text \<open>
  Under every threshold the configuration can yield, a locked session is blocked, a
  clear or unknown one is not, and a session in a higher memory state is blocked whenever a lower
  one is, whatever department the caller claims; under the default threshold exactly the locked
  sessions are blocked.
\<close>

lemma govmem_blocks:
  assumes "govmem_new parse env mode = Inr g" and "hm_get memories sid = Some m"
  shows "(sm_memory_state m = Locked \<longrightarrow> should_block g memories sid dept) \<and>
    (sm_memory_state m = Clear \<longrightarrow> \<not> should_block g memories sid dept) \<and>
    (\<forall>memories' sid' m' dept'. hm_get memories' sid' = Some m' \<longrightarrow>
       memory_rank (sm_memory_state m) \<le> memory_rank (sm_memory_state m') \<longrightarrow>
       should_block g memories sid dept \<longrightarrow> should_block g memories' sid' dept') \<and>
    (env = EnvNotPresent \<longrightarrow>
       should_block g memories sid dept = (sm_memory_state m = Locked))"
proof -
  have "0 \<le> default_block_threshold \<and> default_block_threshold < 1"
    by (simp add: default_block_threshold_def f32_eval)
  then have t: "0 \<le> gm_block_threshold g" "gm_block_threshold g < 1"
    using assms(1) by (auto simp: govmem_new_def configured_block_threshold_def ebind_Inr_iff
        valid_block_threshold_def split: env_read.splits option.splits if_splits)
  have dflt: "gm_block_threshold g = default_block_threshold" if "env = EnvNotPresent"
    using assms(1) that by (auto simp: govmem_new_def configured_block_threshold_def)
  have not_locked: "f32_sub 1 (modifier_of st) \<le> default_block_threshold" if "st \<noteq> Locked" for st
  proof -
    have "memory_rank st \<le> memory_rank Escalated" using that by (cases st) simp_all
    then show ?thesis by (rule order_trans [OF block_score_mono escalated_score])
  qed
  have "should_block g memories' sid' dept'"
    if "hm_get memories' sid' = Some m'" "should_block g memories sid dept"
      "memory_rank (sm_memory_state m) \<le> memory_rank (sm_memory_state m')" for memories' sid' m' dept'
    using that block_score_mono [OF that(3)] assms(2)
    by (simp add: should_block_def threshold_modifier_def)
  moreover have "should_block g memories sid dept = (sm_memory_state m = Locked)"
    if "env = EnvNotPresent"
    using dflt [OF that] not_locked [of "sm_memory_state m"] t assms(2) locked_score
    by (cases "sm_memory_state m = Locked")
      (simp_all add: should_block_def threshold_modifier_def not_less)
  ultimately show ?thesis
    using t assms(2) locked_score clear_score
    by (auto simp: should_block_def threshold_modifier_def not_less)
qed

theorem govmem_blocks_witness:
  "should_block \<lparr>gm_v2_sessions = [], gm_block_threshold = 1 / 2, gm_mode = GovMemV1\<rparr>
     [(''s1'', fresh_memory\<lparr>sm_memory_state := Locked\<rparr>)] ''s1'' (Some ''ENG'')"
proof -
  have "govmem_new (\<lambda>_. Some (1 / 2)) (EnvValue ''0.5'') GovMemV1 =
      Inr \<lparr>gm_v2_sessions = [], gm_block_threshold = 1 / 2, gm_mode = GovMemV1\<rparr>"
    by (simp add: govmem_new_def configured_block_threshold_def valid_block_threshold_def)
  from govmem_blocks [OF this, of "[(''s1'', fresh_memory\<lparr>sm_memory_state := Locked\<rparr>)]" "''s1''"
      "fresh_memory\<lparr>sm_memory_state := Locked\<rparr>"] show ?thesis by (simp add: hm_get_def)
qed

end
