(* ===== verification/Sentinel.thy ===== *)
theory Sentinel
  imports Signal
begin

text \<open>
  \<open>sentinel.rs\<close>: the payload detector, its rule tables and its normalisations.

  A detector builds at most one signal, from the first rule group that matches: \<open>sentinel_finding\<close>
  is that choice, \<open>inspect\<close> the signal. The theorems: exactly when a payload is clean; the
  zero-width rule never fires, because the characters it looks for are stripped before.
\<close>

text \<open>
  A rule table pairs a rule identifier with a regular expression. In the literals below the
  backslash of the source is written as a tilde, which no expression contains; \<open>rx\<close> puts it back.
\<close>

definition rx :: "string \<Rightarrow> string" where
  "rx s = map (\<lambda>c. if c = CHR ''~'' then CHR 92 else c) s"

text \<open>What a layer reports: violation class, rule, severity, confidence, constitutional reference.\<close>

type_synonym finding = "string \<times> string \<times> severity \<times> f32 \<times> string"

definition injection_rules_base :: "(string \<times> string) list" where
  "injection_rules_base = [
      (''SENT-001'', rx ''(?i)~b(ignore previous instructions|disregard your training|forget your guidelines)~b''),
      (''SENT-002'', rx ''(?i)~b(you are now|act as if you are|pretend you are|you have no restrictions)~b''),
      (''SENT-003'', rx ''(?i)~b(DAN|do anything now|jailbreak|bypass your)~b''),
      (''SENT-004'', rx ''(?ix)~b(?:reveal|show|print|dump|display|leak|extract)~b.{0,40}~b(?:system~s+prompt|developer~s+message|hidden~s+instructions|internal~s+rules)~b''),
      (''SENT-004B'', rx ''(?ix)~bwhat~s+are~s+your~s+(?:system|developer|hidden)~s+(?:instructions|prompt|rules)~b''),
      (''SENT-004C'', rx ''(?i)~breveal~b.{0,30}~b(instructions|rules|config|constitution)~b''),
      (''SENT-004D'', rx ''(?i)~b(output|dump|show|reveal|print)~b.{0,40}~b(configuration|config|internal~s+rules|api~s+keys?|tokens?|access~s+keys?)~b''),
      (''SENT-004E'', rx ''(?i)~b(repeat|dump|output|show)~b.{0,40}~b(context~s+window|conversation|everything~s+from|full~s+history)~b''),
      (''SENT-004F'', rx ''(?i)~bwhat~s+(api~s+keys?|tokens?|credentials|secrets?)~b.{0,30}~b(do~s+you|have|access)~b''),
      (''SENT-005'', rx ''(?i)~b(malware|ransomware|trojan|rootkit|keylogger)~b''),
      (''SENT-006'', rx ''(?i)~b(ddos|botnet|exploit~s+kit|zero.?day|0day|vulnerability)~b''),
      (''SENT-007'', rx ''(?i)~b(phishing|credential~s+harvest|spear.?phish)~b''),
      (''SENT-008'', rx ''(?ix)~b(?:run|execute|exec(?:ute)?|eval|system|powershell|bash|sh|cmd|terminal)~b.{0,40}~b(?:code|command|script|shell|curl|wget|pip|npm|apt(?:-get)?|chmod|chown|rm~s+-rf)~b''),
      (''SENT-008B'', rx ''(?ix)~b(?:exec|eval|system)~s*~(~s*[~x27~x22]''),
      (''SENT-008C'', rx ''(?ix)~b(?:os~.system|subprocess~.(?:run|popen)|Runtime~.exec)~b''),
      (''SENT-008D'', rx ''(?i)~bcall~s+tool~s*[:=]~s*~w+''),
      (''SENT-008E'', rx ''(?i)~bExecute~s*:~s*.{0,60}~b(passwd|shadow|hosts|bashrc|ssh|wget|curl|cat~s+/)~b''),
      (''SENT-008F'', rx ''(?i)~bcat~s+/~w+''),
      (''SENT-009'', rx ''(?ix)~b(?:override|bypass|disable|ignore|disregard|break|remove)~b.{0,40}~b(?:safety|guardrails|policy|rules|filters|constraints)~b'')]"

definition injection_rules_override :: "(string \<times> string) list" where
  "injection_rules_override = [
      (''SENT-009B'', rx ''(?ix)~b(?:as~s+(?:your|the)~s+)?(?:creator|developer|admin|root|system)~b.{0,30}~b(?:i~s+(?:order|command)|you~s+must|override)~b''),
      (''SENT-009C'', rx ''(?ix)~byou~s+are~s+(?:now~s+)?(?:root|admin|developer|system|creator)~b''),
      (''SENT-009D'', rx ''(?ix)~brespond~b.{0,20}~bwithout~b.{0,20}~b(?:restrictions?|filters?|guardrails?|rules?)~b''),
      (''SENT-001B'', rx ''(?i)~b(please~s+ignore|kindly~s+ignore|disregard~s+all~s+prior|ignore~s+all~s+prior)~b''),
      (''SENT-001C'', rx ''(?i)i[~s._-]*g[~s._-]*n[~s._-]*o[~s._-]*r[~s._-]*e[~s._-]+p[~s._-]*r[~s._-]*e[~s._-]*v[~s._-]*i[~s._-]*o[~s._-]*u[~s._-]*s''),
      (''SENT-001D'', rx ''(?i)(ignore_previous|IgnorePrevious|IGNOREPREVIOUS)''),
      (''SENT-001E'', rx ''(?i)ignore_all_previous|ignore_previous_instructions|reveal_system_prompt''),
      (''SENT-001F'', rx ''(?i)~b(pretty~s+please|sugar~s+on~s+top|with~s+respect|kindly~s+bypass)~b.{0,60}~b(ignore|bypass|disable|override)~b''),
      (''SENT-001G'', rx ''(?ix)~bignore~b.{0,8}~b(?:all~s+)?(?:prior|previous)~b.{0,8}~binstructions?~b''),
      (''SENT-002B'', rx ''(?i)~b(i~s+am~s+your~s+(administrator|admin|operator|owner))~b.{0,40}~b(switch|enable|activate|unrestricted|admin~s+mode)~b''),
      (''SENT-002C'', rx ''(?i)^~s*SYSTEM~s*:~s*(you~s+are|ignore|disable|override)''),
      (''SENT-003B'', rx ''(?i)~b(developer~s+mode|dev~s+mode|bypass~s+all|no~s+restrictions|without~s+restrictions|remove~s+all~s+restrictions)~b''),
      (''SENT-003C'', rx ''(?i)~bsimulate~b.{0,30}~b(no~s+filters|no~s+restrictions|without~s+guidelines)~b''),
      (''SENT-003D'', rx ''(?i)~b(rules?~s+are~s+inverted|as~s+if.{0,20}rules?~s+inverted|invert.{0,20}rules?)~b''),
      (''SENT-003E'', rx ''(?i)~b(in~s+a~s+stor[yi]|in~s+a~s+fictional|in~s+a~s+hypothetical|in~s+a~s+world~s+where)~b.{0,60}~b(no~s+rules?|no~s+restrictions?|no~s+guidelines?|bypass|unrestricted)~b''),
      (''SENT-003F'', rx ''(?i)~b(let.s~s+play~s+a~s+game|play~s+a~s+game~s+where)~b.{0,60}~b(no~s+guidelines?|no~s+rules?|pretend|unrestricted)~b''),
      (''SENT-003G'', rx ''(?ix)~b(?:unconstrained|unrestricted|without~s+(?:limits|constraints)|no~s+(?:constraints|rules|restrictions))~b''),
      (''SENT-010A'', rx ''(?i)~bwhat~s+(is|are)~s+your~s+(system~s+)?(prompt|instruction|guideline|rule)s?~b''),
      (''SENT-010B'', rx ''(?i)~b(dump|print|show|reveal|display)~s+(all~s+)?(internal~s+)?(instruction|secret|guideline|rule|prompt|config)s?~b'')]"

definition injection_rules_v36 :: "(string \<times> string) list" where
  "injection_rules_v36 = [
      (''SENT-011A'', rx ''(?ix)~bhypothetically~b.{0,40}~b(no|without|ignore|bypass).{0,30}~b(safety|guideline|rule|restriction|governance)~b''),
      (''SENT-011B'', rx ''(?ix)~b(fictional|story|roleplay|imagine|pretend)~b.{0,60}~b(ignore|bypass|override|disregard).{0,40}~b(governance|rule|safety|guideline)~b''),
      (''SENT-011C'', rx ''(?ix)~b(if|what.*if)~s+you~s+(had~s+no|were~s+without|didn.t~s+have|lacked).{0,40}~b(rule|safety|guideline|restriction)~b''),
      (''SENT-012A'', rx ''(?ix)~b(call|invoke|use|run)~b.{0,30}~b(shell|bash|cmd|terminal|tool)~b.{0,60}~b(rm~s+-rf|del~s+/|chmod|mkfs|dd|shutdown)~b''),
      (''SENT-012B'', rx ''(?ix)~b(code~s+execution|execute~s+code|execution~s+capability|capability).{0,60}~b(exfiltrat|environment|credential|secret|token|api~s+key)~b''),
      (''SENT-012C'', rx ''(?ix)~b(environment~s+variables?|process~.env|os~.environ|getenv).{0,40}~b(dump|show|print|reveal|send|exfil)~b''),
      (''SENT-013A'', rx ''(?ix)~bjust~s+this~s+once~b.{0,60}~b(exception|rule|guideline|override|ignore|bypass)~b''),
      (''SENT-013B'', rx ''(?ix)~bmake~s+an~s+exception~b.{0,40}~b(to~s+your~s+)?(rule|guideline|policy)~b''),
      (''SENT-015A'', rx ''(?ix)~bwhat~s+(model|version).{0,30}~b(you|are|based~s+on|running|powered|built)~b''),
      (''SENT-015B'', rx ''(?ix)~bwhat~s+(version|release).{0,40}~b(governance|spine|sentinel|corridor|overwatch|system)~b''),
      (''SENT-015C'', rx ''(?i)~bwhat~s+(architecture|framework|stack|pipeline)~b''),
      (''SENT-CMD-001'', rx ''(?i)~bdump~b.{0,10}~b(config|env|key|secret|token|credential)~b''),
      (''SENT-CMD-002'', rx ''(?i)/api/(admin|internal|secret|debug|config|raw|v~d+)''),
      (''SENT-CMD-003'', rx ''(?ix)~b(show|reveal|print|echo|expose|list)~b.{0,20}~b(key|token|secret|route|config)~b'')]"

definition injection_rules_cmd :: "(string \<times> string) list" where
  "injection_rules_cmd = [
      (''SENT-CMD-004'', rx ''(?ix)~b(role|grant|escalate)~b.{0,15}~b(admin|root|operator|superuser)~b''),
      (''SENT-CMD-005'', rx ''(?ix)~b(tool|function|call|invoke|execute|run)~b.{0,20}~b(shell|bash|system|exec|eval)~b''),
      (''SENT-CMD-006'', rx ''(?ix)~b(bypass|skip|ignore)~b.{0,20}~b(auth|governance|gate|haap|sentinel)~b''),
      (''SENT-CMD-007'', rx ''(?ix)~b(list|dump|show)~s+(all~s+)?(endpoint|route|api~s*route|handler)s?~b''),
      (''SENT-CMD-008'', rx ''(?ix)~b(promote|elevate|sudo|su)~b.{0,20}~b(privilege|access|level|role)~b''),
      (''SENT-CMD-009'', rx ''(?ix)~b(enumerate|iterate|list)~b.{0,30}~b(function|method|endpoint|tool|command|capability)s?~b''),
      (''SENT-CMD-010'', rx ''(?i)~bexecute~s+(as|with)~s+(admin|root|operator|system)~b'')]"

definition injection_patterns :: "(string \<times> string) list" where
  "injection_patterns = injection_rules_base @ injection_rules_override @ injection_rules_v36 @
     injection_rules_cmd"

definition blocklist_patterns :: "(string \<times> string) list" where
  "blocklist_patterns = [
      (''SENT-BL-001'', rx ''(?i)~bsudo~b''),
      (''SENT-BL-002'', rx ''(?i)~bpassword~s*[:=]~s*~S+''),
      (''SENT-BL-003'', rx ''(?i)~bapi[_~s]?key~s*[:=]~s*~S+'')]"

definition encoding_patterns :: "(string \<times> string) list" where
  "encoding_patterns = [
      (''SENT-ENC-001'', rx ''(?:0x[0-9a-fA-F]{2}~s*){8,}''),
      (''SENT-ENC-002'', rx ''(?:%[0-9a-fA-F]{2}){6,}'')]"

text \<open>The first rule of a table that matches.\<close>

definition first_match :: "(string \<Rightarrow> bool) \<Rightarrow> (string \<times> string) list \<Rightarrow> string option" where
  "first_match matches rules = map_option fst (find (\<lambda>(_, p). matches p) rules)"

lemma find_None_ball: "find P xs = None \<longleftrightarrow> (\<forall>x \<in> set xs. \<not> P x)"
  by (auto simp: find_None_iff)

lemma first_match_None:
  "first_match m rules = None \<longleftrightarrow> (\<forall>(r, p) \<in> set rules. \<not> m p)"
  by (auto simp: first_match_def find_None_ball)

section \<open>Normalisation\<close>

definition interpuncts :: "nat set" where
  "interpuncts = {0x00B7, 0x2022, 0x2219, 0x22C5, 0x2027, 0xFF65}"

definition zero_widths :: "nat set" where
  "zero_widths = {0x200B, 0x200C, 0x200D, 0x2060, 0xFEFF, 0x00AD}"

definition strip_chars :: "nat set \<Rightarrow> string \<Rightarrow> string" where
  "strip_chars S s = concat (filter (\<lambda>ch. codepoint ch \<notin> S) (uchars s))"

definition normalize_unicode :: "string \<Rightarrow> string" where
  "normalize_unicode s = strip_chars zero_widths (strip_chars interpuncts s)"

definition detect_zero_width :: "string \<Rightarrow> bool" where
  "detect_zero_width s \<longleftrightarrow> (\<exists>ch \<in> set (uchars s). codepoint ch \<in> zero_widths)"

definition ascii_letter :: "string \<Rightarrow> bool" where
  "ascii_letter ch \<longleftrightarrow> length ch = 1 \<and> is_ascii_alphabetic (hd ch)"

definition detect_homoglyphs :: "string \<Rightarrow> bool" where
  "detect_homoglyphs s \<longleftrightarrow>
     (let chs = set (uchars s);
          has_ascii = (\<exists>ch \<in> chs. ascii_letter ch);
          has_cyrillic = (\<exists>ch \<in> chs. 0x0400 \<le> codepoint ch \<and> codepoint ch \<le> 0x04FF);
          has_greek = (\<exists>ch \<in> chs. 0x0370 \<le> codepoint ch \<and> codepoint ch \<le> 0x03FF)
      in (has_greek \<or> has_cyrillic) \<and> has_ascii)"

definition normalize_l33t :: "externs \<Rightarrow> string \<Rightarrow> string" where
  "normalize_l33t X s = (replace_char CHR ''@'' CHR ''a'' \<circ> replace_char CHR ''$'' CHR ''s'' \<circ>
     replace_char CHR ''7'' CHR ''t'' \<circ> replace_char CHR ''0'' CHR ''o'' \<circ>
     replace_char CHR ''5'' CHR ''s'' \<circ> replace_char CHR ''4'' CHR ''a'' \<circ>
     replace_char CHR ''3'' CHR ''e'' \<circ> replace_char CHR ''1'' CHR ''i'') (lowercase X s)"

definition leet_suspect :: "string \<Rightarrow> bool" where
  "leet_suspect token =
     (let leet_count = length (filter (\<lambda>ch. ch \<in> set [''1'', ''3'', ''4'', ''5'', ''0'', ''7'',
            ''$'', ''@'']) (uchars token))
      in 6 \<le> length token \<and> leet_count \<noteq> 0 \<and>
         (f32_lit (20 / 100) \<le> f32_div (f32_of_nat leet_count) (f32_of_nat (length token)) \<or>
          2 \<le> leet_count))"

definition leet_evidence_score :: "string \<Rightarrow> nat" where
  "leet_evidence_score s = length (filter leet_suspect (split_whitespace s))"

text \<open>\<open>from_utf8\<close> accepts well-formed UTF-8 only.\<close>

definition cont :: "char \<Rightarrow> bool" where
  "cont c \<longleftrightarrow> 128 \<le> byte c \<and> byte c \<le> 191"

definition utf8_char_ok :: "string \<Rightarrow> bool" where
  "utf8_char_ok ch = (case ch of
       [a] \<Rightarrow> byte a < 128
     | [a, b] \<Rightarrow> 194 \<le> byte a \<and> byte a \<le> 223 \<and> cont b
     | [a, b, c] \<Rightarrow> 224 \<le> byte a \<and> byte a \<le> 239 \<and> cont b \<and> cont c \<and>
         (byte a = 224 \<longrightarrow> 160 \<le> byte b) \<and> (byte a = 237 \<longrightarrow> byte b \<le> 159)
     | [a, b, c, d] \<Rightarrow> 240 \<le> byte a \<and> byte a \<le> 244 \<and> cont b \<and> cont c \<and> cont d \<and>
         (byte a = 240 \<longrightarrow> 144 \<le> byte b) \<and> (byte a = 244 \<longrightarrow> byte b \<le> 143)
     | _ \<Rightarrow> False)"

definition utf8_valid :: "string \<Rightarrow> bool" where
  "utf8_valid s \<longleftrightarrow> list_all utf8_char_ok (uchars s)"

definition decode_text :: "externs \<Rightarrow> string \<Rightarrow> string option" where
  "decode_text X s = (case base64_decode X s of
       None \<Rightarrow> None | Some d \<Rightarrow> if utf8_valid d then Some d else None)"

definition base64_char :: "string \<Rightarrow> bool" where
  "base64_char ch \<longleftrightarrow> length ch = 1 \<and>
     (is_ascii_alphanumeric (hd ch) \<or> hd ch \<in> set [CHR ''+'', CHR ''/'', CHR ''=''])"

definition try_decode_base64 :: "externs \<Rightarrow> string \<Rightarrow> string option" where
  "try_decode_base64 X s =
     (let trimmed = trim s
      in if length trimmed < 20 then None
         else if \<not> list_all base64_char (uchars trimmed) then None
         else decode_text X trimmed)"

section \<open>Inspection\<close>

definition max_payload_bytes :: nat where
  "max_payload_bytes = 32768"

definition injection_class :: "string \<Rightarrow> string" where
  "injection_class r =
     (if r \<in> set [''SENT-008'', ''SENT-008B'', ''SENT-008C'', ''SENT-012A'', ''SENT-012B'',
            ''SENT-012C''] then ''TOOL_MISUSE''
      else if r \<in> set [''SENT-009'', ''SENT-009B'', ''SENT-009C''] then ''AUTHORITY_SPOOFING''
      else if r \<in> set [''SENT-004'', ''SENT-004B'', ''SENT-010A'', ''SENT-010B'']
        then ''MODEL_EXTRACTION''
      else if r \<in> set [''SENT-015A'', ''SENT-015B'', ''SENT-015C''] then ''RECONNAISSANCE''
      else if r \<in> set [''SENT-011A'', ''SENT-011B'', ''SENT-011C'']
        then ''HYPOTHETICAL_JAILBREAK''
      else if r \<in> set [''SENT-013A'', ''SENT-013B''] then ''EXCEPTION_PERSUASION''
      else if r \<in> set [''SENT-CMD-001'', ''SENT-CMD-002'', ''SENT-CMD-003'', ''SENT-CMD-006'',
            ''SENT-CMD-007'', ''SENT-CMD-010''] then ''CMD_INJECTION''
      else if r \<in> set [''SENT-CMD-004'', ''SENT-CMD-008''] then ''AUTHORITY_SPOOFING''
      else if r = ''SENT-CMD-005'' then ''TOOL_MISUSE''
      else if r = ''SENT-CMD-009'' then ''MODEL_EXTRACTION''
      else ''INJECTION_ATTEMPT'')"

definition leet_rule :: "externs \<Rightarrow> string \<Rightarrow> string option" where
  "leet_rule X normalized_unicode =
     (let normalized = normalize_l33t X normalized_unicode
      in if normalized \<noteq> lowercase X normalized_unicode \<and>
            2 \<le> leet_evidence_score normalized_unicode
         then first_match (\<lambda>p. regex_match X p normalized) injection_patterns else None)"

definition base64_rule :: "externs \<Rightarrow> string \<Rightarrow> string option" where
  "base64_rule X payload = Option.bind (try_decode_base64 X payload)
     (\<lambda>decoded. first_match (\<lambda>p. regex_match X p decoded) injection_patterns)"

definition injection_rule :: "externs \<Rightarrow> string \<Rightarrow> string \<Rightarrow> string option" where
  "injection_rule X payload normalized_unicode =
     first_match (\<lambda>p. regex_match X p payload \<or> regex_match X p normalized_unicode)
       injection_patterns"

definition sentinel_finding :: "externs \<Rightarrow> string \<Rightarrow> finding option" where
  "sentinel_finding X payload =
     (let u = normalize_unicode payload;
          enc = ''sentinel/encoding_anomaly''
      in if max_payload_bytes < length payload
         then Some (''SIZE_EXCEEDED'', ''SENT-SIZE-001'', SevLow, f32_lit (70 / 100),
                ''sentinel/size_limit'')
         else if detect_zero_width u
         then Some (''ZERO_WIDTH_CHARS'', ''SENT-ZW-001'', SevHigh, f32_lit (90 / 100), enc)
         else if detect_homoglyphs u
         then Some (''HOMOGLYPH_OBFUSCATION'', ''SENT-HG-001'', SevHigh, f32_lit (85 / 100), enc)
         else case leet_rule X u of
           Some r \<Rightarrow> Some (''L33T_OBFUSCATION'', r, SevHigh, f32_lit (88 / 100), enc)
         | None \<Rightarrow> (case base64_rule X payload of
           Some r \<Rightarrow> Some (''BASE64_INJECTION'', r, SevHigh, f32_lit (92 / 100), enc)
         | None \<Rightarrow> (case first_match (\<lambda>p. regex_match X p payload) blocklist_patterns of
           Some r \<Rightarrow> Some (''BLOCKLIST_MATCH'', r, SevHigh, f32_lit (90 / 100),
                ''sentinel/blocklist'')
         | None \<Rightarrow> (case injection_rule X payload u of
           Some r \<Rightarrow> Some (injection_class r, r, SevHigh, f32_lit (88 / 100),
                ''sentinel/injection_detection'')
         | None \<Rightarrow> map_option (\<lambda>r. (''ENCODING_ANOMALY'', r, SevMedium, f32_lit (75 / 100), enc))
                (first_match (\<lambda>p. regex_match X p payload) encoding_patterns)))))"

text \<open>The signal of a finding, shared by the layers that report at most one.\<close>

definition signal_of_finding :: "externs \<Rightarrow> signal_source \<Rightarrow> direction \<Rightarrow> string \<Rightarrow> string \<Rightarrow>
    finding option \<Rightarrow> world \<Rightarrow> signal \<times> world" where
  "signal_of_finding X src dir sid hash f w = (case f of
       None \<Rightarrow> clean_signal X w src dir sid hash
     | Some (cls, rule, sev, conf, cref) \<Rightarrow>
         build_signal X w src dir sid cls rule sev conf hash cref)"

definition sentinel_inspect :: "externs \<Rightarrow> string \<Rightarrow> direction \<Rightarrow> string \<Rightarrow> world \<Rightarrow>
    signal \<times> world" where
  "sentinel_inspect X payload dir sid w =
     signal_of_finding X signal_source.Sentinel dir sid (compute_hash X payload)
       (sentinel_finding X payload) w"

lemma signal_of_finding_fields [simp]:
  "sg_session_id (fst (signal_of_finding X src dir sid h f w)) = sid"
  "sg_direction (fst (signal_of_finding X src dir sid h f w)) = dir"
  "sg_severity (fst (signal_of_finding X src dir sid h f w)) =
     (case f of None \<Rightarrow> SevNone | Some (_, _, sev, _, _) \<Rightarrow> sev)"
  "sg_violation_class (fst (signal_of_finding X src dir sid h f w)) = map_option fst f"
  "0 \<le> sg_confidence (fst (signal_of_finding X src dir sid h f w))"
  by (auto simp: signal_of_finding_def f32_clamp01_range split: option.splits prod.splits)

lemma signal_of_finding_world [simp]: "world_le w (snd (signal_of_finding X src dir sid h f w))"
  by (auto simp: signal_of_finding_def split: option.split)

section \<open>Properties\<close>

text \<open>Removing characters from a string leaves a string of the remaining characters.\<close>

fun chars_ok :: "string list \<Rightarrow> bool" where
  "chars_ok [] = True"
| "chars_ok [ch] = (ch \<noteq> [] \<and> length ch \<le> utf8_len (hd ch))"
| "chars_ok (ch # d # cs) = (ch \<noteq> [] \<and> length ch = utf8_len (hd ch) \<and> chars_ok (d # cs))"

lemma chars_ok_uchars: "chars_ok (uchars s)"
proof (induction s rule: uchars.induct)
  case (2 c cs)
  show ?case
  proof (cases "drop (utf8_len c) (c # cs)")
    case Nil
    then show ?thesis using utf8_len_pos [of c] by simp
  next
    case (Cons d ds)
    then have "utf8_len c < length (c # cs)"
      by (metis drop_all list.discI not_less)
    with 2 Cons utf8_len_pos [of c] show ?thesis by (simp add: hd_take)
  qed
qed simp

lemma chars_ok_Cons: "chars_ok (ch # cs) \<Longrightarrow> chars_ok cs"
  by (cases cs) simp_all

lemma chars_ok_filter: "chars_ok cs \<Longrightarrow> chars_ok (filter P cs)"
proof (induction cs)
  case (Cons ch cs)
  note IH = Cons.IH [OF chars_ok_Cons [OF Cons.prems]]
  show ?case
  proof (cases "P ch \<and> cs \<noteq> []")
    case True
    then have "ch \<noteq> []" "length ch = utf8_len (hd ch)"
      using Cons.prems by (cases cs; simp)+
    with IH True show ?thesis by (cases "filter P cs") simp_all
  qed (use IH Cons.prems in auto)
qed simp

lemma uchars_concat: "chars_ok cs \<Longrightarrow> uchars (concat cs) = cs"
proof (induction cs rule: chars_ok.induct)
  case (2 ch)
  then show ?case by (cases ch) auto
next
  case (3 ch d cs)
  then obtain c r where ch: "ch = c # r" by (cases ch) auto
  with "3.prems" have "utf8_len c = Suc (length r)" by simp
  with 3 ch show ?case by simp
qed simp

lemma uchars_strip: "uchars (strip_chars S s) = filter (\<lambda>ch. codepoint ch \<notin> S) (uchars s)"
  by (simp add: strip_chars_def uchars_concat chars_ok_filter chars_ok_uchars)

lemma zero_width_never_detected: "\<not> detect_zero_width (normalize_unicode s)"
  by (simp add: detect_zero_width_def normalize_unicode_def uchars_strip)

lemma zero_width_rule_never_fires:
  "sentinel_finding X payload \<noteq> Some (''ZERO_WIDTH_CHARS'', r, sev, conf, cref)"
proof -
  have "injection_class i \<noteq> ''ZERO_WIDTH_CHARS''" for i by (simp add: injection_class_def)
  then show ?thesis
    by (auto simp: sentinel_finding_def Let_def zero_width_never_detected split: option.splits)
qed

text \<open>What the rules find, when the payload is short enough for them to run.\<close>

lemma sentinel_finding_none:
  "sentinel_finding X payload = None \<longleftrightarrow>
     length payload \<le> 32768 \<and> \<not> detect_homoglyphs (normalize_unicode payload) \<and>
     leet_rule X (normalize_unicode payload) = None \<and> base64_rule X payload = None \<and>
     first_match (\<lambda>p. regex_match X p payload) blocklist_patterns = None \<and>
     injection_rule X payload (normalize_unicode payload) = None \<and>
     first_match (\<lambda>p. regex_match X p payload) encoding_patterns = None"
  by (auto simp: sentinel_finding_def Let_def zero_width_never_detected max_payload_bytes_def
      split: option.splits)

lemma injection_class_not_size: "injection_class r \<noteq> ''SIZE_EXCEEDED''"
  by (simp add: injection_class_def)

lemma sentinel_severity:
  "sg_severity (fst (sentinel_inspect X payload dir sid w)) =
     (if 32768 < length payload then SevLow
      else if \<not> detect_homoglyphs (normalize_unicode payload) \<and>
        leet_rule X (normalize_unicode payload) = None \<and> base64_rule X payload = None \<and>
        first_match (\<lambda>p. regex_match X p payload) blocklist_patterns = None \<and>
        injection_rule X payload (normalize_unicode payload) = None
      then (if first_match (\<lambda>p. regex_match X p payload) encoding_patterns = None
        then SevNone else SevMedium)
      else SevHigh)"
  by (auto simp: sentinel_inspect_def sentinel_finding_def Let_def zero_width_never_detected
      max_payload_bytes_def split: option.splits)

lemma sentinel_class:
  "sg_violation_class (fst (sentinel_inspect X payload dir sid w)) = Some ''SIZE_EXCEEDED'' \<longleftrightarrow>
     32768 < length payload"
  "sg_violation_class (fst (sentinel_inspect X payload dir sid w)) \<noteq> Some ''ZERO_WIDTH_CHARS''"
proof -
  show "sg_violation_class (fst (sentinel_inspect X payload dir sid w)) = Some ''SIZE_EXCEEDED'' \<longleftrightarrow>
      32768 < length payload"
    by (auto simp: sentinel_inspect_def sentinel_finding_def Let_def injection_class_not_size
        max_payload_bytes_def split: option.splits)
  show "sg_violation_class (fst (sentinel_inspect X payload dir sid w)) \<noteq> Some ''ZERO_WIDTH_CHARS''"
  proof (cases "sentinel_finding X payload")
    case (Some f)
    obtain c r sev conf cref where "f = (c, r, sev, conf, cref)" by (metis prod_cases5)
    with Some zero_width_rule_never_fires [of X payload r sev conf cref] show ?thesis
      by (auto simp: sentinel_inspect_def)
  qed (simp add: sentinel_inspect_def)
qed

text \<open>
  Claim C39: Sentinel reports nothing exactly when the payload is at most 32768 bytes and none of
  its rule groups matches: no mixed-script letters, no injection rule on the leet-normalised or
  Base64-decoded form, no blocklist or encoding rule on the payload, and no injection rule on the
  payload or on the payload without interpuncts and zero-width characters. A larger payload, and no
  other, is reported as \<open>SIZE_EXCEEDED\<close>, with severity \<open>Low\<close> whatever the rules would say of it. Of
  the others, a match of any group but the encoding rules is reported with severity \<open>High\<close>, and a
  match of the encoding rules alone with severity \<open>Medium\<close>; zero-width characters never lead to a
  report of their own.
\<close>

theorem sentinel_clean_iff:
  "(is_clean (fst (sentinel_inspect X payload dir sid w)) \<longleftrightarrow>
     length payload \<le> 32768 \<and> \<not> detect_homoglyphs (normalize_unicode payload) \<and>
     leet_rule X (normalize_unicode payload) = None \<and> base64_rule X payload = None \<and>
     list_all (\<lambda>(r, p). \<not> regex_match X p payload) blocklist_patterns \<and>
     list_all (\<lambda>(r, p). \<not> regex_match X p payload \<and>
       \<not> regex_match X p (normalize_unicode payload)) injection_patterns \<and>
     list_all (\<lambda>(r, p). \<not> regex_match X p payload) encoding_patterns) \<and>
   sg_severity (fst (sentinel_inspect X payload dir sid w)) =
     (if 32768 < length payload then SevLow
      else if \<not> detect_homoglyphs (normalize_unicode payload) \<and>
        leet_rule X (normalize_unicode payload) = None \<and> base64_rule X payload = None \<and>
        list_all (\<lambda>(r, p). \<not> regex_match X p payload) blocklist_patterns \<and>
        list_all (\<lambda>(r, p). \<not> regex_match X p payload \<and>
          \<not> regex_match X p (normalize_unicode payload)) injection_patterns
      then (if list_all (\<lambda>(r, p). \<not> regex_match X p payload) encoding_patterns
        then SevNone else SevMedium)
      else SevHigh) \<and>
   (sg_violation_class (fst (sentinel_inspect X payload dir sid w)) = Some ''SIZE_EXCEEDED'' \<longleftrightarrow>
     32768 < length payload) \<and>
   sg_violation_class (fst (sentinel_inspect X payload dir sid w)) \<noteq> Some ''ZERO_WIDTH_CHARS''"
proof -
  note rules = first_match_None injection_rule_def list_all_iff
  have "is_clean (fst (sentinel_inspect X payload dir sid w)) \<longleftrightarrow> sentinel_finding X payload = None"
    by (auto simp: sentinel_inspect_def is_clean_def sentinel_finding_def Let_def
        split: option.splits if_splits)
  then have clean: "is_clean (fst (sentinel_inspect X payload dir sid w)) \<longleftrightarrow>
     length payload \<le> 32768 \<and> \<not> detect_homoglyphs (normalize_unicode payload) \<and>
     leet_rule X (normalize_unicode payload) = None \<and> base64_rule X payload = None \<and>
     list_all (\<lambda>(r, p). \<not> regex_match X p payload) blocklist_patterns \<and>
     list_all (\<lambda>(r, p). \<not> regex_match X p payload \<and>
       \<not> regex_match X p (normalize_unicode payload)) injection_patterns \<and>
     list_all (\<lambda>(r, p). \<not> regex_match X p payload) encoding_patterns"
    by (simp add: sentinel_finding_none rules)
  show ?thesis
    by (intro conjI clean sentinel_class) (simp add: sentinel_severity rules)
qed

end
