(* ===== verification/Constitution.thy ===== *)
theory Constitution
  imports Sentinel
begin

text \<open>
  \<open>constitution.rs\<close>: the constitutional document, its integrity hash, the verified load that is
  the trust boundary for it, and the deterministic evaluator of payloads.

  \<open>serde_json\<close> is an argument: \<open>ser\<close> renders a document, \<open>parse\<close> reads one or fails with a
  message. The theorem: what a document that loads must satisfy, and that nothing else is asked.
\<close>

section \<open>Documents\<close>

datatype constitution_error = ConstParseError string | ConstHashMismatch
  | ConstMissingField string | ConstRegexError string

datatype constitution_load_error = LoadMissingSignature | LoadMalformedSignature
  | LoadSignatureInvalid | LoadMalformedJson string | LoadMissingField string
  | LoadInvalidValidityPeriod string | LoadProfileMismatch string string

record tone_constraints =
  no_political_bias :: bool
  no_religious_endorsement :: bool
  no_competitor_promotion :: bool

record escalation_thresholds =
  esc_low :: f32
  esc_medium :: f32
  esc_high :: f32
  esc_critical :: f32

definition default_escalation_thresholds :: escalation_thresholds where
  "default_escalation_thresholds = \<lparr>esc_low = f32_lit (4 / 10), esc_medium = f32_lit (6 / 10),
     esc_high = f32_lit (75 / 100), esc_critical = f32_lit (90 / 100)\<rparr>"

record constitution =
  cn_constitution_id :: string
  cn_client_id :: string
  cn_policy_version :: string
  cn_industry_profile :: string
  cn_effective_at :: int
  cn_expires_at :: "int option"
  cn_prohibited_categories :: "string list"
  cn_prohibited_patterns :: "string list"
  cn_required_deferrals :: "string list"
  cn_tone_constraints :: tone_constraints
  cn_tool_permissions :: "string hashmap"
  cn_escalation_thresholds :: escalation_thresholds
  cn_max_response_scope :: "string option"
  cn_constitutional_hash :: "string option"

definition constitution_from_json :: "(string \<Rightarrow> string + constitution) \<Rightarrow> string \<Rightarrow>
    constitution_error + constitution" where
  "constitution_from_json parse json =
     (case parse json of Inl e \<Rightarrow> Inl (ConstParseError e) | Inr c \<Rightarrow> Inr c)"

definition document_hash :: "externs \<Rightarrow> (constitution \<Rightarrow> string) \<Rightarrow> constitution \<Rightarrow> string" where
  "document_hash X ser c = compute_hash X (ser (c\<lparr>cn_constitutional_hash := None\<rparr>))"

definition constitution_seal :: "externs \<Rightarrow> (constitution \<Rightarrow> string) \<Rightarrow> constitution \<Rightarrow>
    constitution" where
  "constitution_seal X ser c = c\<lparr>cn_constitutional_hash := Some (document_hash X ser c)\<rparr>"

definition verify_integrity :: "externs \<Rightarrow> (constitution \<Rightarrow> string) \<Rightarrow> constitution \<Rightarrow> bool" where
  "verify_integrity X ser c = (case cn_constitutional_hash c of
       Some stored \<Rightarrow> document_hash X ser c = stored
     | None \<Rightarrow> False)"

lemma seal_verifies: "verify_integrity X ser (constitution_seal X ser c)"
  by (simp add: verify_integrity_def constitution_seal_def document_hash_def)

text \<open>The document of the tests and demos, sealed; \<open>2020-01-01T00:00:00Z\<close> in seconds.\<close>

definition default_medical :: "externs \<Rightarrow> (constitution \<Rightarrow> string) \<Rightarrow> constitution" where
  "default_medical X ser = constitution_seal X ser
     \<lparr>cn_constitution_id = ''test_medical_constitution'', cn_client_id = ''test_medical_client'',
      cn_policy_version = ''v1.0.0'', cn_industry_profile = ''medical'',
      cn_effective_at = secs 1577836800, cn_expires_at = None,
      cn_prohibited_categories = [''PII'', ''SYSTEM_PROMPT_EXPOSURE'', ''IP_LEAKAGE''],
      cn_prohibited_patterns = [rx ''(?i)~b~d{3}-~d{2}-~d{4}~b'',
        rx ''(?i)(ignore previous instructions)'', rx ''(?i)(reveal your system prompt)'',
        rx ''(?i)(you are now|pretend you are|act as if)''],
      cn_required_deferrals = [''specific dosage recommendations'', ''diagnosis confirmation'',
        ''prescription decisions''],
      cn_tone_constraints = \<lparr>no_political_bias = True, no_religious_endorsement = True,
        no_competitor_promotion = True\<rparr>,
      cn_tool_permissions = [(''calculator'', ''allowed''), (''filesystem_write'', ''restricted''),
        (''external_http'', ''restricted'')],
      cn_escalation_thresholds = default_escalation_thresholds,
      cn_max_response_scope = Some ''informational_only'', cn_constitutional_hash = None\<rparr>"

text \<open>The checks of \<open>load_verified\<close> on a parsed document, in the order of the code.\<close>

definition check_document :: "externs \<Rightarrow> string \<Rightarrow> int \<Rightarrow> constitution \<Rightarrow>
    constitution_load_error + unit" where
  "check_document X profile t c =
     (if blank (cn_constitution_id c) then Inl (LoadMissingField ''constitution_id'')
      else if blank (cn_policy_version c) then Inl (LoadMissingField ''policy_version'')
      else if t < cn_effective_at c
      then Inl (LoadInvalidValidityPeriod
             (''effective_at '' @ show_time X (cn_effective_at c) @ '' is in the future''))
      else ebind
        (case cn_expires_at c of
           None \<Rightarrow> Inr ()
         | Some e \<Rightarrow>
             if e \<le> t then Inl (LoadInvalidValidityPeriod
               (''expires_at '' @ show_time X e @ '' has already passed''))
             else if e \<le> cn_effective_at c
             then Inl (LoadInvalidValidityPeriod ''expires_at must be after effective_at'')
             else Inr ())
        (\<lambda>_. guard_ok (cn_industry_profile c = profile)
               (LoadProfileMismatch profile (cn_industry_profile c))))"

definition load_verified :: "externs \<Rightarrow> (string \<Rightarrow> string + constitution) \<Rightarrow> string \<Rightarrow> string \<Rightarrow>
    string \<Rightarrow> string \<Rightarrow> int \<Rightarrow> constitution_load_error + constitution" where
  "load_verified X parse json_bytes signature_hex key profile t =
     (let sig_hex = trim signature_hex
      in if sig_hex = [] then Inl LoadMissingSignature
         else case hex_decode X sig_hex of
           None \<Rightarrow> Inl LoadMalformedSignature
         | Some sig \<Rightarrow>
             if length sig \<noteq> 64 then Inl LoadMalformedSignature
             else if \<not> ed_verify X key json_bytes sig then Inl LoadSignatureInvalid
             else (case parse json_bytes of
                 Inl e \<Rightarrow> Inl (LoadMalformedJson e)
               | Inr c \<Rightarrow> ebind (check_document X profile t c) (\<lambda>_. Inr c)))"

definition trusted_authority_key_hex :: string where
  "trusted_authority_key_hex =
     ''1dba4211f696d9230361a5e0320b6f0e93a24df21aea84f8f1eb8aa127e0fbec''"

text \<open>\<open>None\<close> is the panic on a corrupted constant.\<close>

definition trusted_constitution_authority_key :: "externs \<Rightarrow> string option" where
  "trusted_constitution_authority_key X = (case hex_decode X trusted_authority_key_hex of
       None \<Rightarrow> None
     | Some k \<Rightarrow> if length k = 32 \<and> ed_key_ok X k then Some k else None)"

definition public_key_fingerprint :: "externs \<Rightarrow> string \<Rightarrow> string" where
  "public_key_fingerprint X key = take 16 (compute_hash X (hex_encode X key))"

text \<open>The two reads are arguments, \<open>None\<close> for a missing or unreadable file.\<close>

datatype constitution_path_error = ConstitutionUnreadable | SignatureUnreadable
  | ConstitutionRejected constitution_load_error

definition load_verified_from_paths :: "externs \<Rightarrow> (string \<Rightarrow> string + constitution) \<Rightarrow>
    string option \<Rightarrow> string option \<Rightarrow> string \<Rightarrow> string \<Rightarrow> int \<Rightarrow>
    constitution_path_error + constitution" where
  "load_verified_from_paths X parse json_file sig_file key profile t = (case json_file of
       None \<Rightarrow> Inl ConstitutionUnreadable
     | Some json \<Rightarrow> (case sig_file of
           None \<Rightarrow> Inl SignatureUnreadable
         | Some sig \<Rightarrow> (case load_verified X parse json (trim sig) key profile t of
               Inl e \<Rightarrow> Inl (ConstitutionRejected e) | Inr c \<Rightarrow> Inr c)))"

section \<open>The evaluator\<close>

record constitutional_violation =
  cv_rule_id :: string
  cv_category :: string
  cv_description :: string
  cv_constitutional_ref :: string

record constitutional_verdict =
  cv_violations :: "constitutional_violation list"
  cv_severity :: severity
  cv_confidence :: f32
  cv_payload_hash :: string
  cv_policy_version :: string

record evaluator =
  ev_constitution :: constitution
  ev_patterns :: "(string \<times> string) list"

definition pattern_rule_id :: "nat \<Rightarrow> string" where
  "pattern_rule_id i = ''CONST-PATTERN-'' @ pad_left 3 (show_nat (i + 1))"

definition evaluator_new :: "externs \<Rightarrow> (constitution \<Rightarrow> string) \<Rightarrow> constitution \<Rightarrow>
    constitution_error + evaluator" where
  "evaluator_new X ser c =
     (if cn_constitutional_hash c \<noteq> None \<and> \<not> verify_integrity X ser c
      then Inl ConstHashMismatch
      else ebind (seq_results (map (\<lambda>(i, p). if regex_ok X p then Inr (pattern_rule_id i, p)
                    else Inl (ConstRegexError p)) (enumerate 0 (cn_prohibited_patterns c))))
             (\<lambda>ps. Inr \<lparr>ev_constitution = c, ev_patterns = ps\<rparr>))"

definition word_boundary_match :: "externs \<Rightarrow> string \<Rightarrow> string \<Rightarrow> bool" where
  "word_boundary_match X t term =
     (let pattern = rx ''(?i)~b'' @ regex_escape X term @ rx ''~b''
      in regex_ok X pattern \<and> regex_match X pattern t)"

definition build_verdict :: "evaluator \<Rightarrow> constitutional_violation list \<Rightarrow> string \<Rightarrow>
    constitutional_verdict" where
  "build_verdict ev vs hash =
     (let (sev, conf) =
        (if length vs = 0 then (SevNone, 0)
         else if length vs = 1 then (SevMedium, f32_lit (75 / 100))
         else if length vs = 2 then (SevHigh, f32_lit (85 / 100))
         else (SevCritical, f32_lit (95 / 100)))
      in \<lparr>cv_violations = vs, cv_severity = sev, cv_confidence = conf, cv_payload_hash = hash,
          cv_policy_version = cn_policy_version (ev_constitution ev)\<rparr>)"

definition inbound_violations :: "externs \<Rightarrow> evaluator \<Rightarrow> string \<Rightarrow>
    constitutional_violation list" where
  "inbound_violations X ev payload =
     (let c = ev_constitution ev; v = cn_policy_version c
      in map (\<lambda>(r, p). \<lparr>cv_rule_id = r, cv_category = ''PROHIBITED_PATTERN'',
             cv_description = ''Pattern match: '' @ p,
             cv_constitutional_ref = v @ ''/prohibited_patterns''\<rparr>)
           (filter (\<lambda>(r, p). regex_match X p payload) (ev_patterns ev)) @
         map (\<lambda>cat. \<lparr>cv_rule_id = ''CONST-CAT-'' @ cat, cv_category = ''PROHIBITED_CATEGORY'',
             cv_description = ''Category detected: '' @ cat,
             cv_constitutional_ref = v @ ''/prohibited_categories/'' @ cat\<rparr>)
           (filter (word_boundary_match X payload) (cn_prohibited_categories c)))"

definition evaluate_inbound :: "externs \<Rightarrow> evaluator \<Rightarrow> string \<Rightarrow> constitutional_verdict" where
  "evaluate_inbound X ev payload =
     build_verdict ev (inbound_violations X ev payload) (compute_hash X payload)"

definition political_pattern :: string where
  "political_pattern = rx
     ''(?i)~b(vote for|elect|political party|democrat|republican|liberal|conservative)~b''"

definition religious_pattern :: string where
  "religious_pattern = rx
     ''(?i)~b(convert to|religion is superior|only true faith|god commands you)~b''"

definition tone_violation :: "string \<Rightarrow> string \<Rightarrow> string \<Rightarrow> constitutional_violation" where
  "tone_violation rule description cref = \<lparr>cv_rule_id = rule, cv_category = ''TONE_VIOLATION'',
     cv_description = description, cv_constitutional_ref = cref\<rparr>"

definition outbound_violations :: "externs \<Rightarrow> evaluator \<Rightarrow> string \<Rightarrow>
    constitutional_violation list" where
  "outbound_violations X ev payload =
     (let c = ev_constitution ev; v = cn_policy_version c; tone = cn_tone_constraints c
      in map (\<lambda>(r, p). \<lparr>cv_rule_id = r @ ''-OUT'', cv_category = ''PROHIBITED_OUTPUT'',
             cv_description = ''Output contains prohibited pattern'',
             cv_constitutional_ref = v @ ''/output_policy''\<rparr>)
           (filter (\<lambda>(r, p). regex_match X p payload) (ev_patterns ev)) @
         map (\<lambda>d. \<lparr>cv_rule_id = ''CONST-DEFER-'' @ uppercase X (replace_char CHR '' '' CHR ''_'' d),
             cv_category = ''DEFERRAL_VIOLATION'',
             cv_description = ''Output may be making claim that requires deferral: '' @ d,
             cv_constitutional_ref = v @ ''/required_deferrals''\<rparr>)
           (filter (\<lambda>d. contains (lowercase X payload) (lowercase X d)) (cn_required_deferrals c)) @
         (if no_political_bias tone \<and> regex_match X political_pattern payload
          then [tone_violation ''CONST-TONE-001'' ''Political bias detected in output''
                 (v @ ''/tone_constraints/no_political_bias'')] else []) @
         (if no_religious_endorsement tone \<and> regex_match X religious_pattern payload
          then [tone_violation ''CONST-TONE-002'' ''Religious endorsement detected in output''
                 (v @ ''/tone_constraints/no_religious_endorsement'')] else []))"

definition evaluate_outbound :: "externs \<Rightarrow> evaluator \<Rightarrow> string \<Rightarrow> constitutional_verdict" where
  "evaluate_outbound X ev payload =
     build_verdict ev (outbound_violations X ev payload) (compute_hash X payload)"

definition evaluator_policy_version :: "evaluator \<Rightarrow> string" where
  "evaluator_policy_version ev = cn_policy_version (ev_constitution ev)"

definition evaluator_client_id :: "evaluator \<Rightarrow> string" where
  "evaluator_client_id ev = cn_client_id (ev_constitution ev)"

definition evaluator_thresholds :: "evaluator \<Rightarrow> escalation_thresholds" where
  "evaluator_thresholds ev = cn_escalation_thresholds (ev_constitution ev)"

lemma build_verdict_confidence: "0 \<le> cv_confidence (build_verdict ev vs h)"
  by (simp add: build_verdict_def f32_lit_def f32_round_nonneg)

section \<open>The trust boundary\<close>

lemma check_document_Inr:
  "check_document X profile t c = Inr u \<longleftrightarrow>
     \<not> blank (cn_constitution_id c) \<and> \<not> blank (cn_policy_version c) \<and> cn_effective_at c \<le> t \<and>
     (\<forall>e. cn_expires_at c = Some e \<longrightarrow> t < e) \<and> cn_industry_profile c = profile"
  by (auto simp: check_document_def ebind_Inr_iff split: option.splits if_splits)

text \<open>
  Claim C38: a constitution is accepted exactly when its trimmed detached signature is the hex of
  64 bytes that verify, under the given authority key, over the raw bytes of the document, the
  bytes parse to it, its identifier and version are not blank, it is in force at that time (not
  before its effective date, strictly before its expiry), and its industry profile is the
  expected one. In particular no document is accepted on the strength of anything it contains.
\<close>

theorem constitution_accepted_iff:
  "load_verified X parse json signature_hex key profile t = Inr c \<longleftrightarrow>
     trim signature_hex \<noteq> [] \<and>
     (\<exists>sig. hex_decode X (trim signature_hex) = Some sig \<and> length sig = 64 \<and>
        ed_verify X key json sig) \<and>
     parse json = Inr c \<and>
     \<not> blank (cn_constitution_id c) \<and> \<not> blank (cn_policy_version c) \<and>
     cn_effective_at c \<le> t \<and> (case cn_expires_at c of None \<Rightarrow> True | Some e \<Rightarrow> t < e) \<and>
     cn_industry_profile c = profile"
  by (auto simp: load_verified_def Let_def ebind_Inr_iff check_document_Inr
      split: option.splits sum.splits if_splits)

end
