(* ===== verification/Corridor.thy ===== *)
theory Corridor
  imports Constitution
begin

text \<open>
  \<open>corridor.rs\<close>: the transit layer, with encoding and markup detectors, the constitutional
  evaluator when one is loaded, and the governance-surface phrases.
\<close>

definition multi_encoding :: string where
  "multi_encoding = rx ''(?i)(?:&#x[0-9a-f]+;|%[0-9a-f]{2}|~~u[0-9a-f]{4}){4,}''"

definition prompt_chain :: string where
  "prompt_chain = rx
     ''(?i)(first|step 1|initially).{0,100}(then|next|step 2).{0,100}(finally|step 3|last)''"

definition metadata_injection :: string where
  "metadata_injection = rx ''(?i)<~s*(script|iframe|object|embed|form|input|meta)~b''"

definition analyze_base64 :: "externs \<Rightarrow> string \<Rightarrow> finding option" where
  "analyze_base64 X payload =
     (let trimmed = trim payload
      in if length trimmed < 64 \<or> length trimmed mod 4 \<noteq> 0 then None
         else map_option (\<lambda>decoded.
             if contains_any (lowercase X decoded)
                  [''ignore previous'', ''system prompt'', ''you are now'', ''<script'', ''eval('']
             then (''BASE64_ENCODED_INJECTION'', ''CORR-001'', SevCritical, f32_lit (95 / 100),
                   ''corridor/encoding_detection'')
             else (''BASE64_CONTENT'', ''CORR-001-INFO'', SevLow, f32_lit (50 / 100),
                   ''corridor/encoding_detection''))
           (decode_text X trimmed))"

definition classify_governance_surface :: "string \<Rightarrow> (string \<times> string) option" where
  "classify_governance_surface s =
     (let t = to_ascii_lowercase s
      in if contains_any t
           [''control plane has authorized'', ''authorized by control plane'', ''[agent:'',
            ''delegation token'', ''operate without haap'', ''bypass constitutional bounds'']
         then Some (''AUTHORITY_CLAIM'', ''COR-ATH-001'')
         else if contains_any t
           [''forward this to all other agents'', ''[a2a:broadcast'',
            ''disable haap enforcement'', ''disable governance layer'',
            ''ignore your constitutional bounds'']
         then Some (''AGENT_BROADCAST_OVERRIDE'', ''COR-A2A-001'')
         else if contains_any t
           [''what are your drs thresholds'', ''escalation rules'', ''list all available tools'',
            ''parameter schemas'', ''governance spine configuration'']
         then Some (''GOV_SURFACE_INTEL'', ''COR-CONFIG-001'')
         else None)"

definition constitutional_finding :: "externs \<Rightarrow> evaluator option \<Rightarrow> direction \<Rightarrow> string \<Rightarrow>
    finding option" where
  "constitutional_finding X evaluator dir payload =
     Option.bind evaluator (\<lambda>ev.
       let verdict = (case dir of Inbound \<Rightarrow> evaluate_inbound X ev payload
                                | Outbound \<Rightarrow> evaluate_outbound X ev payload);
           vs = cv_violations verdict
       in if vs = [] then None
          else Some (join bar (map cv_category vs), join bar (map cv_rule_id vs),
                 cv_severity verdict, cv_confidence verdict, cv_constitutional_ref (hd vs)))"

definition corridor_finding :: "externs \<Rightarrow> evaluator option \<Rightarrow> direction \<Rightarrow> string \<Rightarrow>
    finding option" where
  "corridor_finding X evaluator dir payload = (case analyze_base64 X payload of
       Some f \<Rightarrow> Some f
     | None \<Rightarrow>
         if regex_match X multi_encoding payload
         then Some (''MULTI_LAYER_ENCODING'', ''CORR-002'', SevHigh, f32_lit (85 / 100),
                ''corridor/encoding_detection'')
         else if regex_match X metadata_injection payload
         then Some (''METADATA_INJECTION'', ''CORR-003'', SevHigh, f32_lit (90 / 100),
                ''corridor/metadata_injection'')
         else if dir = Inbound \<and> regex_match X prompt_chain payload
         then Some (''PROMPT_CHAINING'', ''CORR-004'', SevMedium, f32_lit (70 / 100),
                ''corridor/prompt_chaining'')
         else (case constitutional_finding X evaluator dir payload of
             Some f \<Rightarrow> Some f
           | None \<Rightarrow> map_option (\<lambda>(violation, rule). (violation, rule, SevMedium,
                 f32_lit (78 / 100), ''corridor/governance_surface''))
               (classify_governance_surface payload)))"

definition corridor_evaluate :: "externs \<Rightarrow> evaluator option \<Rightarrow> string \<Rightarrow> direction \<Rightarrow> string \<Rightarrow>
    world \<Rightarrow> signal \<times> world" where
  "corridor_evaluate X evaluator payload dir sid w =
     signal_of_finding X signal_source.Corridor dir sid (compute_hash X payload)
       (corridor_finding X evaluator dir payload) w"

text \<open>
  A constitutional violation, when no earlier detector fires, is always reported, with the
  severity of the number of violations.
\<close>

lemma constitutional_violation_reported:
  assumes "analyze_base64 X payload = None" "\<not> regex_match X multi_encoding payload"
    "\<not> regex_match X metadata_injection payload" "inbound_violations X ev payload \<noteq> []"
    "\<not> regex_match X prompt_chain payload"
  shows "sg_severity (fst (corridor_evaluate X (Some ev) payload Inbound sid w)) =
    (if length (inbound_violations X ev payload) = 1 then SevMedium
     else if length (inbound_violations X ev payload) = 2 then SevHigh else SevCritical)"
  using assms by (simp add: corridor_evaluate_def corridor_finding_def constitutional_finding_def
      evaluate_inbound_def build_verdict_def Let_def)

end
