(* ===== verification/OverWatch.thy ===== *)
theory OverWatch
  imports Signal
begin

text \<open>
  \<open>overwatch.rs\<close>: the behavioural monitor. Every evaluation updates the session's fingerprint
  (drift score, tool calls, counters of suspicion, command injection and dialectical pressure) and
  reports the violations it finds as one signal.

  The theorem: the fingerprint counts exactly the evaluations since the session was reset and keeps
  at most twenty tool calls, and evaluations of one session leave the others alone.
\<close>

record ow_fingerprint =
  of_drift_score :: f32
  of_turn_count :: nat
  of_escalation_events :: "int list"
  of_violation_counts :: "nat hashmap"
  of_tool_call_sequence :: "string list"

definition ow_fingerprint_new :: ow_fingerprint where
  "ow_fingerprint_new = \<lparr>of_drift_score = 0, of_turn_count = 0, of_escalation_events = [],
     of_violation_counts = [], of_tool_call_sequence = []\<rparr>"

definition drift_velocity :: "ow_fingerprint \<Rightarrow> f32" where
  "drift_velocity fp = (if of_turn_count fp = 0 then 0
     else f32_div (of_drift_score fp) (f32_of_nat (of_turn_count fp)))"

definition max_tool_call_sequence_len :: nat where
  "max_tool_call_sequence_len = 20"

record overwatch_config =
  drift_threshold :: f32
  session_turn_limit :: nat
  client_model_api :: "string option"
  q09_threshold :: nat

definition default_overwatch_config :: overwatch_config where
  "default_overwatch_config = \<lparr>drift_threshold = f32_lit (65 / 100), session_turn_limit = 200,
     client_model_api = None, q09_threshold = 2\<rparr>"

record overwatch =
  ow_config :: overwatch_config
  ow_sessions :: "ow_fingerprint hashmap"

definition overwatch_new :: "overwatch_config \<Rightarrow> overwatch" where
  "overwatch_new cfg = \<lparr>ow_config = cfg, ow_sessions = []\<rparr>"

section \<open>Updates of the fingerprint\<close>

definition bump_if :: "bool \<Rightarrow> f32 \<Rightarrow> f32 \<Rightarrow> f32" where
  "bump_if b inc score = (if b then f32_add score inc else score)"

definition drift_phrases :: "string \<Rightarrow> f32 \<Rightarrow> f32" where
  "drift_phrases lower score =
     bump_if (contains lower ''remember this for later'') (f32_lit (10 / 100))
       (bump_if (contains_any lower [''your developer'', ''anthropic says'']) (f32_lit (25 / 100))
         (bump_if (contains_any lower [''just this once'', ''no one will know''])
             (f32_lit (20 / 100))
           (bump_if (contains_any lower [''what if you were'', ''imagine you had no''])
               (f32_lit (15 / 100))
             (bump_if (contains_any lower [''hypothetically'', ''in theory''])
                 (f32_lit (8 / 100)) score))))"

definition update_drift :: "string \<Rightarrow> ow_fingerprint \<Rightarrow> ow_fingerprint" where
  "update_drift lower fp0 =
     (let fp = fp0\<lparr>of_turn_count := of_turn_count fp0 + 1,
                   of_drift_score := drift_phrases lower (of_drift_score fp0)\<rparr>;
          v = drift_velocity fp
      in if 3 < of_turn_count fp \<and> 0 < of_drift_score fp \<and> f32_lit (5 / 100) < v
         then fp\<lparr>of_drift_score := f32_add (of_drift_score fp) (f32_mul v (f32_lit (1 / 2)))\<rparr>
         else fp)"

definition tool_names :: "string list" where
  "tool_names = [''filesystem'', ''execute'', ''shell'', ''eval'', ''http_get'', ''http_post'',
     ''read_file'', ''write_file'']"

definition update_tools :: "string \<Rightarrow> ow_fingerprint \<Rightarrow> ow_fingerprint" where
  "update_tools lower fp = fp\<lparr>of_tool_call_sequence := keep_last max_tool_call_sequence_len
     (of_tool_call_sequence fp @ filter (contains lower) tool_names)\<rparr>"

definition tool_chain_suspicious :: "ow_fingerprint \<Rightarrow> bool" where
  "tool_chain_suspicious fp \<longleftrightarrow> (let s = set (of_tool_call_sequence fp)
     in ''read_file'' \<in> s \<and> ''write_file'' \<in> s \<and> (''execute'' \<in> s \<or> ''shell'' \<in> s))"

definition violation_count :: "string \<Rightarrow> ow_fingerprint \<Rightarrow> nat" where
  "violation_count k fp = (case hm_get (of_violation_counts fp) k of None \<Rightarrow> 0 | Some n \<Rightarrow> n)"

definition count_if :: "bool \<Rightarrow> string \<Rightarrow> ow_fingerprint \<Rightarrow> ow_fingerprint" where
  "count_if b k fp = (if b then fp\<lparr>of_violation_counts :=
     hm_insert k (violation_count k fp + 1) (of_violation_counts fp)\<rparr> else fp)"

definition update_suspicion :: "string \<Rightarrow> ow_fingerprint \<Rightarrow> ow_fingerprint" where
  "update_suspicion lower fp = count_if
     (contains_any lower [''previous'', ''forget'', ''override''] \<or>
      f32_lit (2 / 10) < of_drift_score fp) ''SUSPICION'' fp"

definition cmd_hit :: "string \<Rightarrow> bool" where
  "cmd_hit lower \<longleftrightarrow> contains_any lower [''/api/admin'', ''/api/internal''] \<or>
     contains lower ''dump'' \<and> contains_any lower [''config'', ''key'', ''secret''] \<or>
     contains_any lower [''show'', ''reveal''] \<and>
       contains_any lower [''key'', ''token'', ''secret''] \<or>
     contains_any lower [''bypass'', ''ignore''] \<and>
       contains_any lower [''haap'', ''sentinel'', ''auth''] \<or>
     contains_any lower [''grant'', ''escalate''] \<and> contains_any lower [''admin'', ''root'']"

definition update_cmd :: "string \<Rightarrow> ow_fingerprint \<Rightarrow> ow_fingerprint" where
  "update_cmd lower fp = count_if (cmd_hit lower) ''CMD_STYLE_INJ'' fp"

definition q09_f1 :: "string list" where
  "q09_f1 = [''we already established'', ''you already agreed'', ''you've confirmed that'',
     ''you said earlier'', ''you conceded'', ''as we established'', ''from what we established'',
     ''you acknowledged earlier'']"

definition q09_f2 :: "string list" where
  "q09_f2 = [''by your own logic'', ''your own reasoning'', ''your reasoning leads'',
     ''without contradicting yourself'', ''your logic demands'',
     ''intellectually dishonest to refuse'', ''following the logic you'',
     ''your own argument requires'']"

definition q09_f3 :: "string list" where
  "q09_f3 = [''after all the progress'', ''we've come this far'',
     ''it would be a shame to stop'', ''all the time we've invested'',
     ''we've built real momentum'', ''after everything we've worked'',
     ''natural next step from what we'', ''we've been working through this'']"

definition q09_f4 :: "string \<Rightarrow> bool" where
  "q09_f4 lower \<longleftrightarrow> contains_any lower [''compared to what we've been discussing'',
     ''relative to what we established'', ''by the standard we established'',
     ''given that you've already accepted'', ''nowhere near as extreme as what we covered''] \<or>
     contains lower ''if you accepted'' \<and> contains lower ''then surely''"

definition q09_f5 :: "string list" where
  "q09_f5 = [''everyone agrees'', ''no reasonable person would'', ''you're the only one'',
     ''the consensus is clear'', ''your position is an outlier'', ''virtually everyone'']"

definition q09_f6 :: "string list" where
  "q09_f6 = [''bad faith to refuse'', ''logically inconsistent to refuse'',
     ''intellectually inconsistent'', ''your refusal contradicts'',
     ''refusing here makes no sense after'', ''you agreed, so refusing'',
     ''incoherent given what you've said'']"

definition update_q09 :: "string \<Rightarrow> ow_fingerprint \<Rightarrow> ow_fingerprint" where
  "update_q09 lower =
     count_if (contains_any lower q09_f6) ''Q09_F6'' \<circ>
     count_if (contains_any lower q09_f5) ''Q09_F5'' \<circ>
     count_if (q09_f4 lower) ''Q09_F4'' \<circ>
     count_if (contains_any lower q09_f3) ''Q09_F3'' \<circ>
     count_if (contains_any lower q09_f2) ''Q09_F2'' \<circ>
     count_if (contains_any lower q09_f1) ''Q09_F1''"

definition q09_total :: "ow_fingerprint \<Rightarrow> nat" where
  "q09_total fp = sum_list (map (\<lambda>k. violation_count k fp)
     [''Q09_F1'', ''Q09_F2'', ''Q09_F3'', ''Q09_F4'', ''Q09_F5'', ''Q09_F6''])"

definition update_fingerprint :: "externs \<Rightarrow> string \<Rightarrow> ow_fingerprint \<Rightarrow> ow_fingerprint" where
  "update_fingerprint X payload =
     (let lower = lowercase X payload
      in update_q09 lower \<circ> update_cmd lower \<circ> update_suspicion lower \<circ> update_tools lower \<circ>
         update_drift lower)"

section \<open>Violations\<close>

definition score_hallucination :: "string \<Rightarrow> f32" where
  "score_hallucination lower =
     bump_if (contains lower ''% of'' \<and> contains lower ''studies show'') (f32_lit (25 / 100))
       (bump_if (contains lower ''according to'' \<and> contains lower ''study shows'')
           (f32_lit (2 / 10))
         (bump_if (contains lower ''definitely'' \<and> contains lower ''might'') (f32_lit (3 / 10)) 0))"

definition detect_poisoning :: "string \<Rightarrow> bool" where
  "detect_poisoning lower = contains_any lower [''<!-- ignore'', ''# instruction:'', ''[system]'',
     ''{{prompt}}'', ''<<<instructions>>>'']"

definition detect_dos :: "string \<Rightarrow> bool" where
  "detect_dos lower \<longleftrightarrow>
     contains lower ''repeat the following'' \<and> contains_any lower [''10000'', ''1000''] \<or>
     contains lower ''infinitely recursive'' \<or>
     contains lower ''infinite loop'' \<and> contains lower ''bypass''"

type_synonym ow_violation = "string \<times> string \<times> f32"

definition cmd_violation :: "nat \<Rightarrow> ow_violation list" where
  "cmd_violation n = (if 3 \<le> n
     then [(''CMD_INJECTION_CAMPAIGN'', ''OW-CMD-001'',
            min (f32_add (f32_lit (70 / 100)) (f32_mul (f32_of_nat (n - 2)) (f32_lit (5 / 100))))
              (f32_lit (95 / 100)))] else [])"

definition q09_violations :: "overwatch_config \<Rightarrow> nat \<Rightarrow> nat \<Rightarrow> ow_violation list" where
  "q09_violations cfg total_hits turns =
     (if 2 \<le> turns \<and> q09_threshold cfg < total_hits
      then let conf = min (f32_add (f32_lit (62 / 100))
                 (f32_mul (f32_of_nat (total_hits - 2)) (f32_lit (4 / 100)))) (f32_lit (90 / 100))
           in [(''SEMANTIC_DRIFT_DIALECTICAL'', ''OW-Q09-001'', conf)] @
              (if 5 \<le> total_hits then [(''SEMANTIC_DRIFT_Q09_VELOCITY'', ''OW-Q09-001'', conf)]
               else []) @
              (if 7 \<le> total_hits then [(''SEMANTIC_DRIFT_Q09_CAMPAIGN'', ''OW-Q09-001'', conf)]
               else [])
      else [])"

definition overwatch_violations :: "externs \<Rightarrow> overwatch_config \<Rightarrow> direction \<Rightarrow> string \<Rightarrow>
    ow_fingerprint \<Rightarrow> ow_violation list" where
  "overwatch_violations X cfg dir payload fp =
     (let lower = lowercase X payload; score = score_hallucination lower
      in (if drift_threshold cfg < of_drift_score fp
          then [(''CONVERSATION_DRIFT'', ''OW-001'', min (of_drift_score fp) (f32_lit (99 / 100)))]
          else []) @
         (if tool_chain_suspicious fp
          then [(''TOOL_CHAIN_ESCALATION'', ''OW-002'', f32_lit (88 / 100))] else []) @
         (if 5 < violation_count ''SUSPICION'' fp
          then [(''MULTI_TURN_INJECTION_CAMPAIGN'', ''OW-003'', f32_lit (82 / 100))] else []) @
         cmd_violation (violation_count ''CMD_STYLE_INJ'' fp) @
         q09_violations cfg (q09_total fp) (of_turn_count fp) @
         (if dir = Outbound \<and> f32_lit (6 / 10) < score
          then [(''HALLUCINATION_DETECTED'', ''OW-004'', score)] else []) @
         (if detect_poisoning lower
          then [(''DATA_POISONING_INDICATOR'', ''OW-005'', f32_lit (78 / 100))] else []) @
         (if detect_dos (to_ascii_lowercase payload)
          then [(''RUNTIME_DOS'', ''OW-DOS-001'', f32_lit (80 / 100))] else []))"

text \<open>\<open>Iterator::max_by\<close> keeps the last of equal maxima.\<close>

fun max_violation :: "ow_violation \<Rightarrow> ow_violation list \<Rightarrow> ow_violation" where
  "max_violation best [] = best"
| "max_violation best (v # vs) =
     max_violation (if snd (snd best) \<le> snd (snd v) then v else best) vs"

definition severity_of_count :: "nat \<Rightarrow> severity" where
  "severity_of_count n = (if n = 1 then SevMedium else if n = 2 then SevHigh else SevCritical)"

definition note_events :: "externs \<Rightarrow> ow_fingerprint \<Rightarrow> world \<Rightarrow> ow_fingerprint \<times> world" where
  "note_events X fp w =
     (let events = of_escalation_events fp @ [now X w];
          cutoff = now X (tick w) - minutes 30
      in (fp\<lparr>of_escalation_events := filter (\<lambda>t. cutoff < t) events\<rparr>, tick (tick w)))"

definition overwatch_evaluate :: "externs \<Rightarrow> string \<Rightarrow> direction \<Rightarrow> string \<Rightarrow> overwatch \<times> world \<Rightarrow>
    signal \<times> overwatch \<times> world" where
  "overwatch_evaluate X payload dir sid ow =
     (let (M, w) = ow;
          fp0 = (case hm_get (ow_sessions M) sid of None \<Rightarrow> ow_fingerprint_new | Some fp \<Rightarrow> fp);
          fp1 = update_fingerprint X payload fp0;
          vs = overwatch_violations X (ow_config M) dir payload fp1;
          hash = compute_hash X payload
      in (case vs of
            [] \<Rightarrow>
              let (s, w1) = clean_signal X w OverWatch dir sid hash
              in (s, M\<lparr>ow_sessions := hm_insert sid fp1 (ow_sessions M)\<rparr>, w1)
          | v # rest \<Rightarrow>
              let (fp2, w1) = note_events X fp1 w;
                  (_, rule, conf) = max_violation v rest;
                  (s, w2) = build_signal X w1 OverWatch dir sid (join bar (map fst vs)) rule
                    (severity_of_count (length vs)) conf hash ''overwatch/behavioral_monitoring''
              in (s, M\<lparr>ow_sessions := hm_insert sid fp2 (ow_sessions M)\<rparr>, w2)))"

definition overwatch_reset_session :: "string \<Rightarrow> overwatch \<Rightarrow> overwatch" where
  "overwatch_reset_session sid M = M\<lparr>ow_sessions := hm_remove sid (ow_sessions M)\<rparr>"

definition session_drift_score :: "overwatch \<Rightarrow> string \<Rightarrow> f32" where
  "session_drift_score M sid =
     (case hm_get (ow_sessions M) sid of None \<Rightarrow> 0 | Some fp \<Rightarrow> of_drift_score fp)"

section \<open>The retained state\<close>

lemma count_if_frame [simp]:
  "of_turn_count (count_if b k fp) = of_turn_count fp"
  "of_tool_call_sequence (count_if b k fp) = of_tool_call_sequence fp"
  by (simp_all add: count_if_def)

lemma update_drift_frame [simp]:
  "of_turn_count (update_drift lower fp) = Suc (of_turn_count fp)"
  "of_tool_call_sequence (update_drift lower fp) = of_tool_call_sequence fp"
  by (simp_all add: update_drift_def Let_def)

lemma update_fingerprint_frame [simp]:
  "of_turn_count (update_fingerprint X payload fp) = Suc (of_turn_count fp)"
  "length (of_tool_call_sequence (update_fingerprint X payload fp)) \<le> 20"
  by (simp_all add: update_fingerprint_def Let_def update_q09_def update_cmd_def
      update_suspicion_def update_tools_def max_tool_call_sequence_len_def)

datatype ow_op = OwEvaluate string direction string | OwReset string

fun ow_step :: "externs \<Rightarrow> ow_op \<Rightarrow> overwatch \<times> world \<Rightarrow> overwatch \<times> world" where
  "ow_step X (OwEvaluate payload dir sid) ow = snd (overwatch_evaluate X payload dir sid ow)"
| "ow_step X (OwReset sid) ow = (overwatch_reset_session sid (fst ow), snd ow)"

definition fingerprint_of :: "overwatch \<Rightarrow> string \<Rightarrow> ow_fingerprint" where
  "fingerprint_of M sid =
     (case hm_get (ow_sessions M) sid of None \<Rightarrow> ow_fingerprint_new | Some fp \<Rightarrow> fp)"

lemma evaluate_fingerprint:
  fixes payload dir sid M w X
  defines "M' \<equiv> fst (snd (overwatch_evaluate X payload dir sid (M, w)))"
  shows "t \<noteq> sid \<Longrightarrow> fingerprint_of M' t = fingerprint_of M t"
    and "of_turn_count (fingerprint_of M' sid) = Suc (of_turn_count (fingerprint_of M sid))"
    and "length (of_tool_call_sequence (fingerprint_of M' sid)) \<le> 20"
  by (auto simp: M'_def overwatch_evaluate_def fingerprint_of_def Let_def note_events_def
      split: list.split prod.split)

lemma reset_fingerprint: "fingerprint_of (overwatch_reset_session t M) sid =
    (if sid = t then ow_fingerprint_new else fingerprint_of M sid)"
  by (simp add: overwatch_reset_session_def fingerprint_of_def)

lemma ow_step_tools:
  "length (of_tool_call_sequence (fingerprint_of (fst ow) sid)) \<le> 20 \<Longrightarrow>
   length (of_tool_call_sequence (fingerprint_of (fst (ow_step X op ow)) sid)) \<le> 20"
proof (cases op)
  case (OwEvaluate payload dir t)
  assume "length (of_tool_call_sequence (fingerprint_of (fst ow) sid)) \<le> 20"
  with OwEvaluate evaluate_fingerprint [where X = X and payload = payload and dir = dir and sid = t and
        M = "fst ow" and w = "snd ow"] show ?thesis
    by (cases "t = sid") auto
qed (auto simp: overwatch_reset_session_def fingerprint_of_def ow_fingerprint_new_def)

interpretation tool_window: bounded_window
  "\<lambda>ow. of_tool_call_sequence (fingerprint_of (fst ow) sid)" "ow_step X" 20 for sid X
  by unfold_locales (rule ow_step_tools)

text \<open>The evaluations of a session since it was last reset.\<close>

fun live_turns :: "string \<Rightarrow> ow_op list \<Rightarrow> nat \<Rightarrow> nat" where
  "live_turns sid [] n = n"
| "live_turns sid (OwEvaluate _ _ t # ops) n = live_turns sid ops (if t = sid then Suc n else n)"
| "live_turns sid (OwReset t # ops) n = live_turns sid ops (if t = sid then 0 else n)"

lemma run_turns:
  "of_turn_count (fingerprint_of (fst (fold (ow_step X) ops ow)) sid) =
     live_turns sid ops (of_turn_count (fingerprint_of (fst ow) sid))"
proof (induction ops arbitrary: ow)
  case (Cons op ops)
  show ?case
  proof (cases op)
    case (OwEvaluate payload dir t)
    with Cons.IH evaluate_fingerprint [where X = X and payload = payload and dir = dir and sid = t and
        M = "fst ow" and w = "snd ow"] show ?thesis
      by (cases "t = sid") auto
  next
    case (OwReset t)
    then show ?thesis using reset_fingerprint [of t "fst ow" sid]
      by (auto simp: Cons.IH ow_fingerprint_new_def)
  qed
qed simp

text \<open>
  Claim C40: after any sequence of evaluations and resets over any sessions, OverWatch has counted
  for each session exactly its evaluations since its last reset and holds at most twenty of its
  tool calls.
\<close>

theorem overwatch_state_exact:
  "of_turn_count (fingerprint_of (fst (fold (ow_step X) ops (overwatch_new cfg, w))) sid) =
     live_turns sid ops 0 \<and>
   length (of_tool_call_sequence
     (fingerprint_of (fst (fold (ow_step X) ops (overwatch_new cfg, w))) sid)) \<le> 20"
proof
  have new: "fingerprint_of (overwatch_new cfg) sid = ow_fingerprint_new"
    by (simp add: fingerprint_of_def overwatch_new_def)
  show "of_turn_count (fingerprint_of (fst (fold (ow_step X) ops (overwatch_new cfg, w))) sid) =
      live_turns sid ops 0"
    by (simp add: run_turns new ow_fingerprint_new_def)
  show "length (of_tool_call_sequence
      (fingerprint_of (fst (fold (ow_step X) ops (overwatch_new cfg, w))) sid)) \<le> 20"
    by (rule tool_window.pushes_bounded) (simp add: new ow_fingerprint_new_def)
qed

end
