(* ===== verification/Oim.thy ===== *)
theory Oim
  imports Signal
begin

text \<open>
  \<open>oim.rs\<close>: the integrity monitor of OverWatch. It keeps a process-wide record of OverWatch's
  signals (ten minutes of them, the last hundred confidences, the rules invoked), establishes a
  baseline and reports deviations from it.

  The facts: the windows are bounded by time and count, and a baseline, once set, stays.
\<close>

record ow_signature =
  os_recent_signals :: "(int \<times> f32 \<times> string) list"
  os_confidence_scores :: "f32 list"
  os_rule_invocations :: "nat hashmap"
  os_baseline_escalation_rate :: "f32 option"
  os_baseline_confidence_mean :: "f32 option"

definition ow_signature_new :: ow_signature where
  "ow_signature_new = \<lparr>os_recent_signals = [], os_confidence_scores = [],
     os_rule_invocations = [], os_baseline_escalation_rate = None,
     os_baseline_confidence_mean = None\<rparr>"

definition count_rule :: "string option \<Rightarrow> nat hashmap \<Rightarrow> nat hashmap" where
  "count_rule r m = (case r of
       None \<Rightarrow> m
     | Some k \<Rightarrow> hm_insert k ((case hm_get m k of None \<Rightarrow> 0 | Some n \<Rightarrow> n) + 1) m)"

text \<open>\<open>record_signal\<close> at the clock reading \<open>t\<close>.\<close>

definition record_signal :: "int \<Rightarrow> signal \<Rightarrow> ow_signature \<Rightarrow> ow_signature" where
  "record_signal t s g =
     (let scores = os_confidence_scores g @ [sg_confidence s];
          recent = os_recent_signals g @ [(t, sg_confidence s, show_severity (sg_severity s))];
          cutoff = t - minutes 10
      in g\<lparr>os_confidence_scores := (if 100 < length scores then tl scores else scores),
           os_rule_invocations := count_rule (sg_policy_rule_id s) (os_rule_invocations g),
           os_recent_signals := filter (\<lambda>(u, _, _). cutoff < u) recent\<rparr>)"

definition current_escalation_rate :: "int \<Rightarrow> ow_signature \<Rightarrow> f32" where
  "current_escalation_rate t g =
     (let cutoff = t - minutes 5;
          total_signals = f32_of_nat (length (os_recent_signals g));
          escalated = f32_of_nat (length (filter (\<lambda>(u, _, sev). cutoff < u \<and> sev \<noteq> ''NONE'')
            (os_recent_signals g)))
      in if total_signals = 0 then 0 else f32_div escalated total_signals)"

definition f32_sum :: "f32 list \<Rightarrow> f32" where
  "f32_sum xs = fold (\<lambda>x acc. f32_add acc x) xs 0"

definition confidence_mean :: "ow_signature \<Rightarrow> f32" where
  "confidence_mean g = (let xs = os_confidence_scores g
     in if xs = [] then 0 else f32_div (f32_sum xs) (f32_of_nat (length xs)))"

definition confidence_variance :: "ow_signature \<Rightarrow> f32" where
  "confidence_variance g = (let xs = os_confidence_scores g; mean = confidence_mean g
     in if length xs < 2 then 0
        else f32_div (f32_sum (map (\<lambda>x. f32_mul (f32_sub x mean) (f32_sub x mean)) xs))
               (f32_of_nat (length xs)))"

definition maybe_establish_baseline :: "externs \<Rightarrow> ow_signature \<times> world \<Rightarrow>
    ow_signature \<times> world" where
  "maybe_establish_baseline X gw =
     (let (g, w) = gw
      in if os_baseline_escalation_rate g = None \<and> 20 \<le> length (os_recent_signals g)
         then (g\<lparr>os_baseline_escalation_rate := Some (current_escalation_rate (now X w) g),
                 os_baseline_confidence_mean := Some (confidence_mean g)\<rparr>, tick w)
         else (g, w))"

record oim =
  oim_sig :: ow_signature
  escalation_rate_threshold :: f32
  confidence_variance_threshold :: f32
  confidence_mean_threshold :: f32

definition oim_new :: oim where
  "oim_new = \<lparr>oim_sig = ow_signature_new, escalation_rate_threshold = f32_lit (40 / 100),
     confidence_variance_threshold = f32_lit (15 / 100),
     confidence_mean_threshold = f32_lit (35 / 100)\<rparr>"

definition rule_concentration :: "nat hashmap \<Rightarrow> f32" where
  "rule_concentration m = (let ns = map snd m; total_hits = sum_list ns
     in if total_hits = 0 then 0 else f32_div (f32_of_nat (fold max ns 0)) (f32_of_nat total_hits))"

definition rate_deviation :: "externs \<Rightarrow> ow_signature \<Rightarrow> world \<Rightarrow> f32 option \<times> world" where
  "rate_deviation X g w = (case os_baseline_escalation_rate g of
       None \<Rightarrow> (None, w)
     | Some b \<Rightarrow> (Some \<bar>f32_sub (current_escalation_rate (now X w) g) b\<bar>, tick w))"

definition mean_drifted :: "oim \<Rightarrow> ow_signature \<Rightarrow> bool" where
  "mean_drifted M g = (case os_baseline_confidence_mean g of
       None \<Rightarrow> False
     | Some b \<Rightarrow> 20 < length (os_confidence_scores g) \<and>
         confidence_mean_threshold M < \<bar>f32_sub (confidence_mean g) b\<bar>)"

text \<open>What \<open>observe\<close> reports over the updated record, given the deviation of the rate.\<close>

definition oim_finding :: "oim \<Rightarrow> ow_signature \<Rightarrow> f32 option \<Rightarrow>
    (string \<times> string \<times> severity \<times> f32 \<times> string) option" where
  "oim_finding M g dev =
     (if (case dev of None \<Rightarrow> False | Some d \<Rightarrow> escalation_rate_threshold M < d)
      then Some (''OVERWATCH_ESCALATION_RATE_ANOMALY'', ''OIM-001'', SevHigh,
             min (f32_mul (the dev) 2) (f32_lit (95 / 100)), ''oim/behavioral_integrity'')
      else if 20 < length (os_confidence_scores g) \<and>
              confidence_variance_threshold M < confidence_variance g
      then Some (''OVERWATCH_CONFIDENCE_ANOMALY'', ''OIM-002'', SevHigh, f32_lit (85 / 100),
             ''oim/confidence_integrity'')
      else if mean_drifted M g
      then Some (''OVERWATCH_CONFIDENCE_MEAN_DRIFT'', ''OIM-003'', SevMedium,
             f32_lit (75 / 100), ''oim/confidence_integrity'')
      else if 30 < length (os_recent_signals g) \<and>
              f32_lit (80 / 100) < rule_concentration (os_rule_invocations g)
      then Some (''OVERWATCH_RULE_CONCENTRATION_ANOMALY'', ''OIM-004'', SevMedium,
             f32_lit (72 / 100), ''oim/rule_utilization_integrity'')
      else None)"

definition oim_observe :: "externs \<Rightarrow> signal \<Rightarrow> oim \<times> world \<Rightarrow> signal \<times> oim \<times> world" where
  "oim_observe X s ow =
     (let (M, w) = ow;
          hash = compute_hash X (sg_canonical s);
          (g, w1) = maybe_establish_baseline X (record_signal (now X w) s (oim_sig M), tick w);
          (dev, w2) = rate_deviation X g w1;
          (out, w3) = (case oim_finding M g dev of
              None \<Rightarrow> clean_signal X w2 OIM (sg_direction s) (sg_session_id s) hash
            | Some (cls, rule, sev, conf, cref) \<Rightarrow>
                build_signal X w2 OIM (sg_direction s) (sg_session_id s) cls rule sev conf hash cref)
      in (out, M\<lparr>oim_sig := g\<rparr>, w3))"

section \<open>Bounds\<close>

lemma observe_sig:
  "oim_sig (fst (snd (oim_observe X s (M, w)))) =
     fst (maybe_establish_baseline X (record_signal (now X w) s (oim_sig M), tick w))"
  by (simp add: oim_observe_def Let_def split: prod.split)

lemma record_signal_scores:
  "length (os_confidence_scores g) \<le> 100 \<Longrightarrow>
   length (os_confidence_scores (record_signal t s g)) \<le> 100"
  by (simp add: record_signal_def Let_def)

lemma baseline_frame:
  "os_confidence_scores (fst (maybe_establish_baseline X gw)) = os_confidence_scores (fst gw)"
  "os_recent_signals (fst (maybe_establish_baseline X gw)) = os_recent_signals (fst gw)"
  by (simp_all add: maybe_establish_baseline_def split_def Let_def)

interpretation score_window: bounded_window "\<lambda>ow. os_confidence_scores (oim_sig (fst ow))"
    "\<lambda>s ow. snd (oim_observe X s ow)" 100 for X
proof
  fix ow :: "oim \<times> world" and s :: signal
  assume "length (os_confidence_scores (oim_sig (fst ow))) \<le> 100"
  then show "length (os_confidence_scores (oim_sig (fst (snd (oim_observe X s ow))))) \<le> 100"
    using observe_sig [of X s "fst ow" "snd ow"]
    by (simp add: baseline_frame record_signal_scores)
qed

lemma confidences_bounded:
  "length (os_confidence_scores (oim_sig (fst (fold (\<lambda>s ow. snd (oim_observe X s ow)) ss
     (oim_new, w))))) \<le> 100"
  by (rule score_window.pushes_bounded) (simp add: oim_new_def ow_signature_new_def)

text \<open>No signal older than ten minutes survives an observation.\<close>

lemma recent_signals_fresh:
  "\<forall>(u, c, sev) \<in> set (os_recent_signals (oim_sig (fst (snd (oim_observe X s (M, w)))))).
     now X w - minutes 10 < u"
  by (auto simp: observe_sig baseline_frame record_signal_def Let_def)

text \<open>The baseline is set once.\<close>

lemma baseline_stays:
  "os_baseline_escalation_rate (oim_sig M) = Some b \<Longrightarrow>
   os_baseline_escalation_rate (oim_sig (fst (snd (oim_observe X s (M, w))))) = Some b"
  by (simp add: observe_sig maybe_establish_baseline_def record_signal_def Let_def)

end
