(* ===== verification/Frames.thy ===== *)
theory Frames
  imports Capability VerdictLedger Arbiter Haap GovMem Corridor OverWatch Oim
begin

text \<open>
  What every operation the pipeline calls does to the shared world: it draws from the clock and the
  UUID source and extends the hash chain, it never rewinds them and never changes the keys; and
  whose session a signal speaks of. The facts are collected in \<open>world_grows\<close> and
  \<open>session_of\<close>.
\<close>

named_theorems world_grows and session_of

lemma world_le_tick_trans: "world_le w w' \<Longrightarrow> world_le w (tick w')"
  using world_le_trans world_le_tick(1) by blast

lemma world_le_draw_trans: "world_le w w' \<Longrightarrow> world_le w (draw_id w')"
  using world_le_trans world_le_tick(2) by blast

lemma world_le_extend_trans: "world_le w w' \<Longrightarrow> world_le w (with_eng (extend_chain X c) w')"
  using world_le_trans world_le_extend by blast

lemmas world_le_intros = world_le_tick_trans world_le_draw_trans world_le_extend_trans world_le_refl

section \<open>Signals\<close>

lemma sentinel_session [session_of]: "sg_session_id (fst (sentinel_inspect X p dir sid w)) = sid"
  and corridor_session [session_of]: "sg_session_id (fst (corridor_evaluate X ev p dir sid w)) = sid"
  by (simp_all add: sentinel_inspect_def corridor_evaluate_def)

lemma sentinel_direction: "sg_direction (fst (sentinel_inspect X p dir sid w)) = dir"
  and corridor_direction: "sg_direction (fst (corridor_evaluate X ev p dir sid w)) = dir"
  by (simp_all add: sentinel_inspect_def corridor_evaluate_def)

lemma sentinel_world [world_grows]: "world_le w (snd (sentinel_inspect X p dir sid w))"
  and corridor_world [world_grows]: "world_le w (snd (corridor_evaluate X ev p dir sid w))"
  by (simp_all add: sentinel_inspect_def corridor_evaluate_def)

lemma overwatch_fields [session_of]:
  "sg_session_id (fst (overwatch_evaluate X p dir sid ow)) = sid"
  by (simp add: overwatch_evaluate_def Let_def split_def split: list.split)

lemma overwatch_direction: "sg_direction (fst (overwatch_evaluate X p dir sid ow)) = dir"
  by (simp add: overwatch_evaluate_def Let_def split_def split: list.split)

lemma overwatch_world [world_grows]:
  "world_le (snd ow) (snd (snd (overwatch_evaluate X p dir sid ow)))"
proof -
  have "world_le w (snd (build_signal X (tick (tick w)) src d sid v r sev c h cr))"
    for w src d v r sev c h cr
    using world_le_trans [OF world_le_trans [OF world_le_tick(1) world_le_tick(1)]
        build_signal_world] .
  then show ?thesis
    by (simp add: overwatch_evaluate_def Let_def split_def note_events_def split: list.split)
qed

lemma oim_fields [session_of]: "sg_session_id (fst (oim_observe X s ow)) = sg_session_id s"
  by (simp add: oim_observe_def Let_def split_def split: option.split)

lemma oim_direction: "sg_direction (fst (oim_observe X s ow)) = sg_direction s"
  by (simp add: oim_observe_def Let_def split_def split: option.split)

lemma baseline_world: "world_le (snd gw) (snd (maybe_establish_baseline X gw))"
  by (auto simp: maybe_establish_baseline_def Let_def split_def intro!: world_le_intros)

lemma rate_world: "world_le w (snd (rate_deviation X g w))"
  by (auto simp: rate_deviation_def Let_def split_def intro!: world_le_intros split: option.split)

lemma oim_world [world_grows]: "world_le (snd ow) (snd (snd (oim_observe X s ow)))"
proof -
  obtain M w where ow: "ow = (M, w)" by (cases ow)
  define gw where "gw = maybe_establish_baseline X (record_signal (now X w) s (oim_sig M), tick w)"
  define dw where "dw = rate_deviation X (fst gw) (snd gw)"
  have "world_le w (snd gw)"
    using world_le_trans [OF world_le_tick(1)]
      baseline_world [of "(record_signal (now X w) s (oim_sig M), tick w)" X]
    by (simp add: gw_def)
  then have "world_le w (snd dw)" using world_le_trans rate_world by (metis dw_def)
  then have "world_le w (snd (clean_signal X (snd dw) src d sid h))"
    "world_le w (snd (build_signal X (snd dw) src d sid v r sev c h cr))"
    for src d sid h v r sev c cr
    using world_le_trans clean_signal_world build_signal_world by blast+
  then show ?thesis
    by (simp add: ow oim_observe_def Let_def split_def gw_def dw_def split: option.split)
qed

section \<open>Arbiter\<close>

lemma expire_lock_world: "world_le (snd aw) (snd (expire_lock X sid aw))"
  by (auto simp: expire_lock_def Let_def split_def split: option.split)

lemma set_state_world: "world_le (snd aw) (snd (set_state X sid st aw))"
  by (auto simp: set_state_def Let_def split_def split: option.split)

lemma write_audit_world: "world_le (snd aw) (snd (write_audit_entry X sid a b s aw))"
  by (auto simp: write_audit_entry_def Let_def split_def intro!: world_le_intros)

lemma transition_world: "world_le (snd aw) (snd (transition X sid a b s aw))"
  using world_le_trans [OF set_state_world write_audit_world] by (simp add: transition_def)

lemma process_by_world: "world_le (snd aw) (snd (snd (process_by X decide s aw)))"
  using world_le_trans [OF expire_lock_world transition_world] expire_lock_world
  by (fastforce simp: process_by_def Let_def split_def)

lemma process_world [world_grows]: "world_le (snd aw) (snd (snd (arbiter_process X s aw)))"
  by (simp add: arbiter_process_def process_by_world)

lemma modified_world [world_grows]:
  "world_le (snd aw) (snd (snd (process_with_modifier X s md aw)))"
  by (cases "md \<le> 0") (simp_all add: process_with_modifier_zero process_with_modifier_positive
      process_by_world transition_world)

lemma write_reset_world: "world_le (snd aw) (snd (write_reset_audit_entry X sid v r aw))"
proof -
  define p where "p = reset_signal X sid v r (snd aw)"
  have "world_le (snd aw) (snd p)" by (simp add: p_def reset_signal_def builder_build_world)
  from world_le_trans [OF this] write_audit_world [of "(fst aw, snd p)"] show ?thesis
    by (simp add: write_reset_audit_entry_def Let_def split_def p_def)
qed

lemma operator_reset_world [world_grows]:
  "world_le (snd aw) (snd (snd (operator_reset_session X sid token aw)))"
  by (simp add: operator_reset_session_def Let_def split_def write_reset_world split: option.split)

section \<open>Gate, memories and stores\<close>

lemma haap_signal_world: "world_le w (snd (haap_signal X sid v r sev c h cr w))"
  by (simp add: haap_signal_def)

lemma verify_token_world: "world_le (snd gw) (snd (snd (verify_token X sid ag tid h gw)))"
proof -
  have 1: "world_le w (snd (haap_signal X sid v r sev c h cr (tick w)))" for w v r sev c cr
    using world_le_trans [OF world_le_tick(1) haap_signal_world] .
  show ?thesis
    by (simp add: verify_token_def reject_token_def accept_token_def Let_def split_def
        1 haap_signal_world split: option.split)
qed

lemma haap_world [world_grows]:
  "world_le (snd gw) (snd (snd (haap_evaluate X sid ag drs cls token gw)))"
proof -
  obtain g w where gw: "gw = (g, w)" by (cases gw)
  obtain pre g1 where p: "is_preauthorized X sid cls (g, w) = (pre, g1, tick w)"
    by (metis is_preauthorized_result(4) prod.collapse)
  have "world_le w (snd (haap_signal X sid v r sev c h cr (tick w)))"
    "world_le w (snd (snd (verify_token X sid ag tid h (g1, tick w))))" for v r sev c cr h tid
    using world_le_trans [OF world_le_tick(1)] haap_signal_world
      verify_token_world [of "(g1, tick w)" X sid ag tid h] by simp_all
  then show ?thesis
    by (simp add: gw haap_evaluate_def Let_def split_def p haap_signal_world split: option.split)
qed

lemma layer_signal_world [world_grows]:
  "world_le (snd gw) (snd (record_layer_signal X sid layer s gw))"
  by (simp add: record_layer_signal_def Let_def split_def split: option.split)

lemma layer_signal_threshold:
  "gm_block_threshold (fst (record_layer_signal X sid layer s gw)) = gm_block_threshold (fst gw)"
  by (simp add: record_layer_signal_def Let_def split_def split: option.split)

lemma govmem_turn_world [world_grows]:
  "world_le (snd gw) (snd (govmem_record_turn X sid msg dir b dept agent gw))"
  by (auto simp: govmem_record_turn_def record_turn_v2_def session_memory_new_def Let_def split_def
      intro!: world_le_intros split: govmem_mode.split option.split)

lemma govmem_turn_threshold:
  "gm_block_threshold (fst (govmem_record_turn X sid msg dir b dept agent gw)) =
     gm_block_threshold (fst gw)"
  by (simp add: govmem_record_turn_def record_turn_v2_def Let_def split_def
      split: govmem_mode.split)

lemma memory_new_world [world_grows]: "world_le w (snd (session_memory_new X w sid))"
  and ingest_signal_world [world_grows]: "world_le w (snd (snd (ingest_signal X cfg s c m w)))"
  and ingest_session_world [world_grows]:
    "world_le w (snd (snd (snd (ingest_session X S actor f M files w))))"
  by (simp_all add: session_memory_new_def ingest_signal_def ingest_session_def Let_def split_def)

lemma record_final_world [world_grows]:
  "world_le w (snd (snd (record_final_approved_inner X tx s ctx run l w)))"
  by (auto simp: record_final_approved_inner_def Let_def intro!: world_le_intros)

lemma build_world [world_grows]: "world_le w (snd (builder_build X w b))"
  by (rule builder_build_world)

lemma memory_verdict_state:
  "mv_state (fst (ingest_signal X cfg s c m w)) =
     sm_memory_state (fst (snd (ingest_signal X cfg s c m w)))"
  by (simp add: ingest_signal_def Let_def verdict_of_memory_def)

end
