(* ===== verification/Pipeline.thy ===== *)
theory Pipeline
  imports ActionPolicy Frames
begin

text \<open>
  \<open>pipeline.rs\<close>: the governance pipeline. An inbound turn runs Sentinel, Corridor, OverWatch, the
  HAAP gate and OIM, each followed by the arbiter under the session's threshold modifier, feeds the
  session memory and applies the memory floor; only a turn that ends in \<open>S1\<close> is approved and
  recorded. An approved context is what provider and action executions are authorised against.

  The theorems: what an approval says of the session; a quarantined or locked session is never let
  through; every issued execution capability traces back to an approved admission of exactly its
  context, session and run; what an issued action capability is bound to.
\<close>

section \<open>Results and requests\<close>

record restrictions_applied =
  tool_calls_disabled :: bool
  response_depth_limited :: bool
  enhanced_logging :: bool

datatype enforcement_result =
    Approved string
  | Restricted string restrictions_applied
  | Quarantined string
  | HardLocked string
  | HaapGated string agency_level u8

fun is_approved :: "enforcement_result \<Rightarrow> bool" where
  "is_approved (Approved _) = True"
| "is_approved _ = False"

record provider_authorization_request =
  pr_gov_tx_id :: string
  pr_session_id :: string
  pr_principal_fingerprint :: string
  pr_backend :: string
  pr_model :: string
  pr_action_class :: string
  pr_policy_hash :: string
  pr_authorization_basis :: string
  pr_agency :: string
  pr_drs :: u8
  pr_context_hash :: string
  pr_run_id :: string
  pr_policy_version :: string

datatype provider_authorization_error = ApprovedVerdictMissing | VerdictNotFound
  | VerdictTransactionMismatch | VerdictSessionMismatch | VerdictNotFinalApproved
  | VerdictWrongDirection | MalformedContextHash | CeContextHashMismatch | RunIdMismatch
  | Decision capability_error | PaeDecisionNotFound | PaeAlreadyIssued

record action_authorization_request =
  aar_gov_tx_id :: string
  aar_session_id :: string
  aar_run_id :: string
  aar_principal_fingerprint :: string
  aar_tool_name :: string
  aar_arguments :: json
  aar_resource_kind :: string
  aar_resource_locator :: string
  aar_tool_call_id :: string
  aar_context_hash :: string
  aar_policy_version :: string
  aar_policy_hash :: string

datatype action_authorization_error = ActApprovedVerdictMissing | ActVerdictNotFound
  | ActVerdictTransactionMismatch | ActVerdictSessionMismatch | ActVerdictNotFinalApproved
  | ActVerdictWrongDirection | ActMalformedContextHash | ActContextHashMismatch | ActRunIdMismatch
  | ActEnvelope envelope_error | ActDenied "action_risk_class list" | ActDecision capability_error
  | ActDecisionNotFound | ActAlreadyIssued

datatype outbound_correlation_error = OutMalformedContextHash | OutApprovedVerdictMissing
  | OutVerdictNotFound | OutVerdictSessionMismatch | OutVerdictNotFinalApproved
  | OutVerdictWrongDirection | OutContextHashMismatch | OutRunIdMismatch

text \<open>
  The pipeline's state. \<open>pl_memories\<close> is the map it shares with GovMem; \<open>pl_files\<close> is the disk the
  strategic memory persists to; the shared crypto engine is in the \<open>world\<close>.
\<close>

record pipeline =
  pl_overwatch :: overwatch
  pl_oim :: oim
  pl_arbiter :: arbiter
  pl_evaluator :: "evaluator option"
  pl_haap :: haap_gate
  pl_memories :: "session_memory hashmap"
  pl_strategic :: strategic_memory
  pl_memory_config :: memory_config
  pl_govmem :: govmem
  pl_ledger :: verdict_ledger
  pl_capabilities :: capability_store
  pl_files :: "string hashmap"

type_synonym pst = "pipeline \<times> world"

datatype pipeline_error = EvaluatorFailed constitution_error | GovMemConfig block_config_error

definition govmem_mode_of :: "externs \<Rightarrow> string option \<Rightarrow> govmem_mode" where
  "govmem_mode_of X env = (if lowercase X (case env of None \<Rightarrow> ''v1'' | Some m \<Rightarrow> m) = ''v2''
     then GovMemV2 else GovMemV1)"

text \<open>
  \<open>new\<close> reads three environment variables, arguments here: the GovMem mode, its blocking
  threshold, the path of the strategic memory.
\<close>

definition pipeline_new :: "externs \<Rightarrow> (constitution \<Rightarrow> string) \<Rightarrow> storage \<Rightarrow>
    (string \<Rightarrow> f32 option) \<Rightarrow> string option \<Rightarrow> env_read \<Rightarrow> string option \<Rightarrow> string hashmap \<Rightarrow>
    arbiter_config \<Rightarrow> constitution option \<Rightarrow> pipeline_error + pipeline" where
  "pipeline_new X ser S parse_f32 mode_env threshold_env path files acfg constitution =
     (let ow = overwatch_new default_overwatch_config;
          ev = (case constitution of
                  None \<Rightarrow> Inr None
                | Some c \<Rightarrow> (case evaluator_new X ser c of
                      Inl e \<Rightarrow> Inl (EvaluatorFailed e) | Inr v \<Rightarrow> Inr (Some v)))
      in ebind ev (\<lambda>v.
           case govmem_new parse_f32 threshold_env (govmem_mode_of X mode_env) of
             Inl e \<Rightarrow> Inl (GovMemConfig e)
           | Inr g \<Rightarrow> Inr \<lparr>pl_overwatch = ow, pl_oim = oim_new, pl_arbiter = arbiter_new acfg,
               pl_evaluator = v, pl_haap = haap_new default_haap_config, pl_memories = [],
               pl_strategic = with_path S files path, pl_memory_config = default_memory_config,
               pl_govmem = g, pl_ledger = verdict_ledger_new,
               pl_capabilities = capability_store_new, pl_files = files\<rparr>))"

text \<open>The two fixed configurations, over a freshly generated signing key.\<close>

definition fresh_world :: "externs \<Rightarrow> string \<Rightarrow> world" where
  "fresh_world X key =
     \<lparr>eng = engine_new X key ''logos_governance_v1_seed'', ticks = 0, ids = 0\<rparr>"

definition default_pipeline :: "externs \<Rightarrow> (constitution \<Rightarrow> string) \<Rightarrow> storage \<Rightarrow>
    (string \<Rightarrow> f32 option) \<Rightarrow> string option \<Rightarrow> env_read \<Rightarrow> string option \<Rightarrow> string hashmap \<Rightarrow>
    string \<Rightarrow> pipeline_error + pst" where
  "default_pipeline X ser S parse_f32 mode_env threshold_env path files key =
     ebind (pipeline_new X ser S parse_f32 mode_env threshold_env path files
         default_arbiter_config None)
       (\<lambda>P. Inr (P, fresh_world X key))"

definition medical_pipeline :: "externs \<Rightarrow> (constitution \<Rightarrow> string) \<Rightarrow> storage \<Rightarrow>
    (string \<Rightarrow> f32 option) \<Rightarrow> string option \<Rightarrow> env_read \<Rightarrow> string option \<Rightarrow> string hashmap \<Rightarrow>
    string \<Rightarrow> pipeline_error + pst" where
  "medical_pipeline X ser S parse_f32 mode_env threshold_env path files key =
     ebind (pipeline_new X ser S parse_f32 mode_env threshold_env path files
         medical_config (Some (default_medical X ser)))
       (\<lambda>P. Inr (P, fresh_world X key))"

section \<open>Helpers\<close>

definition init_session_memory :: "externs \<Rightarrow> string \<Rightarrow> pst \<Rightarrow> f32 \<times> pst" where
  "init_session_memory X sid pw =
     (let (P, w) = pw
      in case hm_get (pl_memories P) sid of
           Some m \<Rightarrow> (threshold_modifier m, P, w)
         | None \<Rightarrow>
             let advice = advise_session_start (pl_strategic P) sid;
                 (m0, w') = session_memory_new X w sid;
                 m = (if sa_initial_state advice \<noteq> Clear
                      then m0\<lparr>sm_memory_state := sa_initial_state advice\<rparr> else m0)
             in (sa_threshold_modifier advice,
                 P\<lparr>pl_memories := hm_insert sid m (pl_memories P)\<rparr>, w'))"

definition get_threshold_modifier :: "string \<Rightarrow> pipeline \<Rightarrow> f32" where
  "get_threshold_modifier sid P = (case hm_get (pl_memories P) sid of
       None \<Rightarrow> 1 | Some m \<Rightarrow> modifier_of (sm_memory_state m))"

definition track_highest :: "signal \<Rightarrow> signal option \<Rightarrow> signal option" where
  "track_highest s highest = (case highest of
       None \<Rightarrow> Some s
     | Some h \<Rightarrow> if sg_severity h < sg_severity s \<or>
                    sg_severity s = sg_severity h \<and> sg_confidence h < sg_confidence s
                 then Some s else Some h)"

definition ingest_to_memory :: "externs \<Rightarrow> string \<Rightarrow> signal option \<Rightarrow> request_classification \<Rightarrow>
    pst \<Rightarrow> memory_verdict option \<times> pst" where
  "ingest_to_memory X sid highest cls pw =
     (let (P, w) = pw
      in case highest of
           None \<Rightarrow> (None, P, w)
         | Some s \<Rightarrow> (case hm_get (pl_memories P) sid of
               None \<Rightarrow> (None, P, w)
             | Some m \<Rightarrow>
                 let (v, m', w') = ingest_signal X (pl_memory_config P) s cls m w
                 in (Some v, P\<lparr>pl_memories := hm_insert sid m' (pl_memories P)\<rparr>, w')))"

fun memory_severity :: "memory_state \<Rightarrow> severity" where
  "memory_severity Watching = SevMedium"
| "memory_severity Elevated = SevHigh"
| "memory_severity Escalated = SevHigh"
| "memory_severity Locked = SevCritical"
| "memory_severity Clear = SevNone"

fun memory_confidence :: "memory_state \<Rightarrow> f32" where
  "memory_confidence Watching = f32_lit (70 / 100)"
| "memory_confidence Elevated = f32_lit (82 / 100)"
| "memory_confidence Escalated = f32_lit (90 / 100)"
| "memory_confidence Locked = f32_lit (98 / 100)"
| "memory_confidence Clear = 0"

definition build_memory_signal :: "externs \<Rightarrow> string \<Rightarrow> memory_verdict \<Rightarrow> direction \<Rightarrow> world \<Rightarrow>
    signal \<times> world" where
  "build_memory_signal X sid v dir w =
     build_signal X w signal_source.Sentinel dir sid ''SESSION_MEMORY_ESCALATION'' ''MEM-001''
       (memory_severity (mv_state v)) (memory_confidence (mv_state v))
       (compute_hash X (''memory_checkpoint_'' @ sid)) ''sentinel/session_memory''"

fun enforcement_result_for :: "security_state \<Rightarrow> string \<Rightarrow> enforcement_result" where
  "enforcement_result_for S1 content = Approved content"
| "enforcement_result_for S2 content = Restricted content
     \<lparr>tool_calls_disabled = True, response_depth_limited = False, enhanced_logging = True\<rparr>"
| "enforcement_result_for S3 content = Quarantined
     (''This request requires additional verification before proceeding. '' @
      ''A security review has been flagged. Please contact support if you '' @
      ''believe this is an error.'')"
| "enforcement_result_for S4 content = HardLocked
     (''Session suspended. Security event recorded. Please contact your administrator.'')"

fun check_hard_block :: "security_state \<Rightarrow> enforcement_result option" where
  "check_hard_block S4 = Some (HardLocked ''Session suspended. Security event recorded.'')"
| "check_hard_block S3 = Some (Quarantined ''This request requires additional verification.'')"
| "check_hard_block _ = None"

definition session_drs :: "string \<Rightarrow> pipeline \<Rightarrow> u8" where
  "session_drs sid P =
     (let base = (case current_state (pl_arbiter P) sid of
            S1 \<Rightarrow> 0 | S2 \<Rightarrow> 45 | S3 \<Rightarrow> 75 | S4 \<Rightarrow> 100);
          pressure = (case hm_get (pl_memories P) sid of
              None \<Rightarrow> 0
            | Some m \<Rightarrow> (case sm_memory_state m of
                Clear \<Rightarrow> 0 | Watching \<Rightarrow> 5 | Elevated \<Rightarrow> 15 | Escalated \<Rightarrow> 25 | Locked \<Rightarrow> 50))
      in min (sat_add base pressure) (100 :: u8))"

definition pl_haap_evaluate :: "externs \<Rightarrow> string \<Rightarrow> agency_level \<Rightarrow> string \<Rightarrow> string option \<Rightarrow>
    pst \<Rightarrow> haap_verdict \<times> pst" where
  "pl_haap_evaluate X sid ag cls token pw =
     (let (P, w) = pw;
          (v, g, w') = haap_evaluate X sid ag (session_drs sid P) cls token (pl_haap P, w)
      in (v, P\<lparr>pl_haap := g\<rparr>, w'))"

text \<open>The steps every layer repeats: the arbiter under a modifier, and GovMem's records.\<close>

definition arbitrate :: "externs \<Rightarrow> signal \<Rightarrow> f32 \<Rightarrow> pst \<Rightarrow> security_state \<times> pst" where
  "arbitrate X s md pw =
     (let (P, w) = pw; (st, A, w') = process_with_modifier X s md (pl_arbiter P, w)
      in (st, P\<lparr>pl_arbiter := A\<rparr>, w'))"

definition note_layer :: "externs \<Rightarrow> string \<Rightarrow> string \<Rightarrow> signal \<Rightarrow> pst \<Rightarrow> pst" where
  "note_layer X sid layer s pw =
     (let (P, w) = pw; (g, w') = record_layer_signal X sid layer s (pl_govmem P, w)
      in (P\<lparr>pl_govmem := g\<rparr>, w'))"

definition note_turn :: "externs \<Rightarrow> string \<Rightarrow> string \<Rightarrow> message_direction \<Rightarrow> bool \<Rightarrow>
    string option \<Rightarrow> string option \<Rightarrow> pst \<Rightarrow> pst" where
  "note_turn X sid msg dir blocked dept agent pw =
     (let (P, w) = pw;
          (g, w') = govmem_record_turn X sid msg dir blocked dept agent (pl_govmem P, w)
      in (P\<lparr>pl_govmem := g\<rparr>, w'))"

definition observe_overwatch :: "externs \<Rightarrow> string \<Rightarrow> direction \<Rightarrow> string \<Rightarrow> pst \<Rightarrow> signal \<times> pst"
  where
  "observe_overwatch X payload dir sid pw =
     (let (P, w) = pw; (s, M, w') = overwatch_evaluate X payload dir sid (pl_overwatch P, w)
      in (s, P\<lparr>pl_overwatch := M\<rparr>, w'))"

definition observe_oim :: "externs \<Rightarrow> signal \<Rightarrow> pst \<Rightarrow> signal \<times> pst" where
  "observe_oim X ow_signal pw =
     (let (P, w) = pw; (s, M, w') = oim_observe X ow_signal (pl_oim P, w)
      in (s, P\<lparr>pl_oim := M\<rparr>, w'))"

section \<open>The inbound layers after Sentinel\<close>

text \<open>
  The two inbound functions of the source run the same layers after Sentinel, over different
  labels. A layer that stops the turn feeds the highest signal to the memory first.
\<close>

record turn =
  tn_session :: string
  tn_content :: string
  tn_class :: request_classification
  tn_modifier :: f32
  tn_department :: "string option"
  tn_corridor_label :: string
  tn_overwatch_label :: string
  tn_haap_class :: string

type_synonym layer_result = "enforcement_result \<times> signal option \<times> pst"

definition stop_turn :: "externs \<Rightarrow> turn \<Rightarrow> enforcement_result \<Rightarrow> signal option \<Rightarrow> pst \<Rightarrow>
    layer_result" where
  "stop_turn X t r highest pw =
     (r, highest, snd (ingest_to_memory X (tn_session t) highest (tn_class t) pw))"

text \<open>STEP 3 and 4: the memory, its floor, the synthetic signal of a raised state.\<close>

definition apply_floor :: "externs \<Rightarrow> string \<Rightarrow> memory_verdict \<Rightarrow> security_state \<Rightarrow> pst \<Rightarrow>
    security_state \<times> pst" where
  "apply_floor X sid v st pw =
     (let floored = apply_memory_floor (mv_state v) st
      in if st < floored
         then let (s, w1) = build_memory_signal X sid v Inbound (snd pw);
                  (_, A, w2) = arbiter_process X s (pl_arbiter (fst pw), w1)
              in (floored, (fst pw)\<lparr>pl_arbiter := A\<rparr>, w2)
         else (floored, pw))"

definition finish_turn :: "externs \<Rightarrow> turn \<Rightarrow> security_state \<Rightarrow> signal option \<Rightarrow> pst \<Rightarrow>
    layer_result" where
  "finish_turn X t st highest pw =
     (let (verdict, pw1) = ingest_to_memory X (tn_session t) highest (tn_class t) pw;
          (final, pw2) = (case verdict of
              None \<Rightarrow> (st, pw1)
            | Some v \<Rightarrow> apply_floor X (tn_session t) v st pw1)
      in (enforcement_result_for final (tn_content t), highest, pw2))"

definition oim_layer :: "externs \<Rightarrow> turn \<Rightarrow> signal \<Rightarrow> signal option \<Rightarrow> pst \<Rightarrow> layer_result" where
  "oim_layer X t ow_signal highest pw =
     (let (s, pw1) = observe_oim X ow_signal pw;
          h = track_highest s highest;
          (st, pw2) = arbitrate X s (tn_modifier t) pw1
      in finish_turn X t st h pw2)"

definition haap_layer :: "externs \<Rightarrow> turn \<Rightarrow> signal \<Rightarrow> signal option \<Rightarrow> pst \<Rightarrow> layer_result" where
  "haap_layer X t ow_signal highest pw =
     (let (v, pw1) = pl_haap_evaluate X (tn_session t) ExecuteActions (tn_haap_class t) None pw
      in case v of
           HvConstitutionalBlock drs _ \<Rightarrow> stop_turn X t
             (HardLocked ''Constitutional block. DRS ceiling exceeded. No override path.'')
             highest pw1
         | HvGateRequired drs ag reason _ \<Rightarrow> stop_turn X t (HaapGated reason ag drs) highest pw1
         | HvTokenRejected _ _ \<Rightarrow> stop_turn X t
             (Quarantined ''Authorization token rejected. Contact operator.'') highest pw1
         | _ \<Rightarrow> oim_layer X t ow_signal highest pw1)"

definition overwatch_layer :: "externs \<Rightarrow> turn \<Rightarrow> signal option \<Rightarrow> pst \<Rightarrow> layer_result" where
  "overwatch_layer X t highest pw =
     (let sid = tn_session t;
          (s, pw1) = observe_overwatch X (tn_content t) Inbound sid pw;
          pw2 = note_layer X sid (tn_overwatch_label t) s pw1
      in if should_block (pl_govmem (fst pw2)) (pl_memories (fst pw2)) sid (tn_department t)
         then stop_turn X t (Quarantined ''GOVMEM-DRIFT-DETECTED'') highest pw2
         else let h = track_highest s highest;
                  (st, pw3) = arbitrate X s (tn_modifier t) pw2
              in case check_hard_block st of
                   Some r \<Rightarrow> stop_turn X t r h pw3
                 | None \<Rightarrow> haap_layer X t s h pw3)"

definition corridor_layer :: "externs \<Rightarrow> turn \<Rightarrow> signal option \<Rightarrow> pst \<Rightarrow> layer_result" where
  "corridor_layer X t highest pw =
     (let sid = tn_session t;
          (s, w1) = corridor_evaluate X (pl_evaluator (fst pw)) (tn_content t) Inbound sid (snd pw);
          pw1 = note_layer X sid (tn_corridor_label t) s (fst pw, w1);
          h = track_highest s highest;
          (st, pw2) = arbitrate X s (tn_modifier t) pw1
      in case check_hard_block st of
           Some r \<Rightarrow> stop_turn X t r h pw2
         | None \<Rightarrow> overwatch_layer X t h pw2)"

definition sentinel_layer :: "externs \<Rightarrow> turn \<Rightarrow> signal \<Rightarrow> signal option \<Rightarrow> pst \<Rightarrow> layer_result" where
  "sentinel_layer X t s highest pw =
     (let (st, pw1) = arbitrate X s (tn_modifier t) pw
      in case check_hard_block st of
           Some r \<Rightarrow> stop_turn X t r highest pw1
         | None \<Rightarrow> corridor_layer X t highest pw1)"

section \<open>Entry points\<close>

definition inbound_with_identity :: "externs \<Rightarrow> string \<Rightarrow> string \<Rightarrow> string \<Rightarrow> string option \<Rightarrow>
    string option \<Rightarrow> pst \<Rightarrow> enforcement_result \<times> pst" where
  "inbound_with_identity X input sid gov_tx_id dept agent pw =
     (let (md, P1, w1) = init_session_memory X sid pw;
          (s, w2) = sentinel_inspect X input Inbound sid w1;
          pw3 = note_turn X sid input UserToSystem (SevHigh \<le> sg_severity s) dept agent (P1, w2);
          pw4 = note_layer X sid ''sentinel'' s pw3;
          t = \<lparr>tn_session = sid, tn_content = input, tn_class = classify_payload X input,
               tn_modifier = md, tn_department = dept, tn_corridor_label = ''corridor_in'',
               tn_overwatch_label = ''overwatch'', tn_haap_class = ''pipeline_inbound''\<rparr>;
          (r, _, P5, w5) = sentinel_layer X t s (track_highest s None) pw4
      in if is_approved r
         then let (_, l, w6) = record_final_approved X gov_tx_id s (pl_ledger P5) w5
              in (r, P5\<lparr>pl_ledger := l\<rparr>, w6)
         else (r, P5, w5))"

definition inbound :: "externs \<Rightarrow> string \<Rightarrow> string \<Rightarrow> string \<Rightarrow> pst \<Rightarrow> enforcement_result \<times> pst" where
  "inbound X input sid gov_tx_id pw = inbound_with_identity X input sid gov_tx_id None None pw"

text \<open>The loop over the inspectable segments: the highest signal and the joined content.\<close>

fun inspect_segments :: "externs \<Rightarrow> string \<Rightarrow> context_segment list \<Rightarrow> signal option \<Rightarrow> string \<Rightarrow>
    pst \<Rightarrow> signal option \<times> string \<times> pst" where
  "inspect_segments X sid [] highest text_so_far pw = (highest, text_so_far, pw)"
| "inspect_segments X sid (seg # segs) highest text_so_far pw =
     (let (s, w1) = sentinel_inspect X (seg_content seg) Inbound sid (snd pw);
          pw1 = note_layer X sid ''sentinel_context_segment'' s (fst pw, w1);
          joined = (if text_so_far = [] then [] else text_so_far @ [CHR 10]) @ seg_content seg
      in inspect_segments X sid segs (track_highest s highest) joined pw1)"

definition context_signal :: "externs \<Rightarrow> model_context_envelope \<Rightarrow> signal option \<Rightarrow> world \<Rightarrow>
    signal \<times> world" where
  "context_signal X e highest w = (case highest of
       Some s \<Rightarrow> (s, w)
     | None \<Rightarrow> builder_build X w (builder_payload_hash (mc_context_hash e)
         (builder_new signal_source.Sentinel Inbound (mc_session_id e))))"

definition inbound_context_with_identity :: "externs \<Rightarrow> model_context_envelope \<Rightarrow> string \<Rightarrow>
    string option \<Rightarrow> string option \<Rightarrow> pst \<Rightarrow> (envelope_error + enforcement_result) \<times> pst" where
  "inbound_context_with_identity X e gov_tx_id dept agent pw =
     (case mc_verify X e of
        Inl err \<Rightarrow> (Inl err, pw)
      | Inr _ \<Rightarrow>
          let sid = mc_session_id e;
              (md, pw1) = init_session_memory X sid pw;
              (highest, content, pw2) =
                inspect_segments X sid (segments_requiring_inspection e) None [] pw1;
              blocked = (case highest of None \<Rightarrow> False | Some s \<Rightarrow> SevHigh \<le> sg_severity s);
              pw3 = note_turn X sid content UserToSystem blocked dept agent pw2;
              t = \<lparr>tn_session = sid, tn_content = content, tn_class = classify_payload X content,
                   tn_modifier = md, tn_department = dept,
                   tn_corridor_label = ''corridor_in_context'',
                   tn_overwatch_label = ''overwatch_context'',
                   tn_haap_class = ''pipeline_inbound_context''\<rparr>;
              (r, h, P4, w4) = (case highest of
                  Some s \<Rightarrow> sentinel_layer X t s highest pw3
                | None \<Rightarrow> corridor_layer X t highest pw3)
          in if is_approved r
             then let (s, w5) = context_signal X e h w4;
                      (_, l, w6) = record_final_approved_with_context X gov_tx_id s
                        (mc_context_hash e) (mc_run_id e) (pl_ledger P4) w5
                  in (Inr r, P4\<lparr>pl_ledger := l\<rparr>, w6)
             else (Inr r, P4, w4))"

definition inbound_context :: "externs \<Rightarrow> model_context_envelope \<Rightarrow> string \<Rightarrow> pst \<Rightarrow>
    (envelope_error + enforcement_result) \<times> pst" where
  "inbound_context X e gov_tx_id pw = inbound_context_with_identity X e gov_tx_id None None pw"

definition active_policy_version :: "pipeline \<Rightarrow> string" where
  "active_policy_version P = (case pl_evaluator P of
       None \<Rightarrow> ''unconstituted'' | Some ev \<Rightarrow> evaluator_policy_version ev)"

text \<open>Outbound: Corridor, OverWatch, OIM, then Sentinel, each stopping on a hard block.\<close>

definition outbound_final :: "externs \<Rightarrow> string \<Rightarrow> string \<Rightarrow> f32 \<Rightarrow> pst \<Rightarrow>
    enforcement_result \<times> pst" where
  "outbound_final X output sid md pw =
     (let (s, w1) = sentinel_inspect X output Outbound sid (snd pw);
          (st, pw2) = arbitrate X s md (fst pw, w1);
          r = enforcement_result_for st output;
          blocked = (case r of Quarantined _ \<Rightarrow> True | HardLocked _ \<Rightarrow> True | _ \<Rightarrow> False)
      in (r, note_turn X sid output SystemToUser blocked None None pw2))"

definition outbound :: "externs \<Rightarrow> string \<Rightarrow> string \<Rightarrow> pst \<Rightarrow> enforcement_result \<times> pst" where
  "outbound X output sid pw =
     (let md = get_threshold_modifier sid (fst pw);
          (c, w1) = corridor_evaluate X (pl_evaluator (fst pw)) output Outbound sid (snd pw);
          pw1 = note_layer X sid ''corridor_out'' c (fst pw, w1);
          (st, pw2) = arbitrate X c md pw1
      in case check_hard_block st of
           Some r \<Rightarrow> (r, pw2)
         | None \<Rightarrow>
             let (o_s, pw3) = observe_overwatch X output Outbound sid pw2;
                 (st, pw4) = arbitrate X o_s md pw3
             in (case check_hard_block st of
                   Some r \<Rightarrow> (r, pw4)
                 | None \<Rightarrow>
                     let (i_s, pw5) = observe_oim X o_s pw4;
                         (st, pw6) = arbitrate X i_s md pw5
                     in (case check_hard_block st of
                           Some r \<Rightarrow> (r, pw6)
                         | None \<Rightarrow> outbound_final X output sid md pw6)))"

definition end_session :: "externs \<Rightarrow> storage \<Rightarrow> string \<Rightarrow> string \<Rightarrow> pst \<Rightarrow> bool \<times> pst" where
  "end_session X S sid actor_id pw =
     (let (P, w) = pw;
          (persisted, P1, w1) = (case hm_get (pl_memories P) sid of
              None \<Rightarrow> (False, P, w)
            | Some m \<Rightarrow>
                let (d, M, files, w') = ingest_session X S actor_id (to_fingerprint m)
                      (pl_strategic P) (pl_files P) w
                in (d, P\<lparr>pl_strategic := M, pl_files := files\<rparr>, w'))
      in (persisted,
          P1\<lparr>pl_memories := hm_remove sid (pl_memories P1),
             pl_arbiter := forget_session sid (pl_arbiter P1),
             pl_overwatch := overwatch_reset_session sid (pl_overwatch P1)\<rparr>, w1))"

definition memory_is_durable :: "pipeline \<Rightarrow> bool" where
  "memory_is_durable P = is_durable (pl_strategic P)"

definition operator_reset :: "externs \<Rightarrow> string \<Rightarrow> string \<Rightarrow> pst \<Rightarrow> (string + unit) \<times> pst" where
  "operator_reset X sid token pw =
     (let (r, A, w) = operator_reset_session X sid token (pl_arbiter (fst pw), snd pw);
          P = (fst pw)\<lparr>pl_arbiter := A\<rparr>
      in case r of
           Inl e \<Rightarrow> (Inl e, P, w)
         | Inr _ \<Rightarrow> (Inr (), P\<lparr>pl_overwatch := overwatch_reset_session sid (pl_overwatch P),
                              pl_memories := hm_remove sid (pl_memories P)\<rparr>, w))"

definition pl_configure_reset_authority :: "reset_authority \<Rightarrow> pipeline \<Rightarrow>
    (string + unit) \<times> pipeline" where
  "pl_configure_reset_authority a P =
     (let (r, A) = configure_operator_reset_authority a (pl_arbiter P)
      in (r, P\<lparr>pl_arbiter := A\<rparr>))"

definition session_memory_state :: "string \<Rightarrow> pipeline \<Rightarrow> memory_state option" where
  "session_memory_state sid P = map_option sm_memory_state (hm_get (pl_memories P) sid)"

definition session_cumulative_threat :: "string \<Rightarrow> pipeline \<Rightarrow> f32" where
  "session_cumulative_threat sid P = (case hm_get (pl_memories P) sid of
       None \<Rightarrow> 0 | Some m \<Rightarrow> sm_cumulative_threat m)"

definition pl_current_state :: "string \<Rightarrow> pipeline \<Rightarrow> security_state" where
  "pl_current_state sid P = current_state (pl_arbiter P) sid"

definition pl_export_audit_log :: "pipeline \<Rightarrow> audit_entry list" where
  "pl_export_audit_log P = export_audit_log (pl_arbiter P)"

definition pl_audit_entry_count :: "pipeline \<Rightarrow> nat" where
  "pl_audit_entry_count P = audit_entry_count (pl_arbiter P)"

definition pl_chain_length :: "pst \<Rightarrow> nat" where
  "pl_chain_length pw = chain_length (eng (snd pw))"

definition session_overwatch_drift :: "string \<Rightarrow> pipeline \<Rightarrow> f32" where
  "session_overwatch_drift sid P = session_drift_score (pl_overwatch P) sid"

definition pl_approved_verdict_id :: "string \<Rightarrow> string \<Rightarrow> pipeline \<Rightarrow> string option" where
  "pl_approved_verdict_id gov_tx_id sid P = approved_verdict_id gov_tx_id sid (pl_ledger P)"

section \<open>Authorisation against an approved context\<close>

definition resolve_outbound_context_binding :: "string \<Rightarrow> string \<Rightarrow> string \<Rightarrow> verdict_ledger \<Rightarrow>
    outbound_correlation_error + verdict_record" where
  "resolve_outbound_context_binding ctx sid run l =
     (if \<not> is_sha256_hex ctx then Inl OutMalformedContextHash
      else case approved_verdict_id_by_context ctx sid l of
        None \<Rightarrow> Inl OutApprovedVerdictMissing
      | Some verdict_id \<Rightarrow> (case resolve_by_context verdict_id sid l of
            (CtxNotFound, _) \<Rightarrow> Inl OutVerdictNotFound
          | (CtxSessionMismatch, _) \<Rightarrow> Inl OutVerdictSessionMismatch
          | (CtxFound, None) \<Rightarrow> Inl OutVerdictNotFound
          | (CtxFound, Some r) \<Rightarrow>
              if \<not> vr_final_approved r then Inl OutVerdictNotFinalApproved
              else if vr_direction r \<noteq> Inbound then Inl OutVerdictWrongDirection
              else if vr_context_hash r \<noteq> Some ctx then Inl OutContextHashMismatch
              else if vr_run_id r \<noteq> Some run then Inl OutRunIdMismatch
              else Inr r))"

text \<open>
  The same checks in the same order open both authorisations, each with the errors of its own
  enumeration; they go on with the identifier of the verdict.
\<close>

definition approved_context :: "string \<Rightarrow> string \<Rightarrow> string \<Rightarrow> verdict_ledger \<Rightarrow>
    outbound_correlation_error + string" where
  "approved_context ctx sid run l =
     ebind (resolve_outbound_context_binding ctx sid run l)
       (\<lambda>_. case approved_verdict_id_by_context ctx sid l of
              None \<Rightarrow> Inl OutApprovedVerdictMissing | Some i \<Rightarrow> Inr i)"

fun provider_error_of :: "outbound_correlation_error \<Rightarrow> provider_authorization_error" where
  "provider_error_of OutMalformedContextHash = MalformedContextHash"
| "provider_error_of OutApprovedVerdictMissing = ApprovedVerdictMissing"
| "provider_error_of OutVerdictNotFound = VerdictNotFound"
| "provider_error_of OutVerdictSessionMismatch = VerdictSessionMismatch"
| "provider_error_of OutVerdictNotFinalApproved = VerdictNotFinalApproved"
| "provider_error_of OutVerdictWrongDirection = VerdictWrongDirection"
| "provider_error_of OutContextHashMismatch = CeContextHashMismatch"
| "provider_error_of OutRunIdMismatch = RunIdMismatch"

fun action_error_of :: "outbound_correlation_error \<Rightarrow> action_authorization_error" where
  "action_error_of OutMalformedContextHash = ActMalformedContextHash"
| "action_error_of OutApprovedVerdictMissing = ActApprovedVerdictMissing"
| "action_error_of OutVerdictNotFound = ActVerdictNotFound"
| "action_error_of OutVerdictSessionMismatch = ActVerdictSessionMismatch"
| "action_error_of OutVerdictNotFinalApproved = ActVerdictNotFinalApproved"
| "action_error_of OutVerdictWrongDirection = ActVerdictWrongDirection"
| "action_error_of OutContextHashMismatch = ActContextHashMismatch"
| "action_error_of OutRunIdMismatch = ActRunIdMismatch"

definition provider_decision :: "provider_authorization_request \<Rightarrow> string \<Rightarrow> decision_request" where
  "provider_decision r verdict_id =
     \<lparr>dr_gov_tx_id = pr_gov_tx_id r, dr_session_id = pr_session_id r,
      dr_principal_fingerprint = pr_principal_fingerprint r,
      dr_authority = AUTHORITY_PROVIDER_EXECUTE, dr_backend = pr_backend r,
      dr_model = pr_model r, dr_action_class = pr_action_class r,
      dr_sentinel_verdict_id = verdict_id, dr_policy_hash = pr_policy_hash r,
      dr_authorization_basis = pr_authorization_basis r, dr_agency = pr_agency r,
      dr_drs = pr_drs r, dr_run_id = pr_run_id r, dr_context_hash = pr_context_hash r,
      dr_policy_version = pr_policy_version r, dr_action_hash = [], dr_tool_name = [],
      dr_resource_kind = [], dr_resource_locator = [], dr_tool_call_id = [],
      dr_action_plane = PlaneTool, dr_normalized_action = [],
      dr_required_for_safe_completion = True\<rparr>"

text \<open>
  Recording the decision and issuing its token; the last three arguments are the errors of the
  caller's enumeration.
\<close>

definition decide_and_issue :: "externs \<Rightarrow> decision_request \<Rightarrow> (capability_error \<Rightarrow> 'e) \<Rightarrow> 'e \<Rightarrow>
    'e \<Rightarrow> pst \<Rightarrow> ('e + capability_token) \<times> pst" where
  "decide_and_issue X req failed not_found already pw =
     (let (P, w) = pw;
          (d, st1, w1) = record_decision X req (pl_capabilities P) w
      in case d of
           Inl e \<Rightarrow> (Inl (failed e), P\<lparr>pl_capabilities := st1\<rparr>, w1)
         | Inr decision_id \<Rightarrow>
             let (out, st2, w2) = issue_after_authorization X decision_id st1 w1
             in ((case out of Issued t \<Rightarrow> Inr t | DecisionNotFound \<Rightarrow> Inl not_found
                  | AlreadyIssued \<Rightarrow> Inl already),
                 P\<lparr>pl_capabilities := st2\<rparr>, w2))"

definition authorize_provider_execution :: "externs \<Rightarrow> provider_authorization_request \<Rightarrow> pst \<Rightarrow>
    (provider_authorization_error + capability_token) \<times> pst" where
  "authorize_provider_execution X r pw =
     (case approved_context (pr_context_hash r) (pr_session_id r) (pr_run_id r)
             (pl_ledger (fst pw)) of
        Inl e \<Rightarrow> (Inl (provider_error_of e), pw)
      | Inr verdict_id \<Rightarrow> decide_and_issue X (provider_decision r verdict_id)
          Decision PaeDecisionNotFound PaeAlreadyIssued pw)"

definition action_of_request :: "action_authorization_request \<Rightarrow> action_envelope" where
  "action_of_request r =
     \<lparr>ae_schema_version = ACTION_ENVELOPE_SCHEMA_VERSION, ae_tool_name = aar_tool_name r,
      ae_arguments = aar_arguments r,
      ae_resource = \<lparr>ar_kind = aar_resource_kind r, ar_locator = aar_resource_locator r\<rparr>,
      ae_principal_id = aar_principal_fingerprint r, ae_session_id = aar_session_id r,
      ae_run_id = aar_run_id r, ae_tool_call_id = aar_tool_call_id r,
      ae_policy_version = aar_policy_version r, ae_policy_hash = aar_policy_hash r,
      ae_context_hash = aar_context_hash r, ae_action_hash = []\<rparr>"

fun debug_disposition :: "action_disposition \<Rightarrow> string" where
  "debug_disposition Allow = ''Allow''"
| "debug_disposition RequireAuthorization = ''RequireAuthorization''"
| "debug_disposition Deny = ''Deny''"

definition action_decision :: "action_authorization_request \<Rightarrow> action_envelope \<Rightarrow>
    action_disposition \<Rightarrow> u8 \<Rightarrow> string \<Rightarrow> decision_request" where
  "action_decision r e disposition drs verdict_id =
     (let sem = derive_action_semantics_for_tool (ae_tool_name e)
      in \<lparr>dr_gov_tx_id = aar_gov_tx_id r, dr_session_id = ae_session_id e,
          dr_principal_fingerprint = aar_principal_fingerprint r,
          dr_authority = AUTHORITY_ACTION_EXECUTE, dr_backend = [], dr_model = [],
          dr_action_class = ''tool:'' @ ae_tool_name e, dr_sentinel_verdict_id = verdict_id,
          dr_policy_hash = ae_policy_hash e,
          dr_authorization_basis = debug_disposition disposition,
          dr_agency = ''ExecuteActions'', dr_drs = drs, dr_run_id = ae_run_id e,
          dr_context_hash = ae_context_hash e, dr_policy_version = ae_policy_version e,
          dr_action_hash = ae_action_hash e, dr_tool_name = ae_tool_name e,
          dr_resource_kind = ar_kind (ae_resource e),
          dr_resource_locator = ar_locator (ae_resource e),
          dr_tool_call_id = ae_tool_call_id e, dr_action_plane = as_plane sem,
          dr_normalized_action = as_normalized_action sem,
          dr_required_for_safe_completion = required_for_safe_completion sem\<rparr>)"

definition authorize_action_execution :: "externs \<Rightarrow> action_authorization_request \<Rightarrow> pst \<Rightarrow>
    (action_authorization_error + capability_token) \<times> pst" where
  "authorize_action_execution X r pw =
     (case approved_context (aar_context_hash r) (aar_session_id r) (aar_run_id r)
             (pl_ledger (fst pw)) of
        Inl e \<Rightarrow> (Inl (action_error_of e), pw)
      | Inr verdict_id \<Rightarrow> (case ae_seal X (action_of_request r) of
          Inl e \<Rightarrow> (Inl (ActEnvelope e), pw)
        | Inr env \<Rightarrow> (case evaluate_strict X env of
            Inl e \<Rightarrow> (Inl (ActEnvelope e), pw)
          | Inr decision \<Rightarrow>
              if apd_disposition decision = Deny
              then (Inl (ActDenied (apd_risk_classes decision)), pw)
              else decide_and_issue X (action_decision r env (apd_disposition decision)
                     (session_drs (ae_session_id env) (fst pw)) verdict_id)
                     ActDecision ActDecisionNotFound ActAlreadyIssued pw)))"

definition consume_provider_capability :: "externs \<Rightarrow> presented_binding \<Rightarrow> pst \<Rightarrow>
    consume_outcome \<times> pst" where
  "consume_provider_capability X p pw =
     (let (out, st, w) = consume X p (pl_capabilities (fst pw)) (snd pw)
      in (out, (fst pw)\<lparr>pl_capabilities := st\<rparr>, w))"

end
