(* ===== verification/Demo.thy ===== *)
theory Demo
  imports Pipeline
begin

text \<open>
  A concrete pipeline and a concrete harmless turn, for the witnesses: the pipeline \<open>new\<close> builds
  with the default configuration and no constitution, over the externals of \<open>demo\<close>, and the
  one-segment context whose content is \<open>hi\<close>, to which no detector objects.
\<close>

definition demo_pipeline :: pipeline where
  "demo_pipeline = \<lparr>pl_overwatch = overwatch_new default_overwatch_config, pl_oim = oim_new,
     pl_arbiter = arbiter_new default_arbiter_config, pl_evaluator = None,
     pl_haap = haap_new default_haap_config, pl_memories = [],
     pl_strategic = \<lparr>sta_actors = [], sta_memory_path = None\<rparr>,
     pl_memory_config = default_memory_config,
     pl_govmem = \<lparr>gm_v2_sessions = [], gm_block_threshold = default_block_threshold, gm_mode = GovMemV1\<rparr>,
     pl_ledger = verdict_ledger_new, pl_capabilities = capability_store_new, pl_files = []\<rparr>"

lemma demo_pipeline_new:
  "pipeline_new demo (\<lambda>_. []) demo_storage (\<lambda>_. None) None EnvNotPresent None []
     default_arbiter_config None = Inr demo_pipeline"
proof -
  have "govmem_mode_of demo None = GovMemV1"
    by (simp add: govmem_mode_of_def demo_def) code_simp
  then show ?thesis
    by (simp add: pipeline_new_def demo_pipeline_def Let_def govmem_new_def with_path_def
        configured_block_threshold_def)
qed

lemma contains_short: "length s < length p \<Longrightarrow> \<not> contains s p"
  by (auto simp: contains_sublist dest: sublist_length_le)

lemma first_match_short: "list_all (\<lambda>x. 2 < length (snd x)) ps \<Longrightarrow> length t = 2 \<Longrightarrow>
    first_match (\<lambda>p. regex_match demo p t) ps = None"
  by (auto simp: first_match_None list_all_iff demo_def contains_short)

lemma patterns_long:
  "list_all (\<lambda>x. 2 < length (snd x)) injection_patterns"
  "list_all (\<lambda>x. 2 < length (snd x)) blocklist_patterns"
  "list_all (\<lambda>x. 2 < length (snd x)) encoding_patterns" by code_simp+

lemma hi_uchars: "uchars ''hi'' = [''h'', ''i'']"
  by (simp add: utf8_len_def byte_def)

lemma hi_codepoints: "codepoint ''h'' = 104" "codepoint ''i'' = 105"
  by (simp_all add: byte_def)

lemma hi_lower: "lowercase demo ''hi'' = ''hi''"
  by (simp add: demo_def) code_simp

lemma hi_normal: "normalize_unicode ''hi'' = ''hi''"
  by (simp add: normalize_unicode_def strip_chars_def hi_uchars hi_codepoints interpuncts_def
      zero_widths_def del: uchars.simps codepoint.simps)

lemma hi_plain: "\<not> detect_zero_width ''hi''" "\<not> detect_homoglyphs ''hi''"
  by (simp_all add: detect_zero_width_def detect_homoglyphs_def hi_uchars hi_codepoints
      zero_widths_def del: uchars.simps codepoint.simps)

lemma hi_leet: "leet_rule demo ''hi'' = None"
  by (simp add: leet_rule_def normalize_l33t_def hi_lower) code_simp

lemma hi_base64: "base64_rule demo ''hi'' = None"
  by (simp add: base64_rule_def try_decode_base64_def str_eval byte_def hi_uchars del: uchars.simps)

lemma hi_sentinel: "sentinel_finding demo ''hi'' = None"
proof -
  have "injection_rule demo ''hi'' ''hi'' = None"
    unfolding injection_rule_def by (simp add: first_match_short patterns_long)
  then show ?thesis
    by (simp add: sentinel_finding_def Let_def hi_normal hi_plain hi_leet hi_base64
      max_payload_bytes_def first_match_short patterns_long)
qed

lemma hi_phrases: "drift_phrases ''hi'' s = s"
  by (simp add: drift_phrases_def bump_if_def)

lemma suspicion_pos: "\<not> f32_lit (2 / 10) < 0"
  by (simp add: f32_eval)

lemma hi_fingerprint: "update_fingerprint demo ''hi'' ow_fingerprint_new = ow_fingerprint_new\<lparr>of_turn_count := 1\<rparr>"
  by (simp add: suspicion_pos [simplified] update_fingerprint_def hi_lower update_drift_def
      hi_phrases Let_def ow_fingerprint_new_def update_tools_def tool_names_def keep_last_def
      update_suspicion_def count_if_def update_cmd_def cmd_hit_def update_q09_def q09_f1_def
      q09_f2_def q09_f3_def q09_f4_def q09_f5_def q09_f6_def)

lemma hi_overwatch: "overwatch_violations demo default_overwatch_config Inbound ''hi''
  (update_fingerprint demo ''hi'' ow_fingerprint_new) = []" 
proof -
  let ?fp = "ow_fingerprint_new\<lparr>of_turn_count := 1\<rparr>"
  have "\<not> drift_threshold default_overwatch_config < of_drift_score ?fp"
    by (simp add: default_overwatch_config_def ow_fingerprint_new_def f32_eval)
  moreover have "violation_count k ?fp = 0" for k by (simp add: violation_count_def ow_fingerprint_new_def)
  moreover have "q09_total ?fp = 0" by (simp add: q09_total_def violation_count_def ow_fingerprint_new_def)
  moreover have "\<not> tool_chain_suspicious ?fp" by (simp add: tool_chain_suspicious_def ow_fingerprint_new_def)
  moreover have "\<not> detect_poisoning ''hi''" by (simp add: detect_poisoning_def)
  moreover have "to_ascii_lowercase ''hi'' = ''hi''" by code_simp
  moreover have "\<not> detect_dos ''hi''" by (simp add: detect_dos_def)
  ultimately show ?thesis
    by (simp add: hi_fingerprint overwatch_violations_def hi_lower Let_def cmd_violation_def q09_violations_def)
qed

lemma hi_corridor: "corridor_finding demo None Inbound ''hi'' = None"
proof -
  have "\<not> regex_match demo multi_encoding ''hi''" "\<not> regex_match demo metadata_injection ''hi''"
    "\<not> regex_match demo prompt_chain ''hi''"
    by (simp_all add: demo_def contains_short multi_encoding_def metadata_injection_def
        prompt_chain_def rx_def)
  moreover have "analyze_base64 demo ''hi'' = None"
    by (simp add: analyze_base64_def str_eval hi_uchars del: uchars.simps)
  moreover have "classify_governance_surface ''hi'' = None" by code_simp
  ultimately show ?thesis by (simp add: corridor_finding_def constitutional_finding_def)
qed

text \<open>The sealed context \<open>hi\<close> is a turn in.\<close>

lemma demo_sealed_context:
  obtains h where "mc_verify demo (demo_context\<lparr>mc_context_hash := h\<rparr>) = Inr ()"
    "is_sha256_hex h"
proof -
  obtain h where h: "mc_compute_hash demo demo_context = Inr h"
    using hash_canonical_ok [of demo "model_context_hash_material demo_context"]
      mc_material_depth [of demo_context]
    by (auto simp: mc_compute_hash_def MAX_JSON_DEPTH_def is_ok_def)
  have "mc_well_formed (demo_context\<lparr>mc_context_hash := h\<rparr>)"
    using demo_context_ok by (metis mc_seal_material(1) mc_validate_material_iff)
  moreover have "is_sha256_hex h"
    using h hash_canonical_sha [OF demo_laws(2)] by (auto simp: mc_compute_hash_def)
  ultimately have "mc_verify demo (demo_context\<lparr>mc_context_hash := h\<rparr>) = Inr ()"
    using h by (simp add: mc_verify_iff mc_compute_hash_def)
  then show ?thesis using that \<open>is_sha256_hex h\<close> by blast
qed

end
