(* ===== verification/Turns.thy ===== *)
theory Turns
  imports Pipeline
begin

text \<open>
  What a turn of the pipeline leaves alone and what it decides: every helper and every layer keeps
  the ledger, the capabilities and the operator's authority, only ever raises arbiter states, and
  touches no session but its own; an approval says that the arbiter holds the session in \<open>S1\<close> and
  that its memory imposes no floor; a session in \<open>S3\<close> or above, or with a locked memory, is not let
  through.
\<close>

section \<open>Helpers\<close>

text \<open>The part of the state that belongs to one session.\<close>

definition session_view :: "pipeline \<Rightarrow> string \<Rightarrow>
    security_state \<times> session_memory option \<times> ow_fingerprint option" where
  "session_view P sid = (current_state (pl_arbiter P) sid, hm_get (pl_memories P) sid,
     hm_get (ow_sessions (pl_overwatch P)) sid)"

definition frame :: "string \<Rightarrow> pst \<Rightarrow> pst \<Rightarrow> bool" where
  "frame sid a b \<longleftrightarrow> pl_ledger (fst b) = pl_ledger (fst a) \<and>
     pl_capabilities (fst b) = pl_capabilities (fst a) \<and>
     arb_authority (pl_arbiter (fst b)) = arb_authority (pl_arbiter (fst a)) \<and>
     gm_block_threshold (pl_govmem (fst b)) = gm_block_threshold (pl_govmem (fst a)) \<and>
     pl_evaluator (fst b) = pl_evaluator (fst a) \<and> world_le (snd a) (snd b) \<and>
     (\<forall>t. current_state (pl_arbiter (fst a)) t \<le> current_state (pl_arbiter (fst b)) t) \<and>
     (\<forall>t. t \<noteq> sid \<longrightarrow> session_view (fst b) t = session_view (fst a) t) \<and>
     (hm_get (pl_memories (fst a)) sid \<noteq> None \<longrightarrow> hm_get (pl_memories (fst b)) sid \<noteq> None)"

lemma frame_refl [simp]: "frame sid a a"
  by (simp add: frame_def)

lemma frameI:
  assumes "pl_ledger (fst b) = pl_ledger (fst a)" "pl_capabilities (fst b) = pl_capabilities (fst a)"
    "arb_authority (pl_arbiter (fst b)) = arb_authority (pl_arbiter (fst a))"
    "gm_block_threshold (pl_govmem (fst b)) = gm_block_threshold (pl_govmem (fst a))"
    "pl_evaluator (fst b) = pl_evaluator (fst a)" "world_le (snd a) (snd b)"
    "\<And>t. current_state (pl_arbiter (fst a)) t \<le> current_state (pl_arbiter (fst b)) t"
    "\<And>t. t \<noteq> sid \<Longrightarrow> session_view (fst b) t = session_view (fst a) t"
    "hm_get (pl_memories (fst a)) sid \<noteq> None \<Longrightarrow> hm_get (pl_memories (fst b)) sid \<noteq> None"
  shows "frame sid a b"
  using assms by (simp add: frame_def)

lemma frame_trans [trans]:
  assumes "frame sid a b" "frame sid b c" shows "frame sid a c"
proof (rule frameI)
  show "world_le (snd a) (snd c)" using assms world_le_trans unfolding frame_def by blast
  show "current_state (pl_arbiter (fst a)) t \<le> current_state (pl_arbiter (fst c)) t" for t
    using assms order_trans unfolding frame_def by blast
qed (use assms in \<open>simp_all add: frame_def\<close>)

lemma modified_other:
  assumes "t \<noteq> sg_session_id s"
  shows "current_state (fst (snd (process_with_modifier X s md aw))) t = current_state (fst aw) t"
  using assms by (cases "md \<le> 0") (simp_all add: process_with_modifier_zero
      process_with_modifier_positive process_by_state transition_state)

text \<open>An answer \<open>S1\<close> is the state of the session.\<close>

lemma modified_S1:
  assumes "fst (process_with_modifier X s md aw) = S1"
  shows "current_state (fst (snd (process_with_modifier X s md aw))) (sg_session_id s) = S1"
  using assms by (cases "md \<le> 0") (simp_all add: process_with_modifier_zero
      process_with_modifier_positive process_by_state split: if_splits)

lemma modified_ge: "current_state (fst aw) (sg_session_id s) \<le> fst (process_with_modifier X s md aw)"
  by (cases "md \<le> 0") (auto simp: process_with_modifier_zero process_with_modifier_positive
      process_by_state decided_ge)

lemma modified_mono:
  "current_state (fst aw) t \<le> current_state (fst (snd (process_with_modifier X s md aw))) t"
  using arb_step_monotone [of aw "OpModified s md" t X] by simp

lemma modified_authority:
  "arb_authority (fst (snd (process_with_modifier X s md aw))) = arb_authority (fst aw)"
  using arb_step_authority [of X "OpModified s md" aw] by simp

lemma process_mono:
  "current_state (fst aw) t \<le> current_state (fst (snd (arbiter_process X s aw))) t"
  and process_authority: "arb_authority (fst (snd (arbiter_process X s aw))) = arb_authority (fst aw)"
  and process_other: "t \<noteq> sg_session_id s \<Longrightarrow>
    current_state (fst (snd (arbiter_process X s aw))) t = current_state (fst aw) t"
  using arb_step_monotone [of aw "OpProcess s" t X] arb_step_authority [of X "OpProcess s" aw]
  by (simp_all add: arbiter_process_def process_by_state)

text \<open>What the helpers leave of the state they do not own.\<close>

lemma arbitrate_simps [simp]:
  "fst (arbitrate X s md pw) = fst (process_with_modifier X s md (pl_arbiter (fst pw), snd pw))"
  "snd (snd (arbitrate X s md pw)) =
     snd (snd (process_with_modifier X s md (pl_arbiter (fst pw), snd pw)))"
  "fst (snd (arbitrate X s md pw)) = (fst pw)\<lparr>pl_arbiter :=
     fst (snd (process_with_modifier X s md (pl_arbiter (fst pw), snd pw)))\<rparr>"
  by (simp_all add: arbitrate_def split_def Let_def)

lemma note_layer_simps [simp]:
  "snd (note_layer X sid l s pw) = snd (record_layer_signal X sid l s (pl_govmem (fst pw), snd pw))"
  "fst (note_layer X sid l s pw) = (fst pw)\<lparr>pl_govmem :=
     fst (record_layer_signal X sid l s (pl_govmem (fst pw), snd pw))\<rparr>"
  by (simp_all add: note_layer_def split_def Let_def)

lemma note_turn_simps [simp]:
  "snd (note_turn X sid m d b dp ag pw) =
     snd (govmem_record_turn X sid m d b dp ag (pl_govmem (fst pw), snd pw))"
  "fst (note_turn X sid m d b dp ag pw) = (fst pw)\<lparr>pl_govmem :=
     fst (govmem_record_turn X sid m d b dp ag (pl_govmem (fst pw), snd pw))\<rparr>"
  by (simp_all add: note_turn_def split_def Let_def)

lemma observe_overwatch_simps [simp]:
  "fst (observe_overwatch X p d sid pw) =
     fst (overwatch_evaluate X p d sid (pl_overwatch (fst pw), snd pw))"
  "snd (snd (observe_overwatch X p d sid pw)) =
     snd (snd (overwatch_evaluate X p d sid (pl_overwatch (fst pw), snd pw)))"
  "fst (snd (observe_overwatch X p d sid pw)) = (fst pw)\<lparr>pl_overwatch :=
     fst (snd (overwatch_evaluate X p d sid (pl_overwatch (fst pw), snd pw)))\<rparr>"
  by (simp_all add: observe_overwatch_def split_def Let_def)

lemma observe_oim_simps [simp]:
  "fst (observe_oim X s pw) = fst (oim_observe X s (pl_oim (fst pw), snd pw))"
  "snd (snd (observe_oim X s pw)) = snd (snd (oim_observe X s (pl_oim (fst pw), snd pw)))"
  "fst (snd (observe_oim X s pw)) = (fst pw)\<lparr>pl_oim :=
     fst (snd (oim_observe X s (pl_oim (fst pw), snd pw)))\<rparr>"
  by (simp_all add: observe_oim_def split_def Let_def)

lemma haap_simps [simp]:
  "snd (snd (pl_haap_evaluate X sid ag cls tok pw)) =
     snd (snd (haap_evaluate X sid ag (session_drs sid (fst pw)) cls tok (pl_haap (fst pw), snd pw)))"
  "fst (snd (pl_haap_evaluate X sid ag cls tok pw)) = (fst pw)\<lparr>pl_haap :=
     fst (snd (haap_evaluate X sid ag (session_drs sid (fst pw)) cls tok
       (pl_haap (fst pw), snd pw)))\<rparr>"
  by (simp_all add: pl_haap_evaluate_def split_def Let_def)

section \<open>Frames\<close>

named_theorems frames

lemma arbitrate_frame [frames]:
  assumes "sg_session_id s = sid"
  shows "frame sid pw (snd (arbitrate X s md pw))"
  using assms modified_world [of "(pl_arbiter (fst pw), snd pw)" X s md]
    modified_mono [of "(pl_arbiter (fst pw), snd pw)" _ X s md]
    modified_other [of _ s X md "(pl_arbiter (fst pw), snd pw)"]
  by (intro frameI) (auto simp: modified_authority session_view_def)

lemma note_layer_frame [frames]: "frame sid pw (note_layer X t l s pw)"
  using layer_signal_world [of "(pl_govmem (fst pw), snd pw)" X t l s]
  by (intro frameI) (auto simp: layer_signal_threshold session_view_def)

lemma note_turn_frame [frames]: "frame sid pw (note_turn X t m d b dp ag pw)"
  using govmem_turn_world [of "(pl_govmem (fst pw), snd pw)" X t m d b dp ag]
  by (intro frameI) (auto simp: govmem_turn_threshold session_view_def)

lemma overwatch_other:
  "t \<noteq> sid \<Longrightarrow> hm_get (ow_sessions (fst (snd (overwatch_evaluate X p d sid ow)))) t =
     hm_get (ow_sessions (fst ow)) t"
  by (simp add: overwatch_evaluate_def Let_def split_def split: list.split)

lemma observe_overwatch_frame [frames]: "frame sid pw (snd (observe_overwatch X p d sid pw))"
  using overwatch_world [of "(pl_overwatch (fst pw), snd pw)" X p d sid]
  by (intro frameI) (auto simp: session_view_def overwatch_other)

lemma observe_oim_frame [frames]: "frame sid pw (snd (observe_oim X s pw))"
  using oim_world [of "(pl_oim (fst pw), snd pw)" X s]
  by (intro frameI) (auto simp: session_view_def)

lemma haap_frame [frames]: "frame sid pw (snd (pl_haap_evaluate X t ag cls tok pw))"
  using haap_world [of "(pl_haap (fst pw), snd pw)" X t ag "session_drs t (fst pw)" cls tok]
  by (intro frameI) (auto simp: session_view_def)

lemma world_frame_step [frames]: "world_le (snd pw) w \<Longrightarrow> frame sid pw (fst pw, w)"
  by (intro frameI) auto

lemma ingest_frame [frames]: "frame sid pw (snd (ingest_to_memory X sid h cls pw))"
proof -
  obtain P w where pw: "pw = (P, w)" by (cases pw)
  show ?thesis
  proof (cases "\<exists>s m. h = Some s \<and> hm_get (pl_memories P) sid = Some m")
    case True
    then obtain s m where sm: "h = Some s" "hm_get (pl_memories P) sid = Some m" by blast
    with ingest_signal_world [of w X "pl_memory_config P" s cls m] show ?thesis
      by (intro frameI) (auto simp: ingest_to_memory_def pw split_def Let_def session_view_def)
  next
    case False
    then have "snd (ingest_to_memory X sid h cls pw) = pw"
      by (auto simp: ingest_to_memory_def pw split: option.split)
    then show ?thesis by simp
  qed
qed

lemma init_frame [frames]: "frame sid pw (snd (init_session_memory X sid pw))"
  using memory_new_world [of "snd pw" X sid]
  by (intro frameI) (auto simp: init_session_memory_def split_def Let_def session_view_def
      split: option.split)

section \<open>Layers\<close>

fun lets_through :: "enforcement_result \<Rightarrow> bool" where
  "lets_through (Approved _) = True"
| "lets_through (Restricted _ _) = True"
| "lets_through _ = False"

lemma approved_through: "is_approved r \<Longrightarrow> lets_through r"
  by (cases r) simp_all

lemma hard_block_not_through: "check_hard_block st = Some r \<Longrightarrow> \<not> lets_through r"
  by (cases st) auto

lemma hard_block_iff: "check_hard_block st = None \<longleftrightarrow> st < S3"
  by (cases st) (simp_all add: state_order)

text \<open>
  What every layer guarantees of the turn it completes, from a state where the session has a
  memory.
\<close>

definition about_turn :: "string \<Rightarrow> signal option \<Rightarrow> bool" where
  "about_turn sid h \<longleftrightarrow> (\<forall>s. h = Some s \<longrightarrow> sg_session_id s = sid \<and> sg_direction s = Inbound)"

lemma about_turn_simps [simp]:
  "about_turn sid None"
  "about_turn sid (Some s) \<longleftrightarrow> sg_session_id s = sid \<and> sg_direction s = Inbound"
  by (simp_all add: about_turn_def)

lemma about_turn_track:
  "about_turn sid (Some s) \<Longrightarrow> about_turn sid h \<Longrightarrow> about_turn sid (track_highest s h)"
  by (auto simp: track_highest_def split: option.split)

definition approval_sound :: "turn \<Rightarrow> layer_result \<Rightarrow> bool" where
  "approval_sound t res \<longleftrightarrow> (case res of (r, h, pw) \<Rightarrow> is_approved r \<longrightarrow>
     r = Approved (tn_content t) \<and> h \<noteq> None \<and> about_turn (tn_session t) h \<and>
     current_state (pl_arbiter (fst pw)) (tn_session t) = S1 \<and>
     (\<exists>m. hm_get (pl_memories (fst pw)) (tn_session t) = Some m \<and>
       memory_floor (sm_memory_state m) = None))"

definition sound_turn :: "turn \<Rightarrow> pst \<Rightarrow> layer_result \<Rightarrow> bool" where
  "sound_turn t pw res \<longleftrightarrow> frame (tn_session t) pw (snd (snd res)) \<and> approval_sound t res \<and>
     (S3 \<le> current_state (pl_arbiter (fst pw)) (tn_session t) \<longrightarrow> \<not> lets_through (fst res))"

lemma sound_stop:
  assumes "frame (tn_session t) pw pw'" "\<not> lets_through r"
  shows "sound_turn t pw (stop_turn X t r h pw')"
  using assms frame_trans [OF assms(1) ingest_frame] approved_through
  by (auto simp: sound_turn_def approval_sound_def stop_turn_def)

lemma sound_later:
  assumes "frame (tn_session t) pw pw'" "sound_turn t pw' res"
  shows "sound_turn t pw res"
proof -
  have "current_state (pl_arbiter (fst pw)) (tn_session t) \<le>
      current_state (pl_arbiter (fst pw')) (tn_session t)"
    using assms(1) by (simp add: frame_def)
  then show ?thesis
    using assms frame_trans [OF assms(1)] order_trans unfolding sound_turn_def by blast
qed

text \<open>The arbiter's step: its answer is at least the old state, and an answer \<open>S1\<close> is the new one.\<close>

lemma arbitrate_step:
  assumes "arbitrate X s md pw = (st, pw')" "sg_session_id s = sid"
  shows "frame sid pw pw'" "current_state (pl_arbiter (fst pw)) sid \<le> st"
    "st = S1 \<Longrightarrow> current_state (pl_arbiter (fst pw')) sid = S1"
    "pl_memories (fst pw') = pl_memories (fst pw)" "pl_govmem (fst pw') = pl_govmem (fst pw)"
proof -
  let ?aw = "(pl_arbiter (fst pw), snd pw)"
  show "frame sid pw pw'" using arbitrate_frame [of s sid pw X md] assms by simp
  have st: "st = fst (process_with_modifier X s md ?aw)"
    and pw': "fst pw' = (fst pw)\<lparr>pl_arbiter := fst (snd (process_with_modifier X s md ?aw))\<rparr>"
    using assms(1) arbitrate_simps [of X s md pw] by simp_all
  show "current_state (pl_arbiter (fst pw)) sid \<le> st"
    using modified_ge [of ?aw s X md] st assms(2) by simp
  show "st = S1 \<Longrightarrow> current_state (pl_arbiter (fst pw')) sid = S1"
    using modified_S1 [of X s md ?aw] st pw' assms(2) by simp
  show "pl_memories (fst pw') = pl_memories (fst pw)" "pl_govmem (fst pw') = pl_govmem (fst pw)"
    using pw' by simp_all
qed

lemma memory_signal_fields:
  "sg_session_id (fst (build_memory_signal X sid v dir w)) = sid"
  "world_le w (snd (build_memory_signal X sid v dir w))"
  by (simp_all add: build_memory_signal_def)

lemma floor_frame:
  assumes "apply_floor X sid v st pw = (final, pw')"
  shows "frame sid pw pw'" "final = apply_memory_floor (mv_state v) st"
    "final = S1 \<Longrightarrow> pw' = pw \<and> memory_floor (mv_state v) = None"
proof -
  obtain s w1 where s: "build_memory_signal X sid v Inbound (snd pw) = (s, w1)" by (metis surj_pair)
  obtain r A w2 where p: "arbiter_process X s (pl_arbiter (fst pw), w1) = (r, A, w2)"
    by (metis prod_cases3)
  have sid: "sg_session_id s = sid" and w1: "world_le (snd pw) w1"
    using memory_signal_fields [where X = X and sid = sid and v = v and dir = Inbound and w = "snd pw"] s
    by simp_all
  have w2: "world_le (snd pw) w2"
    using world_le_trans [OF w1] process_world [of "(pl_arbiter (fst pw), w1)" X s] p by simp
  have "frame sid pw ((fst pw)\<lparr>pl_arbiter := A\<rparr>, w2)"
    using w2 p sid process_mono [of "(pl_arbiter (fst pw), w1)" _ X s]
      process_authority [of X s "(pl_arbiter (fst pw), w1)"]
      process_other [of _ s X "(pl_arbiter (fst pw), w1)"]
    by (intro frameI) (auto simp: session_view_def)
  then show "frame sid pw pw'"
    using assms s p by (auto simp: apply_floor_def Let_def split: if_splits)
  show fin: "final = apply_memory_floor (mv_state v) st"
    using assms s p by (auto simp: apply_floor_def Let_def split: if_splits)
  show "final = S1 \<Longrightarrow> pw' = pw \<and> memory_floor (mv_state v) = None"
    using assms fin by (cases "mv_state v"; cases st)
      (auto simp: apply_floor_def Let_def split_def apply_memory_floor_def state_order
        split: if_splits)
qed

lemma ingest_cases:
  assumes "ingest_to_memory X sid (Some s) cls pw = (v, pw')"
    "hm_get (pl_memories (fst pw)) sid \<noteq> None"
  obtains mv m where "v = Some mv" "hm_get (pl_memories (fst pw')) sid = Some m"
    "mv_state mv = sm_memory_state m" "pl_arbiter (fst pw') = pl_arbiter (fst pw)"
proof -
  obtain m0 where "hm_get (pl_memories (fst pw)) sid = Some m0" using assms(2) by auto
  with assms(1) have "v = Some (fst (ingest_signal X (pl_memory_config (fst pw)) s cls m0 (snd pw)))"
    "hm_get (pl_memories (fst pw')) sid =
       Some (fst (snd (ingest_signal X (pl_memory_config (fst pw)) s cls m0 (snd pw))))"
    "pl_arbiter (fst pw') = pl_arbiter (fst pw)"
    by (auto simp: ingest_to_memory_def split_def Let_def)
  then show thesis using that memory_verdict_state by blast
qed

lemma finish_sound:
  assumes mem: "hm_get (pl_memories (fst pw)) (tn_session t) \<noteq> None"
    and st: "current_state (pl_arbiter (fst pw0)) (tn_session t) \<le> st"
      "st = S1 \<Longrightarrow> current_state (pl_arbiter (fst pw)) (tn_session t) = S1"
    and fr: "frame (tn_session t) pw0 pw" and s: "about_turn (tn_session t) (Some s)"
  shows "sound_turn t pw0 (finish_turn X t st (Some s) pw)"
proof -
  obtain v pw1 where i: "ingest_to_memory X (tn_session t) (Some s) (tn_class t) pw = (v, pw1)"
    by (metis surj_pair)
  from ingest_cases [OF i mem] obtain mv m where m: "v = Some mv"
    "hm_get (pl_memories (fst pw1)) (tn_session t) = Some m" "mv_state mv = sm_memory_state m"
    "pl_arbiter (fst pw1) = pl_arbiter (fst pw)" .
  obtain final pw2 where f: "apply_floor X (tn_session t) mv st pw1 = (final, pw2)"
    by (metis surj_pair)
  note ff = floor_frame [OF f]
  have res: "finish_turn X t st (Some s) pw =
      (enforcement_result_for final (tn_content t), Some s, pw2)"
    by (simp add: finish_turn_def i m f)
  have "frame (tn_session t) pw0 pw2"
    using frame_trans [OF fr frame_trans [OF _ ff(1)]]
      ingest_frame [of "tn_session t" pw X "Some s" "tn_class t"] by (simp add: i)
  moreover have "approval_sound t (finish_turn X t st (Some s) pw)"
    unfolding res
  proof (cases final)
    case S1
    then have "st = S1"
      using ff(2) apply_memory_floor_ge [of st "mv_state mv"] by (cases st) (simp_all add: state_order)
    with S1 ff(3) m st(2) s show "approval_sound t
        (enforcement_result_for final (tn_content t), Some s, pw2)"
      by (simp add: approval_sound_def)
  qed (simp_all add: approval_sound_def)
  moreover have "\<not> lets_through (enforcement_result_for final (tn_content t))"
    if "S3 \<le> current_state (pl_arbiter (fst pw0)) (tn_session t)"
  proof -
    have "S3 \<le> final"
      using that st(1) ff(2) apply_memory_floor_ge [of st "mv_state mv"] by (metis order_trans)
    then show ?thesis by (cases final) (simp_all add: state_order)
  qed
  ultimately show ?thesis by (simp add: sound_turn_def res)
qed

lemma track_some: "\<exists>h'. track_highest s h = Some h'"
  by (auto simp: track_highest_def split: option.split)

lemma oim_layer_sound:
  assumes mem: "hm_get (pl_memories (fst pw)) (tn_session t) \<noteq> None"
    and ow: "about_turn (tn_session t) (Some ow)" and h: "about_turn (tn_session t) h"
  shows "sound_turn t pw (oim_layer X t ow h pw)"
proof -
  obtain s pw1 where o: "observe_oim X ow pw = (s, pw1)" by (metis surj_pair)
  obtain st pw2 where a: "arbitrate X s (tn_modifier t) pw1 = (st, pw2)" by (metis surj_pair)
  have s: "about_turn (tn_session t) (Some s)"
    using ow o observe_oim_simps(1) [of X ow pw] by (simp add: session_of oim_direction)
  then have sid: "sg_session_id s = tn_session t" by simp
  have f1: "frame (tn_session t) pw pw1"
    using observe_oim_frame [of "tn_session t" pw X ow] by (simp add: o)
  note as = arbitrate_step [OF a sid]
  obtain h' where h': "track_highest s h = Some h'" using track_some by blast
  have "sound_turn t pw1 (finish_turn X t st (Some h') pw2)"
    by (rule finish_sound) (use as f1 mem about_turn_track [OF s h] h' in \<open>auto simp: frame_def\<close>)
  with f1 show ?thesis by (simp add: oim_layer_def o a h' Let_def sound_later)
qed

lemma haap_layer_sound:
  assumes mem: "hm_get (pl_memories (fst pw)) (tn_session t) \<noteq> None"
    and ow: "about_turn (tn_session t) (Some ow)" and h: "about_turn (tn_session t) h"
  shows "sound_turn t pw (haap_layer X t ow h pw)"
proof -
  obtain v pw1 where e: "pl_haap_evaluate X (tn_session t) ExecuteActions (tn_haap_class t) None pw =
      (v, pw1)" by (metis surj_pair)
  have f: "frame (tn_session t) pw pw1"
    using haap_frame [of "tn_session t" pw X "tn_session t" ExecuteActions "tn_haap_class t" None]
    by (simp add: e)
  then have "hm_get (pl_memories (fst pw1)) (tn_session t) \<noteq> None" using mem by (simp add: frame_def)
  from oim_layer_sound [OF this ow h, of X] have "sound_turn t pw (oim_layer X t ow h pw1)"
    using f sound_later by blast
  with f show ?thesis by (cases v) (simp_all add: haap_layer_def e sound_stop)
qed

lemma overwatch_layer_sound:
  assumes mem: "hm_get (pl_memories (fst pw)) (tn_session t) \<noteq> None"
    and h: "about_turn (tn_session t) h"
  shows "sound_turn t pw (overwatch_layer X t h pw)"
proof -
  let ?sid = "tn_session t"
  obtain s pw1 where o: "observe_overwatch X (tn_content t) Inbound ?sid pw = (s, pw1)"
    by (metis surj_pair)
  define pw2 where "pw2 = note_layer X ?sid (tn_overwatch_label t) s pw1"
  obtain st pw3 where a: "arbitrate X s (tn_modifier t) pw2 = (st, pw3)" by (metis surj_pair)
  have s: "about_turn ?sid (Some s)"
    using o observe_overwatch_simps(1) [of X "tn_content t" Inbound ?sid pw]
    by (simp add: session_of overwatch_direction)
  then have sid: "sg_session_id s = ?sid" by simp
  have f2: "frame ?sid pw pw2"
    using frame_trans [OF _ note_layer_frame] observe_overwatch_frame [of ?sid pw X] o
    by (metis pw2_def snd_conv)
  note as = arbitrate_step [OF a sid]
  have f3: "frame ?sid pw pw3" using frame_trans [OF f2 as(1)] .
  then have "hm_get (pl_memories (fst pw3)) ?sid \<noteq> None" using mem by (simp add: frame_def)
  from haap_layer_sound [OF this s about_turn_track [OF s h]]
  have "sound_turn t pw (haap_layer X t s (track_highest s h) pw3)"
    using f3 sound_later by blast
  then show ?thesis
    using f2 f3 hard_block_not_through
    by (auto simp: overwatch_layer_def o pw2_def [symmetric] a Let_def intro: sound_stop
        split: option.split)
qed

lemma corridor_layer_sound:
  assumes mem: "hm_get (pl_memories (fst pw)) (tn_session t) \<noteq> None"
    and h: "about_turn (tn_session t) h"
  shows "sound_turn t pw (corridor_layer X t h pw)"
proof -
  let ?sid = "tn_session t"
  obtain s w1 where c: "corridor_evaluate X (pl_evaluator (fst pw)) (tn_content t) Inbound ?sid
      (snd pw) = (s, w1)" by (metis surj_pair)
  define pw1 where "pw1 = note_layer X ?sid (tn_corridor_label t) s (fst pw, w1)"
  obtain st pw2 where a: "arbitrate X s (tn_modifier t) pw1 = (st, pw2)" by (metis surj_pair)
  have s: "about_turn ?sid (Some s)"
    using corridor_session [of X "pl_evaluator (fst pw)" "tn_content t" Inbound ?sid "snd pw"] c
      corridor_direction [of X "pl_evaluator (fst pw)" "tn_content t" Inbound ?sid "snd pw"]
    by simp
  then have sid: "sg_session_id s = ?sid" by simp
  have "frame ?sid pw (fst pw, w1)"
    using corridor_world [of "snd pw" X "pl_evaluator (fst pw)" "tn_content t" Inbound ?sid] c
    by (simp add: world_frame_step)
  then have f1: "frame ?sid pw pw1" using frame_trans [OF _ note_layer_frame] by (simp add: pw1_def)
  note as = arbitrate_step [OF a sid]
  have f2: "frame ?sid pw pw2" using frame_trans [OF f1 as(1)] .
  then have "hm_get (pl_memories (fst pw2)) ?sid \<noteq> None" using mem by (simp add: frame_def)
  from overwatch_layer_sound [OF this about_turn_track [OF s h]]
  have "sound_turn t pw (overwatch_layer X t (track_highest s h) pw2)"
    using f2 sound_later by blast
  then show ?thesis
    using f2 hard_block_not_through
    by (auto simp: corridor_layer_def c pw1_def [symmetric] a Let_def intro: sound_stop
        split: option.split)
qed

lemma sentinel_layer_sound:
  assumes mem: "hm_get (pl_memories (fst pw)) (tn_session t) \<noteq> None"
    and sid: "sg_session_id s = tn_session t" and h: "about_turn (tn_session t) h"
  shows "sound_turn t pw (sentinel_layer X t s h pw)"
proof -
  obtain st pw1 where a: "arbitrate X s (tn_modifier t) pw = (st, pw1)" by (metis surj_pair)
  note as = arbitrate_step [OF a sid]
  have "hm_get (pl_memories (fst pw1)) (tn_session t) \<noteq> None" using mem as(4) by simp
  from corridor_layer_sound [OF this h] have "sound_turn t pw (corridor_layer X t h pw1)"
    using as(1) sound_later by blast
  then show ?thesis
    using as(1) hard_block_not_through
    by (auto simp: sentinel_layer_def a intro: sound_stop split: option.split)
qed

section \<open>A locked memory blocks\<close>

definition memory_locked :: "string \<Rightarrow> pipeline \<Rightarrow> bool" where
  "memory_locked sid P \<longleftrightarrow> session_memory_state sid P = Some Locked"

lemma locked_blocks:
  assumes "memory_locked sid P" "gm_block_threshold g < 1"
  shows "should_block g (pl_memories P) sid dept"
  using assms by (auto simp: memory_locked_def session_memory_state_def should_block_def
      threshold_modifier_def locked_score simp del: modifier_of.simps)

lemma stop_not_through: "\<not> lets_through r \<Longrightarrow> \<not> lets_through (fst (stop_turn X t r h pw))"
  by (simp add: stop_turn_def)

lemma overwatch_locked:
  assumes "memory_locked (tn_session t) (fst pw)" "gm_block_threshold (pl_govmem (fst pw)) < 1"
  shows "\<not> lets_through (fst (overwatch_layer X t h pw))"
proof -
  let ?sid = "tn_session t"
  obtain s pw1 where o: "observe_overwatch X (tn_content t) Inbound ?sid pw = (s, pw1)"
    by (metis surj_pair)
  define pw2 where "pw2 = note_layer X ?sid (tn_overwatch_label t) s pw1"
  have P: "pl_memories (fst pw1) = pl_memories (fst pw)" "pl_govmem (fst pw1) = pl_govmem (fst pw)"
    using observe_overwatch_simps(3) [of X "tn_content t" Inbound ?sid pw] by (simp_all add: o)
  have "should_block (pl_govmem (fst pw2)) (pl_memories (fst pw)) ?sid (tn_department t)"
    by (rule locked_blocks) (use assms P in \<open>simp_all add: pw2_def layer_signal_threshold\<close>)
  then show ?thesis
    using P by (simp add: overwatch_layer_def o pw2_def Let_def stop_not_through)
qed

lemma corridor_locked:
  assumes "memory_locked (tn_session t) (fst pw)" "gm_block_threshold (pl_govmem (fst pw)) < 1"
  shows "\<not> lets_through (fst (corridor_layer X t h pw))"
proof -
  let ?sid = "tn_session t"
  obtain s w1 where c: "corridor_evaluate X (pl_evaluator (fst pw)) (tn_content t) Inbound ?sid
      (snd pw) = (s, w1)" by (metis surj_pair)
  define pw1 where "pw1 = note_layer X ?sid (tn_corridor_label t) s (fst pw, w1)"
  obtain st pw2 where a: "arbitrate X s (tn_modifier t) pw1 = (st, pw2)" by (metis surj_pair)
  note as = arbitrate_step [OF a refl]
  have "memory_locked ?sid (fst pw2)" "gm_block_threshold (pl_govmem (fst pw2)) < 1"
    using assms as(4,5) by (simp_all add: pw1_def memory_locked_def session_memory_state_def
        layer_signal_threshold)
  then show ?thesis
    using overwatch_locked hard_block_not_through stop_not_through
    by (auto simp: corridor_layer_def c pw1_def [symmetric] a Let_def split: option.split)
qed

lemma sentinel_locked:
  assumes "memory_locked (tn_session t) (fst pw)" "gm_block_threshold (pl_govmem (fst pw)) < 1"
  shows "\<not> lets_through (fst (sentinel_layer X t s h pw))"
proof -
  obtain st pw1 where a: "arbitrate X s (tn_modifier t) pw = (st, pw1)" by (metis surj_pair)
  note as = arbitrate_step [OF a refl]
  have "memory_locked (tn_session t) (fst pw1)" "gm_block_threshold (pl_govmem (fst pw1)) < 1"
    using assms as(4,5) by (simp_all add: memory_locked_def session_memory_state_def)
  then show ?thesis
    using corridor_locked hard_block_not_through stop_not_through
    by (auto simp: sentinel_layer_def a split: option.split)
qed

section \<open>Inbound turns\<close>

text \<open>Whether a session is barred: the arbiter holds it in \<open>S3\<close> or above, or its memory is locked.\<close>

definition barred :: "string \<Rightarrow> pipeline \<Rightarrow> bool" where
  "barred sid P \<longleftrightarrow> S3 \<le> pl_current_state sid P \<or>
     memory_locked sid P \<and> gm_block_threshold (pl_govmem P) < 1"

lemma init_memory:
  assumes "init_session_memory X sid pw = (md, pw1)"
  shows "frame sid pw pw1" "hm_get (pl_memories (fst pw1)) sid \<noteq> None"
    "memory_locked sid (fst pw) \<Longrightarrow> memory_locked sid (fst pw1)"
    "pl_govmem (fst pw1) = pl_govmem (fst pw)"
  using assms init_frame [of sid pw X]
  by (auto simp: init_session_memory_def split_def Let_def memory_locked_def
      session_memory_state_def split: option.splits)

text \<open>
  Both inbound functions are a preparation that keeps the frame, then the layers, then the record of
  an approval; \<open>passes\<close> is that shape, from the prepared state on.
\<close>

definition layers :: "externs \<Rightarrow> turn \<Rightarrow> signal option \<Rightarrow> signal option \<Rightarrow> pst \<Rightarrow> layer_result" where
  "layers X t s h pw = (case s of
       Some s \<Rightarrow> sentinel_layer X t s h pw | None \<Rightarrow> corridor_layer X t h pw)"

lemma layers_sound:
  assumes "hm_get (pl_memories (fst pw)) (tn_session t) \<noteq> None"
    "about_turn (tn_session t) s" "about_turn (tn_session t) h"
  shows "sound_turn t pw (layers X t s h pw)"
  using sentinel_layer_sound [OF assms(1) _ assms(3)] corridor_layer_sound [OF assms(1,3)] assms(2)
  by (cases s) (simp_all add: layers_def)

lemma barred_not_through:
  assumes "barred (tn_session t) (fst pw0)" "frame (tn_session t) pw0 pw"
    "memory_locked (tn_session t) (fst pw0) \<Longrightarrow> memory_locked (tn_session t) (fst pw)"
    "sound_turn t pw (layers X t s h pw)"
  shows "\<not> lets_through (fst (layers X t s h pw))"
proof (cases "S3 \<le> pl_current_state (tn_session t) (fst pw0)")
  case True
  then show ?thesis
    using assms(2,4) order_trans unfolding frame_def sound_turn_def pl_current_state_def by blast
next
  case False
  with assms(1-3) have "memory_locked (tn_session t) (fst pw)"
    "gm_block_threshold (pl_govmem (fst pw)) < 1" by (simp_all add: barred_def frame_def)
  then show ?thesis
    using sentinel_locked corridor_locked by (simp add: layers_def split: option.split)
qed

lemma frame_notes:
  "frame sid pw a \<Longrightarrow> frame sid pw (note_layer X t l s a)"
  "frame sid pw a \<Longrightarrow> frame sid pw (note_turn X t m d b dp ag a)"
  using frame_trans note_layer_frame note_turn_frame by blast+

lemma inbound_shape:
  obtains t s h pw1 where "tn_session t = sid" "tn_content t = input" "frame sid pw pw1"
    "hm_get (pl_memories (fst pw1)) sid \<noteq> None" "about_turn sid (Some s)" "about_turn sid h"
    "memory_locked sid (fst pw) \<Longrightarrow> memory_locked sid (fst pw1)"
    "inbound_with_identity X input sid tx dept agent pw =
       (case layers X t (Some s) h pw1 of (r, _, P, w) \<Rightarrow>
          if is_approved r
          then case record_final_approved X tx s (pl_ledger P) w of (_, l, w') \<Rightarrow>
            (r, P\<lparr>pl_ledger := l\<rparr>, w')
          else (r, P, w))"
proof -
  obtain md P1 w1 where i: "init_session_memory X sid pw = (md, P1, w1)" by (metis prod_cases3)
  obtain s w2 where s: "sentinel_inspect X input Inbound sid w1 = (s, w2)" by (metis surj_pair)
  define pw3 where
    "pw3 = note_turn X sid input UserToSystem (SevHigh \<le> sg_severity s) dept agent (P1, w2)"
  define pw4 where "pw4 = note_layer X sid ''sentinel'' s pw3"
  define t where "t = \<lparr>tn_session = sid, tn_content = input, tn_class = classify_payload X input,
    tn_modifier = md, tn_department = dept, tn_corridor_label = ''corridor_in'',
    tn_overwatch_label = ''overwatch'', tn_haap_class = ''pipeline_inbound''\<rparr>"
  note im = init_memory [OF i, unfolded fst_conv]
  have "frame sid (P1, w1) (P1, w2)"
    using sentinel_world [of w1 X input Inbound sid] s world_frame_step [of "(P1, w1)" w2] by simp
  then have f: "frame sid pw pw4"
    using frame_trans [OF im(1)] by (simp add: pw3_def pw4_def frame_notes)
  have s_sid: "sg_session_id s = sid" "sg_direction s = Inbound"
    using s sentinel_session sentinel_direction by (metis fst_conv)+
  have mem: "pl_memories (fst pw4) = pl_memories P1" by (simp add: pw4_def pw3_def)
  show thesis
  proof (rule that [of t pw4 s "track_highest s None"])
    show "inbound_with_identity X input sid tx dept agent pw =
       (case layers X t (Some s) (track_highest s None) pw4 of (r, _, P, w) \<Rightarrow>
          if is_approved r
          then case record_final_approved X tx s (pl_ledger P) w of (_, l, w') \<Rightarrow>
            (r, P\<lparr>pl_ledger := l\<rparr>, w')
          else (r, P, w))"
      by (simp add: inbound_with_identity_def i s t_def pw4_def pw3_def layers_def Let_def
          split: prod.split)
  qed (use f mem im s_sid about_turn_track [of sid s None] in
      \<open>simp_all add: t_def memory_locked_def session_memory_state_def\<close>)
qed

lemma inspect_segments_frame:
  "inspect_segments X sid segs h joined pw = (h', joined', pw') \<Longrightarrow>
     about_turn sid h \<Longrightarrow>
     frame sid pw pw' \<and> pl_memories (fst pw') = pl_memories (fst pw) \<and> about_turn sid h'"
proof (induction segs arbitrary: h joined pw)
  case (Cons seg segs)
  obtain s w1 where s: "sentinel_inspect X (seg_content seg) Inbound sid (snd pw) = (s, w1)"
    by (metis surj_pair)
  define pw1 where "pw1 = note_layer X sid ''sentinel_context_segment'' s (fst pw, w1)"
  have sid: "sg_session_id s = sid" "sg_direction s = Inbound"
    using s sentinel_session sentinel_direction by (metis fst_conv)+
  have "frame sid pw (fst pw, w1)"
    using sentinel_world [of "snd pw" X "seg_content seg" Inbound sid] s
    by (simp add: world_frame_step)
  then have f: "frame sid pw pw1" by (simp add: pw1_def frame_notes)
  have h: "about_turn sid (track_highest s h)"
    using sid Cons.prems(2) by (simp add: about_turn_track)
  have "inspect_segments X sid segs (track_highest s h)
      ((if joined = [] then [] else joined @ [CHR 10]) @ seg_content seg) pw1 = (h', joined', pw')"
    using Cons.prems(1) by (simp add: s pw1_def Let_def)
  from Cons.IH [OF this] h f frame_trans show ?case by (auto simp: pw1_def)
qed simp

text \<open>The turn a model context makes, and the inbound function as layers over it.\<close>

definition context_turn :: "externs \<Rightarrow> string \<Rightarrow> string \<Rightarrow> f32 \<Rightarrow> string option \<Rightarrow> turn" where
  "context_turn X sid content md dept =
     \<lparr>tn_session = sid, tn_content = content, tn_class = classify_payload X content,
      tn_modifier = md, tn_department = dept, tn_corridor_label = ''corridor_in_context'',
      tn_overwatch_label = ''overwatch_context'', tn_haap_class = ''pipeline_inbound_context''\<rparr>"

definition context_result :: "externs \<Rightarrow> model_context_envelope \<Rightarrow> string \<Rightarrow> layer_result \<Rightarrow>
    (envelope_error + enforcement_result) \<times> pst" where
  "context_result X e tx res = (case res of (r, h, P, w) \<Rightarrow>
     if is_approved r
     then case context_signal X e h w of (g, w1) \<Rightarrow>
       case record_final_approved_with_context X tx g (mc_context_hash e) (mc_run_id e)
         (pl_ledger P) w1 of (_, l, w2) \<Rightarrow> (Inr r, P\<lparr>pl_ledger := l\<rparr>, w2)
     else (Inr r, P, w))"

lemma inbound_context_eq:
  assumes "mc_verify X e = Inr u" "init_session_memory X (mc_session_id e) pw = (md, pw1)"
    "inspect_segments X (mc_session_id e) (segments_requiring_inspection e) None [] pw1 =
      (h, content, pw2)"
  shows "inbound_context_with_identity X e tx dept agent pw = context_result X e tx
    (layers X (context_turn X (mc_session_id e) content md dept) h h
      (note_turn X (mc_session_id e) content UserToSystem
        (case h of None \<Rightarrow> False | Some s \<Rightarrow> SevHigh \<le> sg_severity s) dept agent pw2))"
  by (simp add: inbound_context_with_identity_def assms context_turn_def context_result_def
      layers_def Let_def split: prod.split option.split)

lemma inbound_context_shape:
  assumes "mc_verify X e = Inr u"
  obtains t s h pw1 where "tn_session t = mc_session_id e" "frame (mc_session_id e) pw pw1"
    "hm_get (pl_memories (fst pw1)) (mc_session_id e) \<noteq> None"
    "about_turn (mc_session_id e) s" "about_turn (mc_session_id e) h"
    "memory_locked (mc_session_id e) (fst pw) \<Longrightarrow> memory_locked (mc_session_id e) (fst pw1)"
    "inbound_context_with_identity X e tx dept agent pw = context_result X e tx (layers X t s h pw1)"
proof -
  let ?sid = "mc_session_id e"
  obtain md pw1 where i: "init_session_memory X ?sid pw = (md, pw1)" by (metis surj_pair)
  obtain h joined pw2 where g: "inspect_segments X ?sid (segments_requiring_inspection e) None []
      pw1 = (h, joined, pw2)" by (metis prod_cases3)
  define pw3 where "pw3 = note_turn X ?sid joined UserToSystem
    (case h of None \<Rightarrow> False | Some s \<Rightarrow> SevHigh \<le> sg_severity s) dept agent pw2"
  note im = init_memory [OF i] and gs = inspect_segments_frame [OF g]
  have f: "frame ?sid pw pw3"
    using frame_trans [OF im(1)] gs by (simp add: pw3_def frame_notes)
  have mem: "pl_memories (fst pw3) = pl_memories (fst pw1)" using gs by (simp add: pw3_def)
  show thesis
    by (rule that [OF _ f _ _ _ _ inbound_context_eq
        [OF assms i g, of tx dept agent, folded pw3_def]])
      (use mem im gs in \<open>simp_all add: context_turn_def memory_locked_def session_memory_state_def\<close>)
qed

end
