(* ===== verification/CleanTurn.thy ===== *)
theory CleanTurn
  imports Turns Demo
begin

text \<open>
  The other direction: the pipeline does not refuse what nothing speaks against. The first turn of a
  session in which Sentinel, Corridor and OverWatch find nothing, before the integrity monitor has
  a baseline, is approved.
\<close>

lemma clean_signal_clean [simp]: "is_clean (fst (clean_signal X w src dir sid h))"
  by (simp add: is_clean_def)

lemma clean_modified:
  assumes "is_clean s"
  shows "fst (process_with_modifier X s md aw) = current_state (fst aw) (sg_session_id s)"
    "current_state (fst (snd (process_with_modifier X s md aw))) t = current_state (fst aw) t"
  using assms by (cases "md \<le> 0"; simp add: process_with_modifier_zero
      process_with_modifier_positive process_by_state decided_def)+

text \<open>The integrity monitor has no baseline, and fewer than \<open>n\<close> signals towards one.\<close>

definition oim_calm :: "nat \<Rightarrow> oim \<Rightarrow> bool" where
  "oim_calm n M \<longleftrightarrow> (let g = oim_sig M
     in os_baseline_escalation_rate g = None \<and> os_baseline_confidence_mean g = None \<and>
        length (os_recent_signals g) < n \<and> length (os_confidence_scores g) < Suc n)"

text \<open>A state in which nothing stands against the session \<open>sid\<close>, up to its memory.\<close>

definition unburdened :: "string \<Rightarrow> pipeline \<Rightarrow> bool" where
  "unburdened sid P \<longleftrightarrow> pl_current_state sid P = S1 \<and> pl_memory_config P = default_memory_config \<and>
     0 \<le> gm_block_threshold (pl_govmem P) \<and>
     0 < constitutional_block_threshold (hg_config (pl_haap P)) \<and>
     oim_calm 19 (pl_oim P)"

text \<open>The memory of a session before its first signal.\<close>

definition blank_memory :: "session_memory \<Rightarrow> bool" where
  "blank_memory m \<longleftrightarrow> sm_memory_state m = Clear \<and> sm_turn_count m = 0 \<and> sm_cumulative_threat m = 0 \<and>
     sm_boundary_probes m = 0 \<and> sm_extraction_attempts m = 0"

lemma arbitrate_clean:
  assumes "arbitrate X s md pw = (st, pw')" "is_clean s" "sg_session_id s = sid"
    "unburdened sid (fst pw)"
  shows "st = S1" "unburdened sid (fst pw')" "pl_memories (fst pw') = pl_memories (fst pw)"
    "pl_evaluator (fst pw') = pl_evaluator (fst pw)" "pl_overwatch (fst pw') = pl_overwatch (fst pw)"
proof -
  let ?aw = "(pl_arbiter (fst pw), snd pw)"
  have st: "st = fst (process_with_modifier X s md ?aw)"
    and pw': "fst pw' = (fst pw)\<lparr>pl_arbiter := fst (snd (process_with_modifier X s md ?aw))\<rparr>"
    using assms(1) arbitrate_simps [of X s md pw] by simp_all
  show "st = S1" using clean_modified(1) [OF assms(2), of X md ?aw] st assms(3,4)
    by (simp add: unburdened_def pl_current_state_def)
  show "unburdened sid (fst pw')"
    using clean_modified(2) [OF assms(2), of X md ?aw sid] assms(4)
    by (simp add: pw' unburdened_def pl_current_state_def)
qed (use assms(1) arbitrate_simps(3) [of X s md pw] in simp_all)

definition silent :: "string \<Rightarrow> signal \<Rightarrow> bool" where
  "silent sid s \<longleftrightarrow> sg_severity s = SevNone \<and> sg_confidence s = 0 \<and> sg_violation_class s = None \<and>
     sg_session_id s = sid"

lemma silent_clean: "silent sid s \<Longrightarrow> is_clean s"
  by (simp add: silent_def is_clean_def)

lemma clean_signal_silent: "silent sid (fst (clean_signal X w src dir sid h))"
  by (simp add: silent_def)

lemma silent_track: "silent sid s \<Longrightarrow> (\<And>u. h = Some u \<Longrightarrow> silent sid u) \<Longrightarrow>
    track_highest s h = Some v \<Longrightarrow> silent sid v"
  by (auto simp: track_highest_def split: option.splits if_splits)

lemma first_weight:
  assumes "silent sid s" "sm_boundary_probes m = 0" "sm_extraction_attempts m = 0"
  shows "weighted_signal default_memory_config s c (count_pattern c m) \<le> f32_lit (2 / 10)"
    "0 \<le> weighted_signal default_memory_config s c (count_pattern c m)"
  using assms by (cases c; simp add: weighted_signal_def silent_def count_pattern_def f32_mul_def
      default_memory_config_def Let_def f32_eval f32_add_def)+

lemma first_ingest:
  assumes "blank_memory m" "silent sid s"
  shows "sm_memory_state (fst (snd (ingest_signal X default_memory_config s c m w))) = Clear"
proof -
  let ?cfg = default_memory_config
  let ?m = "fst (snd (ingest_signal X ?cfg s c m w))"
  let ?w = "weighted_signal ?cfg s c (count_pattern c (record_turn X w s c m))"
  have probes: "sm_boundary_probes (record_turn X w s c m) = 0"
    "sm_extraction_attempts (record_turn X w s c m) = 0"
    using assms(1) by (simp_all add: blank_memory_def record_turn_def Let_def)
  have "sm_cumulative_threat ?m = f32_round ?w"
    using ingest_state(6) [of X ?cfg s c m w] assms
    by (simp add: accumulate_def amplify_def silent_def blank_memory_def f32_add_def f32_mul_def
        record_turn_def Let_def)
  also have "\<dots> \<le> f32_round (f32_lit (2 / 10))"
    by (rule f32_round_mono) (rule first_weight(1) [OF assms(2) probes])
  finally have "sm_cumulative_threat ?m < watching_threshold ?cfg"
    by (simp add: f32_eval default_memory_config_def)
  moreover from this have "sm_cumulative_threat ?m < elevated_threshold ?cfg"
    "sm_cumulative_threat ?m < escalated_threshold ?cfg"
    "sm_cumulative_threat ?m < locked_threshold ?cfg"
    by (simp_all add: f32_eval default_memory_config_def)
  moreover have "sm_turn_count ?m = 1"
    using ingest_turns(1) [of X ?cfg s c m w] assms(1) by (simp add: blank_memory_def)
  ultimately show ?thesis
    using ingest_state(2) [of X ?cfg s c m w] by (simp add: compute_state_def not_le)
qed

section \<open>The layers of a clean turn\<close>

lemma oim_silent:
  assumes "oim_calm 19 (pl_oim (fst pw))" "sg_session_id ow = sid"
  shows "silent sid (fst (observe_oim X ow pw))"
proof -
  obtain P w where pw: "pw = (P, w)" by (cases pw)
  define g where "g = record_signal (now X w) ow (oim_sig (pl_oim P))"
  have len: "length (os_recent_signals g) < 20" "length (os_confidence_scores g) < 21"
    using assms(1) length_filter_le [of _ "os_recent_signals (oim_sig (pl_oim P)) @ [_]"]
    by (auto simp: g_def record_signal_def Let_def oim_calm_def pw intro!: le_less_trans
        [OF length_filter_le])
  have none: "os_baseline_escalation_rate g = None" "os_baseline_confidence_mean g = None"
    using assms(1) by (simp_all add: g_def record_signal_def Let_def oim_calm_def pw)
  have "maybe_establish_baseline X (g, tick w) = (g, tick w)"
    using len(1) by (simp add: maybe_establish_baseline_def)
  moreover have "rate_deviation X g (tick w) = (None, tick w)"
    using none by (simp add: rate_deviation_def)
  moreover have "oim_finding (pl_oim P) g None = None"
    using len none by (simp add: oim_finding_def mean_drifted_def)
  ultimately have "fst (oim_observe X ow (P', w)) = fst (clean_signal X (tick w) OIM
      (sg_direction ow) (sg_session_id ow) (compute_hash X (sg_canonical ow)))"
    if "P' = pl_oim P" for P'
    by (simp add: oim_observe_def g_def [symmetric] that Let_def split_def)
  then show ?thesis using clean_signal_silent assms(2) by (simp add: pw)
qed

lemma finish_approves:
  assumes "hm_get (pl_memories (fst pw)) (tn_session t) = Some m" "blank_memory m"
    "silent (tn_session t) s" "pl_memory_config (fst pw) = default_memory_config"
  shows "fst (finish_turn X t S1 (Some s) pw) = Approved (tn_content t)"
proof -
  obtain v pw1 where i: "ingest_to_memory X (tn_session t) (Some s) (tn_class t) pw = (v, pw1)"
    by (metis surj_pair)
  have "hm_get (pl_memories (fst pw)) (tn_session t) \<noteq> None" using assms(1) by simp
  from ingest_cases [OF i this] obtain mv m' where m: "v = Some mv"
    "hm_get (pl_memories (fst pw1)) (tn_session t) = Some m'" "mv_state mv = sm_memory_state m'" .
  have "m' = fst (snd (ingest_signal X default_memory_config s (tn_class t) m (snd pw)))"
    using i m(2) assms(1,4) by (auto simp: ingest_to_memory_def split_def Let_def)
  then have "mv_state mv = Clear" using m(3) first_ingest [OF assms(2,3)] by simp
  then show ?thesis
    by (simp add: finish_turn_def i m(1) apply_floor_def apply_memory_floor_def split_def Let_def
        state_order)
qed

lemma oim_layer_approves:
  assumes "unburdened (tn_session t) (fst pw)" "sg_session_id ow = tn_session t"
    "hm_get (pl_memories (fst pw)) (tn_session t) = Some m" "blank_memory m"
    "\<And>u. h = Some u \<Longrightarrow> silent (tn_session t) u"
  shows "fst (oim_layer X t ow h pw) = Approved (tn_content t)"
proof -
  obtain s pw1 where o: "observe_oim X ow pw = (s, pw1)" by (metis surj_pair)
  obtain st pw2 where a: "arbitrate X s (tn_modifier t) pw1 = (st, pw2)" by (metis surj_pair)
  have s: "silent (tn_session t) s"
    using oim_silent [of pw ow "tn_session t" X] assms(1,2) o by (simp add: unburdened_def)
  obtain h' where h': "track_highest s h = Some h'" using track_some by blast
  obtain M where P1: "fst pw1 = (fst pw)\<lparr>pl_oim := M\<rparr>"
    using observe_oim_simps(3) [of X ow pw] o by (metis snd_conv)
  have "fst (process_with_modifier X s (tn_modifier t) (pl_arbiter (fst pw1), snd pw1)) = S1"
    using clean_modified(1) [OF silent_clean [OF s], of X "tn_modifier t"
        "(pl_arbiter (fst pw1), snd pw1)"] s assms(1)
    by (simp add: P1 silent_def unburdened_def pl_current_state_def)
  then have st: "st = S1" using a arbitrate_simps(1) [of X s "tn_modifier t" pw1] by simp
  have "pl_memories (fst pw2) = pl_memories (fst pw)"
    "pl_memory_config (fst pw2) = pl_memory_config (fst pw)"
    using a arbitrate_simps(3) [of X s "tn_modifier t" pw1] by (simp_all add: P1)
  then have "fst (finish_turn X t S1 (Some h') pw2) = Approved (tn_content t)"
    using assms(1,3,4) silent_track [OF s assms(5) h']
    by (intro finish_approves [of _ _ m]) (simp_all add: unburdened_def)
  then show ?thesis by (simp add: oim_layer_def o a h' st Let_def)
qed

lemma clear_drs: "unburdened sid P \<Longrightarrow> hm_get (pl_memories P) sid = Some m \<Longrightarrow>
    blank_memory m \<Longrightarrow> session_drs sid P = 0"
  by (simp add: session_drs_def unburdened_def pl_current_state_def blank_memory_def sat_add_def)

lemma haap_layer_approves:
  assumes "unburdened (tn_session t) (fst pw)" "sg_session_id ow = tn_session t"
    "hm_get (pl_memories (fst pw)) (tn_session t) = Some m" "blank_memory m"
    "\<And>u. h = Some u \<Longrightarrow> silent (tn_session t) u"
  shows "fst (haap_layer X t ow h pw) = Approved (tn_content t)"
proof -
  have drs: "session_drs (tn_session t) (fst pw) = 0" by (rule clear_drs [OF assms(1,3,4)])
  have "pl_haap_evaluate X (tn_session t) ExecuteActions (tn_haap_class t) None pw =
      (HvAuthorized 0 ExecuteActions, (fst pw)\<lparr>pl_haap := pl_haap (fst pw)\<rparr>, snd pw)"
    using assms(1) by (simp add: pl_haap_evaluate_def split_def Let_def drs haap_evaluate_def
        below_gate_def unburdened_def not_le word_neq_0_conv)
  then show ?thesis using oim_layer_approves [OF assms] by (simp add: haap_layer_def)
qed

text \<open>What OverWatch would report of a payload, over the session's present fingerprint.\<close>

definition overwatch_quiet :: "externs \<Rightarrow> string \<Rightarrow> string \<Rightarrow> pipeline \<Rightarrow> bool" where
  "overwatch_quiet X payload sid P \<longleftrightarrow>
     overwatch_violations X (ow_config (pl_overwatch P)) Inbound payload
       (update_fingerprint X payload
         (case hm_get (ow_sessions (pl_overwatch P)) sid of
            None \<Rightarrow> ow_fingerprint_new | Some fp \<Rightarrow> fp)) = []"

lemma overwatch_layer_approves:
  assumes "unburdened (tn_session t) (fst pw)"
    "overwatch_quiet X (tn_content t) (tn_session t) (fst pw)"
    "hm_get (pl_memories (fst pw)) (tn_session t) = Some m" "blank_memory m"
    "\<And>u. h = Some u \<Longrightarrow> silent (tn_session t) u"
  shows "fst (overwatch_layer X t h pw) = Approved (tn_content t)"
proof -
  let ?sid = "tn_session t"
  obtain s pw1 where o: "observe_overwatch X (tn_content t) Inbound ?sid pw = (s, pw1)"
    by (metis surj_pair)
  define pw2 where "pw2 = note_layer X ?sid (tn_overwatch_label t) s pw1"
  obtain st pw3 where a: "arbitrate X s (tn_modifier t) pw2 = (st, pw3)" by (metis surj_pair)
  have s: "silent ?sid s"
    using observe_overwatch_simps(1) [of X "tn_content t" Inbound ?sid pw] o assms(2)
      clean_signal_silent
    by (simp add: overwatch_evaluate_def overwatch_quiet_def Let_def split_def)
  obtain M where P1: "fst pw1 = (fst pw)\<lparr>pl_overwatch := M\<rparr>"
    using observe_overwatch_simps(3) [of X "tn_content t" Inbound ?sid pw] o by (metis snd_conv)
  obtain G where P2: "fst pw2 = (fst pw1)\<lparr>pl_govmem := G\<rparr>"
    "gm_block_threshold G = gm_block_threshold (pl_govmem (fst pw1))"
    by (simp add: pw2_def layer_signal_threshold)
  have u: "unburdened ?sid (fst pw2)"
    using assms(1) by (simp add: P1 P2 unburdened_def pl_current_state_def)
  have sid: "sg_session_id s = ?sid" using s by (simp add: silent_def)
  note ac = arbitrate_clean [OF a silent_clean [OF s] sid u]
  have "\<not> should_block (pl_govmem (fst pw2)) (pl_memories (fst pw2)) ?sid (tn_department t)"
    using assms(1,3,4) clear_score by (simp add: P1 P2 should_block_def threshold_modifier_def
        blank_memory_def unburdened_def not_less del: modifier_of.simps)
  moreover have "fst (haap_layer X t s h' pw3) = Approved (tn_content t)"
    if "\<And>u. h' = Some u \<Longrightarrow> silent ?sid u" for h'
    by (rule haap_layer_approves [OF ac(2) sid _ assms(4) that]) (use ac(3) assms(3) in
        \<open>simp_all add: P1 P2\<close>)
  moreover have "track_highest s h = Some u \<Longrightarrow> silent ?sid u" for u
    by (rule silent_track [OF s assms(5)])
  ultimately show ?thesis
    by (simp add: overwatch_layer_def o pw2_def [symmetric] a ac(1) Let_def
        del: note_layer_simps)
qed

lemma corridor_layer_approves:
  assumes "unburdened (tn_session t) (fst pw)"
    "overwatch_quiet X (tn_content t) (tn_session t) (fst pw)"
    "corridor_finding X (pl_evaluator (fst pw)) Inbound (tn_content t) = None"
    "hm_get (pl_memories (fst pw)) (tn_session t) = Some m" "blank_memory m"
    "\<And>u. h = Some u \<Longrightarrow> silent (tn_session t) u"
  shows "fst (corridor_layer X t h pw) = Approved (tn_content t)"
proof -
  let ?sid = "tn_session t"
  obtain s w1 where c: "corridor_evaluate X (pl_evaluator (fst pw)) (tn_content t) Inbound ?sid
      (snd pw) = (s, w1)" by (metis surj_pair)
  define pw1 where "pw1 = note_layer X ?sid (tn_corridor_label t) s (fst pw, w1)"
  obtain st pw2 where a: "arbitrate X s (tn_modifier t) pw1 = (st, pw2)" by (metis surj_pair)
  have s: "silent ?sid s"
    using clean_signal_silent [of ?sid X "snd pw"] c assms(3)
    by (simp add: corridor_evaluate_def signal_of_finding_def) (metis clean_signal_silent fst_conv)
  obtain G where P1: "fst pw1 = (fst pw)\<lparr>pl_govmem := G\<rparr>"
    "gm_block_threshold G = gm_block_threshold (pl_govmem (fst pw))"
    by (simp add: pw1_def layer_signal_threshold)
  have u: "unburdened ?sid (fst pw1)"
    using assms(1) by (simp add: P1 unburdened_def pl_current_state_def)
  have sid: "sg_session_id s = ?sid" using s by (simp add: silent_def)
  note ac = arbitrate_clean [OF a silent_clean [OF s] sid u]
  have "fst (overwatch_layer X t (track_highest s h) pw2) = Approved (tn_content t)"
    by (rule overwatch_layer_approves [OF ac(2) _ _ assms(5) silent_track [OF s assms(6)]])
      (use ac assms(2,4) in \<open>simp_all add: P1 overwatch_quiet_def\<close>)
  then show ?thesis
    by (simp add: corridor_layer_def c pw1_def [symmetric] a ac(1) Let_def)
qed

lemma sentinel_layer_approves:
  assumes "unburdened (tn_session t) (fst pw)"
    "overwatch_quiet X (tn_content t) (tn_session t) (fst pw)"
    "corridor_finding X (pl_evaluator (fst pw)) Inbound (tn_content t) = None"
    "hm_get (pl_memories (fst pw)) (tn_session t) = Some m" "blank_memory m"
    "\<And>u. h = Some u \<Longrightarrow> silent (tn_session t) u" "silent (tn_session t) s"
  shows "fst (sentinel_layer X t s h pw) = Approved (tn_content t)"
proof -
  obtain st pw1 where a: "arbitrate X s (tn_modifier t) pw = (st, pw1)" by (metis surj_pair)
  have sid: "sg_session_id s = tn_session t" using assms(7) by (simp add: silent_def)
  note ac = arbitrate_clean [OF a silent_clean [OF assms(7)] sid assms(1)]
  have "fst (corridor_layer X t h pw1) = Approved (tn_content t)"
    by (rule corridor_layer_approves [OF ac(2) _ _ _ assms(5,6)])
      (use ac assms(2-4) in \<open>simp_all add: overwatch_quiet_def\<close>)
  then show ?thesis by (simp add: sentinel_layer_def a ac(1))
qed

section \<open>Clean turns\<close>

text \<open>A session the pipeline has never seen and of whose name it remembers nothing bad.\<close>

definition new_session :: "string \<Rightarrow> pipeline \<Rightarrow> bool" where
  "new_session sid P \<longleftrightarrow> hm_get (pl_memories P) sid = None \<and>
     sa_initial_state (advise_session_start (pl_strategic P) sid) = Clear"

lemma init_new_session:
  assumes "new_session sid P" "unburdened sid P" "init_session_memory X sid (P, w) = (md, pw1)"
  obtains m M where "fst pw1 = P\<lparr>pl_memories := M\<rparr>" "hm_get M sid = Some m" "blank_memory m"
    "unburdened sid (fst pw1)"
  using assms by (auto simp: init_session_memory_def new_session_def split_def Let_def
      session_memory_new_def blank_memory_def unburdened_def pl_current_state_def)

lemma sentinel_silent:
  assumes "sentinel_finding X payload = None"
  shows "silent sid (fst (sentinel_inspect X payload dir sid w))"
  using assms clean_signal_silent by (simp add: sentinel_inspect_def signal_of_finding_def)

lemma unburdened_govmem:
  assumes "gm_block_threshold G = gm_block_threshold (pl_govmem P)"
  shows "unburdened sid (P\<lparr>pl_govmem := G\<rparr>) = unburdened sid P"
  using assms by (simp add: unburdened_def pl_current_state_def)

lemma overwatch_quiet_other [simp]:
  "overwatch_quiet X m sid (P\<lparr>pl_govmem := G\<rparr>) = overwatch_quiet X m sid P"
  "overwatch_quiet X m sid (P\<lparr>pl_memories := M\<rparr>) = overwatch_quiet X m sid P"
  by (simp_all add: overwatch_quiet_def)

text \<open>The segments of a context, none of which Sentinel objects to.\<close>

fun joined_content :: "string \<Rightarrow> context_segment list \<Rightarrow> string" where
  "joined_content acc [] = acc"
| "joined_content acc (seg # segs) =
     joined_content ((if acc = [] then [] else acc @ [CHR 10]) @ seg_content seg) segs"

lemma inspect_clean:
  assumes "inspect_segments X sid segs h acc pw = (h', acc', pw')"
    "\<forall>seg \<in> set segs. sentinel_finding X (seg_content seg) = None"
    "\<And>u. h = Some u \<Longrightarrow> silent sid u"
  shows "acc' = joined_content acc segs \<and> (\<forall>u. h' = Some u \<longrightarrow> silent sid u) \<and>
    (\<exists>G. fst pw' = (fst pw)\<lparr>pl_govmem := G\<rparr> \<and>
       gm_block_threshold G = gm_block_threshold (pl_govmem (fst pw)))"
  using assms
proof (induction segs arbitrary: h acc pw)
  case Nil
  then show ?case by (auto intro!: exI [of _ "pl_govmem (fst pw)"])
next
  case (Cons seg segs)
  obtain s w1 where s: "sentinel_inspect X (seg_content seg) Inbound sid (snd pw) = (s, w1)"
    by (metis surj_pair)
  define pw1 where "pw1 = note_layer X sid ''sentinel_context_segment'' s (fst pw, w1)"
  let ?acc = "(if acc = [] then [] else acc @ [CHR 10]) @ seg_content seg"
  have "silent sid s"
    using sentinel_silent [of X "seg_content seg" sid Inbound "snd pw"] s Cons.prems(2) by simp
  then have h: "\<And>u. track_highest s h = Some u \<Longrightarrow> silent sid u"
    using silent_track Cons.prems(3) by blast
  have "inspect_segments X sid segs (track_highest s h) ?acc pw1 = (h', acc', pw')"
    using Cons.prems(1) by (simp add: s pw1_def Let_def del: note_layer_simps)
  from Cons.IH [OF this _ h] Cons.prems(2) show ?case
    by (auto simp: pw1_def layer_signal_threshold)
qed

text \<open>
  The first model context of a new session, in a pipeline that holds nothing against that session
  and whose integrity monitor has no baseline yet, is approved with its joined content whenever the
  envelope verifies, Sentinel objects to none of its inspectable segments, and Corridor and
  OverWatch do not object to their concatenation.
\<close>

lemma clean_context_let_in:
  fixes e :: model_context_envelope
  defines "sid \<equiv> mc_session_id e"
    and "content \<equiv> joined_content [] (segments_requiring_inspection e)"
  assumes "mc_verify X e = Inr ()" "new_session sid P" "unburdened sid P"
    and "\<forall>seg \<in> set (segments_requiring_inspection e). sentinel_finding X (seg_content seg) = None"
    and "corridor_finding X (pl_evaluator P) Inbound content = None"
    and "overwatch_quiet X content sid P"
  shows "fst (inbound_context_with_identity X e tx dept agent (P, w)) = Inr (Approved content)"
proof -
  obtain md pw1 where i: "init_session_memory X sid (P, w) = (md, pw1)" by (metis surj_pair)
  obtain m M where P1: "fst pw1 = P\<lparr>pl_memories := M\<rparr>" "hm_get M sid = Some m" "blank_memory m"
    "unburdened sid (fst pw1)" by (rule init_new_session [OF assms(4,5) i])
  obtain h acc pw2 where g: "inspect_segments X sid (segments_requiring_inspection e) None [] pw1 =
      (h, acc, pw2)" by (metis prod_cases3)
  from inspect_clean [OF g assms(6)] obtain G where acc: "acc = content"
    and h: "\<And>u. h = Some u \<Longrightarrow> silent sid u" and P2: "fst pw2 = (fst pw1)\<lparr>pl_govmem := G\<rparr>"
      "gm_block_threshold G = gm_block_threshold (pl_govmem (fst pw1))"
    by (auto simp: content_def)
  define pw3 where "pw3 = note_turn X sid content UserToSystem
    (case h of None \<Rightarrow> False | Some s \<Rightarrow> SevHigh \<le> sg_severity s) dept agent pw2"
  define t where "t = context_turn X sid content md dept"
  have t: "tn_session t = sid" "tn_content t = content" by (simp_all add: t_def context_turn_def)
  have P3: "unburdened sid (fst pw3)" "hm_get (pl_memories (fst pw3)) sid = Some m"
    "overwatch_quiet X content sid (fst pw3)"
    "corridor_finding X (pl_evaluator (fst pw3)) Inbound content = None"
    using P1 P2 assms(7,8)
    by (simp_all add: pw3_def unburdened_govmem govmem_turn_threshold)
  have "fst (layers X t h h pw3) = Approved content"
    using corridor_layer_approves [of t pw3 X m h] sentinel_layer_approves [of t pw3 X m h] P1(3) P3 h
    by (cases h) (simp_all add: layers_def t)
  then show ?thesis
    using inbound_context_eq [OF assms(3) i [unfolded sid_def] g [unfolded sid_def], of tx dept agent]
    by (simp add: acc pw3_def t_def sid_def context_result_def split_def)
qed

lemma demo_unburdened: "unburdened sid demo_pipeline"
  by (simp add: unburdened_def demo_pipeline_def pl_current_state_def current_state_def
      arbiter_new_def haap_new_def default_haap_config_def oim_new_def ow_signature_new_def
      default_block_threshold_def oim_calm_def f32_eval)

lemma demo_new_session: "new_session sid demo_pipeline"
  by (simp add: new_session_def demo_pipeline_def advise_session_start_def)

lemma demo_quiet: "overwatch_quiet demo ''hi'' sid demo_pipeline"
  using hi_overwatch by (simp add: overwatch_quiet_def demo_pipeline_def overwatch_new_def)

lemma demo_turn:
  "segments_requiring_inspection (demo_context\<lparr>mc_context_hash := h\<rparr>) = [demo_segment]"
  "seg_content demo_segment = ''hi''"
  "corridor_finding demo (pl_evaluator demo_pipeline) Inbound ''hi'' = None"
  by (simp_all add: segments_requiring_inspection_def demo_context_def demo_segment_def
      demo_pipeline_def hi_corridor)

text \<open>The turn \<open>hi\<close>, for the theories that go on from it.\<close>

lemma demo_approved:
  assumes "mc_verify demo (demo_context\<lparr>mc_context_hash := h\<rparr>) = Inr ()"
  shows "fst (inbound_context_with_identity demo (demo_context\<lparr>mc_context_hash := h\<rparr>) ''tx'' None None
    (demo_pipeline, demo_world)) = Inr (Approved ''hi'')"
  using clean_context_let_in [OF assms demo_new_session demo_unburdened, of "''tx''" None None
      demo_world] by (auto simp: demo_turn demo_quiet hi_sentinel)

end
