(* ===== verification/Governance.thy ===== *)
theory Governance
  imports Turns Demo
begin

text \<open>
  Whole runs of the pipeline: what an approved turn establishes, that barred sessions stay out, that
  sessions do not influence each other, and that every execution capability traces back to an
  approved admission of its own context.
\<close>

section \<open>Single turns\<close>

lemma frame_ledger:
  assumes "frame sid pw (P, w)" "world_le w w'"
  shows "frame sid pw (P\<lparr>pl_ledger := pl_ledger (fst pw)\<rparr>, w')"
  using assms(1) world_le_trans [of "snd pw" w w'] assms(2) by (simp add: frame_def session_view_def)

lemma inbound_outcome:
  assumes "inbound_with_identity X input sid tx dept agent pw = (r, P', w')"
  shows "frame sid pw (P'\<lparr>pl_ledger := pl_ledger (fst pw)\<rparr>, w')"
    "is_approved r \<Longrightarrow> r = Approved input \<and> pl_current_state sid P' = S1 \<and>
       (\<exists>ms. session_memory_state sid P' = Some ms \<and> memory_floor ms = None) \<and>
       (\<exists>s w l. record_final_approved X tx s (pl_ledger (fst pw)) w = (l, pl_ledger P', w') \<and>
          world_le (snd pw) w \<and> sg_session_id s = sid \<and> sg_direction s = Inbound)"
    "\<not> is_approved r \<Longrightarrow> pl_ledger P' = pl_ledger (fst pw)"
    "barred sid (fst pw) \<Longrightarrow> \<not> lets_through r"
proof -
  obtain t s h pw1 where sh: "tn_session t = sid" "tn_content t = input" "frame sid pw pw1"
    "hm_get (pl_memories (fst pw1)) sid \<noteq> None" "about_turn sid (Some s)" "about_turn sid h"
    "memory_locked sid (fst pw) \<Longrightarrow> memory_locked sid (fst pw1)"
    "inbound_with_identity X input sid tx dept agent pw =
       (case layers X t (Some s) h pw1 of (r, _, P, w) \<Rightarrow>
          if is_approved r
          then case record_final_approved X tx s (pl_ledger P) w of (_, l, w') \<Rightarrow>
            (r, P\<lparr>pl_ledger := l\<rparr>, w')
          else (r, P, w))"
    by (rule inbound_shape [where X = X and sid = sid and input = input and pw = pw and tx = tx
        and dept = dept and agent = agent]) (rule that)
  have sound: "sound_turn t pw1 (layers X t (Some s) h pw1)"
    by (rule layers_sound) (use sh in auto)
  obtain r0 h' P w where l: "layers X t (Some s) h pw1 = (r0, h', P, w)" by (metis prod_cases4)
  obtain i l' w2 where rec: "record_final_approved X tx s (pl_ledger P) w = (i, l', w2)"
    by (metis prod_cases3)
  have res: "r = r0" "P' = (if is_approved r0 then P\<lparr>pl_ledger := l'\<rparr> else P)"
    "w' = (if is_approved r0 then w2 else w)"
    using assms sh(8) l rec by (auto split: if_splits)
  have fP: "frame sid pw (P, w)"
    using frame_trans [OF sh(3)] sound sh(1) by (simp add: sound_turn_def l)
  have led: "pl_ledger P = pl_ledger (fst pw)" using fP by (simp add: frame_def)
  have w2: "world_le w w2"
    using record_final_world [of w X tx s None None "pl_ledger P"] rec
    by (simp add: record_final_approved_def)
  show "frame sid pw (P'\<lparr>pl_ledger := pl_ledger (fst pw)\<rparr>, w')"
    using frame_ledger [OF fP world_le_refl] frame_ledger [OF fP w2] by (simp add: res)
  show "is_approved r \<Longrightarrow> r = Approved input \<and> pl_current_state sid P' = S1 \<and>
       (\<exists>ms. session_memory_state sid P' = Some ms \<and> memory_floor ms = None) \<and>
       (\<exists>s w l. record_final_approved X tx s (pl_ledger (fst pw)) w = (l, pl_ledger P', w') \<and>
          world_le (snd pw) w \<and> sg_session_id s = sid \<and> sg_direction s = Inbound)"
    using sound sh(1,2,5,6) rec led fP
    by (auto simp: sound_turn_def l approval_sound_def res pl_current_state_def
        session_memory_state_def frame_def)
  show "\<not> is_approved r \<Longrightarrow> pl_ledger P' = pl_ledger (fst pw)" using led res by simp
  show "barred sid (fst pw) \<Longrightarrow> \<not> lets_through r"
    using barred_not_through [of t pw pw1 X "Some s" h] sh(1,3,7) sound res(1) l by simp
qed

lemma context_rejected:
  "mc_verify X e = Inl err \<Longrightarrow> inbound_context_with_identity X e tx dept agent pw = (Inl err, pw)"
  by (simp add: inbound_context_with_identity_def)

lemma context_outcome:
  assumes ok: "mc_verify X e = Inr u"
    and call: "inbound_context_with_identity X e tx dept agent pw = (res, P', w')"
  defines "sid \<equiv> mc_session_id e"
  obtains r where "res = Inr r" "frame sid pw (P'\<lparr>pl_ledger := pl_ledger (fst pw)\<rparr>, w')"
    "is_approved r \<Longrightarrow> pl_current_state sid P' = S1 \<and>
       (\<exists>ms. session_memory_state sid P' = Some ms \<and> memory_floor ms = None) \<and>
       (\<exists>s w i. record_final_approved_with_context X tx s (mc_context_hash e) (mc_run_id e)
          (pl_ledger (fst pw)) w = (i, pl_ledger P', w') \<and> world_le (snd pw) w \<and>
          sg_session_id s = sid \<and> sg_direction s = Inbound)"
    "\<not> is_approved r \<Longrightarrow> pl_ledger P' = pl_ledger (fst pw)"
    "barred sid (fst pw) \<Longrightarrow> \<not> lets_through r"
proof -
  obtain t s h pw1 where sh: "tn_session t = sid" "frame sid pw pw1"
    "hm_get (pl_memories (fst pw1)) sid \<noteq> None"
    "about_turn sid s" "about_turn sid h"
    "memory_locked sid (fst pw) \<Longrightarrow> memory_locked sid (fst pw1)"
    "inbound_context_with_identity X e tx dept agent pw = context_result X e tx (layers X t s h pw1)"
    by (rule inbound_context_shape [OF ok, where pw = pw and tx = tx and dept = dept
        and agent = agent, folded sid_def]) (rule that)
  have sound: "sound_turn t pw1 (layers X t s h pw1)"
    by (rule layers_sound) (use sh in auto)
  obtain r h' P w where l: "layers X t s h pw1 = (r, h', P, w)" by (metis prod_cases4)
  obtain g w1 where g: "context_signal X e h' w = (g, w1)" by (metis surj_pair)
  obtain i l' w2 where rec: "record_final_approved_with_context X tx g (mc_context_hash e)
      (mc_run_id e) (pl_ledger P) w1 = (i, l', w2)" by (metis prod_cases3)
  have res: "res = Inr r" "P' = (if is_approved r then P\<lparr>pl_ledger := l'\<rparr> else P)"
    "w' = (if is_approved r then w2 else w)"
    using call sh(7) l g rec by (auto simp: context_result_def split: if_splits)
  have fP: "frame sid pw (P, w)"
    using frame_trans [OF sh(2)] sound sh(1) by (simp add: sound_turn_def l)
  have led: "pl_ledger P = pl_ledger (fst pw)" using fP by (simp add: frame_def)
  have "world_le w (snd (context_signal X e h' w))"
    by (simp add: context_signal_def build_world split: option.split)
  then have w1: "world_le w w1" by (simp add: g)
  have w2: "world_le w1 w2"
    using record_final_world [of w1 X tx g "Some (mc_context_hash e)" "Some (mc_run_id e)"
        "pl_ledger P"] rec
    by (simp add: record_final_approved_with_context_def)
  have ww: "world_le (snd pw) w1" using fP w1 world_le_trans by (auto simp: frame_def)
  have g_sid: "sg_session_id g = sid \<and> sg_direction g = Inbound" if "is_approved r"
    using sound that g sh(1) by (auto simp: sound_turn_def approval_sound_def l context_signal_def)
  show thesis
  proof (rule that [OF res(1)])
    show "frame sid pw (P'\<lparr>pl_ledger := pl_ledger (fst pw)\<rparr>, w')"
      using frame_ledger [OF fP world_le_refl] frame_ledger [OF fP world_le_trans [OF w1 w2]]
      by (simp add: res)
    show "is_approved r \<Longrightarrow> pl_current_state sid P' = S1 \<and>
       (\<exists>ms. session_memory_state sid P' = Some ms \<and> memory_floor ms = None) \<and>
       (\<exists>s w i. record_final_approved_with_context X tx s (mc_context_hash e) (mc_run_id e)
          (pl_ledger (fst pw)) w = (i, pl_ledger P', w') \<and> world_le (snd pw) w \<and>
          sg_session_id s = sid \<and> sg_direction s = Inbound)"
      using sound sh(1) rec led ww g_sid
      by (auto simp: sound_turn_def l approval_sound_def res pl_current_state_def
          session_memory_state_def)
    show "\<not> is_approved r \<Longrightarrow> pl_ledger P' = pl_ledger (fst pw)" using led res by simp
    show "barred sid (fst pw) \<Longrightarrow> \<not> lets_through r"
      using barred_not_through [of t pw pw1 X s h] sh(1,2,6) sound l by simp
  qed
qed

lemma record_final_lookup:
  assumes "record_final_approved X tx s l w = (i, l', w')"
  shows "approved_verdict_id tx (sg_session_id s) l' = Some i"
    "resolve i tx (sg_session_id s) l' =
       (ResFound, Some (verdict_of_signal i tx True s (now X w) None None))"
proof -
  have "l' = fst (snd (record_final_approved X tx s l w))" "i = fst (record_final_approved X tx s l w)"
    using assms by simp_all
  then show "approved_verdict_id tx (sg_session_id s) l' = Some i"
    "resolve i tx (sg_session_id s) l' =
       (ResFound, Some (verdict_of_signal i tx True s (now X w) None None))"
    by (simp_all add: record_final_approved_def record_final_approved_inner_def Let_def
        approved_verdict_id_def resolve_def verdict_of_signal_def)
qed

text \<open>
  Claim C7: an inbound turn is approved only with its own content, with the arbiter holding the
  session in \<open>S1\<close>, with a session memory that imposes no floor, and with the approval on record
  under its transaction and session, as a legacy approval that names no context; a turn that is not
  approved leaves the ledger as it was.
\<close>

theorem inbound_approval_sound:
  "case inbound_with_identity X input sid tx dept agent pw of (r, P', w') \<Rightarrow>
     if is_approved r
     then r = Approved input \<and> pl_current_state sid P' = S1 \<and>
       (\<exists>ms. session_memory_state sid P' = Some ms \<and> memory_floor ms = None) \<and>
       (\<exists>i v. pl_approved_verdict_id tx sid P' = Some i \<and>
          resolve i tx sid (pl_ledger P') = (ResFound, Some v) \<and> vr_final_approved v \<and>
          vr_direction v = Inbound \<and> vr_context_hash v = None)
     else pl_ledger P' = pl_ledger (fst pw)"
proof -
  obtain r P' w' where c: "inbound_with_identity X input sid tx dept agent pw = (r, P', w')"
    by (metis prod_cases3)
  note out = inbound_outcome [OF c]
  show ?thesis
  proof (cases "is_approved r")
    case True
    then obtain s w i where rec: "record_final_approved X tx s (pl_ledger (fst pw)) w =
        (i, pl_ledger P', w')" and s: "sg_session_id s = sid" "sg_direction s = Inbound"
      using out(2) by blast
    from record_final_lookup [OF rec] s show ?thesis
      using True c out(2) by (auto simp: pl_approved_verdict_id_def verdict_of_signal_def)
  qed (use c out(3) in simp)
qed

lemma outbound_frame: "frame sid pw (snd (outbound X reply sid pw))"
proof -
  let ?md = "get_threshold_modifier sid (fst pw)"
  obtain c w1 where c: "corridor_evaluate X (pl_evaluator (fst pw)) reply Outbound sid (snd pw) =
      (c, w1)" by (metis surj_pair)
  define pw1 where "pw1 = note_layer X sid ''corridor_out'' c (fst pw, w1)"
  obtain st2 pw2 where a2: "arbitrate X c ?md pw1 = (st2, pw2)" by (metis surj_pair)
  obtain s3 pw3 where o3: "observe_overwatch X reply Outbound sid pw2 = (s3, pw3)"
    by (metis surj_pair)
  obtain st4 pw4 where a4: "arbitrate X s3 ?md pw3 = (st4, pw4)" by (metis surj_pair)
  obtain s5 pw5 where o5: "observe_oim X s3 pw4 = (s5, pw5)" by (metis surj_pair)
  obtain st6 pw6 where a6: "arbitrate X s5 ?md pw5 = (st6, pw6)" by (metis surj_pair)
  obtain s7 w7 where s7: "sentinel_inspect X reply Outbound sid (snd pw6) = (s7, w7)"
    by (metis surj_pair)
  obtain st8 pw8 where a8: "arbitrate X s7 ?md (fst pw6, w7) = (st8, pw8)" by (metis surj_pair)
  have sid: "sg_session_id c = sid" "sg_session_id s3 = sid" "sg_session_id s5 = sid"
    "sg_session_id s7 = sid"
    using c o3 o5 s7 observe_overwatch_simps(1) [of X reply Outbound sid pw2]
      observe_oim_simps(1) [of X s3 pw4] corridor_session sentinel_session
    by (metis fst_conv session_of)+
  have "frame sid pw (fst pw, w1)"
    using corridor_world [of "snd pw" X "pl_evaluator (fst pw)" reply Outbound sid] c
    by (simp add: world_frame_step)
  then have f1: "frame sid pw pw1" by (simp add: pw1_def frame_notes)
  have f2: "frame sid pw pw2" using frame_trans [OF f1 arbitrate_step(1) [OF a2 sid(1)]] .
  have f3: "frame sid pw pw3" using frame_trans [OF f2] observe_overwatch_frame o3 by (metis snd_conv)
  have f4: "frame sid pw pw4" using frame_trans [OF f3 arbitrate_step(1) [OF a4 sid(2)]] .
  have f5: "frame sid pw pw5" using frame_trans [OF f4] observe_oim_frame o5 by (metis snd_conv)
  have f6: "frame sid pw pw6" using frame_trans [OF f5 arbitrate_step(1) [OF a6 sid(3)]] .
  have "frame sid pw6 (fst pw6, w7)"
    using sentinel_world [of "snd pw6" X reply Outbound sid] s7 by (simp add: world_frame_step)
  then have f8: "frame sid pw pw8"
    using frame_trans [OF f6 frame_trans [OF _ arbitrate_step(1) [OF a8 sid(4)]]] by blast
  have "frame sid pw (snd (outbound_final X reply sid ?md pw6))"
    using f8 by (simp add: outbound_final_def s7 a8 Let_def frame_notes del: note_turn_simps)
  then show ?thesis
    using f2 f4 f6 by (simp add: outbound_def c pw1_def [symmetric] a2 o3 a4 o5 a6 Let_def
        split: option.split)
qed

section \<open>Runs\<close>

text \<open>
  Every operation a caller of the pipeline has. \<open>PlGate\<close> stands for any use of the shared HAAP gate
  the pipeline hands out, \<open>PlForeign\<close> for the other users of the clock, the UUID source and the hash
  chain.
\<close>

datatype pl_op = PlInbound string string string "string option" "string option"
  | PlContext model_context_envelope string "string option" "string option"
  | PlOutbound string string | PlEnd string string | PlReset string string
  | PlAuthority reset_authority | PlHaap string agency_level string "string option"
  | PlGate haap_gate | PlProvider provider_authorization_request
  | PlAction action_authorization_request | PlConsume presented_binding | PlForeign world

fun pl_step :: "externs \<Rightarrow> storage \<Rightarrow> pl_op \<Rightarrow> pst \<Rightarrow> pst" where
  "pl_step X S (PlInbound m sid tx dept agent) pw = snd (inbound_with_identity X m sid tx dept agent pw)"
| "pl_step X S (PlContext e tx dept agent) pw =
     snd (inbound_context_with_identity X e tx dept agent pw)"
| "pl_step X S (PlOutbound m sid) pw = snd (outbound X m sid pw)"
| "pl_step X S (PlEnd sid actor) pw = snd (end_session X S sid actor pw)"
| "pl_step X S (PlReset sid token) pw = snd (operator_reset X sid token pw)"
| "pl_step X S (PlAuthority a) pw = (snd (pl_configure_reset_authority a (fst pw)), snd pw)"
| "pl_step X S (PlHaap sid ag cls token) pw = snd (pl_haap_evaluate X sid ag cls token pw)"
| "pl_step X S (PlGate g) pw = ((fst pw)\<lparr>pl_haap := g\<rparr>, snd pw)"
| "pl_step X S (PlProvider r) pw = snd (authorize_provider_execution X r pw)"
| "pl_step X S (PlAction r) pw = snd (authorize_action_execution X r pw)"
| "pl_step X S (PlConsume p) pw = snd (consume_provider_capability X p pw)"
| "pl_step X S (PlForeign w) pw = (fst pw, if world_le (snd pw) w then w else snd pw)"

text \<open>The session whose state an operation may touch, and what an admission admits.\<close>

fun op_session :: "pl_op \<Rightarrow> string option" where
  "op_session (PlInbound m sid tx dept agent) = Some sid"
| "op_session (PlContext e tx dept agent) = Some (mc_session_id e)"
| "op_session (PlOutbound m sid) = Some sid"
| "op_session (PlEnd sid actor) = Some sid"
| "op_session (PlReset sid token) = Some sid"
| "op_session _ = None"

fun admits :: "externs \<Rightarrow> pl_op \<Rightarrow> pst \<Rightarrow> (string \<times> string \<times> string) option" where
  "admits X (PlContext e tx dept agent) pw =
     (case fst (inbound_context_with_identity X e tx dept agent pw) of
        Inl _ \<Rightarrow> None
      | Inr r \<Rightarrow> if is_approved r then Some (mc_context_hash e, mc_session_id e, mc_run_id e) else None)"
| "admits X _ pw = None"

definition admission_step :: "externs \<Rightarrow> storage \<Rightarrow> pl_op \<Rightarrow> pst \<Rightarrow>
    (string \<times> string \<times> string) option \<times> pst" where
  "admission_step X S op pw = (admits X op pw, pl_step X S op pw)"

lemma view_updates [simp]:
  "session_view (P\<lparr>pl_haap := g\<rparr>) t = session_view P t"
  "session_view (P\<lparr>pl_capabilities := st\<rparr>) t = session_view P t"
  "session_view (P\<lparr>pl_ledger := l\<rparr>) t = session_view P t"
  by (simp_all add: session_view_def)

lemma decide_frame:
  "session_view (fst (snd (decide_and_issue X r f n a pw))) t = session_view (fst pw) t"
  "pl_ledger (fst (snd (decide_and_issue X r f n a pw))) = pl_ledger (fst pw)"
  by (simp_all add: decide_and_issue_def split_def Let_def session_view_def split: sum.split)

lemma provider_frame:
  "session_view (fst (snd (authorize_provider_execution X r pw))) t = session_view (fst pw) t"
  "pl_ledger (fst (snd (authorize_provider_execution X r pw))) = pl_ledger (fst pw)"
  by (simp_all add: authorize_provider_execution_def decide_frame split: sum.split)

lemma action_frame:
  "session_view (fst (snd (authorize_action_execution X r pw))) t = session_view (fst pw) t"
  "pl_ledger (fst (snd (authorize_action_execution X r pw))) = pl_ledger (fst pw)"
  by (simp_all add: authorize_action_execution_def decide_frame split: sum.split)

lemma end_session_other:
  "t \<noteq> sid \<Longrightarrow> session_view (fst (snd (end_session X S sid actor pw))) t = session_view (fst pw) t"
  "pl_ledger (fst (snd (end_session X S sid actor pw))) = pl_ledger (fst pw)"
  by (simp_all add: end_session_def split_def Let_def session_view_def forget_session_def
      overwatch_reset_session_def current_state_def split: option.split)

lemma operator_reset_other:
  "t \<noteq> sid \<Longrightarrow> session_view (fst (snd (operator_reset X sid token pw))) t = session_view (fst pw) t"
  "pl_ledger (fst (snd (operator_reset X sid token pw))) = pl_ledger (fst pw)"
  by (simp_all add: operator_reset_def split_def Let_def session_view_def
      overwatch_reset_session_def operator_reset_state split: sum.split)

lemma configure_other:
  "session_view (snd (pl_configure_reset_authority a P)) t = session_view P t"
  "pl_ledger (snd (pl_configure_reset_authority a P)) = pl_ledger P"
  by (simp_all add: pl_configure_reset_authority_def configure_operator_reset_authority_def
      session_view_def current_state_def split: option.split)

lemma frame_view: "frame sid pw (P\<lparr>pl_ledger := l\<rparr>, w) \<Longrightarrow> t \<noteq> sid \<Longrightarrow>
    session_view P t = session_view (fst pw) t"
  by (simp add: frame_def session_view_def)

lemma step_view:
  assumes "op_session op \<noteq> Some t"
  shows "session_view (fst (pl_step X S op pw)) t = session_view (fst pw) t"
proof (cases op)
  case (PlInbound m sid tx dept agent)
  obtain r P w where c: "inbound_with_identity X m sid tx dept agent pw = (r, P, w)"
    by (metis prod_cases3)
  show ?thesis using frame_view [OF inbound_outcome(1) [OF c], of t] assms PlInbound c by simp
next
  case (PlContext e tx dept agent)
  obtain r P w where c: "inbound_context_with_identity X e tx dept agent pw = (r, P, w)"
    by (metis prod_cases3)
  show ?thesis
  proof (cases "mc_verify X e")
    case (Inl err)
    then show ?thesis using PlContext by (simp add: context_rejected)
  next
    case (Inr u)
    from context_outcome [OF this c]
    have "frame (mc_session_id e) pw (P\<lparr>pl_ledger := pl_ledger (fst pw)\<rparr>, w)" by blast
    from frame_view [OF this, of t] show ?thesis using assms PlContext c by simp
  qed
next
  case (PlOutbound m sid)
  then show ?thesis using outbound_frame [of sid pw X m] assms by (auto simp: frame_def)
next
  case (PlHaap sid ag cls token)
  then show ?thesis by simp
qed (use assms in \<open>simp_all add: end_session_other operator_reset_other configure_other
      provider_frame action_frame consume_provider_capability_def split_def Let_def\<close>)

text \<open>
  Claim C10: sessions do not influence each other through the arbiter, the session memory or
  OverWatch. Over any sequence of operations none of which names a session, its arbiter state, its
  memory and its behavioural fingerprint stay exactly as they were, whatever happens to the other
  sessions.
\<close>

theorem session_isolation:
  assumes "\<forall>op \<in> set ops. op_session op \<noteq> Some t"
  shows "session_view (fst (fold (pl_step X S) ops pw)) t = session_view (fst pw) t"
  using assms by (induction ops arbitrary: pw) (simp_all add: step_view)

text \<open>The demo pipeline with a session \<open>s1\<close> in lockdown.\<close>

definition demo_locked :: pst where
  "demo_locked = (demo_pipeline\<lparr>pl_arbiter := demo_arbiter\<rparr>, demo_world)"

lemma session_isolation_witness:
  "fst (session_view (fst (fold (pl_step demo demo_storage)
     [PlInbound ''hi'' ''u'' ''tx'' None None, PlReset ''u'' ''the operator'', PlEnd ''u'' ''eve'']
     demo_locked)) ''s1'') = S4"
proof -
  have "session_view (fst (fold (pl_step demo demo_storage)
      [PlInbound ''hi'' ''u'' ''tx'' None None, PlReset ''u'' ''the operator'', PlEnd ''u'' ''eve'']
      demo_locked)) ''s1'' = session_view (fst demo_locked) ''s1''"
    by (rule session_isolation) simp
  also have "fst \<dots> = S4"
    by (simp add: session_view_def demo_locked_def demo_arbiter_def arbiter_new_def
        current_state_def hm_get_def)
  finally show ?thesis .
qed

section \<open>Quarantine\<close>

fun pl_clears :: "reset_authority option \<Rightarrow> pl_op \<Rightarrow> string \<Rightarrow> bool" where
  "pl_clears auth (PlEnd sid actor) t \<longleftrightarrow> sid = t"
| "pl_clears auth (PlReset sid token) t \<longleftrightarrow> sid = t \<and> (\<exists>a. auth = Some a \<and> token = ra_token a)"
| "pl_clears auth _ t \<longleftrightarrow> False"

text \<open>No operation of the run ends the session or resets it with the credential configured by then.\<close>

fun uncleared :: "externs \<Rightarrow> storage \<Rightarrow> string \<Rightarrow> pl_op list \<Rightarrow> pst \<Rightarrow> bool" where
  "uncleared X S sid [] pw \<longleftrightarrow> True"
| "uncleared X S sid (op # ops) pw \<longleftrightarrow> \<not> pl_clears (arb_authority (pl_arbiter (fst pw))) op sid \<and>
     uncleared X S sid ops (pl_step X S op pw)"

lemma step_other_state:
  assumes "op_session op \<noteq> Some t"
  shows "pl_current_state t (fst (pl_step X S op pw)) = pl_current_state t (fst pw)"
  using step_view [OF assms, of X S pw] by (simp add: session_view_def pl_current_state_def)

lemma frame_state: "frame sid pw (P\<lparr>pl_ledger := l\<rparr>, w) \<Longrightarrow>
    pl_current_state t (fst pw) \<le> pl_current_state t P"
  by (simp add: frame_def pl_current_state_def)

lemma step_state_mono:
  assumes "\<not> pl_clears (arb_authority (pl_arbiter (fst pw))) op sid"
  shows "pl_current_state sid (fst pw) \<le> pl_current_state sid (fst (pl_step X S op pw))"
proof (cases op)
  case (PlInbound m t tx dept agent)
  obtain r P w where c: "inbound_with_identity X m t tx dept agent pw = (r, P, w)"
    by (metis prod_cases3)
  show ?thesis using frame_state [OF inbound_outcome(1) [OF c]] PlInbound c by simp
next
  case (PlContext e tx dept agent)
  obtain r P w where c: "inbound_context_with_identity X e tx dept agent pw = (r, P, w)"
    by (metis prod_cases3)
  show ?thesis
  proof (cases "mc_verify X e")
    case (Inl err)
    then show ?thesis using PlContext by (simp add: context_rejected)
  next
    case (Inr u)
    from context_outcome [OF this c]
    have "frame (mc_session_id e) pw (P\<lparr>pl_ledger := pl_ledger (fst pw)\<rparr>, w)" by blast
    from frame_state [OF this] show ?thesis using PlContext c by simp
  qed
next
  case (PlOutbound m t)
  then show ?thesis using outbound_frame [of t pw X m] by (simp add: frame_def pl_current_state_def)
next
  case (PlReset t token)
  with assms show ?thesis
    by (auto simp: operator_reset_def split_def Let_def pl_current_state_def operator_reset_state
        split: sum.split)
next
  case (PlEnd t actor)
  with assms have "op_session op \<noteq> Some sid" by simp
  then show ?thesis by (simp add: step_other_state)
qed (simp_all add: step_other_state del: pl_step.simps)

lemma uncleared_state:
  "uncleared X S sid ops pw \<Longrightarrow>
     pl_current_state sid (fst pw) \<le> pl_current_state sid (fst (fold (pl_step X S) ops pw))"
proof (induction ops arbitrary: pw)
  case (Cons op ops)
  have "pl_current_state sid (fst pw) \<le> pl_current_state sid (fst (pl_step X S op pw))"
    using Cons.prems by (intro step_state_mono) simp
  also have "\<dots> \<le> pl_current_state sid (fst (fold (pl_step X S) ops (pl_step X S op pw)))"
    using Cons by simp
  finally show ?case by simp
qed simp

lemma barred_turns:
  assumes "barred sid (fst pw)"
  shows "\<not> lets_through (fst (inbound_with_identity X m sid tx dept agent pw))"
    "mc_session_id e = sid \<Longrightarrow>
       fst (inbound_context_with_identity X e tx dept agent pw) = Inr r \<Longrightarrow> \<not> lets_through r"
proof -
  obtain r0 P w where c: "inbound_with_identity X m sid tx dept agent pw = (r0, P, w)"
    by (metis prod_cases3)
  show "\<not> lets_through (fst (inbound_with_identity X m sid tx dept agent pw))"
    using inbound_outcome(4) [OF c] assms c by simp
  assume e: "mc_session_id e = sid"
    and r: "fst (inbound_context_with_identity X e tx dept agent pw) = Inr r"
  obtain P' w' where c: "inbound_context_with_identity X e tx dept agent pw = (Inr r, P', w')"
    using r by (metis prod.collapse)
  then obtain u where u: "mc_verify X e = Inr u"
    using context_rejected [of X e] by (cases "mc_verify X e") auto
  show "\<not> lets_through r"
    by (rule context_outcome [OF u c]) (use e assms in simp)
qed

text \<open>
  Claim C6: a quarantined or locked session stays out. From a state in which the arbiter holds the
  session in \<open>S3\<close> or above, whatever operations follow, clean turns and failed resets included, no
  text and no model context of that session is approved or let through under restrictions, until
  the session is ended or reset with the configured credential. A session whose memory is locked is
  not let through either, under any blocking threshold below one (all a configuration can yield).
\<close>

theorem quarantined_stays_out:
  fixes X S sid ops pw
  defines "pw' \<equiv> fold (pl_step X S) ops pw"
  assumes "S3 \<le> pl_current_state sid (fst pw) \<and> uncleared X S sid ops pw \<or>
    memory_locked sid (fst pw') \<and> gm_block_threshold (pl_govmem (fst pw')) < 1"
  shows "\<not> lets_through (fst (inbound_with_identity X m sid tx dept agent pw')) \<and>
    (case inbound_context_with_identity X (e\<lparr>mc_session_id := sid\<rparr>) tx dept agent pw' of
       (Inl err, pw2) \<Rightarrow> pw2 = pw' | (Inr r, pw2) \<Rightarrow> \<not> lets_through r)"
proof -
  have "barred sid (fst pw')"
    using uncleared_state [of X S sid ops pw] assms(2) order_trans
    by (auto simp: barred_def pw'_def)
  note b = barred_turns [OF this]
  let ?c = "inbound_context_with_identity X (e\<lparr>mc_session_id := sid\<rparr>) tx dept agent pw'"
  have "case ?c of (Inl err, pw2) \<Rightarrow> pw2 = pw' | (Inr r, pw2) \<Rightarrow> \<not> lets_through r"
  proof (cases "fst ?c")
    case (Inl err)
    then have "mc_verify X (e\<lparr>mc_session_id := sid\<rparr>) = Inl err"
      by (auto simp: inbound_context_with_identity_def Let_def split_def split: sum.splits if_splits)
    then show ?thesis by (simp add: context_rejected)
  next
    case (Inr r)
    with b(2) [of "e\<lparr>mc_session_id := sid\<rparr>" X tx dept agent r] show ?thesis
      by (simp add: split_def)
  qed
  with b(1) show ?thesis by blast
qed

lemma quarantined_stays_out_witness:
  "\<not> lets_through (fst (inbound_with_identity demo ''hi'' ''s1'' ''tx'' None None
     (pl_step demo demo_storage (PlReset ''s1'' ''wrong'') demo_locked)))"
proof -
  have "S3 \<le> pl_current_state ''s1'' (fst demo_locked) \<and>
      uncleared demo demo_storage ''s1'' [PlReset ''s1'' ''wrong''] demo_locked"
    by (simp add: pl_current_state_def demo_locked_def demo_arbiter_def arbiter_new_def
        current_state_def hm_get_def)
  from quarantined_stays_out [OF disjI1, OF this, of "''hi''" "''tx''" None None]
  show ?thesis by simp
qed

end
