(* ===== verification/Authority.thy ===== *)
theory Authority
  imports Governance CleanTurn
begin

text \<open>
  Execution authority over whole runs: every capability the pipeline issues, for a provider call or
  for a tool action, traces back to an approved admission of exactly its context, session and run,
  and carries exactly the scope it was requested for.
\<close>

section \<open>What a run records\<close>

text \<open>Every record that names a context was made by one of the admissions \<open>A\<close>.\<close>

definition ledger_traced :: "(string \<times> string \<times> string) set \<Rightarrow> verdict_ledger \<Rightarrow> bool" where
  "ledger_traced A l \<longleftrightarrow> (\<forall>i r c. hm_get (vl_verdicts l) i = Some r \<longrightarrow> vr_context_hash r = Some c \<longrightarrow>
     (\<exists>run. vr_run_id r = Some run \<and> (c, vr_session_id r, run) \<in> A))"

definition authority_inv :: "externs \<Rightarrow> (string \<times> string \<times> string) set \<Rightarrow> pst \<Rightarrow> bool" where
  "authority_inv X A pw \<longleftrightarrow> ledger_traced A (pl_ledger (fst pw)) \<and>
     cap_inv X (pl_capabilities (fst pw), snd pw)"

lemma ledger_traced_mono: "ledger_traced A l \<Longrightarrow> A \<subseteq> B \<Longrightarrow> ledger_traced B l"
  unfolding ledger_traced_def by blast

lemma ledger_traced_new: "ledger_traced A verdict_ledger_new"
  by (simp add: ledger_traced_def verdict_ledger_new_def)

lemma traced_insert:
  assumes "ledger_traced A l" "vl_verdicts l' = hm_insert i v (vl_verdicts l)" "A \<subseteq> B"
    "\<And>c. vr_context_hash v = Some c \<Longrightarrow>
      \<exists>run. vr_run_id v = Some run \<and> (c, vr_session_id v, run) \<in> B"
  shows "ledger_traced B l'"
proof -
  have "\<exists>run. vr_run_id r = Some run \<and> (c, vr_session_id r, run) \<in> B"
    if r: "hm_get (vl_verdicts l') j = Some r" "vr_context_hash r = Some c" for j r c
  proof (cases "j = i")
    case True
    then have "r = v" using r(1) assms(2) by simp
    with assms(4) r(2) show ?thesis by blast
  next
    case False
    then have "hm_get (vl_verdicts l) j = Some r" using r(1) assms(2) by simp
    with assms(1,3) r(2) show ?thesis unfolding ledger_traced_def by blast
  qed
  then show ?thesis by (simp add: ledger_traced_def)
qed

lemma final_verdicts:
  "vl_verdicts (fst (snd (record_final_approved_inner X tx s ctx run l w))) =
     hm_insert (''SV-'' @ uuid_simple X (ids w))
       (verdict_of_signal (''SV-'' @ uuid_simple X (ids w)) tx True s (now X w) ctx run)
       (vl_verdicts l)"
  by (simp add: record_final_approved_inner_def Let_def split: option.split)

lemma traced_legacy:
  assumes "ledger_traced A l" "record_final_approved X tx s l w = (i, l', w')"
  shows "ledger_traced A l'"
proof -
  have "vl_verdicts l' = hm_insert (''SV-'' @ uuid_simple X (ids w))
      (verdict_of_signal (''SV-'' @ uuid_simple X (ids w)) tx True s (now X w) None None)
      (vl_verdicts l)"
    using final_verdicts [of X tx s None None l w] assms(2) by (simp add: record_final_approved_def)
  from traced_insert [OF assms(1) this subset_refl] show ?thesis by simp
qed

lemma traced_admission:
  assumes "ledger_traced A l" "record_final_approved_with_context X tx s c run l w = (i, l', w')"
  shows "ledger_traced (insert (c, sg_session_id s, run) A) l'"
proof -
  have "vl_verdicts l' = hm_insert (''SV-'' @ uuid_simple X (ids w))
      (verdict_of_signal (''SV-'' @ uuid_simple X (ids w)) tx True s (now X w) (Some c) (Some run))
      (vl_verdicts l)"
    using final_verdicts [of X tx s "Some c" "Some run" l w] assms(2)
    by (simp add: record_final_approved_with_context_def)
  from traced_insert [OF assms(1) this subset_insertI] show ?thesis by simp
qed

lemma decide_world: "world_le (snd pw) (snd (snd (decide_and_issue X r f n a pw)))"
proof -
  obtain d st1 w1 where d: "record_decision X r (pl_capabilities (fst pw)) (snd pw) = (d, st1, w1)"
    by (metis prod_cases3)
  have "world_le (snd pw) w1"
    using record_decision_world [of "snd pw" X r "pl_capabilities (fst pw)"] d by simp
  then show ?thesis
    using world_le_trans issue_world by (fastforce simp: decide_and_issue_def split_def Let_def d
        split: sum.split)
qed

lemma decide_inv:
  assumes "cap_laws X" "cap_inv X (pl_capabilities (fst pw), snd pw)"
  shows "cap_inv X (pl_capabilities (fst (snd (decide_and_issue X r f n a pw))),
    snd (snd (decide_and_issue X r f n a pw)))"
proof -
  let ?s = "(pl_capabilities (fst pw), snd pw)"
  let ?r = "cap_step X (CapRecord r) ?s"
  have r: "cap_inv X ?r" using cap_step_inv [OF assms] .
  have "cap_inv X (snd (issue_after_authorization X i (fst ?r) (snd ?r)))" for i
    using cap_step_inv [OF assms(1) r, of "CapIssue i"] by (metis cap_step.simps(2) prod.collapse)
  then show ?thesis using r
    by (auto simp: decide_and_issue_def split_def Let_def split: sum.split)
qed

lemma frame_inv:
  assumes "authority_inv X A pw" "frame sid pw (P\<lparr>pl_ledger := pl_ledger (fst pw)\<rparr>, w)"
    "ledger_traced B (pl_ledger P)"
  shows "authority_inv X B (P, w)"
  using assms cap_inv_world [of X "pl_capabilities (fst pw)" "snd pw" w]
  by (simp add: authority_inv_def frame_def)

lemma keep_inv:
  assumes "authority_inv X A pw" "pl_ledger (fst pw') = pl_ledger (fst pw)"
    "pl_capabilities (fst pw') = pl_capabilities (fst pw)" "world_le (snd pw) (snd pw')"
  shows "authority_inv X A pw'"
  using assms cap_inv_world [of X "pl_capabilities (fst pw)" "snd pw" "snd pw'"]
  by (simp add: authority_inv_def)

lemma end_session_world: "world_le (snd pw) (snd (snd (end_session X S sid actor pw)))"
  by (simp add: end_session_def split_def Let_def ingest_session_world split: option.split)

lemma end_session_capabilities:
  "pl_capabilities (fst (snd (end_session X S sid actor pw))) = pl_capabilities (fst pw)"
  by (simp add: end_session_def split_def Let_def split: option.split)

lemma operator_reset_keeps:
  "pl_capabilities (fst (snd (operator_reset X sid token pw))) = pl_capabilities (fst pw)"
  "world_le (snd pw) (snd (snd (operator_reset X sid token pw)))"
  using operator_reset_world [of "(pl_arbiter (fst pw), snd pw)" X sid token]
  by (simp_all add: operator_reset_def split_def Let_def split: sum.split)

lemma provider_inv:
  assumes "cap_laws X" "authority_inv X A pw"
  shows "authority_inv X A (snd (authorize_provider_execution X r pw))"
proof -
  have "cap_inv X (pl_capabilities (fst pw), snd pw)" using assms(2) by (simp add: authority_inv_def)
  from assms(2) show ?thesis
    by (simp add: authority_inv_def authorize_provider_execution_def decide_frame
        decide_inv [OF assms(1) \<open>cap_inv X _\<close>] split: sum.split)
qed

lemma action_inv:
  assumes "cap_laws X" "authority_inv X A pw"
  shows "authority_inv X A (snd (authorize_action_execution X r pw))"
proof -
  have "cap_inv X (pl_capabilities (fst pw), snd pw)" using assms(2) by (simp add: authority_inv_def)
  from assms(2) show ?thesis
    by (simp add: authority_inv_def authorize_action_execution_def decide_frame
        decide_inv [OF assms(1) \<open>cap_inv X _\<close>] split: sum.split)
qed

lemma consume_keeps_inv:
  assumes "cap_laws X" "authority_inv X A pw"
  shows "authority_inv X A (snd (consume_provider_capability X p pw))"
  using cap_step_inv [OF assms(1), of "(pl_capabilities (fst pw), snd pw)" "CapConsume p"] assms(2)
  by (simp add: authority_inv_def consume_provider_capability_def split_def Let_def)

lemma inbound_inv:
  assumes "authority_inv X A pw"
  shows "authority_inv X A (snd (inbound_with_identity X m sid tx dept agent pw))"
proof -
  obtain r P w where c: "inbound_with_identity X m sid tx dept agent pw = (r, P, w)"
    by (metis prod_cases3)
  have "ledger_traced A (pl_ledger P)"
    using inbound_outcome(2,3) [OF c] assms traced_legacy unfolding authority_inv_def by metis
  from frame_inv [OF assms inbound_outcome(1) [OF c] this] show ?thesis by (simp add: c)
qed

lemma context_inv:
  assumes "authority_inv X A pw"
  shows "authority_inv X (A \<union> set_option (admits X (PlContext e tx dept agent) pw))
    (snd (inbound_context_with_identity X e tx dept agent pw))"
proof (cases "mc_verify X e")
  case (Inl err)
  with assms show ?thesis by (simp add: context_rejected)
next
  case (Inr u)
  obtain res P w where c: "inbound_context_with_identity X e tx dept agent pw = (res, P, w)"
    by (metis prod_cases3)
  let ?B = "A \<union> set_option (admits X (PlContext e tx dept agent) pw)"
  have "frame (mc_session_id e) pw (P\<lparr>pl_ledger := pl_ledger (fst pw)\<rparr>, w) \<and>
      ledger_traced ?B (pl_ledger P)"
  proof (rule context_outcome [OF Inr c])
    fix r assume r: "res = Inr r"
      and fr: "frame (mc_session_id e) pw (P\<lparr>pl_ledger := pl_ledger (fst pw)\<rparr>, w)"
      and yes: "is_approved r \<Longrightarrow> pl_current_state (mc_session_id e) P = S1 \<and>
       (\<exists>ms. session_memory_state (mc_session_id e) P = Some ms \<and> memory_floor ms = None) \<and>
       (\<exists>s w' i. record_final_approved_with_context X tx s (mc_context_hash e) (mc_run_id e)
          (pl_ledger (fst pw)) w' = (i, pl_ledger P, w) \<and> world_le (snd pw) w' \<and>
          sg_session_id s = mc_session_id e \<and> sg_direction s = Inbound)"
      and no: "\<not> is_approved r \<Longrightarrow> pl_ledger P = pl_ledger (fst pw)"
    have old: "ledger_traced A (pl_ledger (fst pw))" using assms by (simp add: authority_inv_def)
    have "ledger_traced ?B (pl_ledger P)"
    proof (cases "is_approved r")
      case True
      then have "?B = insert (mc_context_hash e, mc_session_id e, mc_run_id e) A"
        using c r by simp
      with True yes traced_admission [OF old] show ?thesis by metis
    next
      case False
      with no old ledger_traced_mono show ?thesis by simp
    qed
    with fr show ?thesis by blast
  qed
  then have "authority_inv X ?B (P, w)" using frame_inv [OF assms] by blast
  then show ?thesis by (simp add: c del: admits.simps)
qed

lemma step_inv:
  assumes "cap_laws X" "authority_inv X A pw"
  shows "authority_inv X (A \<union> set_option (admits X op pw)) (pl_step X S op pw)"
proof (cases op)
  case (PlContext e tx dept agent)
  then show ?thesis using context_inv [OF assms(2)] by (simp del: admits.simps)
next
  case (PlOutbound m sid)
  then show ?thesis
    using outbound_frame [of sid pw X m] by (auto simp: frame_def intro!: keep_inv [OF assms(2)])
next
  case (PlHaap sid ag cls token)
  then show ?thesis
    using haap_frame [of sid pw X sid ag cls token]
    by (auto simp: frame_def intro!: keep_inv [OF assms(2)])
qed (use assms in \<open>auto simp: inbound_inv provider_inv action_inv consume_keeps_inv
      end_session_other end_session_capabilities end_session_world operator_reset_other
      operator_reset_keeps configure_other pl_configure_reset_authority_def split_def Let_def
      intro!: keep_inv [OF assms(2)]\<close>)

lemma run_inv:
  assumes "cap_laws X" "authority_inv X A pw"
  shows "authority_inv X (A \<union> set (grants (admission_step X S) ops pw)) (fold (pl_step X S) ops pw)"
  using assms(2)
proof (induction ops arbitrary: A pw)
  case (Cons op ops)
  from Cons.IH [OF step_inv [OF assms(1) Cons.prems, of op S]] show ?case
    by (auto simp: admission_step_def Un_assoc split: option.split)
qed simp

section \<open>What a capability carries\<close>

text \<open>A fresh token signed for exactly the scope that was requested.\<close>

definition token_binds :: "externs \<Rightarrow> engine \<Rightarrow> decision_request \<Rightarrow> capability_token \<Rightarrow> bool" where
  "token_binds X e r t \<longleftrightarrow>
     ct_authority t = dr_authority r \<and> ct_gov_tx_id t = dr_gov_tx_id r \<and>
     ct_session_id t = dr_session_id r \<and> ct_run_id t = dr_run_id r \<and>
     ct_context_hash t = dr_context_hash r \<and>
     ct_principal_fingerprint t = dr_principal_fingerprint r \<and>
     ct_backend t = dr_backend r \<and> ct_model t = dr_model r \<and>
     ct_action_class t = dr_action_class r \<and> ct_policy_version t = dr_policy_version r \<and>
     ct_action_hash t = dr_action_hash r \<and> ct_tool_name t = dr_tool_name r \<and>
     ct_resource_kind t = dr_resource_kind r \<and> ct_resource_locator t = dr_resource_locator r \<and>
     ct_tool_call_id t = dr_tool_call_id r \<and> ct_action_plane t = dr_action_plane r \<and>
     ct_normalized_action t = dr_normalized_action r \<and> ct_max_uses t = 1 \<and> ct_use_count t = 0 \<and>
     verify_ok X e (ct_canonical t) (ct_signature t)"

lemma issued_binds:
  assumes "cap_laws X" "engine_ok X (eng w)" "same_scope r d" "dc_gov_tx_id d = dr_gov_tx_id r"
    "dc_authority d = dr_authority r"
  shows "token_binds X (eng w) r (issued_token X st w d)"
proof -
  have "verify_ok X (eng w) (ct_canonical (issued_token X st w d))
      (ct_signature (issued_token X st w d))"
    using assms(1,2) by (simp add: cap_laws_def sign_verifies)
  then show ?thesis
    using issued_token_scope [of X st w d] assms(3-5)
    by (simp add: token_binds_def token_scope_def same_scope_def del: issued_token_signature)
qed

lemma decide_binds:
  assumes laws: "cap_laws X" and inv: "cap_inv X (pl_capabilities (fst pw), snd pw)"
    and ok: "fst (decide_and_issue X r f n a pw) = Inr t"
  shows "token_binds X (eng (snd pw)) r t"
proof -
  obtain res st1 w1 where rec: "record_decision X r (pl_capabilities (fst pw)) (snd pw) =
      (res, st1, w1)" by (metis prod_cases3)
  from ok rec obtain i where i: "res = Inr i"
    by (cases res) (auto simp: decide_and_issue_def split_def Let_def)
  from record_decision_facts [OF laws inv rec] i obtain d where d:
    "hm_get (cs_decisions st1) i = Some d" "same_scope r d" "dc_gov_tx_id d = dr_gov_tx_id r"
    "dc_authority d = dr_authority r" and inv1: "cap_inv X (st1, w1)" by blast
  have t: "t = issued_token X st1 w1 d"
    using ok rec i d(1) by (auto simp: decide_and_issue_def split_def Let_def issue_outcome_cases
        split: if_splits)
  have e: "eng w1 = eng (snd pw) \<or> verify_ok X (eng w1) = verify_ok X (eng (snd pw))"
    using record_decision_world [of "snd pw" X r "pl_capabilities (fst pw)"] rec world_le_verify
    by fastforce
  have "token_binds X (eng w1) r t"
    unfolding t by (rule issued_binds [OF laws _ d(2-4)]) (use inv1 in \<open>simp add: cap_inv_def\<close>)
  with e show ?thesis by (auto simp: token_binds_def)
qed

lemma approved_admitted:
  assumes "approved_context ctx sid run l = Inr v" "ledger_traced A l"
  shows "(ctx, sid, run) \<in> A"
proof -
  obtain r where r: "resolve_outbound_context_binding ctx sid run l = Inr r"
    using assms(1) by (auto simp: approved_context_def ebind_Inr_iff)
  then obtain i where i: "resolve_by_context i sid l = (CtxFound, Some r)"
    "vr_context_hash r = Some ctx" "vr_run_id r = Some run"
    by (auto simp: resolve_outbound_context_binding_def
        split: if_splits option.splits prod.splits context_resolve_outcome.splits)
  then have "hm_get (vl_verdicts l) i = Some r" "vr_session_id r = sid"
    by (auto simp: resolve_by_context_def split: option.splits if_splits)
  with i(2,3) assms(2) show ?thesis unfolding ledger_traced_def by fastforce
qed

lemma pipeline_new_inv:
  assumes "pipeline_new X ser S parse mode thr path files acfg con = Inr P" "engine_ok X (eng w)"
  shows "authority_inv X {} (P, w)"
proof -
  have "pl_ledger P = verdict_ledger_new" "pl_capabilities P = capability_store_new"
    using assms(1) by (cases "govmem_new parse thr (govmem_mode_of X mode)";
        auto simp: pipeline_new_def Let_def ebind_Inr_iff)+
  then show ?thesis using assms(2) by (simp add: authority_inv_def ledger_traced_new cap_inv_new)
qed

text \<open>What a provider token and an action token must carry of the request and the sealed action.\<close>

definition provider_token_binds :: "externs \<Rightarrow> engine \<Rightarrow> provider_authorization_request \<Rightarrow>
    capability_token \<Rightarrow> bool" where
  "provider_token_binds X e r t \<longleftrightarrow>
     ct_authority t = AUTHORITY_PROVIDER_EXECUTE \<and> ct_gov_tx_id t = pr_gov_tx_id r \<and>
     ct_session_id t = pr_session_id r \<and> ct_run_id t = pr_run_id r \<and>
     ct_context_hash t = pr_context_hash r \<and>
     ct_principal_fingerprint t = pr_principal_fingerprint r \<and>
     ct_backend t = pr_backend r \<and> ct_model t = pr_model r \<and>
     ct_action_class t = pr_action_class r \<and> ct_policy_version t = pr_policy_version r \<and>
     ct_max_uses t = 1 \<and> ct_use_count t = 0 \<and> verify_ok X e (ct_canonical t) (ct_signature t)"

definition action_token_binds :: "externs \<Rightarrow> engine \<Rightarrow> action_authorization_request \<Rightarrow>
    action_envelope \<Rightarrow> capability_token \<Rightarrow> bool" where
  "action_token_binds X e r env t \<longleftrightarrow>
     ct_authority t = AUTHORITY_ACTION_EXECUTE \<and> ct_gov_tx_id t = aar_gov_tx_id r \<and>
     ct_session_id t = aar_session_id r \<and> ct_run_id t = aar_run_id r \<and>
     ct_context_hash t = aar_context_hash r \<and>
     ct_principal_fingerprint t = aar_principal_fingerprint r \<and>
     ct_policy_version t = aar_policy_version r \<and> ct_action_hash t = ae_action_hash env \<and>
     ct_tool_name t = aar_tool_name r \<and> ct_resource_kind t = aar_resource_kind r \<and>
     ct_resource_locator t = aar_resource_locator r \<and> ct_tool_call_id t = aar_tool_call_id r \<and>
     ct_action_plane t = (if aar_tool_name r = ''heartbeat_respond'' then PlaneControl
       else PlaneTool) \<and>
     ct_max_uses t = 1 \<and> ct_use_count t = 0 \<and> verify_ok X e (ct_canonical t) (ct_signature t)"

lemma sealed_action:
  assumes "ae_seal X a = Inr env"
  shows "env = a\<lparr>ae_action_hash := ae_action_hash env\<rparr>"
  using assms by (auto simp: ae_seal_def ebind_Inr_iff)

lemma provider_token:
  "token_binds X e (provider_decision r v) t \<Longrightarrow> provider_token_binds X e r t"
  by (simp add: token_binds_def provider_token_binds_def provider_decision_def)

lemma action_token:
  assumes "token_binds X e (action_decision r env dis drs v) t"
    "ae_seal X (action_of_request r) = Inr env"
  shows "action_token_binds X e r env t"
proof -
  have "env = action_of_request r\<lparr>ae_action_hash := ae_action_hash env\<rparr>"
    by (rule sealed_action [OF assms(2)])
  then obtain h where "env = action_of_request r\<lparr>ae_action_hash := h\<rparr>" by blast
  with assms(1) show ?thesis
    by (simp add: token_binds_def action_token_binds_def action_decision_def Let_def
        action_of_request_def derive_plane)
qed

text \<open>
  Claim C4: no provider call without an admission. Whenever, after any run of a new pipeline, a
  provider execution is authorised, an earlier operation of that run admitted a model context with
  exactly the requested context hash, in the same session and run, and approved it; and the token
  is signed, unused, limited to one use and carries exactly the requested principal, backend,
  model, action class, policy version, context, session and run. Text-only approvals never suffice.
\<close>

theorem provider_authority_traced:
  assumes "cap_laws X" "engine_ok X (eng w)"
    and new: "pipeline_new X ser S parse mode thr path files acfg con = Inr P"
    and ok: "fst (authorize_provider_execution X r (fold (pl_step X S) ops (P, w))) = Inr t"
  shows "(pr_context_hash r, pr_session_id r, pr_run_id r)
      \<in> set (grants (admission_step X S) ops (P, w)) \<and>
    provider_token_binds X (eng (snd (fold (pl_step X S) ops (P, w)))) r t"
proof -
  let ?pw = "fold (pl_step X S) ops (P, w)"
  have inv: "authority_inv X (set (grants (admission_step X S) ops (P, w))) ?pw"
    using run_inv [OF assms(1) pipeline_new_inv [OF new assms(2)], of S ops] by simp
  obtain v where v: "approved_context (pr_context_hash r) (pr_session_id r) (pr_run_id r)
      (pl_ledger (fst ?pw)) = Inr v"
    and d: "fst (decide_and_issue X (provider_decision r v) Decision PaeDecisionNotFound
      PaeAlreadyIssued ?pw) = Inr t"
    using ok by (auto simp: authorize_provider_execution_def split: sum.splits)
  have "token_binds X (eng (snd ?pw)) (provider_decision r v) t"
    by (rule decide_binds [OF assms(1) _ d]) (use inv in \<open>simp add: authority_inv_def\<close>)
  then show ?thesis
    using approved_admitted [OF v] inv provider_token by (auto simp: authority_inv_def)
qed

text \<open>
  Conversely an admission is enough: the request that names it is authorised, if its fields are
  valid and its transaction has no decision yet.
\<close>

lemma recorded_resolves:
  assumes "record_final_approved_with_context X tx s c run l w = (i, l', w')" "is_sha256_hex c"
    "sg_direction s = Inbound"
  shows "approved_context c (sg_session_id s) run l' = Inr i" "i = ''SV-'' @ uuid_simple X (ids w)"
  using assms by (auto simp: record_final_approved_with_context_def record_final_approved_inner_def
      Let_def approved_context_def resolve_outbound_context_binding_def resolve_by_context_def
      approved_verdict_id_by_context_def verdict_of_signal_def)

lemma decide_fresh:
  assumes "decision_request_validate r = Inr ()"
    "hm_get (cs_decision_by_tx (pl_capabilities (fst pw))) (tx_key (dr_gov_tx_id r) (dr_authority r)) = None"
  shows "\<exists>t. fst (decide_and_issue X r f n a pw) = Inr t"
  using assms by (simp add: decide_and_issue_def record_decision_def Let_def split_def
      issue_outcome_cases decision_of_request_def)

lemma admission_resolves:
  assumes ok: "fst (inbound_context_with_identity X e tx dept agent pw) = Inr r" "is_approved r"
  defines "pw' \<equiv> snd (inbound_context_with_identity X e tx dept agent pw)"
  obtains i where "approved_context (mc_context_hash e) (mc_session_id e) (mc_run_id e)
      (pl_ledger (fst pw')) = Inr (''SV-'' @ i)"
    "pl_capabilities (fst pw') = pl_capabilities (fst pw)"
proof -
  obtain P w where c: "inbound_context_with_identity X e tx dept agent pw = (Inr r, P, w)"
    using ok(1) by (metis prod.collapse)
  obtain u where u: "mc_verify X e = Inr u"
    using ok(1) context_rejected [of X e] by (cases "mc_verify X e") auto
  have h: "is_sha256_hex (mc_context_hash e)" using u by (simp add: mc_verify_iff)
  show ?thesis
  proof (rule context_outcome [OF u c])
    fix r' assume r': "Inr r = Inr r'"
      and fr: "frame (mc_session_id e) pw (P\<lparr>pl_ledger := pl_ledger (fst pw)\<rparr>, w)"
      and yes: "is_approved r' \<Longrightarrow> pl_current_state (mc_session_id e) P = S1 \<and>
       (\<exists>ms. session_memory_state (mc_session_id e) P = Some ms \<and> memory_floor ms = None) \<and>
       (\<exists>s w' i. record_final_approved_with_context X tx s (mc_context_hash e) (mc_run_id e)
          (pl_ledger (fst pw)) w' = (i, pl_ledger P, w) \<and> world_le (snd pw) w' \<and>
          sg_session_id s = mc_session_id e \<and> sg_direction s = Inbound)"
    from yes ok(2) r' obtain s w' i where rec: "record_final_approved_with_context X tx s
        (mc_context_hash e) (mc_run_id e) (pl_ledger (fst pw)) w' = (i, pl_ledger P, w)"
        "sg_session_id s = mc_session_id e" "sg_direction s = Inbound" by auto
    show ?thesis
      by (rule that [of "uuid_simple X (ids w')"])
        (use recorded_resolves [OF rec(1) h rec(3)] rec(2) fr in \<open>simp_all add: pw'_def c frame_def\<close>)
  qed
qed

lemma digest_not_blank: "is_sha256_hex v \<Longrightarrow> \<not> blank v"
proof -
  assume v: "is_sha256_hex v"
  then obtain c cs where "v = c # cs" "is_ascii_digit c \<or> char_le CHR ''a'' c \<and> char_le c CHR ''f''"
    by (cases v) (auto simp: is_sha256_hex_def validate_sha256_def SHA256_HEX_LEN_def split: if_splits)
  then have "48 \<le> byte c \<and> byte c \<le> 57 \<or> 97 \<le> byte c \<and> byte c \<le> 102"
    by (auto simp: is_ascii_digit_def char_le_def byte_def)
  then have "utf8_len c = 1" "\<not> is_ws [c]"
    by (auto simp: utf8_len_def is_ws_def is_whitespace_cp_def byte_def Let_def)
  with \<open>v = c # cs\<close> show ?thesis by (simp add: not_blank_Cons)
qed

lemma own_prefix_not_blank: "\<not> blank (''SV-'' @ i)"
  by (simp add: not_blank_Cons utf8_len_def is_ws_def is_whitespace_cp_def byte_def)

definition demo_provider_request :: "string \<Rightarrow> provider_authorization_request" where
  "demo_provider_request h =
     \<lparr>pr_gov_tx_id = ''tx'', pr_session_id = ''s'', pr_principal_fingerprint = ''p'',
      pr_backend = ''v'', pr_model = ''m'', pr_action_class = ''chat'',
      pr_policy_hash = demo_digest, pr_authorization_basis = ''below'', pr_agency = ''Execute'',
      pr_drs = 0, pr_context_hash = h, pr_run_id = ''r'', pr_policy_version = ''1''\<rparr>"

text \<open>The demo pipeline after it has admitted the demo context under the hash \<open>h\<close>.\<close>

definition demo_ops :: "string \<Rightarrow> pl_op list" where
  "demo_ops h = [PlContext (demo_context\<lparr>mc_context_hash := h\<rparr>) ''tx'' None None]"

definition demo_admitted :: "string \<Rightarrow> pst" where
  "demo_admitted h = fold (pl_step demo demo_storage) (demo_ops h) (demo_pipeline, demo_world)"

lemma demo_admission:
  obtains h v where "is_sha256_hex h" "pl_capabilities (fst (demo_admitted h)) = capability_store_new"
    "approved_context h ''s'' ''r'' (pl_ledger (fst (demo_admitted h))) = Inr (''SV-'' @ v)"
proof -
  obtain h where h: "mc_verify demo (demo_context\<lparr>mc_context_hash := h\<rparr>) = Inr ()"
    "is_sha256_hex h" by (rule demo_sealed_context)
  obtain v where "approved_context h ''s'' ''r'' (pl_ledger (fst (demo_admitted h))) =
      Inr (''SV-'' @ v)" "pl_capabilities (fst (demo_admitted h)) = capability_store_new"
    by (rule admission_resolves [OF demo_approved [OF h(1)]])
      (simp_all add: demo_admitted_def demo_ops_def demo_context_def demo_pipeline_def)
  then show ?thesis using that h(2) by blast
qed

lemma demo_provider_valid:
  assumes "is_sha256_hex h"
  shows "decision_request_validate (provider_decision (demo_provider_request h) (''SV-'' @ v)) = Inr ()"
  using assms by (simp add: decision_request_validate_def all_ok_iff nonempty_def
      provider_decision_def demo_provider_request_def digest_not_blank own_prefix_not_blank
      authority_defs not_blank_Cons utf8_len_def is_ws_def is_whitespace_cp_def byte_def)

lemma provider_authority_traced_witness:
  "\<exists>h t. fst (authorize_provider_execution demo (demo_provider_request h) (demo_admitted h)) = Inr t \<and>
     (h, ''s'', ''r'') \<in> set (grants (admission_step demo demo_storage) (demo_ops h)
        (demo_pipeline, demo_world)) \<and> ct_context_hash t = h"
proof -
  obtain h v where hv: "is_sha256_hex h" "pl_capabilities (fst (demo_admitted h)) = capability_store_new"
    "approved_context h ''s'' ''r'' (pl_ledger (fst (demo_admitted h))) = Inr (''SV-'' @ v)"
    by (rule demo_admission)
  let ?r = "demo_provider_request h"
  have "hm_get (cs_decision_by_tx (pl_capabilities (fst (demo_admitted h)))) k = None" for k
    by (simp add: hv(2) capability_store_new_def)
  from decide_fresh [OF demo_provider_valid [OF hv(1), of v] this, of demo Decision
      PaeDecisionNotFound PaeAlreadyIssued]
  obtain t where "fst (decide_and_issue demo (provider_decision ?r (''SV-'' @ v)) Decision
      PaeDecisionNotFound PaeAlreadyIssued (demo_admitted h)) = Inr t" by blast
  moreover have "approved_context (pr_context_hash ?r) (pr_session_id ?r) (pr_run_id ?r)
      (pl_ledger (fst (demo_admitted h))) = Inr (''SV-'' @ v)"
    using hv(3) by (simp add: demo_provider_request_def)
  ultimately have t: "fst (authorize_provider_execution demo ?r (demo_admitted h)) = Inr t"
    by (simp add: authorize_provider_execution_def)
  from provider_authority_traced [OF demo_cap_laws demo_engine_ok demo_pipeline_new
      t [unfolded demo_admitted_def]]
  have "(h, ''s'', ''r'') \<in> set (grants (admission_step demo demo_storage) (demo_ops h)
      (demo_pipeline, demo_world))" "ct_context_hash t = h"
    by (simp_all add: demo_provider_request_def provider_token_binds_def)
  with t show ?thesis by blast
qed

section \<open>Action authority\<close>

text \<open>
  Claim C5: no tool action without an admission, and never another action. Whenever, after any run
  of a new pipeline, an action is authorised, an earlier operation of that run admitted a model
  context with exactly the requested context hash, session and run; the server sealed the request
  itself, the strict policy did not deny the sealed envelope, and the token is signed, unused,
  limited to one use and carries exactly that action: its hash, tool, resource, tool call, principal,
  policy version and context, and the plane the server derives from the tool.
\<close>

theorem action_authority_exact:
  assumes "cap_laws X" "engine_ok X (eng w)"
    and new: "pipeline_new X ser S parse mode thr path files acfg con = Inr P"
    and ok: "fst (authorize_action_execution X r (fold (pl_step X S) ops (P, w))) = Inr t"
  shows "(aar_context_hash r, aar_session_id r, aar_run_id r)
      \<in> set (grants (admission_step X S) ops (P, w)) \<and>
    (\<exists>env d. ae_seal X (action_of_request r) = Inr env \<and> evaluate_strict X env = Inr d \<and>
       apd_disposition d \<noteq> Deny \<and>
       action_token_binds X (eng (snd (fold (pl_step X S) ops (P, w)))) r env t)"
proof -
  let ?pw = "fold (pl_step X S) ops (P, w)"
  have inv: "authority_inv X (set (grants (admission_step X S) ops (P, w))) ?pw"
    using run_inv [OF assms(1) pipeline_new_inv [OF new assms(2)], of S ops] by simp
  obtain v env d where v: "approved_context (aar_context_hash r) (aar_session_id r) (aar_run_id r)
      (pl_ledger (fst ?pw)) = Inr v"
    and sealed: "ae_seal X (action_of_request r) = Inr env" "evaluate_strict X env = Inr d"
      "apd_disposition d \<noteq> Deny"
    and i: "fst (decide_and_issue X (action_decision r env (apd_disposition d)
      (session_drs (ae_session_id env) (fst ?pw)) v) ActDecision ActDecisionNotFound
      ActAlreadyIssued ?pw) = Inr t"
    using ok by (auto simp: authorize_action_execution_def split: sum.splits if_splits)
  have "token_binds X (eng (snd ?pw)) (action_decision r env (apd_disposition d)
      (session_drs (ae_session_id env) (fst ?pw)) v) t"
    by (rule decide_binds [OF assms(1) _ i]) (use inv in \<open>simp add: authority_inv_def\<close>)
  from action_token [OF this sealed(1)] sealed approved_admitted [OF v] inv show ?thesis by (auto simp: authority_inv_def)
qed

definition demo_action_request :: "string \<Rightarrow> action_authorization_request" where
  "demo_action_request h =
     \<lparr>aar_gov_tx_id = ''tx'', aar_session_id = ''s'', aar_run_id = ''r'',
      aar_principal_fingerprint = ''p'', aar_tool_name = ''read'',
      aar_arguments = JObject [(''path'', JString ''a'')], aar_resource_kind = ''file'',
      aar_resource_locator = ''a'', aar_tool_call_id = ''c'', aar_context_hash = h,
      aar_policy_version = ''1'', aar_policy_hash = demo_digest\<rparr>"

lemma demo_action_clean:
  fixes h k
  defines "env \<equiv> action_of_request (demo_action_request h)\<lparr>ae_action_hash := k\<rparr>"
  shows "known_tool_from_name (ae_tool_name env) = KRead" "strict_risks demo env = []"
proof -
  have f: "ae_tool_name env = ''read''"
    "searchable_text demo env = ''a'' @ CHR 10 # ''path'' @ CHR 10 # ''a''"
    by (simp_all add: env_def action_of_request_def demo_action_request_def searchable_text_def
        demo_def to_ascii_lowercase_def ascii_lower_char_def char_le_def)
  show tool: "known_tool_from_name (ae_tool_name env) = KRead"
    by (simp only: f) (simp add: known_tool_from_name_def)
  moreover have "\<not> contains_path_traversal (searchable_text demo env)"
    "\<not> references_credentials (searchable_text demo env)"
    by (simp_all only: f) (simp_all add: contains_path_traversal_def references_credentials_def
        replace_char_def backslash_def)
  ultimately have "r \<notin> set (strict_risks demo env)" for r
    unfolding set_strict_risks Let_def by auto
  then show "strict_risks demo env = []" by (cases "strict_risks demo env") auto
qed

lemma demo_action_sealed:
  assumes "is_sha256_hex h"
  obtains env where "ae_seal demo (action_of_request (demo_action_request h)) = Inr env"
    "is_sha256_hex (ae_action_hash env)" "evaluate_strict demo env = Inr decision_allowed"
    "env = action_of_request (demo_action_request h)\<lparr>ae_action_hash := ae_action_hash env\<rparr>"
proof -
  let ?a = "action_of_request (demo_action_request h)"
  have wf: "ae_well_formed demo ?a"
    using assms by (simp add: demo_action_eval action_of_request_def demo_action_request_def)
  have "is_ok (ae_compute_hash demo ?a)"
    by (simp add: ae_compute_hash_def hash_canonical_ok action_material_depth MAX_JSON_DEPTH_def)
      (simp add: action_of_request_def demo_action_request_def)
  then obtain k where k: "ae_compute_hash demo ?a = Inr k" by (auto simp: is_ok_def)
  have "is_sha256_hex k"
    using k hash_canonical_sha [OF demo_laws(2)] by (auto simp: ae_compute_hash_def)
  moreover have "ae_seal demo ?a = Inr (?a\<lparr>ae_action_hash := k\<rparr>)"
    using wf [folded ae_validate_material_iff] k by (simp add: ae_seal_def)
  moreover have v: "ae_verify demo (?a\<lparr>ae_action_hash := k\<rparr>) = Inr ()"
    using wf [folded ae_validate_material_iff] k \<open>is_sha256_hex k\<close>
    by (simp add: ae_verify_iff ae_compute_hash_def flip: ae_validate_material_iff)
  moreover have "evaluate_strict demo (?a\<lparr>ae_action_hash := k\<rparr>) = Inr decision_allowed"
    by (simp only: evaluate_strict_cases [OF v] demo_action_clean) simp
  ultimately show ?thesis using that [of "?a\<lparr>ae_action_hash := k\<rparr>"] by simp
qed

lemma demo_action_valid:
  assumes "is_sha256_hex h" "is_sha256_hex k"
  shows "decision_request_validate (action_decision (demo_action_request h)
    (action_of_request (demo_action_request h)\<lparr>ae_action_hash := k\<rparr>) dis drs (''SV-'' @ v)) = Inr ()"
  using assms by (simp add: decision_request_validate_def all_ok_iff nonempty_def Let_def
      action_decision_def action_of_request_def demo_action_request_def digest_not_blank
      own_prefix_not_blank authority_defs not_blank_Cons utf8_len_def is_ws_def
      is_whitespace_cp_def byte_def derive_action_semantics_for_tool_def)

lemma action_authority_exact_witness:
  "\<exists>h env t. fst (authorize_action_execution demo (demo_action_request h) (demo_admitted h)) = Inr t \<and>
     ae_seal demo (action_of_request (demo_action_request h)) = Inr env \<and>
     ct_action_hash t = ae_action_hash env \<and> ct_tool_name t = ''read''"
proof -
  obtain h v where hv: "is_sha256_hex h" "pl_capabilities (fst (demo_admitted h)) = capability_store_new"
    "approved_context h ''s'' ''r'' (pl_ledger (fst (demo_admitted h))) = Inr (''SV-'' @ v)"
    by (rule demo_admission)
  obtain env where env: "ae_seal demo (action_of_request (demo_action_request h)) = Inr env"
    "is_sha256_hex (ae_action_hash env)" "evaluate_strict demo env = Inr decision_allowed"
    "env = action_of_request (demo_action_request h)\<lparr>ae_action_hash := ae_action_hash env\<rparr>"
    by (rule demo_action_sealed [OF hv(1)])
  let ?r = "demo_action_request h"
  let ?drs = "session_drs (ae_session_id env) (fst (demo_admitted h))"
  have valid: "decision_request_validate (action_decision ?r env Allow ?drs (''SV-'' @ v)) = Inr ()"
    by (subst env(4)) (rule demo_action_valid [OF hv(1) env(2)])
  have "hm_get (cs_decision_by_tx (pl_capabilities (fst (demo_admitted h)))) k = None" for k
    by (simp add: hv(2) capability_store_new_def)
  from decide_fresh [OF valid this, of demo ActDecision ActDecisionNotFound ActAlreadyIssued]
  obtain t where "fst (decide_and_issue demo (action_decision ?r env Allow ?drs (''SV-'' @ v))
      ActDecision ActDecisionNotFound ActAlreadyIssued (demo_admitted h)) = Inr t" by blast
  moreover have "approved_context (aar_context_hash ?r) (aar_session_id ?r) (aar_run_id ?r)
      (pl_ledger (fst (demo_admitted h))) = Inr (''SV-'' @ v)"
    using hv(3) by (simp add: demo_action_request_def)
  ultimately have t: "fst (authorize_action_execution demo ?r (demo_admitted h)) = Inr t"
    by (simp add: authorize_action_execution_def env(1,3) decision_allowed_def)
  from action_authority_exact [OF demo_cap_laws demo_engine_ok demo_pipeline_new
      t [unfolded demo_admitted_def]]
  have "action_token_binds demo (eng (snd (demo_admitted h))) ?r env t"
    by (auto simp: env(1) demo_admitted_def)
  then have "ct_action_hash t = ae_action_hash env" "ct_tool_name t = ''read''"
    by (simp_all add: action_token_binds_def demo_action_request_def)
  then show ?thesis using t env(1) by auto
qed

end
