(* ===== verification/Steps.thy ===== *)
theory Steps
  imports Authority
begin

text \<open>
  What each operation of the pipeline does to the capability store: an authorisation adds at most the
  token it returns, a presentation counts at most one use, and every other operation leaves the store
  alone. In particular a spent token stays spent over any run.
\<close>

section \<open>The operations that are not about authority\<close>

fun unshadowed :: "pl_op \<Rightarrow> bool" where
  "unshadowed (PlContext e tx dept agent) = False"
| "unshadowed (PlOutbound m sid) = False"
| "unshadowed (PlProvider r) = False"
| "unshadowed (PlAction r) = False"
| "unshadowed (PlConsume p) = False"
| "unshadowed _ = True"

lemma spent_world: "token_spent X (st, w) i \<Longrightarrow> world_le w w' \<Longrightarrow> token_spent X (st, w') i"
  using drawn_id_mono by (simp add: token_spent_def)

section \<open>What the operations do to the store\<close>

lemma unrelated_capabilities:
  "unshadowed op \<Longrightarrow> pl_capabilities (fst (pl_step X S op pw)) = pl_capabilities (fst pw)"
proof (cases op)
  case (PlInbound m sid tx dept agent)
  obtain r P w where c: "inbound_with_identity X m sid tx dept agent pw = (r, P, w)"
    by (metis prod_cases3)
  show ?thesis using inbound_outcome(1) [OF c] PlInbound c by (simp add: frame_def)
next
  case (PlHaap sid ag cls token)
  then show ?thesis using haap_frame [of sid pw X sid ag cls token] by (simp add: frame_def)
qed (simp_all add: end_session_capabilities operator_reset_keeps pl_configure_reset_authority_def
    split_def Let_def)

lemma context_keeps:
  "pl_capabilities (fst (snd (inbound_context_with_identity X e tx dept agent pw))) =
     pl_capabilities (fst pw)"
  "world_le (snd pw) (snd (snd (inbound_context_with_identity X e tx dept agent pw)))"
proof -
  obtain r P w where c: "inbound_context_with_identity X e tx dept agent pw = (r, P, w)"
    by (metis prod_cases3)
  have "pl_capabilities P = pl_capabilities (fst pw) \<and> world_le (snd pw) w"
  proof (cases "mc_verify X e")
    case (Inl err)
    with c show ?thesis by (auto simp: context_rejected)
  next
    case (Inr u)
    from context_outcome [OF this c]
    have "frame (mc_session_id e) pw (P\<lparr>pl_ledger := pl_ledger (fst pw)\<rparr>, w)" by blast
    then show ?thesis by (simp add: frame_def)
  qed
  then show "pl_capabilities (fst (snd (inbound_context_with_identity X e tx dept agent pw))) =
      pl_capabilities (fst pw)"
    "world_le (snd pw) (snd (snd (inbound_context_with_identity X e tx dept agent pw)))"
    by (simp_all add: c)
qed

lemma unrelated_world: "unshadowed op \<Longrightarrow> world_le (snd pw) (snd (pl_step X S op pw))"
proof (cases op)
  case (PlInbound m sid tx dept agent)
  obtain r P w where c: "inbound_with_identity X m sid tx dept agent pw = (r, P, w)"
    by (metis prod_cases3)
  show ?thesis using inbound_outcome(1) [OF c] PlInbound c by (simp add: frame_def)
next
  case (PlHaap sid ag cls token)
  then show ?thesis using haap_frame [of sid pw X sid ag cls token] by (simp add: frame_def)
qed (simp_all add: end_session_world operator_reset_keeps)

text \<open>An authorisation: at most one new token, the one returned; spent tokens stay spent.\<close>

lemma decide_tokens:
  assumes "decide_and_issue X r f n a pw = (res, pw')"
    "hm_get (cs_capabilities (pl_capabilities (fst pw'))) i = Some t"
  shows "hm_get (cs_capabilities (pl_capabilities (fst pw))) i = Some t \<or> res = Inr t"
proof -
  obtain d st1 w1 where rec: "record_decision X r (pl_capabilities (fst pw)) (snd pw) = (d, st1, w1)"
    by (metis prod_cases3)
  have "cs_capabilities st1 = cs_capabilities (pl_capabilities (fst pw))"
    using record_capabilities [of X r "pl_capabilities (fst pw)" "snd pw"] rec by simp
  then show ?thesis
    using assms rec by (auto simp: decide_and_issue_def split_def Let_def issue_outcome_cases
        split: sum.splits option.splits if_splits)
qed

lemma decide_keeps_spent:
  assumes "cap_laws X" "cap_inv X (pl_capabilities (fst pw), snd pw)"
    "token_spent X (pl_capabilities (fst pw), snd pw) i"
  shows "token_spent X (pl_capabilities (fst (snd (decide_and_issue X r f n a pw))),
    snd (snd (decide_and_issue X r f n a pw))) i"
proof -
  let ?s = "(pl_capabilities (fst pw), snd pw)"
  let ?r = "cap_step X (CapRecord r) ?s"
  have r: "token_spent X ?r i" using token_spent_kept [OF assms] .
  have "token_spent X (cap_step X (CapIssue d) ?r) i" for d
    using token_spent_kept [OF assms(1) cap_step_inv [OF assms(1,2)] r] .
  then have "token_spent X (snd (issue_after_authorization X d (fst ?r) (snd ?r))) i" for d
    by (metis cap_step.simps(2) prod.collapse)
  then show ?thesis using r by (auto simp: decide_and_issue_def split_def Let_def split: sum.split)
qed

text \<open>What both authorisations do to the store and the ledger's account.\<close>

definition authority_step :: "externs \<Rightarrow> (string \<times> string \<times> string) set \<Rightarrow> pst \<Rightarrow>
    capability_token option \<Rightarrow> pst \<Rightarrow> bool" where
  "authority_step X A pw issued pw' \<longleftrightarrow> authority_inv X A pw' \<and> world_le (snd pw) (snd pw') \<and>
     (\<forall>i t. hm_get (cs_capabilities (pl_capabilities (fst pw'))) i = Some t \<longrightarrow>
        hm_get (cs_capabilities (pl_capabilities (fst pw))) i = Some t \<or> issued = Some t) \<and>
     (\<forall>i. token_spent X (pl_capabilities (fst pw), snd pw) i \<longrightarrow>
        token_spent X (pl_capabilities (fst pw'), snd pw') i) \<and>
     (\<forall>t. issued = Some t \<longrightarrow> (ct_context_hash t, ct_session_id t, ct_run_id t) \<in> A)"

definition issued_of :: "'e + capability_token \<Rightarrow> capability_token option" where
  "issued_of res = (case res of Inl _ \<Rightarrow> None | Inr t \<Rightarrow> Some t)"

lemma authority_step_refused: "authority_inv X A pw \<Longrightarrow> authority_step X A pw None pw"
  by (simp add: authority_step_def)

lemma authority_step_decide:
  assumes laws: "cap_laws X" and inv: "authority_inv X A pw"
    and d: "decide_and_issue X r f n a pw = (res, pw')"
    and admitted: "(dr_context_hash r, dr_session_id r, dr_run_id r) \<in> A"
  shows "authority_step X A pw (issued_of res) pw'"
proof -
  have ci: "cap_inv X (pl_capabilities (fst pw), snd pw)" using inv by (simp add: authority_inv_def)
  have "authority_inv X A pw'"
    using inv decide_inv [OF laws ci, of r f n a] decide_frame(2) [of X r f n a pw] d
    by (simp add: authority_inv_def)
  moreover have "world_le (snd pw) (snd pw')" using decide_world [of pw X r f n a] d by simp
  moreover have "token_binds X (eng (snd pw)) r t" if "res = Inr t" for t
    by (rule decide_binds [OF laws ci, where f = f and n = n and a = a]) (simp add: d that)
  ultimately show ?thesis
    using decide_tokens [OF d] decide_keeps_spent [OF laws ci, of _ r f n a] d admitted
    by (auto simp: authority_step_def issued_of_def token_binds_def split: sum.splits)
qed

lemma provider_step:
  assumes "cap_laws X" "authority_inv X A pw" "authorize_provider_execution X r pw = (res, pw')"
  shows "authority_step X A pw (issued_of res) pw'"
proof (cases "approved_context (pr_context_hash r) (pr_session_id r) (pr_run_id r)
    (pl_ledger (fst pw))")
  case (Inl e)
  with assms show ?thesis
    by (auto simp: authorize_provider_execution_def issued_of_def intro: authority_step_refused)
next
  case (Inr v)
  from approved_admitted [OF this] assms(2)
  have adm: "(pr_context_hash r, pr_session_id r, pr_run_id r) \<in> A"
    by (simp add: authority_inv_def)
  have "decide_and_issue X (provider_decision r v) Decision PaeDecisionNotFound PaeAlreadyIssued
      pw = (res, pw')" using Inr assms(3) by (simp add: authorize_provider_execution_def)
  from authority_step_decide [OF assms(1,2) this] adm show ?thesis
    by (simp add: provider_decision_def)
qed

lemma action_step:
  assumes "cap_laws X" "authority_inv X A pw" "authorize_action_execution X r pw = (res, pw')"
  shows "authority_step X A pw (issued_of res) pw'"
proof (cases "approved_context (aar_context_hash r) (aar_session_id r) (aar_run_id r)
    (pl_ledger (fst pw))")
  case (Inl e)
  with assms show ?thesis
    by (auto simp: authorize_action_execution_def issued_of_def intro: authority_step_refused)
next
  case (Inr v)
  from approved_admitted [OF this] assms(2)
  have adm: "(aar_context_hash r, aar_session_id r, aar_run_id r) \<in> A"
    by (simp add: authority_inv_def)
  have fields: "dr_context_hash (action_decision r env dis drs v) = aar_context_hash r"
    "dr_session_id (action_decision r env dis drs v) = aar_session_id r"
    "dr_run_id (action_decision r env dis drs v) = aar_run_id r"
    if "ae_seal X (action_of_request r) = Inr env" for env dis drs
    by (subst sealed_action [OF that], simp add: action_decision_def action_of_request_def Let_def)+
  from Inr assms(3) consider (refused) e where "res = Inl e" "pw' = pw"
    | (decided) env dis drs where "ae_seal X (action_of_request r) = Inr env"
      "decide_and_issue X (action_decision r env dis drs v) ActDecision ActDecisionNotFound
         ActAlreadyIssued pw = (res, pw')"
    by (auto simp: authorize_action_execution_def split: sum.splits if_splits)
  then show ?thesis
  proof cases
    case refused
    then show ?thesis by (simp add: issued_of_def authority_step_refused [OF assms(2)])
  next
    case decided
    show ?thesis
      by (rule authority_step_decide [OF assms(1,2) decided(2)]) (simp add: fields [OF decided(1)] adm)
  qed
qed

lemma authority_step_quiet:
  assumes "authority_inv X A pw'" "world_le (snd pw) (snd pw')"
    "pl_capabilities (fst pw') = pl_capabilities (fst pw)"
  shows "authority_step X A pw None pw'"
  using assms spent_world [of X "pl_capabilities (fst pw)" "snd pw" _ "snd pw'"]
  by (simp add: authority_step_def)

section \<open>Spent tokens over a run\<close>

lemma step_keeps_spent:
  assumes laws: "cap_laws X" and inv: "authority_inv X A pw"
    and spent: "token_spent X (pl_capabilities (fst pw), snd pw) i"
  shows "token_spent X (pl_capabilities (fst (pl_step X S op pw)), snd (pl_step X S op pw)) i"
proof -
  have quiet: "token_spent X (pl_capabilities (fst pw'), snd pw') i"
    if "pl_capabilities (fst pw') = pl_capabilities (fst pw)" "world_le (snd pw) (snd pw')" for pw'
    using spent_world [OF spent that(2)] that(1) by simp
  have stepped: "token_spent X (pl_capabilities (fst pw'), snd pw') i" if "authority_step X A pw issued pw'" for issued pw'
    using that spent by (simp add: authority_step_def)
  show ?thesis
  proof (cases op)
    case (PlContext e tx dept agent)
    then show ?thesis using quiet [OF context_keeps] by simp
  next
    case (PlOutbound m sid)
    then show ?thesis using quiet [of "snd (outbound X m sid pw)"] outbound_frame [of sid pw X m]
      by (simp add: frame_def)
  next
    case (PlProvider r)
    obtain res pw' where r: "authorize_provider_execution X r pw = (res, pw')" by (metis surj_pair)
    from stepped [OF provider_step [OF laws inv r]] show ?thesis by (simp add: PlProvider r)
  next
    case (PlAction r)
    obtain res pw' where r: "authorize_action_execution X r pw = (res, pw')" by (metis surj_pair)
    from stepped [OF action_step [OF laws inv r]] show ?thesis by (simp add: PlAction r)
  next
    case (PlConsume p)
    have "cap_inv X (pl_capabilities (fst pw), snd pw)" using inv by (simp add: authority_inv_def)
    from token_spent_kept [OF laws this spent, of "CapConsume p"] show ?thesis
      by (simp add: PlConsume consume_provider_capability_def split_def Let_def)
  qed (use quiet [OF unrelated_capabilities [of op X S pw] unrelated_world [of op pw X S]] in simp_all)
qed

lemma run_keeps_spent:
  assumes laws: "cap_laws X" and "authority_inv X A pw" "token_spent X (pl_capabilities (fst pw), snd pw) i"
  shows "token_spent X (pl_capabilities (fst (fold (pl_step X S) ops pw)), snd (fold (pl_step X S) ops pw)) i"
  using assms(2,3)
proof (induction ops arbitrary: A pw)
  case (Cons op ops)
  from Cons.IH [OF step_inv [OF laws Cons.prems(1)] step_keeps_spent [OF laws Cons.prems]] show ?case
    by (simp del: pl_step.simps)
qed simp

lemma never_again:
  assumes "cap_laws X" "authority_inv X A pw"
    and "fst (consume_provider_capability X p pw) = Authorized" "pb_token_id q = pb_token_id p"
  shows "fst (consume_provider_capability X q
    (fold (pl_step X S) ops (snd (consume_provider_capability X p pw)))) \<noteq> Authorized"
proof -
  obtain out st w where c: "consume X p (pl_capabilities (fst pw)) (snd pw) = (out, st, w)" by (metis prod_cases3)
  have k: "consume_provider_capability X p pw = (out, (fst pw)\<lparr>pl_capabilities := st\<rparr>, w)"
    using c by (simp add: consume_provider_capability_def)
  have "token_spent X (st, w) (pb_token_id q)"
    using consume_spends [of X "pl_capabilities (fst pw)" "snd pw" p] assms(2-4) c k
    by (simp add: authority_inv_def)
  moreover have "authority_inv X A ((fst pw)\<lparr>pl_capabilities := st\<rparr>, w)"
    using consume_keeps_inv [OF assms(1,2), of p] k by simp
  ultimately have "token_spent X (pl_capabilities (fst (fold (pl_step X S) ops ((fst pw)\<lparr>pl_capabilities := st\<rparr>, w))),
      snd (fold (pl_step X S) ops ((fst pw)\<lparr>pl_capabilities := st\<rparr>, w))) (pb_token_id q)"
    by (intro run_keeps_spent [OF assms(1)]) simp_all
  from token_spent_refused [OF this] show ?thesis
    unfolding k by (simp add: consume_provider_capability_def split_def Let_def del: pl_step.simps)
qed

end
