(* ===== verification/Execution.thy ===== *)
theory Execution
  imports Steps
begin

text \<open>
  From an approval to an execution: in a reachable pipeline, an approved model context can be turned
  into a capability, the capability works once, and presentations that do not match it neither work
  nor use it up. The lemmas describe one issued token in its store; the acceptance scenarios rest on
  them.
\<close>

section \<open>A fresh token in its store\<close>

definition fresh_in :: "externs \<Rightarrow> capability_token \<Rightarrow> capability_store \<Rightarrow> world \<Rightarrow> bool" where
  "fresh_in X t st w \<longleftrightarrow> hm_get (cs_capabilities st) (ct_token_id t) = Some t \<and>
     ct_authority t \<in> {AUTHORITY_PROVIDER_EXECUTE, AUTHORITY_ACTION_EXECUTE} \<and>
     ct_use_count t = 0 \<and> ct_max_uses t = 1 \<and>
     verify_ok X (eng w) (ct_canonical t) (ct_signature t)"

lemma fresh_in_world: "fresh_in X t st w \<Longrightarrow> world_le w w' \<Longrightarrow> fresh_in X t st w'"
  by (simp add: fresh_in_def world_le_verify)

text \<open>What a presentation of it comes to while it has not expired.\<close>

definition spent :: "capability_token \<Rightarrow> capability_store \<Rightarrow> capability_store" where
  "spent t st = st\<lparr>cs_capabilities := hm_modify (ct_token_id t)
     (\<lambda>t. t\<lparr>ct_use_count := ct_use_count t + 1\<rparr>) (cs_capabilities st)\<rparr>"

lemma fresh_presented:
  assumes "fresh_in X t st w" "pb_token_id p = ct_token_id t" "now X w < ct_expires_at t"
  shows "consume X p st w = (case first_failure (binding_checks t p) of
     Some out \<Rightarrow> (out, st, tick w) | None \<Rightarrow> (Authorized, spent t st, tick w))"
  using assms by (simp add: fresh_in_def consume_def spent_def split: option.split)

lemma binding_of_sel [simp]:
  "pb_token_id (binding_of t) = ct_token_id t" "pb_gov_tx_id (binding_of t) = ct_gov_tx_id t"
  "pb_session_id (binding_of t) = ct_session_id t"
  "pb_principal_fingerprint (binding_of t) = ct_principal_fingerprint t"
  "pb_authority (binding_of t) = ct_authority t" "pb_backend (binding_of t) = ct_backend t"
  "pb_model (binding_of t) = ct_model t" "pb_run_id (binding_of t) = ct_run_id t"
  "pb_context_hash (binding_of t) = ct_context_hash t"
  "pb_policy_version (binding_of t) = ct_policy_version t"
  "pb_policy_hash (binding_of t) = ct_policy_hash t"
  "pb_action_hash (binding_of t) = ct_action_hash t" "pb_tool_name (binding_of t) = ct_tool_name t"
  "pb_resource_kind (binding_of t) = ct_resource_kind t"
  "pb_resource_locator (binding_of t) = ct_resource_locator t"
  "pb_tool_call_id (binding_of t) = ct_tool_call_id t"
  "pb_plane (binding_of t) = plane_str (ct_action_plane t)"
  by (simp_all add: binding_of_def)

lemma fresh_own_binding:
  "fresh_in X t st w \<Longrightarrow> first_failure (binding_checks t (binding_of t)) = None"
  by (simp add: fresh_in_def binding_checks_pass)

lemma fresh_works:
  assumes "fresh_in X t st w" "now X w < ct_expires_at t"
  shows "consume X (binding_of t) st w = (Authorized, spent t st, tick w)"
  using fresh_presented [of X t st w "binding_of t"] fresh_own_binding assms by simp

lemma spent_refused:
  assumes "fresh_in X t st w" "world_le w w'" "pb_token_id p = ct_token_id t"
  shows "consume X p (spent t st) w' = (AlreadyConsumed, spent t st, w')"
  using assms by (simp add: fresh_in_def spent_def consume_def hm_get_modify world_le_verify)

lemma fresh_other:
  assumes "fresh_in X t st w" "ct_token_id u \<noteq> ct_token_id t"
  shows "fresh_in X t (spent u st) w"
  using assms by (simp add: fresh_in_def spent_def hm_get_modify)

text \<open>A presentation that is refused leaves the token as it was.\<close>

lemma refusal_harmless:
  assumes "fresh_in X t st w" "fst (consume X p st w) \<noteq> Authorized"
  shows "fresh_in X t (fst (snd (consume X p st w))) (snd (snd (consume X p st w)))"
  using assms fresh_in_world [OF assms(1) consume_world] by (simp add: consume_store)

section \<open>Issuing one\<close>

lemma issue_fresh:
  assumes "cap_laws X" "cap_inv X (st, w)" "hm_get (cs_decisions st) i = Some d" "\<not> dc_issued d"
    "issue_after_authorization X i st w = (out, st1, w1)"
  shows "out = Issued (issued_token X st w d)" "fresh_in X (issued_token X st w d) st1 w1"
    "w1 = tick (draw_id w)" "cs_decision_by_tx st1 = cs_decision_by_tx st"
proof -
  have "dc_authority d \<in> {AUTHORITY_PROVIDER_EXECUTE, AUTHORITY_ACTION_EXECUTE}"
    using assms(2,3) unfolding cap_inv_def decisions_inv_def split by blast
  moreover have "ct_authority (issued_token X st w d) = dc_authority d"
    using issued_token_scope by (simp add: token_scope_def)
  moreover have "verify_ok X (eng w) (ct_canonical (issued_token X st w d))
      (ct_signature (issued_token X st w d))"
    using assms(1,2) by (simp add: cap_laws_def cap_inv_def sign_verifies)
  ultimately show "fresh_in X (issued_token X st w d) st1 w1"
    using assms(3-) by (auto simp: issue_outcome_cases fresh_in_def)
  show "out = Issued (issued_token X st w d)" "w1 = tick (draw_id w)"
    "cs_decision_by_tx st1 = cs_decision_by_tx st"
    using assms(3-) by (auto simp: issue_outcome_cases)
qed

lemma record_fresh:
  assumes "decision_request_validate r = Inr ()"
    "hm_get (cs_decision_by_tx st) (tx_key (dr_gov_tx_id r) (dr_authority r)) = None"
  obtains i d st1 where "record_decision X r st w = (Inr i, st1, tick (draw_id w))"
    "hm_get (cs_decisions st1) i = Some d" "\<not> dc_issued d" "d = decision_of_request i (now X w) r"
    "cs_capabilities st1 = cs_capabilities st" "cs_default_ttl_secs st1 = cs_default_ttl_secs st"
    "i = ''DEC-'' @ uuid_simple X (ids w)"
  using assms by (simp add: record_decision_def Let_def decision_of_request_def)

lemma decide_usable:
  assumes laws: "cap_laws X" and inv: "cap_inv X (pl_capabilities (fst pw), snd pw)"
    and valid: "decision_request_validate r = Inr ()"
    and unused: "hm_get (cs_decision_by_tx (pl_capabilities (fst pw)))
      (tx_key (dr_gov_tx_id r) (dr_authority r)) = None"
  obtains t st where "decide_and_issue X r f n a pw =
      (Inr t, (fst pw)\<lparr>pl_capabilities := st\<rparr>, tick (draw_id (tick (draw_id (snd pw)))))"
    "token_binds X (eng (snd pw)) r t"
    "fresh_in X t st (tick (draw_id (tick (draw_id (snd pw)))))"
    "ct_expires_at t = now X (tick (draw_id (snd pw))) +
       secs (cs_default_ttl_secs (pl_capabilities (fst pw)))"
proof -
  let ?st = "pl_capabilities (fst pw)" and ?w = "snd pw"
  obtain i d st1 where rec: "record_decision X r ?st ?w = (Inr i, st1, tick (draw_id ?w))"
    "hm_get (cs_decisions st1) i = Some d" "\<not> dc_issued d" "d = decision_of_request i (now X ?w) r"
    "cs_default_ttl_secs st1 = cs_default_ttl_secs ?st"
    by (rule record_fresh [OF valid unused, of X ?w])
  obtain out st2 w2 where iss: "issue_after_authorization X i st1 (tick (draw_id ?w)) = (out, st2, w2)"
    by (metis prod_cases3)
  have inv1: "cap_inv X (st1, tick (draw_id ?w))"
    using record_decision_facts [OF laws inv rec(1)] by blast
  note f = issue_fresh [OF laws inv1 rec(2,3) iss]
  let ?t = "issued_token X st1 (tick (draw_id ?w)) d"
  have d: "decide_and_issue X r f n a pw =
      (Inr ?t, (fst pw)\<lparr>pl_capabilities := st2\<rparr>, tick (draw_id (tick (draw_id ?w))))"
    using rec(1) iss f(1,3) by (simp add: decide_and_issue_def split_def Let_def)
  show ?thesis
    by (rule that [OF d decide_binds [OF laws inv, of r f n a]]) (use d f rec(5) in simp_all)
qed

section \<open>From approval to execution\<close>

text \<open>
  A provider request with every field the caller chooses filled in. What names the context is not
  among them: a verified envelope has it.
\<close>

definition complete_request :: "provider_authorization_request \<Rightarrow> bool" where
  "complete_request r \<longleftrightarrow> \<not> blank (pr_gov_tx_id r) \<and> \<not> blank (pr_principal_fingerprint r) \<and>
     \<not> blank (pr_backend r) \<and> \<not> blank (pr_model r) \<and> \<not> blank (pr_action_class r) \<and>
     \<not> blank (pr_policy_version r) \<and> is_sha256_hex (pr_policy_hash r)"

definition names_context :: "provider_authorization_request \<Rightarrow> model_context_envelope \<Rightarrow> bool" where
  "names_context r e \<longleftrightarrow> pr_context_hash r = mc_context_hash e \<and>
     pr_session_id r = mc_session_id e \<and> pr_run_id r = mc_run_id e"

lemma verified_fields:
  assumes "mc_verify X e = Inr ()"
  shows "is_sha256_hex (mc_context_hash e)" "\<not> blank (mc_session_id e)" "\<not> blank (mc_run_id e)"
  using assms by (auto simp: mc_verify_iff mc_well_formed_def mc_header_ok_def identifier_ok_def)

lemma provider_decision_valid:
  assumes "mc_verify X e = Inr ()" "complete_request r" "names_context r e"
  shows "decision_request_validate (provider_decision r (''SV-'' @ v)) = Inr ()"
  using assms verified_fields [OF assms(1)]
  by (simp add: decision_request_validate_def all_ok_iff nonempty_def provider_decision_def
      complete_request_def names_context_def digest_not_blank own_prefix_not_blank [of v, simplified])

text \<open>The clock advances by less than the life of a token over the next readings.\<close>

definition prompt :: "externs \<Rightarrow> int \<Rightarrow> nat \<Rightarrow> world \<Rightarrow> bool" where
  "prompt X ttl n w \<longleftrightarrow>
     (\<forall>i \<le> n. \<forall>j \<le> n. clock X (ticks w + i) < clock X (ticks w + j) + secs ttl)"

lemma promptD:
  "prompt X ttl n w \<Longrightarrow> i \<le> n \<Longrightarrow> j \<le> n \<Longrightarrow> clock X (ticks w + i) < clock X (ticks w + j) + secs ttl"
  by (simp add: prompt_def)

lemma world_sel [simp]:
  "ticks (tick w) = Suc (ticks w)" "ticks (draw_id w) = ticks w"
  "eng (tick w) = eng w" "eng (draw_id w) = eng w"
  by (simp_all add: tick_def draw_id_def)

text \<open>The state in which a token waits for its holder, with \<open>n\<close> more readings of the clock before it.\<close>

definition waiting :: "externs \<Rightarrow> capability_token \<Rightarrow> nat \<Rightarrow> pst \<Rightarrow> bool" where
  "waiting X t n pw \<longleftrightarrow> fresh_in X t (pl_capabilities (fst pw)) (snd pw) \<and>
     (\<forall>i \<le> n. clock X (ticks (snd pw) + i) < ct_expires_at t)"

lemma waiting_now: "waiting X t n pw \<Longrightarrow> now X (snd pw) < ct_expires_at t"
  by (auto simp: waiting_def now_def)

lemma waiting_works:
  assumes "waiting X t n pw"
  shows "consume_provider_capability X (binding_of t) pw =
    (Authorized, (fst pw)\<lparr>pl_capabilities := spent t (pl_capabilities (fst pw))\<rparr>, tick (snd pw))"
  using assms fresh_works waiting_now [OF assms]
  by (simp add: consume_provider_capability_def waiting_def)

lemma waiting_once:
  assumes "waiting X t n pw" "consume_provider_capability X (binding_of t) pw = (out, pw')"
    "pb_token_id p = ct_token_id t"
  shows "consume_provider_capability X p pw' = (AlreadyConsumed, pw')"
  using assms(2) spent_refused [OF _ world_le_tick(1) assms(3)] assms(1)
  unfolding waiting_works [OF assms(1)]
  by (auto simp: consume_provider_capability_def waiting_def)

lemma waiting_refused:
  assumes "waiting X t n pw" "pb_token_id p = ct_token_id t"
    "first_failure (binding_checks t p) = Some out"
  shows "consume_provider_capability X p pw = (out, fst pw, tick (snd pw))"
  using fresh_presented [OF _ assms(2) waiting_now [OF assms(1)]] assms(1,3)
  by (simp add: consume_provider_capability_def waiting_def)

lemma consume_ticks: "ticks (snd (snd (consume X p st w))) \<le> Suc (ticks w)"
  by (auto simp: consume_def split: option.split)

lemma waiting_kept:
  assumes "waiting X t (Suc n) pw" "consume_provider_capability X p pw = (out, pw')" "out \<noteq> Authorized"
  shows "waiting X t n pw'"
proof -
  obtain st w where c: "consume X p (pl_capabilities (fst pw)) (snd pw) = (out, st, w)"
    and pw': "pw' = ((fst pw)\<lparr>pl_capabilities := st\<rparr>, w)"
    using assms(2) by (auto simp: consume_provider_capability_def split: prod.splits)
  have "fresh_in X t st w"
    using refusal_harmless [of X t "pl_capabilities (fst pw)" "snd pw" p] assms(1,3) c
    by (simp add: waiting_def)
  moreover have "ticks (snd pw) \<le> ticks w" "ticks w \<le> Suc (ticks (snd pw))"
    using consume_ticks [of X p "pl_capabilities (fst pw)" "snd pw"]
      consume_world [of "snd pw" X p "pl_capabilities (fst pw)"] c by (simp_all add: world_le_def)
  then have "clock X (ticks w + i) < ct_expires_at t" if "i \<le> n" for i
  proof -
    obtain k where "ticks w = ticks (snd pw) + k" "k \<le> 1"
      using \<open>ticks (snd pw) \<le> ticks w\<close> \<open>ticks w \<le> Suc (ticks (snd pw))\<close> by (metis add.commute
          le_add_diff_inverse2 Suc_eq_plus1 add_le_cancel_left le_iff_add)
    then show ?thesis using assms(1) that unfolding waiting_def
      by (metis (no_types, opaque_lifting) add.assoc add_le_mono plus_1_eq_Suc)
  qed
  ultimately show ?thesis by (simp add: waiting_def pw')
qed

lemma waiting_presented:
  assumes "waiting X t n pw" "pb_token_id p = ct_token_id t"
  shows "fst (consume_provider_capability X p pw) =
    (case first_failure (binding_checks t p) of None \<Rightarrow> Authorized | Some out \<Rightarrow> out)"
  using fresh_presented [OF _ assms(2) waiting_now [OF assms(1)]] assms(1)
  by (simp add: consume_provider_capability_def waiting_def split: option.split)

lemma waiting_survives:
  assumes "waiting X t (Suc n) pw" "pb_token_id p = ct_token_id t"
    "first_failure (binding_checks t p) = Some out"
  shows "fst (consume_provider_capability X (binding_of t) (snd (consume_provider_capability X p pw))) = Authorized"
proof -
  have no: "consume_provider_capability X p pw = (out, fst pw, tick (snd pw))"
    by (rule waiting_refused [OF assms])
  have "waiting X t n (fst pw, tick (snd pw))"
    by (rule waiting_kept [OF assms(1) no binding_checks_not_authorized [OF assms(3)]])
  from waiting_works [OF this] no show ?thesis by simp
qed

lemma decide_waiting:
  assumes laws: "cap_laws X" and inv: "cap_inv X (pl_capabilities (fst pw), snd pw)"
    and valid: "decision_request_validate r = Inr ()"
    and unused: "hm_get (cs_decision_by_tx (pl_capabilities (fst pw)))
      (tx_key (dr_gov_tx_id r) (dr_authority r)) = None"
    and prompt: "prompt X (cs_default_ttl_secs (pl_capabilities (fst pw))) (n + 2) (snd pw)"
  obtains t pw' where "decide_and_issue X r f na a pw = (Inr t, pw')" "token_binds X (eng (snd pw)) r t"
    "waiting X t n pw'" "pl_ledger (fst pw') = pl_ledger (fst pw)"
proof (rule decide_usable [OF laws inv valid unused, of f na a])
  fix t st
  let ?w = "tick (draw_id (tick (draw_id (snd pw))))"
  assume d: "decide_and_issue X r f na a pw = (Inr t, (fst pw)\<lparr>pl_capabilities := st\<rparr>, ?w)"
    "token_binds X (eng (snd pw)) r t" "fresh_in X t st ?w"
    "ct_expires_at t = now X (tick (draw_id (snd pw))) +
       secs (cs_default_ttl_secs (pl_capabilities (fst pw)))"
  have "clock X (Suc (Suc (ticks (snd pw) + i))) < ct_expires_at t" if "i \<le> n" for i
    using promptD [OF prompt, of "i + 2" 1] that by (simp add: d(4) now_def)
  with d(3) have "waiting X t n ((fst pw)\<lparr>pl_capabilities := st\<rparr>, ?w)" by (simp add: waiting_def)
  with that [OF d(1,2)] show ?thesis by simp
qed

lemma decide_policy:
  assumes laws: "cap_laws X" and inv: "cap_inv X (pl_capabilities (fst pw), snd pw)"
    and valid: "decision_request_validate r = Inr ()"
    and unused: "hm_get (cs_decision_by_tx (pl_capabilities (fst pw)))
      (tx_key (dr_gov_tx_id r) (dr_authority r)) = None"
    and d: "decide_and_issue X r f n a pw = (Inr t, pw')"
  shows "ct_policy_hash t = dr_policy_hash r"
proof (rule record_fresh [OF valid unused, of X "snd pw"])
  fix i d st1
  let ?w = "tick (draw_id (snd pw))"
  assume rec: "record_decision X r (pl_capabilities (fst pw)) (snd pw) = (Inr i, st1, ?w)"
    "hm_get (cs_decisions st1) i = Some d" "\<not> dc_issued d" "d = decision_of_request i (now X (snd pw)) r"
  have "cap_inv X (st1, ?w)" using record_decision_facts [OF laws inv rec(1)] by blast
  moreover obtain out st2 w2 where iss: "issue_after_authorization X i st1 ?w = (out, st2, w2)"
    by (metis prod_cases3)
  ultimately have "out = Issued (issued_token X st1 ?w d)" using issue_fresh(1) laws rec(2,3) by blast
  then have "t = issued_token X st1 ?w d"
    using d rec(1) iss by (simp add: decide_and_issue_def split_def Let_def)
  then show ?thesis
    using issued_token_scope [of X st1 ?w d] rec(4) by (simp add: token_scope_def decision_of_request_def)
qed

text \<open>
  What is wrong with a presentation of a token that was issued for a provider request, read off the
  request: the first of its fields that is not the one requested.
\<close>

definition deviation :: "provider_authorization_request \<Rightarrow> presented_binding \<Rightarrow> consume_outcome option" where
  "deviation r p =
     (if pb_authority p \<noteq> AUTHORITY_PROVIDER_EXECUTE then Some AuthorityMismatch
      else if pb_principal_fingerprint p \<noteq> pr_principal_fingerprint r then Some PrincipalMismatch
      else if pb_gov_tx_id p \<noteq> pr_gov_tx_id r then Some TransactionMismatch
      else if pb_session_id p \<noteq> pr_session_id r then Some SessionMismatch
      else if pb_run_id p \<noteq> pr_run_id r then Some RunMismatch
      else if pb_context_hash p \<noteq> pr_context_hash r then Some ContextHashMismatch
      else if pb_policy_version p \<noteq> pr_policy_version r then Some PolicyVersionMismatch
      else if pb_policy_hash p \<noteq> pr_policy_hash r then Some PolicyHashMismatch
      else if pb_backend p \<noteq> pr_backend r then Some BackendMismatch
      else if pb_model p \<noteq> pr_model r then Some ModelMismatch
      else None)"

lemma deviation_checked:
  assumes "provider_token_binds X e r t" "ct_policy_hash t = pr_policy_hash r"
  shows "first_failure (binding_checks t p) = deviation r p"
  using assms by (auto simp: provider_token_binds_def binding_checks_def deviation_def authority_defs)

text \<open>
  Claim C9: an approval is worth an execution. Whenever, after any run of a new pipeline, a model
  context is approved, a complete provider request that names it under a transaction not yet
  decided is authorised. The token that comes back is good for exactly the provider call that was
  requested: a presentation of it is authorised if authority, principal, transaction, session, run,
  context, policy version and hash, backend and model are those of the request, and otherwise
  refused with the name of the first that is not, without using the token up. Once it has worked, it
  is reported as consumed, and no presentation of it is authorised again after any further run. The
  clock must not outrun the life of the token in the course of the presentations.
\<close>

theorem approval_executes:
  assumes laws: "cap_laws X" "engine_ok X (eng w0)"
    and start: "pipeline_new X ser S parse_f32 mode_env thr path files acfg c = Inr P"
    and run: "pw = fold (pl_step X S) ops (P, w0)"
    and admitted: "inbound_context_with_identity X e tx dept agent pw = (Inr (Approved content), pw1)"
    and request: "complete_request r" "names_context r e"
    and unused: "hm_get (cs_decision_by_tx (pl_capabilities (fst pw)))
      (tx_key (pr_gov_tx_id r) AUTHORITY_PROVIDER_EXECUTE) = None"
    and prompt: "prompt X (cs_default_ttl_secs (pl_capabilities (fst pw))) 3 (snd pw1)"
  shows "\<exists>t pw2 pw3. authorize_provider_execution X r pw1 = (Inr t, pw2) \<and>
    provider_token_binds X (eng (snd pw1)) r t \<and>
    consume_provider_capability X (binding_of t) pw2 = (Authorized, pw3) \<and>
    (\<forall>p. pb_token_id p = ct_token_id t \<longrightarrow> fst (consume_provider_capability X p pw3) = AlreadyConsumed) \<and>
    (\<forall>p later. pb_token_id p = ct_token_id t \<longrightarrow>
       fst (consume_provider_capability X p (fold (pl_step X S) later pw3)) \<noteq> Authorized) \<and>
    (\<forall>p. pb_token_id p = ct_token_id t \<longrightarrow> fst (consume_provider_capability X p pw2) =
       (case deviation r p of None \<Rightarrow> Authorized | Some out \<Rightarrow> out)) \<and>
    (\<forall>p. pb_token_id p = ct_token_id t \<and> deviation r p \<noteq> None \<longrightarrow>
       fst (consume_provider_capability X (binding_of t)
         (snd (consume_provider_capability X p pw2))) = Authorized)"
proof -
  obtain A where inv: "authority_inv X A pw"
    using run_inv [OF laws(1) pipeline_new_inv [OF start laws(2)]] run by blast
  have v: "mc_verify X e = Inr ()"
    using admitted context_rejected [of X e] by (cases "mc_verify X e") auto
  obtain i where i: "approved_context (mc_context_hash e) (mc_session_id e) (mc_run_id e)
      (pl_ledger (fst pw1)) = Inr (''SV-'' @ i)" "pl_capabilities (fst pw1) = pl_capabilities (fst pw)"
    by (rule admission_resolves [of X e tx dept agent pw "Approved content"]) (use admitted in simp_all)
  let ?d = "provider_decision r (''SV-'' @ i)"
  obtain A1 where inv1: "authority_inv X A1 pw1" using context_inv [OF inv, of e tx dept agent] admitted by auto
  then have 1: "cap_inv X (pl_capabilities (fst pw1), snd pw1)" by (simp add: authority_inv_def)
  have 2: "hm_get (cs_decision_by_tx (pl_capabilities (fst pw1)))
      (tx_key (dr_gov_tx_id ?d) (dr_authority ?d)) = None"
    using unused i(2) by (simp add: provider_decision_def)
  have 3: "prompt X (cs_default_ttl_secs (pl_capabilities (fst pw1))) (Suc 0 + 2) (snd pw1)"
    using prompt i(2) by (simp add: numeral_3_eq_3)
  note ok = provider_decision_valid [OF v request, of i]
  obtain t pw2 where t: "decide_and_issue X ?d Decision PaeDecisionNotFound PaeAlreadyIssued pw1 =
      (Inr t, pw2)" "waiting X t (Suc 0) pw2" "token_binds X (eng (snd pw1)) ?d t"
    using decide_waiting [OF laws(1) 1 ok 2 3] by metis
  have a: "authorize_provider_execution X r pw1 = (Inr t, pw2)"
    using i(1) request(2) t(1) by (simp add: authorize_provider_execution_def names_context_def)
  have inv2: "authority_inv X A1 pw2" using provider_inv [OF laws(1) inv1, of r] a by simp
  have dev: "first_failure (binding_checks t p) = deviation r p" for p
    by (rule deviation_checked [OF provider_token [OF t(3)]])
      (use decide_policy [OF laws(1) 1 ok 2 t(1)] in \<open>simp add: provider_decision_def\<close>)
  obtain pw3 where c: "consume_provider_capability X (binding_of t) pw2 = (Authorized, pw3)"
    using waiting_works [OF t(2)] by blast
  have again: "fst (consume_provider_capability X p (fold (pl_step X S) later pw3)) \<noteq> Authorized"
    if "pb_token_id p = ct_token_id t" for p later
    using never_again [OF laws(1) inv2, of "binding_of t" p S later] c that by simp
  have answer: "fst (consume_provider_capability X p pw2) =
      (case deviation r p of None \<Rightarrow> Authorized | Some out \<Rightarrow> out)" if "pb_token_id p = ct_token_id t" for p
    using waiting_presented [OF t(2) that] by (simp add: dev)
  have kept: "fst (consume_provider_capability X (binding_of t)
      (snd (consume_provider_capability X p pw2))) = Authorized"
    if "pb_token_id p = ct_token_id t" "deviation r p \<noteq> None" for p
    using waiting_survives [OF t(2)] that dev by fastforce
  have once: "fst (consume_provider_capability X p pw3) = AlreadyConsumed"
    if "pb_token_id p = ct_token_id t" for p
    using waiting_once [OF t(2) c that] by simp
  show ?thesis using a c answer kept once again provider_token [OF t(3)] by blast
qed

lemma demo_prompt: "n < 30 \<Longrightarrow> prompt demo 30 n w"
  by (auto simp: prompt_def demo_def secs_def)

text \<open>
  The token of the demonstration, presented once for another session and then as issued; it is refused
  the first time and works the second, and after that a thousand foreign steps change nothing.
\<close>

lemma approval_executes_witness:
  "\<exists>h t pw2. let q = (binding_of t)\<lparr>pb_session_id := ''other''\<rparr>;
       use = consume_provider_capability demo (binding_of t);
       after = fold (pl_step demo demo_storage) (replicate 1000 (PlConsume q)) (snd (use pw2)) in
     mc_verify demo (demo_context\<lparr>mc_context_hash := h\<rparr>) = Inr () \<and>
     fst (consume_provider_capability demo q pw2) = SessionMismatch \<and>
     fst (use (snd (consume_provider_capability demo q pw2))) = Authorized \<and>
     fst (use pw2) = Authorized \<and> fst (use (snd (use pw2))) = AlreadyConsumed \<and>
     fst (use after) \<noteq> Authorized"
proof -
  obtain h where h: "mc_verify demo (demo_context\<lparr>mc_context_hash := h\<rparr>) = Inr ()"
    "is_sha256_hex h" by (rule demo_sealed_context)
  let ?e = "demo_context\<lparr>mc_context_hash := h\<rparr>" and ?r = "demo_provider_request h"
  obtain pw1 where a: "inbound_context_with_identity demo ?e ''tx'' None None
      (demo_pipeline, demo_world) = (Inr (Approved ''hi''), pw1)"
    using demo_approved [OF h(1)] by (metis prod.collapse)
  have r: "complete_request ?r" "names_context ?r ?e"
    by (simp_all add: complete_request_def names_context_def demo_provider_request_def
        demo_context_def not_blank_Cons utf8_len_def is_ws_def is_whitespace_cp_def byte_def)
  have caps: "pl_capabilities (fst (demo_pipeline, demo_world)) = capability_store_new"
    by (simp add: demo_pipeline_def)
  from approval_executes [OF demo_cap_laws demo_engine_ok demo_pipeline_new _ a r, where ops = "[]"]
  obtain t pw2 pw3 where t: "consume_provider_capability demo (binding_of t) pw2 = (Authorized, pw3)"
    "fst (consume_provider_capability demo (binding_of t) pw3) = AlreadyConsumed"
    and b: "provider_token_binds demo (eng (snd pw1)) ?r t"
    and later: "\<And>later. fst (consume_provider_capability demo (binding_of t)
      (fold (pl_step demo demo_storage) later pw3)) \<noteq> Authorized"
    and bad: "\<And>p. pb_token_id p = ct_token_id t \<Longrightarrow> fst (consume_provider_capability demo p pw2) =
      (case deviation ?r p of None \<Rightarrow> Authorized | Some out \<Rightarrow> out)"
    and kept: "\<And>p. pb_token_id p = ct_token_id t \<Longrightarrow> deviation ?r p \<noteq> None \<Longrightarrow>
      fst (consume_provider_capability demo (binding_of t) (snd (consume_provider_capability demo p pw2))) = Authorized"
    using caps demo_prompt by (auto simp: capability_store_new_def)
  let ?q = "(binding_of t)\<lparr>pb_session_id := ''other''\<rparr>"
  have "deviation ?r ?q = Some SessionMismatch"
    using b by (simp add: deviation_def provider_token_binds_def demo_provider_request_def)
  then have "fst (consume_provider_capability demo ?q pw2) = SessionMismatch"
    "fst (consume_provider_capability demo (binding_of t) (snd (consume_provider_capability demo ?q pw2))) = Authorized"
    using bad [of ?q] kept [of ?q] by simp_all
  then show ?thesis
    using h(1) t later unfolding Let_def
    by (intro exI [of _ h] exI [of _ t] exI [of _ pw2]) (simp del: pl_step.simps fold_replicate)
qed

end
