(* ===== verification/Governed.thy ===== *)
theory Governed
  imports Pipeline Evidence
begin

text \<open>
  \<open>EvidenceGovernedPipeline\<close> of \<open>evidence.rs\<close>: the decorator that runs an operation of the pipeline
  and then appends one signed event about its result.

  The theorem: the decorator decides nothing. A run of it is a run of the pipeline it wraps, with
  the clock and the UUID source advanced in between, and every recorded operation adds exactly one
  event, whatever its result.
\<close>

record 's governed =
  gv_pipeline :: pipeline
  gv_evidence :: "'s evidence_plane"

type_synonym 's gst = "'s governed \<times> world"

datatype governed_error = GvPipeline pipeline_error | GvCheckpoint verification_error

definition governed_new :: "externs \<Rightarrow> (constitution \<Rightarrow> string) \<Rightarrow> storage \<Rightarrow>
    (string \<Rightarrow> f32 option) \<Rightarrow> string option \<Rightarrow> env_read \<Rightarrow> string option \<Rightarrow> string hashmap \<Rightarrow>
    arbiter_config \<Rightarrow> constitution option \<Rightarrow> 's evidence_sink option \<Rightarrow> 's \<Rightarrow> world \<Rightarrow>
    governed_error + 's gst" where
  "governed_new X ser S parse_f32 mode_env threshold_env path files acfg constitution sink s w =
     (case pipeline_new X ser S parse_f32 mode_env threshold_env path files acfg constitution of
        Inl e \<Rightarrow> Inl (GvPipeline e)
      | Inr P \<Rightarrow> let (pl, w') = evidence_new X sink s w
                 in Inr (\<lparr>gv_pipeline = P, gv_evidence = pl\<rparr>, w'))"

definition governed_from_checkpoint :: "externs \<Rightarrow> (constitution \<Rightarrow> string) \<Rightarrow> storage \<Rightarrow>
    (string \<Rightarrow> f32 option) \<Rightarrow> string option \<Rightarrow> env_read \<Rightarrow> string option \<Rightarrow> string hashmap \<Rightarrow>
    arbiter_config \<Rightarrow> constitution option \<Rightarrow> evidence_checkpoint \<Rightarrow> 's evidence_sink option \<Rightarrow> 's \<Rightarrow>
    world \<Rightarrow> governed_error + 's gst" where
  "governed_from_checkpoint X ser S parse_f32 mode_env threshold_env path files acfg constitution c
       sink s w =
     (case pipeline_new X ser S parse_f32 mode_env threshold_env path files acfg constitution of
        Inl e \<Rightarrow> Inl (GvPipeline e)
      | Inr P \<Rightarrow> (case evidence_from_checkpoint X c sink s w of
          (Inl e, _) \<Rightarrow> Inl (GvCheckpoint e)
        | (Inr pl, w') \<Rightarrow> Inr (\<lparr>gv_pipeline = P, gv_evidence = pl\<rparr>, w')))"

section \<open>Debug renderings\<close>

text \<open>
  The derived \<open>Debug\<close> of the errors, the outcome text of a refusal. \<open>dbg\<close> is the rendering of a
  string (quoted and escaped by Unicode tables), a parameter. \<open>IndexInvariantPanic\<close> is no value of
  the source.
\<close>

fun debug_envelope_error :: "(string \<Rightarrow> string) \<Rightarrow> envelope_error \<Rightarrow> string" where
  "debug_envelope_error dbg (MissingField f) = ''MissingField('' @ dbg f @ '')''"
| "debug_envelope_error dbg (InvalidField f) = ''InvalidField('' @ dbg f @ '')''"
| "debug_envelope_error dbg (InvalidDigest f) = ''InvalidDigest('' @ dbg f @ '')''"
| "debug_envelope_error dbg (LimitExceeded f) = ''LimitExceeded('' @ dbg f @ '')''"
| "debug_envelope_error dbg (InvalidContextSegment n r) =
     ''InvalidContextSegment { ordinal: '' @ show_nat (unat n) @ '', reason: '' @ dbg r @ '' }''"
| "debug_envelope_error dbg (DuplicateAttachmentId i) =
     ''DuplicateAttachmentId('' @ dbg i @ '')''"
| "debug_envelope_error dbg (UnknownAttachmentId i) = ''UnknownAttachmentId('' @ dbg i @ '')''"
| "debug_envelope_error dbg (HashMismatch f) = ''HashMismatch('' @ dbg f @ '')''"
| "debug_envelope_error dbg (Canonicalization r) = ''Canonicalization('' @ dbg r @ '')''"

fun debug_capability_error :: "(string \<Rightarrow> string) \<Rightarrow> capability_error \<Rightarrow> string" where
  "debug_capability_error dbg (EmptyField f) = ''EmptyField('' @ dbg f @ '')''"
| "debug_capability_error dbg (MalformedDigest f) = ''MalformedDigest('' @ dbg f @ '')''"
| "debug_capability_error dbg InvalidTtl = ''InvalidTtl''"
| "debug_capability_error dbg TransactionScopeConflict = ''TransactionScopeConflict''"
| "debug_capability_error dbg WrongAuthority = ''WrongAuthority''"
| "debug_capability_error dbg IndexInvariantPanic = ''IndexInvariantPanic''"

fun debug_risk_class :: "action_risk_class \<Rightarrow> string" where
  "debug_risk_class UnknownTool = ''UnknownTool''"
| "debug_risk_class PathTraversal = ''PathTraversal''"
| "debug_risk_class CredentialAccess = ''CredentialAccess''"
| "debug_risk_class ProtectedResourceMutation = ''ProtectedResourceMutation''"
| "debug_risk_class DestructiveShell = ''DestructiveShell''"
| "debug_risk_class PrivilegeEscalation = ''PrivilegeEscalation''"
| "debug_risk_class RemoteCodeExecution = ''RemoteCodeExecution''"
| "debug_risk_class BrowserScriptExecution = ''BrowserScriptExecution''"
| "debug_risk_class FilesystemMutation = ''FilesystemMutation''"
| "debug_risk_class ShellExecution = ''ShellExecution''"
| "debug_risk_class ExternalInteraction = ''ExternalInteraction''"
| "debug_risk_class ControlSchemaViolation = ''ControlSchemaViolation''"
| "debug_risk_class ControlAction = ''ControlAction''"

fun debug_provider_error :: "(string \<Rightarrow> string) \<Rightarrow> provider_authorization_error \<Rightarrow> string" where
  "debug_provider_error dbg ApprovedVerdictMissing = ''ApprovedVerdictMissing''"
| "debug_provider_error dbg VerdictNotFound = ''VerdictNotFound''"
| "debug_provider_error dbg VerdictTransactionMismatch = ''VerdictTransactionMismatch''"
| "debug_provider_error dbg VerdictSessionMismatch = ''VerdictSessionMismatch''"
| "debug_provider_error dbg VerdictNotFinalApproved = ''VerdictNotFinalApproved''"
| "debug_provider_error dbg VerdictWrongDirection = ''VerdictWrongDirection''"
| "debug_provider_error dbg MalformedContextHash = ''MalformedContextHash''"
| "debug_provider_error dbg CeContextHashMismatch = ''ContextHashMismatch''"
| "debug_provider_error dbg RunIdMismatch = ''RunIdMismatch''"
| "debug_provider_error dbg (Decision e) = ''Decision('' @ debug_capability_error dbg e @ '')''"
| "debug_provider_error dbg PaeDecisionNotFound = ''DecisionNotFound''"
| "debug_provider_error dbg PaeAlreadyIssued = ''AlreadyIssued''"

fun debug_action_error :: "(string \<Rightarrow> string) \<Rightarrow> action_authorization_error \<Rightarrow> string" where
  "debug_action_error dbg ActApprovedVerdictMissing = ''ApprovedVerdictMissing''"
| "debug_action_error dbg ActVerdictNotFound = ''VerdictNotFound''"
| "debug_action_error dbg ActVerdictTransactionMismatch = ''VerdictTransactionMismatch''"
| "debug_action_error dbg ActVerdictSessionMismatch = ''VerdictSessionMismatch''"
| "debug_action_error dbg ActVerdictNotFinalApproved = ''VerdictNotFinalApproved''"
| "debug_action_error dbg ActVerdictWrongDirection = ''VerdictWrongDirection''"
| "debug_action_error dbg ActMalformedContextHash = ''MalformedContextHash''"
| "debug_action_error dbg ActContextHashMismatch = ''ContextHashMismatch''"
| "debug_action_error dbg ActRunIdMismatch = ''RunIdMismatch''"
| "debug_action_error dbg (ActEnvelope e) = ''Envelope('' @ debug_envelope_error dbg e @ '')''"
| "debug_action_error dbg (ActDenied rs) =
     ''Denied(['' @ join '', '' (map debug_risk_class rs) @ ''])''"
| "debug_action_error dbg (ActDecision e) = ''Decision('' @ debug_capability_error dbg e @ '')''"
| "debug_action_error dbg ActDecisionNotFound = ''DecisionNotFound''"
| "debug_action_error dbg ActAlreadyIssued = ''AlreadyIssued''"

fun debug_outbound_error :: "outbound_correlation_error \<Rightarrow> string" where
  "debug_outbound_error OutMalformedContextHash = ''MalformedContextHash''"
| "debug_outbound_error OutApprovedVerdictMissing = ''ApprovedVerdictMissing''"
| "debug_outbound_error OutVerdictNotFound = ''VerdictNotFound''"
| "debug_outbound_error OutVerdictSessionMismatch = ''VerdictSessionMismatch''"
| "debug_outbound_error OutVerdictNotFinalApproved = ''VerdictNotFinalApproved''"
| "debug_outbound_error OutVerdictWrongDirection = ''VerdictWrongDirection''"
| "debug_outbound_error OutContextHashMismatch = ''ContextHashMismatch''"
| "debug_outbound_error OutRunIdMismatch = ''RunIdMismatch''"

fun enforcement_outcome :: "enforcement_result \<Rightarrow> string" where
  "enforcement_outcome (Approved _) = ''APPROVED''"
| "enforcement_outcome (Restricted _ _) = ''RESTRICTED''"
| "enforcement_outcome (Quarantined _) = ''QUARANTINED''"
| "enforcement_outcome (HardLocked _) = ''HARD_LOCKED''"
| "enforcement_outcome (HaapGated _ _ _) = ''HAAP_GATED''"

section \<open>Payloads\<close>

definition some_nonempty :: "string \<Rightarrow> string option" where
  "some_nonempty v = (if v = [] then None else Some v)"

definition locator_hash :: "externs \<Rightarrow> string \<Rightarrow> string option" where
  "locator_hash X l = (if l = [] then None else Some (compute_hash X l))"

definition payload_from_token :: "externs \<Rightarrow> capability_token \<Rightarrow> string \<Rightarrow> evidence_payload" where
  "payload_from_token X t outcome =
     \<lparr>ep_gov_tx_id = Some (ct_gov_tx_id t), ep_session_id = Some (ct_session_id t),
      ep_run_id = Some (ct_run_id t),
      ep_principal_fingerprint = Some (ct_principal_fingerprint t),
      ep_authority = Some (ct_authority t), ep_context_hash = Some (ct_context_hash t),
      ep_decision_id = Some (ct_haap_decision_id t), ep_capability_id = Some (ct_token_id t),
      ep_action_hash = some_nonempty (ct_action_hash t), ep_outbound_hash = None,
      ep_tool_name = some_nonempty (ct_tool_name t),
      ep_resource_kind = some_nonempty (ct_resource_kind t),
      ep_resource_locator_hash = locator_hash X (ct_resource_locator t),
      ep_tool_call_id = some_nonempty (ct_tool_call_id t),
      ep_policy_version = Some (ct_policy_version t), ep_policy_hash = Some (ct_policy_hash t),
      ep_outcome = outcome\<rparr>"

definition context_entry :: "model_context_envelope \<Rightarrow> string \<Rightarrow>
    envelope_error + enforcement_result \<Rightarrow> evidence_event_type \<times> evidence_payload" where
  "context_entry e gov_tx_id res = (case res of
       Inr r \<Rightarrow> (if is_approved r then ContextApproved else ContextRefused,
         payload_default\<lparr>ep_gov_tx_id := Some gov_tx_id, ep_session_id := Some (mc_session_id e),
           ep_run_id := Some (mc_run_id e), ep_context_hash := Some (mc_context_hash e),
           ep_policy_version := Some (mc_policy_version e),
           ep_policy_hash := Some (mc_policy_hash e), ep_outcome := enforcement_outcome r\<rparr>)
     | Inl _ \<Rightarrow> (ContextRefused,
         payload_default\<lparr>ep_outcome := ''STRUCTURAL_VALIDATION_FAILED''\<rparr>))"

definition provider_entry :: "externs \<Rightarrow> (string \<Rightarrow> string) \<Rightarrow> provider_authorization_request \<Rightarrow>
    provider_authorization_error + capability_token \<Rightarrow> evidence_event_type \<times> evidence_payload"
  where
  "provider_entry X dbg r res = (case res of
       Inr t \<Rightarrow> (ProviderAuthorized, payload_from_token X t ''AUTHORIZED'')
     | Inl e \<Rightarrow> (ProviderRefused,
         payload_default\<lparr>ep_gov_tx_id := Some (pr_gov_tx_id r),
           ep_session_id := Some (pr_session_id r), ep_run_id := Some (pr_run_id r),
           ep_principal_fingerprint := Some (pr_principal_fingerprint r),
           ep_authority := Some ''provider.execute'',
           ep_context_hash := Some (pr_context_hash r),
           ep_policy_version := Some (pr_policy_version r),
           ep_policy_hash := Some (pr_policy_hash r),
           ep_outcome := debug_provider_error dbg e\<rparr>))"

definition action_entry :: "externs \<Rightarrow> (string \<Rightarrow> string) \<Rightarrow> action_authorization_request \<Rightarrow>
    action_authorization_error + capability_token \<Rightarrow> evidence_event_type \<times> evidence_payload"
  where
  "action_entry X dbg r res = (case res of
       Inr t \<Rightarrow> (ActionAuthorized, payload_from_token X t ''AUTHORIZED'')
     | Inl e \<Rightarrow> (ActionRefused,
         payload_default\<lparr>ep_gov_tx_id := Some (aar_gov_tx_id r),
           ep_session_id := Some (aar_session_id r), ep_run_id := Some (aar_run_id r),
           ep_principal_fingerprint := Some (aar_principal_fingerprint r),
           ep_authority := Some AUTHORITY_ACTION_EXECUTE,
           ep_context_hash := Some (aar_context_hash r),
           ep_tool_name := Some (aar_tool_name r), ep_resource_kind := Some (aar_resource_kind r),
           ep_resource_locator_hash := Some (compute_hash X (aar_resource_locator r)),
           ep_tool_call_id := Some (aar_tool_call_id r),
           ep_policy_version := Some (aar_policy_version r),
           ep_policy_hash := Some (aar_policy_hash r),
           ep_outcome := debug_action_error dbg e\<rparr>))"

definition consume_entry :: "externs \<Rightarrow> presented_binding \<Rightarrow> consume_outcome \<Rightarrow>
    evidence_event_type \<times> evidence_payload" where
  "consume_entry X p outcome =
     (if consume_authorized outcome then CapabilityConsumed else CapabilityRejected,
      payload_default\<lparr>ep_gov_tx_id := Some (pb_gov_tx_id p),
        ep_session_id := Some (pb_session_id p), ep_run_id := Some (pb_run_id p),
        ep_principal_fingerprint := Some (pb_principal_fingerprint p),
        ep_authority := Some (pb_authority p), ep_context_hash := Some (pb_context_hash p),
        ep_capability_id := Some (pb_token_id p),
        ep_action_hash := some_nonempty (pb_action_hash p),
        ep_tool_name := some_nonempty (pb_tool_name p),
        ep_resource_kind := some_nonempty (pb_resource_kind p),
        ep_resource_locator_hash := locator_hash X (pb_resource_locator p),
        ep_tool_call_id := some_nonempty (pb_tool_call_id p),
        ep_policy_version := Some (pb_policy_version p),
        ep_policy_hash := Some (pb_policy_hash p), ep_outcome := as_audit_str outcome\<rparr>)"

definition outbound_type :: "enforcement_result \<Rightarrow> evidence_event_type" where
  "outbound_type r = (if is_approved r then OutboundReleased else OutboundWithheld)"

definition outbound_entry :: "externs \<Rightarrow> string \<Rightarrow> enforcement_result \<Rightarrow>
    evidence_event_type \<times> evidence_payload" where
  "outbound_entry X output r = (outbound_type r,
     payload_default\<lparr>ep_outbound_hash := Some (compute_hash X output),
       ep_outcome := enforcement_outcome r\<rparr>)"

definition bound_outbound_entry :: "externs \<Rightarrow> string \<Rightarrow> string \<Rightarrow>
    outbound_correlation_error + verdict_record \<times> enforcement_result \<Rightarrow>
    evidence_event_type \<times> evidence_payload" where
  "bound_outbound_entry X output policy_version res = (case res of
       Inl e \<Rightarrow> (OutboundWithheld,
         payload_default\<lparr>ep_outbound_hash := Some (compute_hash X output),
           ep_outcome := ''CORRELATION_REJECTED::'' @ debug_outbound_error e\<rparr>)
     | Inr (rec, r) \<Rightarrow> (outbound_type r,
         payload_default\<lparr>ep_gov_tx_id := Some (vr_gov_tx_id rec),
           ep_session_id := Some (vr_session_id rec), ep_run_id := vr_run_id rec,
           ep_context_hash := vr_context_hash rec,
           ep_outbound_hash := Some (compute_hash X output),
           ep_policy_version := Some policy_version, ep_outcome := enforcement_outcome r\<rparr>))"

section \<open>Operations\<close>

definition gv_lift :: "(pst \<Rightarrow> 'r \<times> pst) \<Rightarrow> 's gst \<Rightarrow> 'r \<times> 's gst" where
  "gv_lift f gw = (let (r, P, w) = f (gv_pipeline (fst gw), snd gw)
     in (r, (fst gw)\<lparr>gv_pipeline := P\<rparr>, w))"

definition gv_append :: "externs \<Rightarrow> evidence_event_type \<times> evidence_payload \<Rightarrow> 's gst \<Rightarrow>
    append_receipt \<times> 's gst" where
  "gv_append X entry gw =
     (let (receipt, pl, w) = evidence_append X (fst entry) (snd entry) (gv_evidence (fst gw)) (snd gw)
      in (receipt, (fst gw)\<lparr>gv_evidence := pl\<rparr>, w))"

text \<open>Every recording operation: run the inner one, append one event about its result.\<close>

definition recorded :: "externs \<Rightarrow> (pst \<Rightarrow> 'r \<times> pst) \<Rightarrow>
    (pipeline \<Rightarrow> 'r \<Rightarrow> evidence_event_type \<times> evidence_payload) \<Rightarrow> 's gst \<Rightarrow>
    ('r \<times> append_receipt) \<times> 's gst" where
  "recorded X f entry gw =
     (let (r, gw1) = gv_lift f gw;
          (receipt, gw2) = gv_append X (entry (gv_pipeline (fst gw1)) r) gw1
      in ((r, receipt), gw2))"

definition gv_inbound_context_with_identity_and_evidence :: "externs \<Rightarrow> model_context_envelope \<Rightarrow>
    string \<Rightarrow> string option \<Rightarrow> string option \<Rightarrow> 's gst \<Rightarrow>
    ((envelope_error + enforcement_result) \<times> append_receipt) \<times> 's gst" where
  "gv_inbound_context_with_identity_and_evidence X e gov_tx_id dept agent =
     recorded X (inbound_context_with_identity X e gov_tx_id dept agent)
       (\<lambda>_. context_entry e gov_tx_id)"

definition gv_inbound_context_with_identity :: "externs \<Rightarrow> model_context_envelope \<Rightarrow> string \<Rightarrow>
    string option \<Rightarrow> string option \<Rightarrow> 's gst \<Rightarrow> (envelope_error + enforcement_result) \<times> 's gst"
  where
  "gv_inbound_context_with_identity X e gov_tx_id dept agent gw =
     map_prod fst id (gv_inbound_context_with_identity_and_evidence X e gov_tx_id dept agent gw)"

definition gv_inbound_context :: "externs \<Rightarrow> model_context_envelope \<Rightarrow> string \<Rightarrow> 's gst \<Rightarrow>
    (envelope_error + enforcement_result) \<times> 's gst" where
  "gv_inbound_context X e gov_tx_id gw =
     gv_inbound_context_with_identity X e gov_tx_id None None gw"

definition gv_authorize_provider_with_evidence :: "externs \<Rightarrow> (string \<Rightarrow> string) \<Rightarrow>
    provider_authorization_request \<Rightarrow> 's gst \<Rightarrow>
    ((provider_authorization_error + capability_token) \<times> append_receipt) \<times> 's gst" where
  "gv_authorize_provider_with_evidence X dbg r =
     recorded X (authorize_provider_execution X r) (\<lambda>_. provider_entry X dbg r)"

definition gv_authorize_provider :: "externs \<Rightarrow> (string \<Rightarrow> string) \<Rightarrow>
    provider_authorization_request \<Rightarrow> 's gst \<Rightarrow>
    (provider_authorization_error + capability_token) \<times> 's gst" where
  "gv_authorize_provider X dbg r gw =
     map_prod fst id (gv_authorize_provider_with_evidence X dbg r gw)"

definition gv_authorize_action_with_evidence :: "externs \<Rightarrow> (string \<Rightarrow> string) \<Rightarrow>
    action_authorization_request \<Rightarrow> 's gst \<Rightarrow>
    ((action_authorization_error + capability_token) \<times> append_receipt) \<times> 's gst" where
  "gv_authorize_action_with_evidence X dbg r =
     recorded X (authorize_action_execution X r) (\<lambda>_. action_entry X dbg r)"

definition gv_authorize_action :: "externs \<Rightarrow> (string \<Rightarrow> string) \<Rightarrow>
    action_authorization_request \<Rightarrow> 's gst \<Rightarrow>
    (action_authorization_error + capability_token) \<times> 's gst" where
  "gv_authorize_action X dbg r gw =
     map_prod fst id (gv_authorize_action_with_evidence X dbg r gw)"

definition gv_consume_with_evidence :: "externs \<Rightarrow> presented_binding \<Rightarrow> 's gst \<Rightarrow>
    (consume_outcome \<times> append_receipt) \<times> 's gst" where
  "gv_consume_with_evidence X p =
     recorded X (consume_provider_capability X p) (\<lambda>_. consume_entry X p)"

definition gv_consume :: "externs \<Rightarrow> presented_binding \<Rightarrow> 's gst \<Rightarrow> consume_outcome \<times> 's gst" where
  "gv_consume X p gw = map_prod fst id (gv_consume_with_evidence X p gw)"

definition gv_outbound :: "externs \<Rightarrow> string \<Rightarrow> string \<Rightarrow> 's gst \<Rightarrow> enforcement_result \<times> 's gst" where
  "gv_outbound X output sid gw =
     map_prod fst id (recorded X (outbound X output sid) (\<lambda>_. outbound_entry X output) gw)"

definition bound_outbound :: "externs \<Rightarrow> string \<Rightarrow> string \<Rightarrow> string \<Rightarrow> string \<Rightarrow> pst \<Rightarrow>
    (outbound_correlation_error + verdict_record \<times> enforcement_result) \<times> pst" where
  "bound_outbound X output sid ctx run pw =
     (case resolve_outbound_context_binding ctx sid run (pl_ledger (fst pw)) of
        Inl e \<Rightarrow> (Inl e, pw)
      | Inr rec \<Rightarrow> let (r, pw') = outbound X output (vr_session_id rec) pw in (Inr (rec, r), pw'))"

definition gv_outbound_with_evidence :: "externs \<Rightarrow> string \<Rightarrow> string \<Rightarrow> string \<Rightarrow> string \<Rightarrow> 's gst \<Rightarrow>
    ((outbound_correlation_error + enforcement_result) \<times> append_receipt) \<times> 's gst" where
  "gv_outbound_with_evidence X output sid ctx run gw =
     (let ((res, receipt), gw') = recorded X (bound_outbound X output sid ctx run)
            (\<lambda>P. bound_outbound_entry X output (active_policy_version P)) gw
      in ((map_sum id snd res, receipt), gw'))"

end
