(* ===== verification/Accountability.thy ===== *)
theory Accountability
  imports Governed Steps
begin

text \<open>
  Runs of the evidence-governed pipeline. Its core is a run of the pipeline; its log is a causally
  closed account of the authority that run gave out: an authorisation follows the approval of its
  context, a consumption follows the authorisation of its token, and no token is consumed twice.
\<close>

section \<open>Runs\<close>

text \<open>
  The operations of a caller of the decorator. \<open>GvInner\<close> is what it reaches through \<open>Deref\<close>: the
  pipeline's operations that the decorator does not shadow by its own (\<open>unshadowed\<close>).
\<close>

datatype gv_op = GvContext model_context_envelope string "string option" "string option"
  | GvProvider provider_authorization_request | GvAction action_authorization_request
  | GvConsume presented_binding | GvOutbound string string
  | GvBoundOutbound string string string string | GvInner pl_op | GvFlush

definition gv_core :: "'s gst \<Rightarrow> pst" where
  "gv_core gw = (gv_pipeline (fst gw), snd gw)"

definition gv_log :: "'s gst \<Rightarrow> evidence_event list" where
  "gv_log gw = evidence_snapshot (gv_evidence (fst gw))"

fun gv_step :: "externs \<Rightarrow> storage \<Rightarrow> (string \<Rightarrow> string) \<Rightarrow> gv_op \<Rightarrow> 's gst \<Rightarrow> 's gst" where
  "gv_step X S dbg (GvContext e tx dept agent) gw =
     snd (gv_inbound_context_with_identity_and_evidence X e tx dept agent gw)"
| "gv_step X S dbg (GvProvider r) gw = snd (gv_authorize_provider_with_evidence X dbg r gw)"
| "gv_step X S dbg (GvAction r) gw = snd (gv_authorize_action_with_evidence X dbg r gw)"
| "gv_step X S dbg (GvConsume p) gw = snd (gv_consume_with_evidence X p gw)"
| "gv_step X S dbg (GvOutbound m sid) gw = snd (gv_outbound X m sid gw)"
| "gv_step X S dbg (GvBoundOutbound m sid ctx run) gw =
     snd (gv_outbound_with_evidence X m sid ctx run gw)"
| "gv_step X S dbg (GvInner op) gw =
     (if unshadowed op
      then let (P, w) = pl_step X S op (gv_core gw) in ((fst gw)\<lparr>gv_pipeline := P\<rparr>, w)
      else gw)"
| "gv_step X S dbg GvFlush gw =
     ((fst gw)\<lparr>gv_evidence := snd (flush_pending (gv_evidence (fst gw)))\<rparr>, snd gw)"

text \<open>The operation of the pipeline behind each, and which ones record.\<close>

fun gv_calls :: "gv_op \<Rightarrow> pst \<Rightarrow> pl_op list" where
  "gv_calls (GvContext e tx dept agent) pw = [PlContext e tx dept agent]"
| "gv_calls (GvProvider r) pw = [PlProvider r]"
| "gv_calls (GvAction r) pw = [PlAction r]"
| "gv_calls (GvConsume p) pw = [PlConsume p]"
| "gv_calls (GvOutbound m sid) pw = [PlOutbound m sid]"
| "gv_calls (GvBoundOutbound m sid ctx run) pw =
     (case resolve_outbound_context_binding ctx sid run (pl_ledger (fst pw)) of
        Inl e \<Rightarrow> [] | Inr v \<Rightarrow> [PlOutbound m (vr_session_id v)])"
| "gv_calls (GvInner op) pw = (if unshadowed op then [op] else [])"
| "gv_calls GvFlush pw = []"

fun records :: "gv_op \<Rightarrow> bool" where
  "records (GvInner op) = False"
| "records GvFlush = False"
| "records _ = True"

text \<open>The run of the pipeline under a run of the decorator.\<close>

fun gv_trace :: "externs \<Rightarrow> storage \<Rightarrow> (string \<Rightarrow> string) \<Rightarrow> gv_op list \<Rightarrow> 's gst \<Rightarrow> pl_op list" where
  "gv_trace X S dbg [] gw = []"
| "gv_trace X S dbg (op # ops) gw =
     gv_calls op (gv_core gw) @ [PlForeign (snd (gv_step X S dbg op gw))] @
     gv_trace X S dbg ops (gv_step X S dbg op gw)"

section \<open>The decorator decides nothing\<close>

lemma recorded_simps [simp]:
  "fst (fst (recorded X f entry gw)) = fst (f (gv_core gw))"
  "gv_core (snd (recorded X f entry gw)) =
     (fst (snd (f (gv_core gw))), draw_id (tick (snd (snd (f (gv_core gw))))))"
  "snd (snd (recorded X f entry gw)) = draw_id (tick (snd (snd (f (gv_core gw)))))"
  by (simp_all add: recorded_def gv_lift_def gv_append_def gv_core_def split_def Let_def)

lemma recorded_evidence:
  "gv_evidence (fst (snd (recorded X f entry gw))) =
     (let (r, P, w) = f (gv_core gw); (ty, p) = entry P r
      in fst (snd (evidence_append X ty p (gv_evidence (fst gw)) w)))"
  by (simp add: recorded_def gv_lift_def gv_append_def gv_core_def split_def Let_def)

lemma recorded_log:
  assumes "f (gv_core gw) = (r, P, w)" "entry P r = (ty, p)"
  shows "gv_log (snd (recorded X f entry gw)) =
    gv_log gw @ [new_event X w ty p (gv_evidence (fst gw))]"
  using assms by (simp add: gv_log_def evidence_snapshot_def recorded_evidence)

lemmas gv_ops = gv_inbound_context_with_identity_and_evidence_def
  gv_authorize_provider_with_evidence_def gv_authorize_action_with_evidence_def
  gv_consume_with_evidence_def gv_outbound_def gv_outbound_with_evidence_def

lemma world_le_append: "world_le w (draw_id (tick w))"
  by (rule world_le_trans [OF world_le_tick(1) world_le_tick(2)])

lemma foreign_tick [simp]:
  "pl_step X S (PlForeign (draw_id (tick (snd pw)))) pw = (fst pw, draw_id (tick (snd pw)))"
  by (simp add: world_le_append)

lemma foreign_here [simp]: "pl_step X S (PlForeign (snd pw)) pw = pw"
  by (cases pw) simp

lemma gv_core_world [simp]: "snd (gv_core gw) = snd gw"
  by (simp add: gv_core_def)

lemma gv_core_inner [simp]: "gv_core (G\<lparr>gv_pipeline := P\<rparr>, w) = (P, w)"
  "gv_core (G\<lparr>gv_evidence := pl\<rparr>, w) = (gv_pipeline G, w)"
  by (simp_all add: gv_core_def)

lemma bound_outbound_calls:
  "snd (bound_outbound X m sid ctx run pw) =
     fold (pl_step X S) (gv_calls (GvBoundOutbound m sid ctx run) pw) pw"
  by (simp add: bound_outbound_def split_def Let_def split: sum.split)

lemma gv_step_core:
  "gv_core (gv_step X S dbg op gw) =
     fold (pl_step X S) (gv_calls op (gv_core gw) @ [PlForeign (snd (gv_step X S dbg op gw))])
       (gv_core gw)"
proof (cases op)
  case (GvBoundOutbound m sid ctx run)
  then show ?thesis
    by (simp add: gv_ops split_def Let_def bound_outbound_calls [of X m sid ctx run _ S]
        del: gv_calls.simps pl_step.simps)
next
  case (GvInner op)
  then show ?thesis
    using foreign_here [of X S "gv_core gw"] foreign_here [of X S "pl_step X S op (gv_core gw)"]
    by (simp add: split_def Let_def del: pl_step.simps foreign_here)
next
  case GvFlush
  then show ?thesis
    using foreign_here [of X S "gv_core gw"]
    by (simp add: gv_core_def del: pl_step.simps foreign_here)
qed (simp_all add: gv_ops split_def Let_def del: pl_step.simps(12))

lemma gv_step_log:
  "length (gv_log (gv_step X S dbg op gw)) = length (gv_log gw) + (if records op then 1 else 0)"
  by (cases op) (simp_all add: gv_ops split_def Let_def gv_log_def evidence_snapshot_def
      recorded_evidence)

text \<open>
  Claim C12: the decorator decides nothing and records everything. A run of the evidence-governed
  pipeline leaves exactly the pipeline state and the world that the operations behind it leave,
  with only the clock and the UUID source advanced in between; and its log has grown by exactly one
  event for every recording operation, whatever its result and whatever the sink does.
\<close>

theorem governed_refines:
  "gv_core (fold (gv_step X S dbg) ops gw) = fold (pl_step X S) (gv_trace X S dbg ops gw) (gv_core gw) \<and>
   length (gv_log (fold (gv_step X S dbg) ops gw)) = length (gv_log gw) + length (filter records ops)"
proof (induction ops arbitrary: gw)
  case (Cons op ops)
  from Cons.IH [of "gv_step X S dbg op gw"] show ?case
    using gv_step_core [of X S dbg op gw] gv_step_log [of X S dbg op gw]
    by (simp del: gv_step.simps pl_step.simps)
qed simp

section \<open>The log as an account of authority\<close>

definition same_execution :: "evidence_payload \<Rightarrow> evidence_payload \<Rightarrow> bool" where
  "same_execution p q \<longleftrightarrow> ep_context_hash p = ep_context_hash q \<and>
     ep_session_id p = ep_session_id q \<and> ep_run_id p = ep_run_id q"

definition same_capability :: "evidence_payload \<Rightarrow> evidence_payload \<Rightarrow> bool" where
  "same_capability p q \<longleftrightarrow> same_execution p q \<and> ep_capability_id p = ep_capability_id q \<and>
     ep_authority p = ep_authority q \<and> ep_gov_tx_id p = ep_gov_tx_id q \<and>
     ep_principal_fingerprint p = ep_principal_fingerprint q \<and>
     ep_policy_version p = ep_policy_version q \<and> ep_policy_hash p = ep_policy_hash q"

definition authorizing :: "evidence_event \<Rightarrow> bool" where
  "authorizing e \<longleftrightarrow> ee_event_type e = ProviderAuthorized \<or> ee_event_type e = ActionAuthorized"

text \<open>What an event needs of the events before it.\<close>

definition entry_ok :: "evidence_event list \<Rightarrow> evidence_event \<Rightarrow> bool" where
  "entry_ok pre e \<longleftrightarrow>
     (authorizing e \<longrightarrow> (\<exists>a \<in> set pre. ee_event_type a = ContextApproved \<and>
        same_execution (ee_payload a) (ee_payload e))) \<and>
     (ee_event_type e = CapabilityConsumed \<longrightarrow>
        (\<exists>a \<in> set pre. authorizing a \<and> same_capability (ee_payload a) (ee_payload e)) \<and>
        (\<forall>c \<in> set pre. ee_event_type c = CapabilityConsumed \<longrightarrow>
           ep_capability_id (ee_payload c) \<noteq> ep_capability_id (ee_payload e)))"

definition log_causal :: "evidence_event list \<Rightarrow> bool" where
  "log_causal es \<longleftrightarrow> (\<forall>i < length es. entry_ok (take i es) (es ! i))"

lemma log_causal_Nil [simp]: "log_causal []"
  by (simp add: log_causal_def)

lemma log_causal_snoc: "log_causal (es @ [e]) \<longleftrightarrow> log_causal es \<and> entry_ok es e"
  by (auto simp: log_causal_def nth_append less_Suc_eq)

lemma neutral_entry: "\<not> authorizing e \<Longrightarrow> ee_event_type e \<noteq> CapabilityConsumed \<Longrightarrow> entry_ok pre e"
  by (simp add: entry_ok_def)

definition approved_triples :: "evidence_event list \<Rightarrow> (string \<times> string \<times> string) set" where
  "approved_triples es = {(c, sid, run). \<exists>a \<in> set es. ee_event_type a = ContextApproved \<and>
     ep_context_hash (ee_payload a) = Some c \<and> ep_session_id (ee_payload a) = Some sid \<and>
     ep_run_id (ee_payload a) = Some run}"

definition of_token :: "evidence_payload \<Rightarrow> capability_token \<Rightarrow> bool" where
  "of_token p t \<longleftrightarrow> ep_capability_id p = Some (ct_token_id t) \<and>
     ep_context_hash p = Some (ct_context_hash t) \<and> ep_session_id p = Some (ct_session_id t) \<and>
     ep_run_id p = Some (ct_run_id t) \<and> ep_authority p = Some (ct_authority t) \<and>
     ep_gov_tx_id p = Some (ct_gov_tx_id t) \<and>
     ep_principal_fingerprint p = Some (ct_principal_fingerprint t) \<and>
     ep_policy_version p = Some (ct_policy_version t) \<and>
     ep_policy_hash p = Some (ct_policy_hash t)"

definition tokens_logged :: "evidence_event list \<Rightarrow> capability_store \<Rightarrow> bool" where
  "tokens_logged es st \<longleftrightarrow> (\<forall>i t. hm_get (cs_capabilities st) i = Some t \<longrightarrow>
     (\<exists>a \<in> set es. authorizing a \<and> of_token (ee_payload a) t))"

definition consumed_spent :: "externs \<Rightarrow> evidence_event list \<Rightarrow> capability_store \<times> world \<Rightarrow> bool"
  where
  "consumed_spent X es s \<longleftrightarrow> (\<forall>c \<in> set es. ee_event_type c = CapabilityConsumed \<longrightarrow>
     (\<exists>i. ep_capability_id (ee_payload c) = Some i \<and> token_spent X s i))"

definition audit_inv :: "externs \<Rightarrow> 's gst \<Rightarrow> bool" where
  "audit_inv X gw \<longleftrightarrow> authority_inv X (approved_triples (gv_log gw)) (gv_core gw) \<and>
     tokens_logged (gv_log gw) (pl_capabilities (fst (gv_core gw))) \<and>
     consumed_spent X (gv_log gw) (pl_capabilities (fst (gv_core gw)), snd gw) \<and>
     log_causal (gv_log gw) \<and> plane_inv X (gv_evidence (fst gw), snd gw)"

lemma approved_mono: "approved_triples es \<subseteq> approved_triples (es @ fs)"
  by (auto simp: approved_triples_def)

lemma authority_inv_mono: "authority_inv X A pw \<Longrightarrow> A \<subseteq> B \<Longrightarrow> authority_inv X B pw"
  unfolding authority_inv_def using ledger_traced_mono by blast

lemma tokens_logged_more: "tokens_logged es st \<Longrightarrow> tokens_logged (es @ fs) st"
  unfolding tokens_logged_def by (metis UnI1 set_append)

lemma consumed_spent_world:
  "consumed_spent X es (st, w) \<Longrightarrow> world_le w w' \<Longrightarrow> consumed_spent X es (st, w')"
  unfolding consumed_spent_def using spent_world by blast

lemma consumed_spent_step:
  assumes "consumed_spent X es (st, w)"
    "\<And>i. token_spent X (st, w) i \<Longrightarrow> token_spent X (st', w') i"
  shows "consumed_spent X es (st', w')"
  using assms unfolding consumed_spent_def by blast

lemma consumed_spent_snoc: "consumed_spent X (es @ [e]) s \<longleftrightarrow> consumed_spent X es s \<and>
    (ee_event_type e = CapabilityConsumed \<longrightarrow>
       (\<exists>i. ep_capability_id (ee_payload e) = Some i \<and> token_spent X s i))"
  by (auto simp: consumed_spent_def)

lemma new_event_sel [simp]:
  "ee_event_type (new_event X w ty p pl) = ty" "ee_payload (new_event X w ty p pl) = p"
  by (simp_all add: new_event_def unsigned_event_def Let_def)

section \<open>Steps keep the account\<close>

lemma approved_triples_snoc: "approved_triples (es @ [e]) = approved_triples es \<union>
    {(c, sid, run). ee_event_type e = ContextApproved \<and> ep_context_hash (ee_payload e) = Some c \<and>
       ep_session_id (ee_payload e) = Some sid \<and> ep_run_id (ee_payload e) = Some run}"
  by (auto simp: approved_triples_def)

text \<open>One recorded operation, from what its inner step and its event do to each part.\<close>

lemma recorded_keeps:
  fixes gw :: "'s gst"
  assumes laws: "cap_laws X" and inv: "audit_inv X gw" and f: "f (gv_core gw) = (r, P, w)"
    and entry: "entry P r = (ty, p)"
  defines "e \<equiv> new_event X w ty p (gv_evidence (fst gw))"
  assumes le: "world_le (snd gw) w"
    and auth: "authority_inv X (approved_triples (gv_log gw @ [e])) (P, w)"
    and tokens: "tokens_logged (gv_log gw @ [e]) (pl_capabilities P)"
    and spent: "consumed_spent X (gv_log gw @ [e]) (pl_capabilities P, w)"
    and ok: "entry_ok (gv_log gw) e"
  shows "audit_inv X (snd (recorded X f entry gw))"
proof -
  let ?gw = "snd (recorded X f entry gw)" and ?w = "draw_id (tick w)"
  have log: "gv_log ?gw = gv_log gw @ [e]"
    unfolding e_def using recorded_log [where f = f and entry = entry] f entry by blast
  have core: "gv_core ?gw = (P, ?w)" "snd ?gw = ?w" by (simp_all add: f)
  have tick: "world_le w ?w" by (rule world_le_append)
  have 1: "authority_inv X (approved_triples (gv_log ?gw)) (gv_core ?gw)"
    using keep_inv [OF auth, of "(P, ?w)"] tick by (simp add: core log del: recorded_simps)
  have 2: "consumed_spent X (gv_log ?gw) (pl_capabilities P, ?w)"
    using consumed_spent_world [OF spent tick] by (simp add: log)
  have "plane_inv X (gv_evidence (fst gw), w)"
    using inv plane_inv_world le by (auto simp: audit_inv_def)
  from append_plane_inv [OF _ _ this, of ty p] laws
  have "plane_inv X (snd (evidence_append X ty p (gv_evidence (fst gw)) w))"
    by (simp add: cap_laws_def)
  moreover have "(gv_evidence (fst ?gw), snd ?gw) =
      snd (evidence_append X ty p (gv_evidence (fst gw)) w)"
    by (rule prod_eqI) (simp_all add: recorded_evidence f entry)
  ultimately have 3: "plane_inv X (gv_evidence (fst ?gw), snd ?gw)" by metis
  have 4: "log_causal (gv_log ?gw)" using inv ok by (simp add: log log_causal_snoc audit_inv_def)
  show ?thesis using 1 2 3 4 tokens by (simp add: audit_inv_def core log del: recorded_simps)
qed

text \<open>
  An operation other than a consumption: the event of an issued token describes it, and its
  execution was approved before.
\<close>

lemma recorded_inv:
  fixes gw :: "'s gst"
  assumes laws: "cap_laws X" and inv: "audit_inv X gw" and f: "f (gv_core gw) = (r, P, w)"
    and entry: "entry P r = (ty, p)" and neutral: "ty \<noteq> CapabilityConsumed"
  defines "e \<equiv> new_event X w ty p (gv_evidence (fst gw))"
  assumes step: "authority_step X (approved_triples (gv_log gw @ [e])) (gv_core gw) issued (P, w)"
    and old: "\<And>t. issued = Some t \<Longrightarrow> (ct_context_hash t, ct_session_id t, ct_run_id t) \<in>
      approved_triples (gv_log gw)"
    and told: "case issued of None \<Rightarrow> ty \<noteq> ProviderAuthorized \<and> ty \<noteq> ActionAuthorized
      | Some t \<Rightarrow> (ty = ProviderAuthorized \<or> ty = ActionAuthorized) \<and> of_token p t"
  shows "audit_inv X (snd (recorded X f entry gw))"
proof (rule recorded_keeps [where f = f and entry = entry, OF laws inv f entry], unfold e_def [symmetric])
  note st = step [unfolded authority_step_def]
  show "world_le (snd gw) w" "authority_inv X (approved_triples (gv_log gw @ [e])) (P, w)"
    using st by simp_all
  show "tokens_logged (gv_log gw @ [e]) (pl_capabilities P)"
    unfolding tokens_logged_def
  proof (intro allI impI)
    fix i t assume "hm_get (cs_capabilities (pl_capabilities P)) i = Some t"
    with st consider "hm_get (cs_capabilities (pl_capabilities (fst (gv_core gw)))) i = Some t"
      | "issued = Some t" by auto
    then show "\<exists>a \<in> set (gv_log gw @ [e]). authorizing a \<and> of_token (ee_payload a) t"
    proof cases
      case 1
      with inv show ?thesis unfolding audit_inv_def tokens_logged_def by (metis UnI1 set_append)
    next
      case 2
      with told show ?thesis by (auto simp: e_def authorizing_def)
    qed
  qed
  have "consumed_spent X (gv_log gw) (pl_capabilities P, w)"
    by (rule consumed_spent_step [of X _ "pl_capabilities (fst (gv_core gw))" "snd gw"])
      (use inv st in \<open>simp_all add: audit_inv_def\<close>)
  then show "consumed_spent X (gv_log gw @ [e]) (pl_capabilities P, w)"
    using neutral by (simp add: consumed_spent_snoc e_def)
  show "entry_ok (gv_log gw) e"
    using told old neutral
    by (cases issued) (auto simp: entry_ok_def authorizing_def approved_triples_def of_token_def
        same_execution_def e_def)
qed

lemma authority_step_mono: "authority_step X A pw i pw' \<Longrightarrow> A \<subseteq> B \<Longrightarrow> authority_step X B pw i pw'"
  using authority_inv_mono [of X A pw' B] by (auto simp: authority_step_def)

lemma audit_authority: "audit_inv X gw \<Longrightarrow> authority_inv X (approved_triples (gv_log gw)) (gv_core gw)"
  by (simp add: audit_inv_def)

lemma context_audit:
  assumes "cap_laws X" "audit_inv X gw"
  shows "audit_inv X (gv_step X S dbg (GvContext e tx dept agent) gw)"
proof -
  obtain r P w where c: "inbound_context_with_identity X e tx dept agent (gv_core gw) = (r, P, w)"
    by (metis prod_cases3)
  obtain ty p where t: "context_entry e tx r = (ty, p)" by (metis surj_pair)
  define ev where "ev = new_event X w ty p (gv_evidence (fst gw))"
  have ty: "ty = ContextApproved \<or> ty = ContextRefused"
    using t by (cases r) (auto simp: context_entry_def split: if_split_asm)
  let ?new = "set_option (admits X (PlContext e tx dept agent) (gv_core gw))"
  have "?new \<subseteq> approved_triples (gv_log gw @ [ev])"
    using t by (cases r) (auto simp: c ev_def approved_triples_snoc context_entry_def)
  then have "approved_triples (gv_log gw) \<union> ?new \<subseteq> approved_triples (gv_log gw @ [ev])"
    using approved_mono by blast
  moreover have "authority_inv X (approved_triples (gv_log gw) \<union> ?new) (P, w)"
    using context_inv [OF audit_authority [OF assms(2)], of e tx dept agent] c
    by (simp del: admits.simps)
  ultimately have "authority_inv X (approved_triples (gv_log gw @ [ev])) (P, w)"
    by (rule authority_inv_mono [rotated])
  then have step: "authority_step X (approved_triples (gv_log gw @ [ev])) (gv_core gw) None (P, w)"
    using context_keeps [where X = X and e = e and tx = tx and dept = dept and agent = agent and
        pw = "gv_core gw"] c
    by (intro authority_step_quiet) simp_all
  show ?thesis
    unfolding gv_step.simps gv_ops
    by (rule recorded_inv [where f = "inbound_context_with_identity X e tx dept agent" and
        entry = "\<lambda>_. context_entry e tx" and issued = None, OF assms c t _ step [unfolded ev_def]])
      (use ty in auto)
qed

lemma token_payload: "of_token (payload_from_token X t outcome) t"
  by (simp add: of_token_def payload_from_token_def)

lemma authorization_audit:
  fixes gw :: "'s gst"
  assumes laws: "cap_laws X" "audit_inv X gw" and f: "f (gv_core gw) = (res, P, w)"
    and step: "authority_step X (approved_triples (gv_log gw)) (gv_core gw) (issued_of res) (P, w)"
    and entry: "entry P res = (ty, p)"
    and told: "case issued_of res of None \<Rightarrow> ty = ProviderRefused \<or> ty = ActionRefused
      | Some t \<Rightarrow> (ty = ProviderAuthorized \<or> ty = ActionAuthorized) \<and>
          p = payload_from_token X t ''AUTHORIZED''"
  shows "audit_inv X (snd (recorded X f entry gw))"
proof (rule recorded_inv [where f = f and entry = entry and issued = "issued_of res",
      OF laws f entry _ authority_step_mono [OF step approved_mono]])
  show "ty \<noteq> CapabilityConsumed" using told by (auto split: option.splits)
  show "(ct_context_hash t, ct_session_id t, ct_run_id t) \<in> approved_triples (gv_log gw)"
    if "issued_of res = Some t" for t using step that by (simp add: authority_step_def)
  show "case issued_of res of None \<Rightarrow> ty \<noteq> ProviderAuthorized \<and> ty \<noteq> ActionAuthorized
      | Some t \<Rightarrow> (ty = ProviderAuthorized \<or> ty = ActionAuthorized) \<and> of_token p t"
    using told token_payload by (auto split: option.splits)
qed

lemma provider_audit:
  assumes "cap_laws X" "audit_inv X gw"
  shows "audit_inv X (gv_step X S dbg (GvProvider r) gw)"
proof -
  obtain res P w where c: "authorize_provider_execution X r (gv_core gw) = (res, P, w)"
    by (metis prod_cases3)
  show ?thesis
    using authorization_audit [where f = "authorize_provider_execution X r" and
        entry = "\<lambda>_. provider_entry X dbg r", OF assms c
        provider_step [OF assms(1) audit_authority [OF assms(2)] c]]
    by (cases res) (simp_all add: gv_ops provider_entry_def issued_of_def)
qed

lemma action_audit:
  assumes "cap_laws X" "audit_inv X gw"
  shows "audit_inv X (gv_step X S dbg (GvAction r) gw)"
proof -
  obtain res P w where c: "authorize_action_execution X r (gv_core gw) = (res, P, w)"
    by (metis prod_cases3)
  show ?thesis
    using authorization_audit [where f = "authorize_action_execution X r" and
        entry = "\<lambda>_. action_entry X dbg r", OF assms c
        action_step [OF assms(1) audit_authority [OF assms(2)] c]]
    by (cases res) (simp_all add: gv_ops action_entry_def issued_of_def)
qed

text \<open>A consumption follows the authorisation of its token and is the first one.\<close>

lemma consumed_entry:
  assumes inv: "audit_inv X gw"
    and k: "consume X b (pl_capabilities (fst (gv_core gw))) (snd gw) = (out, st, w)"
    and t: "consume_entry X b out = (ty, p)"
  shows "entry_ok (gv_log gw) (new_event X w' ty p pl)"
proof (cases "out = Authorized")
  case False
  with t show ?thesis
    by (auto simp: consume_entry_def consume_authorized_def entry_ok_def authorizing_def)
next
  case True
  let ?old = "pl_capabilities (fst (gv_core gw))"
  from True k obtain tok where tok: "hm_get (cs_capabilities ?old) (pb_token_id b) = Some tok"
    "first_failure (binding_checks tok b) = None"
    using consume_authorized_iff [of X b ?old "snd gw"] by auto
  have "ct_token_id tok = pb_token_id b"
    using tok(1) audit_authority [OF inv]
    by (auto simp: authority_inv_def cap_inv_def tokens_inv_def)
  moreover obtain a where a: "a \<in> set (gv_log gw)" "authorizing a" "of_token (ee_payload a) tok"
    using inv tok(1) unfolding audit_inv_def tokens_logged_def by blast
  ultimately have "same_capability (ee_payload a) p"
    using t tok(2) by (auto simp: consume_entry_def of_token_def same_capability_def
        same_execution_def binding_checks_pass)
  moreover have "ep_capability_id (ee_payload e) \<noteq> ep_capability_id p"
    if "e \<in> set (gv_log gw)" "ee_event_type e = CapabilityConsumed" for e
  proof
    assume eq: "ep_capability_id (ee_payload e) = ep_capability_id p"
    from inv that obtain i where "ep_capability_id (ee_payload e) = Some i"
      "token_spent X (?old, snd gw) i" unfolding audit_inv_def consumed_spent_def by blast
    then have "token_spent X (?old, snd gw) (pb_token_id b)"
      using eq t by (auto simp: consume_entry_def)
    from token_spent_refused [OF this] k True show False by simp
  qed
  ultimately show ?thesis
    using a t True by (auto simp: entry_ok_def authorizing_def consume_entry_def
        consume_authorized_def)
qed

lemma consume_audit:
  assumes laws: "cap_laws X" and inv: "audit_inv X gw"
  shows "audit_inv X (gv_step X S dbg (GvConsume b) gw)"
proof -
  obtain out st w where k: "consume X b (pl_capabilities (fst (gv_core gw))) (snd gw) = (out, st, w)"
    by (metis prod_cases3)
  define P where P: "P = (fst (gv_core gw))\<lparr>pl_capabilities := st\<rparr>"
  have c: "consume_provider_capability X b (gv_core gw) = (out, P, w)"
    using k by (simp add: consume_provider_capability_def P)
  let ?old = "pl_capabilities (fst (gv_core gw))"
  obtain ty p where t: "consume_entry X b out = (ty, p)" by (metis surj_pair)
  define ev where "ev = new_event X w ty p (gv_evidence (fst gw))"
  have ci: "cap_inv X (?old, snd gw)"
    using audit_authority [OF inv] by (simp add: authority_inv_def)
  have ty: "ty = (if out = Authorized then CapabilityConsumed else CapabilityRejected)"
    and p: "ep_capability_id p = Some (pb_token_id b)"
    using t by (auto simp: consume_entry_def consume_authorized_def)
  have sp: "token_spent X (st, w) i" if "token_spent X (?old, snd gw) i" for i
    using token_spent_kept [OF laws ci that, of "CapConsume b"] k by simp
  have use: "\<exists>u. hm_get (cs_capabilities ?old) i = Some u \<and> (t = u \<or> t = u\<lparr>ct_use_count := ct_use_count u + 1\<rparr>)"
    if "hm_get (cs_capabilities st) i = Some t" for i t
    using that consume_store [of X b ?old "snd gw"] k
    by (auto simp: hm_get_modify split: if_splits)
  have "tokens_logged (gv_log gw @ [ev]) st"
    unfolding tokens_logged_def
  proof (intro allI impI)
    fix i t assume "hm_get (cs_capabilities st) i = Some t"
    from use [OF this] obtain u where "hm_get (cs_capabilities ?old) i = Some u"
      "of_token q t = of_token q u" for q by (auto simp: of_token_def)
    with inv show "\<exists>a \<in> set (gv_log gw @ [ev]). authorizing a \<and> of_token (ee_payload a) t"
      unfolding audit_inv_def tokens_logged_def by (metis UnI1 set_append)
  qed
  moreover have "consumed_spent X (gv_log gw @ [ev]) (st, w)"
    using consumed_spent_step [of X "gv_log gw" ?old "snd gw" st w] inv sp ty p
      consume_spends [OF ci, of b] k
    by (auto simp: consumed_spent_snoc ev_def audit_inv_def)
  moreover have "entry_ok (gv_log gw) ev"
    using consumed_entry [OF inv k t] by (simp add: ev_def)
  moreover have "authority_inv X (approved_triples (gv_log gw @ [ev])) (P, w)"
    using consume_keeps_inv [OF laws audit_authority [OF inv], of b]
      authority_inv_mono [OF _ approved_mono] by (simp add: c)
  moreover have "world_le (snd gw) w" using consume_world [of "snd gw" X b ?old] k by simp
  ultimately show ?thesis
    using recorded_keeps [where f = "consume_provider_capability X b" and
        entry = "\<lambda>_. consume_entry X b", OF laws inv c t] P
    by (simp add: gv_ops ev_def)
qed

lemma outbound_audit:
  fixes gw :: "'s gst"
  assumes "cap_laws X" "audit_inv X gw" "f (gv_core gw) = (r, P, w)" "entry P r = (ty, p)"
    "pl_capabilities P = pl_capabilities (fst (gv_core gw))" "world_le (snd gw) w"
    "pl_ledger P = pl_ledger (fst (gv_core gw))"
    "ty = OutboundReleased \<or> ty = OutboundWithheld"
  shows "audit_inv X (snd (recorded X f entry gw))"
proof -
  have "authority_inv X (approved_triples (gv_log gw)) (P, w)"
    using keep_inv [OF audit_authority [OF assms(2)], of "(P, w)"] assms by simp
  then have "authority_step X (approved_triples (gv_log gw)) (gv_core gw) None (P, w)"
    using assms by (intro authority_step_quiet) simp_all
  from authority_step_mono [OF this approved_mono]
  show ?thesis
    by (rule recorded_inv [where f = f and entry = entry and issued = None, OF assms(1-4), rotated])
      (use assms(8) in auto)
qed

lemma gv_step_inv:
  assumes "cap_laws X" "audit_inv X gw"
  shows "audit_inv X (gv_step X S dbg op gw)"
proof (cases op)
  case (GvOutbound m sid)
  obtain r P w where c: "outbound X m sid (gv_core gw) = (r, P, w)" by (metis prod_cases3)
  show ?thesis
    using outbound_audit [where f = "outbound X m sid" and entry = "\<lambda>_. outbound_entry X m",
        OF assms c] outbound_frame [of sid "gv_core gw" X m] c
    by (simp add: GvOutbound gv_ops outbound_entry_def outbound_type_def frame_def)
next
  case (GvBoundOutbound m sid ctx run)
  obtain r P w where c: "bound_outbound X m sid ctx run (gv_core gw) = (r, P, w)"
    by (metis prod_cases3)
  have keeps: "frame t (gv_core gw) (P, w)" if "r = Inr (v, q)" "vr_session_id v = t" for v q t
    using c that outbound_frame [of t "gv_core gw" X m]
    by (auto simp: bound_outbound_def split_def Let_def split: sum.splits)
  have "(P, w) = gv_core gw \<or> (\<exists>t. frame t (gv_core gw) (P, w))"
    using c keeps by (cases r) (auto simp: bound_outbound_def split_def Let_def split: sum.splits)
  then have k: "pl_capabilities P = pl_capabilities (fst (gv_core gw))" "world_le (snd gw) w"
    "pl_ledger P = pl_ledger (fst (gv_core gw))"
    by (auto simp: frame_def prod_eq_iff)
  show ?thesis
    using outbound_audit [where f = "bound_outbound X m sid ctx run" and
        entry = "\<lambda>P. bound_outbound_entry X m (active_policy_version P)", OF assms c _ k]
    by (cases r) (simp_all add: GvBoundOutbound gv_ops bound_outbound_entry_def outbound_type_def
        split_def Let_def)
next
  case (GvInner pop)
  show ?thesis
  proof (cases "unshadowed pop")
    case True
    obtain P w where c: "pl_step X S pop (gv_core gw) = (P, w)" by (metis surj_pair)
    have none: "admits X pop (gv_core gw) = None" using True by (cases pop) auto
    have le: "world_le (snd gw) w" using unrelated_world [OF True, of "gv_core gw" X S] c by simp
    have caps: "pl_capabilities P = pl_capabilities (fst (gv_core gw))"
      using unrelated_capabilities [OF True, of X S "gv_core gw"] c by simp
    have "authority_inv X (approved_triples (gv_log gw)) (P, w)"
      using step_inv [OF assms(1) audit_authority [OF assms(2)], where op = pop and S = S] none c by simp
    moreover have "gv_log ((fst gw)\<lparr>gv_pipeline := P\<rparr>, w) = gv_log gw" by (simp add: gv_log_def)
    ultimately show ?thesis
      using True c caps assms(2) consumed_spent_world [OF _ le] plane_inv_world [OF _ le, of X "gv_evidence (fst gw)"]
      by (simp add: GvInner audit_inv_def)
  qed (use assms in \<open>simp add: GvInner\<close>)
next
  case GvFlush
  have "plane_inv X (snd (flush_pending (gv_evidence (fst gw))), snd gw)"
    using ev_step_inv [of X "(gv_evidence (fst gw), snd gw)" EvFlush] assms
    by (simp add: cap_laws_def audit_inv_def)
  then show ?thesis
    using assms(2) by (simp add: GvFlush audit_inv_def gv_log_def evidence_snapshot_def gv_core_def)
qed (use assms in \<open>simp_all add: context_audit provider_audit action_audit consume_audit
      del: gv_step.simps\<close>)

lemma gv_run_inv:
  "cap_laws X \<Longrightarrow> audit_inv X gw \<Longrightarrow> audit_inv X (fold (gv_step X S dbg) ops gw)"
  by (induction ops arbitrary: gw) (simp_all add: gv_step_inv)

lemma governed_new_inv:
  assumes "governed_new X ser S parse mode thr path files acfg con sink s w = Inr gw"
    "engine_ok X (eng w)"
  shows "audit_inv X gw" "gv_log gw = []"
proof -
  obtain pl w' where pl: "evidence_new X sink s w = (pl, w')" by (metis surj_pair)
  obtain P where P: "pipeline_new X ser S parse mode thr path files acfg con = Inr P"
    and gw: "gw = (\<lparr>gv_pipeline = P, gv_evidence = pl\<rparr>, w')"
    using assms(1) by (auto simp: governed_new_def pl split: sum.splits)
  have w': "w' = draw_id w" and log: "ev_events pl = []"
    using pl by (auto simp: evidence_new_def with_parent_hash_def Let_def)
  then have "authority_inv X {} (P, w')"
    using pipeline_new_inv [OF P, of w'] assms(2) by simp
  moreover have "approved_triples [] = {}" by (simp add: approved_triples_def)
  moreover have "pl_capabilities P = capability_store_new"
    using P by (cases "govmem_new parse thr (govmem_mode_of X mode)";
        auto simp: pipeline_new_def Let_def ebind_Inr_iff)
  moreover have "plane_inv X (pl, w')"
    using with_parent_inv [OF assms(2), of None sink s] pl by (simp add: evidence_new_def)
  ultimately show "audit_inv X gw" "gv_log gw = []"
    by (simp_all add: gw audit_inv_def gv_log_def evidence_snapshot_def gv_core_def log tokens_logged_def consumed_spent_def capability_store_new_def)
qed

text \<open>
  Claim C11: the evidence log is a verifiable, causally closed account of authority. After any run of
  a new evidence-governed pipeline, with any sink, its log passes \<open>verify_snapshot\<close>; every provider
  or action authorisation in it is preceded by an approval of the same context, session and run;
  every consumption is preceded by the authorisation of the same capability, for the same
  principal, authority, transaction, policy and execution; and no capability is consumed twice.
\<close>

theorem evidence_log_causal:
  assumes "cap_laws X" "engine_ok X (eng w)"
    and "governed_new X ser S parse mode thr path files acfg con sink s w = Inr gw"
  shows "verify_snapshot X (gv_log (fold (gv_step X S dbg) ops gw)) = Inr () \<and>
    log_causal (gv_log (fold (gv_step X S dbg) ops gw))"
proof -
  have inv: "audit_inv X (fold (gv_step X S dbg) ops gw)"
    using gv_run_inv [OF assms(1) governed_new_inv(1) [OF assms(3,2)]] .
  with plane_inv_verifies [of X] assms(1) show ?thesis
    by (auto simp: audit_inv_def gv_log_def evidence_snapshot_def cap_laws_def)
qed

lemma demo_governed_new:
  "\<exists>gw :: unit gst. governed_new demo (\<lambda>_. []) demo_storage (\<lambda>_. None) None EnvNotPresent None []
     default_arbiter_config None None () demo_world = Inr gw"
  by (simp add: governed_new_def demo_pipeline_new split_def Let_def)

definition demo_gv_ops :: "string \<Rightarrow> gv_op list" where
  "demo_gv_ops h = [GvContext (demo_context\<lparr>mc_context_hash := h\<rparr>) ''tx'' None None,
     GvProvider (demo_provider_request h), GvFlush, GvOutbound ''ok'' ''s'']"

lemma evidence_log_causal_witness:
  "\<exists>gw :: unit gst. \<exists>h es. es = gv_log (fold (gv_step demo demo_storage id) (demo_gv_ops h) gw) \<and>
     length es = 3 \<and> mc_verify demo (demo_context\<lparr>mc_context_hash := h\<rparr>) = Inr () \<and>
     verify_snapshot demo es = Inr () \<and> log_causal es"
proof -
  obtain gw :: "unit gst" where gw: "governed_new demo (\<lambda>_. []) demo_storage (\<lambda>_. None) None
      EnvNotPresent None [] default_arbiter_config None None () demo_world = Inr gw"
    using demo_governed_new by blast
  obtain h where h: "mc_verify demo (demo_context\<lparr>mc_context_hash := h\<rparr>) = Inr ()"
    by (rule demo_sealed_context)
  have "length (gv_log (fold (gv_step demo demo_storage id) (demo_gv_ops h) gw)) = 3"
    using governed_new_inv(2) [OF gw demo_engine_ok]
    by (simp add: demo_gv_ops_def gv_step_log del: gv_step.simps)
  with h evidence_log_causal [OF demo_cap_laws demo_engine_ok gw, where dbg = id and
      ops = "demo_gv_ops h"] show ?thesis by blast
qed

end
