(* ===== verification/Release.thy ===== *)
theory Release
  imports Accountability Execution
begin

text \<open>
  The way out: an output that Corridor, OverWatch and Sentinel do not object to is released, under
  the identity of the context that was approved for it and no other.
\<close>

section \<open>What an approved turn leaves in the monitors\<close>

text \<open>OverWatch has seen the content once, and the integrity monitor one signal.\<close>

definition watched :: "externs \<Rightarrow> string \<Rightarrow> string \<Rightarrow> pipeline \<Rightarrow> pipeline \<Rightarrow> bool" where
  "watched X sid content P P' \<longleftrightarrow>
     (\<exists>w. pl_overwatch P' = fst (snd (overwatch_evaluate X content Inbound sid (pl_overwatch P, w)))) \<and>
     (\<exists>s w. pl_oim P' = fst (snd (oim_observe X s (pl_oim P, w))))"

lemma arbitrate_monitors:
  assumes "arbitrate X s md pw = (st, pw')"
  shows "pl_overwatch (fst pw') = pl_overwatch (fst pw)" "pl_oim (fst pw') = pl_oim (fst pw)"
  using arbitrate_simps(3) [of X s md pw] assms by simp_all

lemma finish_monitors:
  "pl_overwatch (fst (snd (snd (finish_turn X t st h pw)))) = pl_overwatch (fst pw)"
  "pl_oim (fst (snd (snd (finish_turn X t st h pw)))) = pl_oim (fst pw)"
  by (simp_all add: finish_turn_def ingest_to_memory_def apply_floor_def split_def Let_def
      split: option.split)

lemma oim_layer_monitors:
  "pl_overwatch (fst (snd (snd (oim_layer X t s h pw)))) = pl_overwatch (fst pw)"
  "\<exists>w. pl_oim (fst (snd (snd (oim_layer X t s h pw)))) = fst (snd (oim_observe X s (pl_oim (fst pw), w)))"
  by (auto simp: oim_layer_def split_def Let_def finish_monitors)

lemma stop_result: "fst (stop_turn X t r h pw) = r"
  by (simp add: stop_turn_def)

lemma haap_layer_monitors:
  assumes "is_approved (fst (haap_layer X t s h pw))"
  shows "pl_overwatch (fst (snd (snd (haap_layer X t s h pw)))) = pl_overwatch (fst pw)"
    "\<exists>w. pl_oim (fst (snd (snd (haap_layer X t s h pw)))) = fst (snd (oim_observe X s (pl_oim (fst pw), w)))"
proof -
  obtain v pw1 where v: "pl_haap_evaluate X (tn_session t) ExecuteActions (tn_haap_class t) None pw = (v, pw1)"
    by (metis surj_pair)
  have p: "pl_overwatch (fst pw1) = pl_overwatch (fst pw)" "pl_oim (fst pw1) = pl_oim (fst pw)"
    using haap_simps(2) [of X "tn_session t" ExecuteActions "tn_haap_class t" None pw] v by simp_all
  have "haap_layer X t s h pw = oim_layer X t s h pw1"
    using assms v by (cases v) (simp_all add: haap_layer_def stop_result)
  then show "pl_overwatch (fst (snd (snd (haap_layer X t s h pw)))) = pl_overwatch (fst pw)"
    "\<exists>w. pl_oim (fst (snd (snd (haap_layer X t s h pw)))) = fst (snd (oim_observe X s (pl_oim (fst pw), w)))"
    using oim_layer_monitors [of X t s h pw1] p by simp_all
qed

lemma no_hard_block:
  assumes "is_approved (fst (case check_hard_block st of Some r \<Rightarrow> stop_turn X t r h pw | None \<Rightarrow> next))"
  shows "check_hard_block st = None"
proof (cases "check_hard_block st")
  case (Some r)
  with assms show ?thesis
    using hard_block_not_through [OF Some] approved_through [of r] by (simp add: stop_result)
qed

lemma overwatch_layer_monitors:
  assumes "is_approved (fst (overwatch_layer X t h pw))"
  shows "watched X (tn_session t) (tn_content t) (fst pw) (fst (snd (snd (overwatch_layer X t h pw))))"
proof -
  let ?sid = "tn_session t"
  obtain s pw1 where o: "observe_overwatch X (tn_content t) Inbound ?sid pw = (s, pw1)" by (metis surj_pair)
  define pw2 where "pw2 = note_layer X ?sid (tn_overwatch_label t) s pw1"
  obtain st pw3 where a: "arbitrate X s (tn_modifier t) pw2 = (st, pw3)" by (metis surj_pair)
  have nb: "\<not> should_block (pl_govmem (fst pw2)) (pl_memories (fst pw2)) ?sid (tn_department t)"
    using assms by (auto simp: overwatch_layer_def o Let_def stop_result simp flip: pw2_def simp del: note_layer_simps split: if_splits)
  have "is_approved (fst (case check_hard_block st of Some r \<Rightarrow> stop_turn X t r (track_highest s h) pw3
      | None \<Rightarrow> haap_layer X t s (track_highest s h) pw3))"
    using assms nb by (simp add: overwatch_layer_def o a Let_def flip: pw2_def del: note_layer_simps)
  from no_hard_block [OF this] have l: "overwatch_layer X t h pw = haap_layer X t s (track_highest s h) pw3"
    using nb by (simp add: overwatch_layer_def o a Let_def flip: pw2_def del: note_layer_simps)
  have "pl_overwatch (fst pw3) = fst (snd (overwatch_evaluate X (tn_content t) Inbound ?sid
      (pl_overwatch (fst pw), snd pw)))" "pl_oim (fst pw3) = pl_oim (fst pw)"
    using observe_overwatch_simps(3) [of X "tn_content t" Inbound ?sid pw] o
      arbitrate_monitors [OF a] by (simp_all add: pw2_def)
  then show ?thesis
    using haap_layer_monitors [of X t s "track_highest s h" pw3] assms unfolding l watched_def by auto
qed

lemma watched_other:
  assumes "watched X sid content P P'" "pl_overwatch P = pl_overwatch Q" "pl_oim P = pl_oim Q"
    "pl_overwatch P' = pl_overwatch Q'" "pl_oim P' = pl_oim Q'"
  shows "watched X sid content Q Q'"
  using assms by (simp add: watched_def)

lemma corridor_layer_monitors:
  assumes "is_approved (fst (corridor_layer X t h pw))"
  shows "watched X (tn_session t) (tn_content t) (fst pw) (fst (snd (snd (corridor_layer X t h pw))))"
proof -
  let ?sid = "tn_session t"
  obtain s w1 where c: "corridor_evaluate X (pl_evaluator (fst pw)) (tn_content t) Inbound ?sid (snd pw) = (s, w1)"
    by (metis surj_pair)
  define pw1 where "pw1 = note_layer X ?sid (tn_corridor_label t) s (fst pw, w1)"
  obtain st pw2 where a: "arbitrate X s (tn_modifier t) pw1 = (st, pw2)" by (metis surj_pair)
  have "is_approved (fst (case check_hard_block st of Some r \<Rightarrow> stop_turn X t r (track_highest s h) pw2
      | None \<Rightarrow> overwatch_layer X t (track_highest s h) pw2))"
    using assms by (simp add: corridor_layer_def c a Let_def flip: pw1_def del: note_layer_simps)
  from no_hard_block [OF this] have l: "corridor_layer X t h pw = overwatch_layer X t (track_highest s h) pw2"
    by (simp add: corridor_layer_def c a Let_def flip: pw1_def del: note_layer_simps)
  have "pl_overwatch (fst pw2) = pl_overwatch (fst pw)" "pl_oim (fst pw2) = pl_oim (fst pw)"
    using arbitrate_monitors [OF a] by (simp_all add: pw1_def)
  then show ?thesis
    using overwatch_layer_monitors [of X t "track_highest s h" pw2] assms unfolding l
    by (auto intro: watched_other)
qed

lemma layers_monitors:
  assumes "is_approved (fst (layers X t f h pw))"
  shows "watched X (tn_session t) (tn_content t) (fst pw) (fst (snd (snd (layers X t f h pw))))"
proof (cases f)
  case None
  then show ?thesis using corridor_layer_monitors assms by (simp add: layers_def)
next
  case (Some s)
  obtain st pw1 where a: "arbitrate X s (tn_modifier t) pw = (st, pw1)" by (metis surj_pair)
  have l: "layers X t f h pw = (case check_hard_block st of Some r \<Rightarrow> stop_turn X t r h pw1
      | None \<Rightarrow> corridor_layer X t h pw1)"
    by (simp add: layers_def Some sentinel_layer_def a)
  from l no_hard_block [where st = st and X = X and t = t and h = h and pw = pw1] assms
  have "check_hard_block st = None" by metis
  with l have l: "layers X t f h pw = corridor_layer X t h pw1" by simp
  have "pl_overwatch (fst pw1) = pl_overwatch (fst pw)" "pl_oim (fst pw1) = pl_oim (fst pw)"
    using arbitrate_monitors [OF a] by simp_all
  then show ?thesis
    using corridor_layer_monitors [of X t h pw1] assms unfolding l by (auto intro: watched_other)
qed

lemma inspect_monitors:
  "pl_overwatch (fst (snd (snd (inspect_segments X sid segs h acc pw)))) = pl_overwatch (fst pw)"
  "pl_oim (fst (snd (snd (inspect_segments X sid segs h acc pw)))) = pl_oim (fst pw)"
  "fst (snd (inspect_segments X sid segs h acc pw)) = joined_content acc segs"
  by (induction segs arbitrary: h acc pw) (simp_all add: split_def Let_def)

lemma init_monitors:
  "pl_overwatch (fst (snd (init_session_memory X sid pw))) = pl_overwatch (fst pw)"
  "pl_oim (fst (snd (init_session_memory X sid pw))) = pl_oim (fst pw)"
  by (simp_all add: init_session_memory_def split_def Let_def split: option.split)

lemma context_monitors:
  fixes e :: model_context_envelope
  assumes "inbound_context_with_identity X e tx dept agent pw = (Inr r, P, w)" "is_approved r"
  shows "watched X (mc_session_id e) (joined_content [] (segments_requiring_inspection e)) (fst pw) P"
proof -
  let ?sid = "mc_session_id e" and ?segs = "segments_requiring_inspection e"
  obtain u where u: "mc_verify X e = Inr u"
    using assms(1) context_rejected [of X e] by (cases "mc_verify X e") auto
  obtain md pw1 where i: "init_session_memory X ?sid pw = (md, pw1)" by (metis surj_pair)
  obtain h content pw2 where g: "inspect_segments X ?sid ?segs None [] pw1 = (h, content, pw2)"
    by (metis prod_cases3)
  define pw3 where "pw3 = note_turn X ?sid content UserToSystem
    (case h of None \<Rightarrow> False | Some s \<Rightarrow> SevHigh \<le> sg_severity s) dept agent pw2"
  define t where "t = context_turn X ?sid content md dept"
  have m: "pl_overwatch (fst pw3) = pl_overwatch (fst pw)" "pl_oim (fst pw3) = pl_oim (fst pw)"
    "content = joined_content [] ?segs"
    using inspect_monitors [of X ?sid ?segs None "[]" pw1] init_monitors [of X ?sid pw] i g
    by (simp_all add: pw3_def)
  obtain r' h' P' w' where l: "layers X t h h pw3 = (r', h', P', w')" by (metis prod_cases4)
  have "context_result X e tx (layers X t h h pw3) = (Inr r, P, w)"
    using inbound_context_eq [OF u i g, of tx dept agent] assms(1) by (simp add: pw3_def t_def)
  then have "r' = r" "pl_overwatch P' = pl_overwatch P" "pl_oim P' = pl_oim P"
    by (auto simp: context_result_def l split_def split: if_splits)
  moreover have "tn_session t = ?sid" "tn_content t = content" by (simp_all add: t_def context_turn_def)
  ultimately show ?thesis
    using layers_monitors [of X t h h pw3] assms(2) m l by (auto intro: watched_other)
qed

section \<open>A clean output\<close>

text \<open>What OverWatch makes of the output after it has seen the content.\<close>

definition output_quiet :: "externs \<Rightarrow> string \<Rightarrow> string \<Rightarrow> string \<Rightarrow> pipeline \<Rightarrow> bool" where
  "output_quiet X content output sid P \<longleftrightarrow>
     overwatch_violations X (ow_config (pl_overwatch P)) Outbound output
       (update_fingerprint X output (update_fingerprint X content (fingerprint_of (pl_overwatch P) sid))) = []"

lemma watched_oim:
  assumes "watched X sid content P P'" "oim_calm 18 (pl_oim P)"
  shows "oim_calm 19 (pl_oim P')"
proof -
  obtain s w where o: "pl_oim P' = fst (snd (oim_observe X s (pl_oim P, w)))"
    using assms(1) by (auto simp: watched_def)
  define g where "g = record_signal (now X w) s (oim_sig (pl_oim P))"
  have len: "length (os_recent_signals g) < 19" "length (os_confidence_scores g) < 20"
    using assms(2) length_filter_le [of _ "os_recent_signals (oim_sig (pl_oim P)) @ [_]"]
    by (auto simp: g_def record_signal_def Let_def oim_calm_def intro!: le_less_trans [OF length_filter_le])
  have none: "os_baseline_escalation_rate g = None" "os_baseline_confidence_mean g = None"
    using assms(2) by (simp_all add: g_def record_signal_def Let_def oim_calm_def)
  have "oim_sig (pl_oim P') = g"
    using len(1) unfolding o observe_sig g_def [symmetric] by (simp add: maybe_establish_baseline_def)
  then show ?thesis using len none by (simp add: oim_calm_def)
qed

lemma overwatch_quiet_fingerprint:
  assumes "overwatch_quiet X content sid P" "watched X sid content P P'"
  shows "fingerprint_of (pl_overwatch P') sid = update_fingerprint X content (fingerprint_of (pl_overwatch P) sid)"
    "ow_config (pl_overwatch P') = ow_config (pl_overwatch P)"
proof -
  obtain w where "pl_overwatch P' = fst (snd (overwatch_evaluate X content Inbound sid (pl_overwatch P, w)))"
    using assms(2) by (auto simp: watched_def)
  with assms(1) show "fingerprint_of (pl_overwatch P') sid =
      update_fingerprint X content (fingerprint_of (pl_overwatch P) sid)"
    "ow_config (pl_overwatch P') = ow_config (pl_overwatch P)"
    by (simp_all add: overwatch_evaluate_def overwatch_quiet_def fingerprint_of_def Let_def split_def)
qed

lemma arbitrate_stays:
  assumes "is_clean s" "sg_session_id s = sid" "pl_current_state sid (fst pw) = S1"
  obtains pw' where "arbitrate X s md pw = (S1, pw')" "pl_current_state sid (fst pw') = S1"
    "pl_overwatch (fst pw') = pl_overwatch (fst pw)" "pl_oim (fst pw') = pl_oim (fst pw)"
proof -
  obtain st pw' where a: "arbitrate X s md pw = (st, pw')" by (metis surj_pair)
  have "st = S1" "pl_current_state sid (fst pw') = S1"
    using clean_modified [OF assms(1), of X md "(pl_arbiter (fst pw), snd pw)"] assms(2,3)
      arbitrate_simps [of X s md pw] a by (simp_all add: pl_current_state_def)
  then show ?thesis using that a arbitrate_monitors [OF a] by blast
qed

lemma clean_output_released:
  assumes "pl_current_state sid P = S1" "oim_calm 19 (pl_oim P)"
    and "corridor_finding X (pl_evaluator P) Outbound output = None" "sentinel_finding X output = None"
    and quiet: "overwatch_violations X (ow_config (pl_overwatch P)) Outbound output
      (update_fingerprint X output (fingerprint_of (pl_overwatch P) sid)) = []"
  shows "fst (outbound X output sid (P, w)) = Approved output"
proof -
  let ?md = "get_threshold_modifier sid P"
  obtain c w1 where c: "corridor_evaluate X (pl_evaluator P) output Outbound sid w = (c, w1)" by (metis surj_pair)
  have cs: "silent sid c"
    using clean_signal_silent [of sid X w] c assms(3)
    by (simp add: corridor_evaluate_def signal_of_finding_def) (metis clean_signal_silent fst_conv)
  define pw1 where "pw1 = note_layer X sid ''corridor_out'' c (P, w1)"
  have p1: "pl_current_state sid (fst pw1) = S1" "pl_overwatch (fst pw1) = pl_overwatch P" "pl_oim (fst pw1) = pl_oim P"
    using assms(1) by (simp_all add: pw1_def pl_current_state_def)
  have sids: "sg_session_id c = sid" using cs by (simp add: silent_def)
  obtain pw2 where a1: "arbitrate X c ?md pw1 = (S1, pw2)" "pl_current_state sid (fst pw2) = S1"
    "pl_overwatch (fst pw2) = pl_overwatch (fst pw1)" "pl_oim (fst pw2) = pl_oim (fst pw1)"
    by (rule arbitrate_stays [OF silent_clean [OF cs] sids p1(1)])
  obtain os pw3 where o: "observe_overwatch X output Outbound sid pw2 = (os, pw3)" by (metis surj_pair)
  have os: "silent sid os"
    using observe_overwatch_simps(1) [of X "output" Outbound sid pw2] o quiet clean_signal_silent
    by (simp add: overwatch_evaluate_def a1 p1 fingerprint_of_def Let_def split_def)
  have p3: "pl_current_state sid (fst pw3) = S1" "pl_oim (fst pw3) = pl_oim P"
    using observe_overwatch_simps(3) [of X "output" Outbound sid pw2] o a1(2,4) p1(3)
    by (simp_all add: pl_current_state_def)
  have sids2: "sg_session_id os = sid" using os by (simp add: silent_def)
  obtain pw4 where a2: "arbitrate X os ?md pw3 = (S1, pw4)" "pl_current_state sid (fst pw4) = S1"
    "pl_oim (fst pw4) = pl_oim (fst pw3)"
    by (rule arbitrate_stays [OF silent_clean [OF os] sids2 p3(1)])
  obtain i pw5 where i: "observe_oim X os pw4 = (i, pw5)" by (metis surj_pair)
  have quiet_i: "silent sid i" using oim_silent [of pw4 os sid X] a2(3) p3(2) assms(2) sids2 i by simp
  have p5: "pl_current_state sid (fst pw5) = S1"
    using observe_oim_simps(3) [of X os pw4] i a2(2) by (simp add: pl_current_state_def)
  have sids3: "sg_session_id i = sid" using quiet_i by (simp add: silent_def)
  obtain pw6 where a3: "arbitrate X i ?md pw5 = (S1, pw6)" "pl_current_state sid (fst pw6) = S1"
    by (rule arbitrate_stays [OF silent_clean [OF quiet_i] sids3 p5])
  obtain s w7 where s: "sentinel_inspect X output Outbound sid (snd pw6) = (s, w7)" by (metis surj_pair)
  have ss: "silent sid s" using sentinel_silent [OF assms(4), of sid Outbound "snd pw6"] s by simp
  then have sids4: "sg_session_id s = sid" by (simp add: silent_def)
  have p6: "pl_current_state sid (fst (fst pw6, w7)) = S1" using a3(2) by simp
  obtain pw8 where a4: "arbitrate X s ?md (fst pw6, w7) = (S1, pw8)"
    by (rule arbitrate_stays [OF silent_clean [OF ss] sids4 p6])
  show ?thesis
    by (simp add: outbound_def outbound_final_def c a1(1) o a2(1) i a3(1) s a4 Let_def flip: pw1_def
        del: note_layer_simps)
qed

section \<open>The exchange\<close>

text \<open>A receipt for an event.\<close>

definition receipt_of :: "evidence_event \<Rightarrow> append_receipt \<Rightarrow> bool" where
  "receipt_of ev r \<longleftrightarrow> er_event_id r = ee_event_id ev \<and> er_event_hash r = ee_event_hash ev \<and>
     er_sequence r = ee_sequence ev \<and> er_epoch_id r = ee_epoch_id ev"

lemma recorded_call:
  assumes "f (gv_core gw) = (r, P, w)"
  obtains receipt gw' ev where "recorded X f entry gw = ((r, receipt), gw')"
    "gv_log gw' = gv_log gw @ [ev]" "(ee_event_type ev, ee_payload ev) = entry P r"
    "receipt_of ev receipt" "gv_core gw' = (P, draw_id (tick w))"
proof -
  obtain r' receipt gw' where c: "recorded X f entry gw = ((r', receipt), gw')" by (metis prod.collapse)
  have r: "r' = r" using recorded_simps(1) [of X f entry gw] assms(1) c by simp
  obtain ty p where e: "entry P r = (ty, p)" by (metis surj_pair)
  let ?ev = "new_event X w ty p (gv_evidence (fst gw))"
  have "receipt_of ?ev receipt"
    using assms e c by (auto simp: receipt_of_def recorded_def gv_lift_def gv_append_def gv_core_def
        evidence_append_def split_def Let_def)
  with that [OF c [unfolded r], of ?ev] recorded_log [where f = f and entry = entry and X = X, OF assms e] recorded_simps(2) [of X f entry gw]
    assms e c show ?thesis by simp
qed

lemma recorded_binding:
  assumes "record_final_approved_with_context X tx s c run l w = (i, l', w')" "is_sha256_hex c"
    "sg_direction s = Inbound"
  obtains r where "resolve_outbound_context_binding c (sg_session_id s) run l' = Inr r"
    "vr_gov_tx_id r = tx" "vr_session_id r = sg_session_id s" "vr_context_hash r = Some c"
    "vr_run_id r = Some run"
proof -
  let ?r = "verdict_of_signal (''SV-'' @ uuid_simple X (ids w)) tx True s (now X w) (Some c) (Some run)"
  have "resolve_outbound_context_binding c (sg_session_id s) run l' = Inr ?r"
    using assms by (auto simp: record_final_approved_with_context_def record_final_approved_inner_def
      Let_def resolve_outbound_context_binding_def resolve_by_context_def approved_verdict_id_by_context_def
      verdict_of_signal_def)
  then show ?thesis by (rule that) (simp_all add: verdict_of_signal_def)
qed

lemma admission_facts:
  assumes "inbound_context_with_identity X e tx dept agent pw = (Inr r, P, w)" "is_approved r"
  obtains rec where "resolve_outbound_context_binding (mc_context_hash e) (mc_session_id e) (mc_run_id e)
      (pl_ledger P) = Inr rec"
    "vr_gov_tx_id rec = tx" "vr_session_id rec = mc_session_id e"
    "vr_context_hash rec = Some (mc_context_hash e)" "vr_run_id rec = Some (mc_run_id e)"
    "pl_current_state (mc_session_id e) P = S1" "pl_evaluator P = pl_evaluator (fst pw)"
proof -
  obtain u where u: "mc_verify X e = Inr u"
    using assms(1) context_rejected [of X e] by (cases "mc_verify X e") auto
  have h: "is_sha256_hex (mc_context_hash e)" using u by (simp add: mc_verify_iff)
  show ?thesis
  proof (rule context_outcome [OF u assms(1)])
    fix r' assume r': "Inr r = Inr r'"
      and fr: "frame (mc_session_id e) pw (P\<lparr>pl_ledger := pl_ledger (fst pw)\<rparr>, w)"
      and yes: "is_approved r' \<Longrightarrow> pl_current_state (mc_session_id e) P = S1 \<and>
       (\<exists>ms. session_memory_state (mc_session_id e) P = Some ms \<and> memory_floor ms = None) \<and>
       (\<exists>s w' i. record_final_approved_with_context X tx s (mc_context_hash e) (mc_run_id e)
          (pl_ledger (fst pw)) w' = (i, pl_ledger P, w) \<and> world_le (snd pw) w' \<and>
          sg_session_id s = mc_session_id e \<and> sg_direction s = Inbound)"
    from yes assms(2) r' obtain s w' i where rec: "record_final_approved_with_context X tx s
        (mc_context_hash e) (mc_run_id e) (pl_ledger (fst pw)) w' = (i, pl_ledger P, w)"
        "sg_session_id s = mc_session_id e" "sg_direction s = Inbound"
      and s1: "pl_current_state (mc_session_id e) P = S1" by auto
    have "pl_evaluator P = pl_evaluator (fst pw)" using fr by (simp add: frame_def)
    then show ?thesis
      using recorded_binding [OF rec(1) h rec(3)] that s1 rec(2) by metis
  qed
qed

text \<open>What the release records: the identity of the approved context, and the digest of the output.\<close>

definition release_of :: "externs \<Rightarrow> string \<Rightarrow> model_context_envelope \<Rightarrow> string \<Rightarrow> evidence_event \<Rightarrow> bool" where
  "release_of X tx e output ev \<longleftrightarrow> ee_event_type ev = OutboundReleased \<and>
     ep_gov_tx_id (ee_payload ev) = Some tx \<and> ep_session_id (ee_payload ev) = Some (mc_session_id e) \<and>
     ep_run_id (ee_payload ev) = Some (mc_run_id e) \<and>
     ep_context_hash (ee_payload ev) = Some (mc_context_hash e) \<and>
     ep_outbound_hash (ee_payload ev) = Some (compute_hash X output)"

lemma exchange_released:
  fixes e :: model_context_envelope
  defines "sid \<equiv> mc_session_id e" and "content \<equiv> joined_content [] (segments_requiring_inspection e)"
  assumes a: "inbound_context_with_identity X e tx dept agent pw = (Inr r, P1, w1)" "is_approved r"
    and then_gw1: "gv_core gw1 = (P1\<lparr>pl_capabilities := C\<rparr>, w2)"
    and quiet: "overwatch_quiet X content sid (fst pw)"
    and out: "oim_calm 18 (pl_oim (fst pw))" "corridor_finding X (pl_evaluator (fst pw)) Outbound output = None"
      "sentinel_finding X output = None" "output_quiet X content output sid (fst pw)"
  obtains receipt gw2 ev where
    "gv_outbound_with_evidence X output sid (mc_context_hash e) (mc_run_id e) gw1 = ((Inr (Approved output), receipt), gw2)"
    "gv_log gw2 = gv_log gw1 @ [ev]" "release_of X tx e output ev" "receipt_of ev receipt"
proof (rule admission_facts [OF a])
  fix rec
  assume rec: "resolve_outbound_context_binding (mc_context_hash e) (mc_session_id e) (mc_run_id e)
      (pl_ledger P1) = Inr rec" "vr_gov_tx_id rec = tx" "vr_session_id rec = mc_session_id e"
    "vr_context_hash rec = Some (mc_context_hash e)" "vr_run_id rec = Some (mc_run_id e)"
    and P1: "pl_current_state (mc_session_id e) P1 = S1" "pl_evaluator P1 = pl_evaluator (fst pw)"
  have m: "watched X sid content (fst pw) P1"
    unfolding sid_def content_def by (rule context_monitors [OF a])
  have "fst (outbound X output sid (P1\<lparr>pl_capabilities := C\<rparr>, w2)) = Approved output"
    using clean_output_released [of sid "P1\<lparr>pl_capabilities := C\<rparr>" X "output" w2] P1 out(2-4) watched_oim [OF m out(1)]
      overwatch_quiet_fingerprint [OF quiet m] by (simp add: sid_def output_quiet_def pl_current_state_def)
  then obtain P2 w3 where o: "outbound X output (vr_session_id rec) (P1\<lparr>pl_capabilities := C\<rparr>, w2) = (Approved output, P2, w3)"
    unfolding rec(3) sid_def by (metis prod.collapse)
  have b: "bound_outbound X output sid (mc_context_hash e) (mc_run_id e) (gv_core gw1) =
      (Inr (rec, Approved output), P2, w3)"
    by (simp add: bound_outbound_def then_gw1 rec(1) o sid_def)
  obtain receipt gw2 ev where
    "recorded X (bound_outbound X output sid (mc_context_hash e) (mc_run_id e))
       (\<lambda>P. bound_outbound_entry X output (active_policy_version P)) gw1 =
       ((Inr (rec, Approved output), receipt), gw2)"
    "gv_log gw2 = gv_log gw1 @ [ev]" 
    "(ee_event_type ev, ee_payload ev) =
       bound_outbound_entry X output (active_policy_version P2) (Inr (rec, Approved output))"
    "receipt_of ev receipt"
    by (rule recorded_call [where f = "bound_outbound X output sid (mc_context_hash e) (mc_run_id e)"
          and entry = "\<lambda>P. bound_outbound_entry X output (active_policy_version P)", OF b])
  then show ?thesis
    using that [of receipt gw2 ev] rec(2-5)
    by (simp add: gv_outbound_with_evidence_def release_of_def bound_outbound_entry_def outbound_type_def)
qed


text \<open>The exchange of \<open>hi\<close> for \<open>hi\<close> in the demonstration pipeline.\<close>

lemma hi_again: "update_fingerprint demo ''hi'' (update_fingerprint demo ''hi'' ow_fingerprint_new) =
    ow_fingerprint_new\<lparr>of_turn_count := 2\<rparr>"
  unfolding hi_fingerprint
  by (simp add: suspicion_pos [simplified] update_fingerprint_def hi_lower update_drift_def hi_phrases
      Let_def ow_fingerprint_new_def update_tools_def tool_names_def keep_last_def update_suspicion_def
      count_if_def update_cmd_def cmd_hit_def update_q09_def q09_f1_def q09_f2_def q09_f3_def q09_f4_def
      q09_f5_def q09_f6_def)

lemma hi_output: "output_quiet demo ''hi'' ''hi'' sid demo_pipeline"
proof -
  let ?fp = "ow_fingerprint_new\<lparr>of_turn_count := 2\<rparr>"
  have "\<not> drift_threshold default_overwatch_config < of_drift_score ?fp"
    by (simp add: default_overwatch_config_def ow_fingerprint_new_def f32_eval)
  moreover have "violation_count k ?fp = 0" for k by (simp add: violation_count_def ow_fingerprint_new_def)
  moreover have "q09_total ?fp = 0" by (simp add: q09_total_def violation_count_def ow_fingerprint_new_def)
  moreover have "\<not> tool_chain_suspicious ?fp" by (simp add: tool_chain_suspicious_def ow_fingerprint_new_def)
  moreover have "\<not> detect_poisoning ''hi''" by (simp add: detect_poisoning_def)
  moreover have "to_ascii_lowercase ''hi'' = ''hi''" by code_simp
  moreover have "\<not> detect_dos ''hi''" by (simp add: detect_dos_def)
  moreover have "\<not> f32_lit (6 / 10) < score_hallucination ''hi''"
    by (simp add: score_hallucination_def bump_if_def f32_eval)
  ultimately show ?thesis
    by (simp add: output_quiet_def hi_again demo_pipeline_def overwatch_new_def fingerprint_of_def
        overwatch_violations_def hi_lower Let_def cmd_violation_def q09_violations_def)
qed

lemma hi_corridor_out: "corridor_finding demo None Outbound ''hi'' = None"
proof -
  have "\<not> regex_match demo multi_encoding ''hi''" "\<not> regex_match demo metadata_injection ''hi''"
    by (simp_all add: demo_def contains_short multi_encoding_def metadata_injection_def rx_def)
  moreover have "analyze_base64 demo ''hi'' = None"
    by (simp add: analyze_base64_def str_eval hi_uchars del: uchars.simps)
  moreover have "classify_governance_surface ''hi'' = None" by code_simp
  ultimately show ?thesis by (simp add: corridor_finding_def constitutional_finding_def)
qed


end
