(* ===== verification/Http.thy ===== *)
theory Http
  imports Json
begin

text \<open>
  The transport half of \<open>server.rs\<close>: reading a request from a connection with its limits on line
  length, number of headers and body size, the fields of a JSON body, and the texts of responses.

  A connection is the list of the chunks that \<open>fill_buf\<close> will deliver: \<open>Some\<close> bytes, an empty chunk
  or the end of the list for the end of the stream, \<open>None\<close> for an error (a timeout included). The
  theorem: the chunking of a stream does not matter, and what the reader hands on is bounded.
\<close>

section \<open>\<open>String::from_utf8_lossy\<close>\<close>

definition continuation :: "char \<Rightarrow> bool" where
  "continuation c \<longleftrightarrow> 128 \<le> byte c \<and> byte c \<le> 191"

text \<open>The length a first byte announces (0: none starts with it) and the second bytes it admits.\<close>

definition utf8_width :: "char \<Rightarrow> nat" where
  "utf8_width c = (let b = byte c in
     if b < 128 then 1 else if 194 \<le> b \<and> b \<le> 223 then 2
     else if 224 \<le> b \<and> b \<le> 239 then 3 else if 240 \<le> b \<and> b \<le> 244 then 4 else 0)"

definition second_ok :: "char \<Rightarrow> char \<Rightarrow> bool" where
  "second_ok c d = (let b = byte c; n = byte d in
     if b = 224 then 160 \<le> n \<and> n \<le> 191 else if b = 237 then 128 \<le> n \<and> n \<le> 159
     else if b = 240 then 144 \<le> n \<and> n \<le> 191 else if b = 244 then 128 \<le> n \<and> n \<le> 143
     else continuation d)"

text \<open>Whether the string starts with a character, and how many bytes it or the fragment has.\<close>

fun utf8_step :: "string \<Rightarrow> bool \<times> nat" where
  "utf8_step [] = (False, 1)"
| "utf8_step (c # cs) =
     (let n = utf8_width c
      in if n \<le> 1 then (n = 1, 1)
         else if cs = [] \<or> \<not> second_ok c (hd cs) then (False, 1)
         else let k = 2 + length (takeWhile continuation (take (n - 2) (tl cs)))
              in (k = n, k))"

lemma utf8_step_pos: "0 < snd (utf8_step s)"
  by (cases s) (auto simp: Let_def)

definition replacement :: string where
  "replacement = [CHR 0xEF, CHR 0xBF, CHR 0xBD]"

function utf8_lossy :: "string \<Rightarrow> string" where
  "utf8_lossy s =
     (if s = [] then []
      else (if fst (utf8_step s) then take (snd (utf8_step s)) s else replacement) @
           utf8_lossy (drop (snd (utf8_step s)) s))"
  by pat_completeness auto
termination
  using utf8_step_pos by (relation "measure length") auto

declare utf8_lossy.simps [simp del]

lemma utf8_lossy_Nil [simp]: "utf8_lossy [] = []"
  by (simp add: utf8_lossy.simps)

lemma utf8_lossy_length: "length (utf8_lossy s) \<le> 3 * length s"
proof (induction s rule: utf8_lossy.induct)
  case (1 s)
  show ?case
  proof (cases "s = []")
    case False
    let ?n = "snd (utf8_step s)"
    have "1 \<le> min ?n (length s)"
      using False utf8_step_pos [of s] by (simp add: Suc_le_eq)
    then have "length (if fst (utf8_step s) then take ?n s else replacement) \<le> 3 * min ?n (length s)"
      by (auto simp: replacement_def simp del: min_less_iff_conj)
    moreover have "length (utf8_lossy (drop ?n s)) \<le> 3 * (length s - ?n)"
      using 1 [OF False] by simp
    moreover have "utf8_lossy s = (if fst (utf8_step s) then take ?n s else replacement) @
        utf8_lossy (drop ?n s)" using False by (subst utf8_lossy.simps) simp
    ultimately show ?thesis by simp
  qed simp
qed

lemma utf8_lossy_ascii: "\<forall>c \<in> set s. byte c < 128 \<Longrightarrow> utf8_lossy s = s"
proof (induction s)
  case (Cons c cs)
  then have "utf8_step (c # cs) = (True, 1)" by (simp add: utf8_width_def Let_def)
  with Cons show ?case by (subst utf8_lossy.simps) simp
qed simp

section \<open>Reading lines\<close>

type_synonym chunks = "string option list"

definition MAX_BODY_BYTES :: nat where "MAX_BODY_BYTES = 262144"
definition MAX_HEADER_LINE_BYTES :: nat where "MAX_HEADER_LINE_BYTES = 8192"
definition MAX_HEADER_COUNT :: nat where "MAX_HEADER_COUNT = 100"

definition newline :: char where
  "newline = CHR 10"

text \<open>
  \<open>read_line_bounded\<close>: \<open>buf\<close> holds the bytes of the line so far. A chunk longer than the line
  stays at the head of the connection with the line removed.
\<close>

fun read_line :: "nat \<Rightarrow> string \<Rightarrow> chunks \<Rightarrow> string option \<times> chunks" where
  "read_line max_bytes buf [] = (if buf = [] then None else Some (utf8_lossy buf), [])"
| "read_line max_bytes buf (None # r) = (None, r)"
| "read_line max_bytes buf (Some available # r) =
     (if available = [] then (if buf = [] then None else Some (utf8_lossy buf), Some [] # r)
      else if newline \<in> set available
      then let line = buf @ takeWhile (\<lambda>c. c \<noteq> newline) available @ [newline];
               left = tl (dropWhile (\<lambda>c. c \<noteq> newline) available);
               r' = (if left = [] then r else Some left # r)
           in (if max_bytes < length line then None else Some (utf8_lossy line), r')
      else if max_bytes < length (buf @ available) then (None, r)
      else read_line max_bytes (buf @ available) r)"

definition read_line_bounded :: "nat \<Rightarrow> chunks \<Rightarrow> string option \<times> chunks" where
  "read_line_bounded max_bytes r = read_line max_bytes [] r"

definition chunks_size :: "chunks \<Rightarrow> nat" where
  "chunks_size r = (\<Sum>c \<leftarrow> r. Suc (case c of None \<Rightarrow> 0 | Some b \<Rightarrow> length b))"

lemma chunks_size_simps [simp]:
  "chunks_size [] = 0" "chunks_size (None # r) = Suc (chunks_size r)"
  "chunks_size (Some b # r) = Suc (length b + chunks_size r)"
  by (simp_all add: chunks_size_def)

lemma after_line_length: "length (tl (dropWhile (\<lambda>c. c \<noteq> newline) b)) \<le> length b - 1"
  by (simp add: diff_le_mono length_dropWhile_le)

lemma read_line_size: "chunks_size (snd (read_line n buf r)) \<le> chunks_size r"
proof (induction n buf r rule: read_line.induct)
  case (3 n buf b r)
  then show ?case using after_line_length [of b] by (auto simp: Let_def)
qed simp_all

lemma read_line_progress:
  assumes "read_line_bounded n r = (Some l, r')"
  shows "chunks_size r' < chunks_size r"
proof (cases r)
  case (Cons c cs)
  with assms obtain b where c: "c = Some b" "b \<noteq> []"
    by (cases c) (auto simp: read_line_bounded_def split: if_splits)
  then have "length (tl (dropWhile (\<lambda>c. c \<noteq> newline) b)) < length b"
    using after_line_length [of b] by (cases b) auto
  then show ?thesis
    using assms c Cons read_line_size [of n b cs]
    by (auto simp: read_line_bounded_def Let_def simp del: length_tl split: if_splits)
qed (use assms in \<open>simp add: read_line_bounded_def\<close>)

section \<open>Reading a request\<close>

text \<open>\<open>parse::<usize>()\<close>\<close>

definition decimal :: "string \<Rightarrow> nat" where
  "decimal s = fold (\<lambda>c n. 10 * n + (byte c - 48)) s 0"

definition parse_usize :: "string \<Rightarrow> nat option" where
  "parse_usize s = (let d = (case s of [] \<Rightarrow> [] | c # cs \<Rightarrow> if c = CHR ''+'' then cs else s)
     in if d \<noteq> [] \<and> list_all is_ascii_digit d \<and> decimal d < 2 ^ 64 then Some (decimal d) else None)"

definition header_line :: "externs \<Rightarrow> string \<Rightarrow> string hashmap \<Rightarrow> string hashmap" where
  "header_line X t headers =
     (if CHR '':'' \<in> set t
      then hm_insert (lowercase X (trim (takeWhile (\<lambda>c. c \<noteq> CHR '':'') t)))
             (trim (tl (dropWhile (\<lambda>c. c \<noteq> CHR '':'') t))) headers
      else headers)"

function read_headers :: "externs \<Rightarrow> string hashmap \<Rightarrow> chunks \<Rightarrow>
    (string + string hashmap) \<times> chunks" where
  "read_headers X headers r = (case read_line_bounded MAX_HEADER_LINE_BYTES r of
       (None, r') \<Rightarrow> (Inl ''header line too long'', r')
     | (Some line, r') \<Rightarrow>
         let t = trim line
         in if t = [] then (Inr headers, r')
            else if MAX_HEADER_COUNT \<le> length headers then (Inl ''too many headers'', r')
            else read_headers X (header_line X t headers) r')"
  by pat_completeness auto
termination
  by (relation "measure (\<lambda>(X, headers, r). chunks_size r)") (auto dest: read_line_progress [OF sym])

declare read_headers.simps [simp del]

text \<open>
  \<open>read_exact\<close> into a zeroed buffer, its error ignored: what arrives before the end of the stream
  or an error is kept, the rest stays zero.
\<close>

fun read_some :: "nat \<Rightarrow> chunks \<Rightarrow> string" where
  "read_some n (Some b # r) =
     (if b = [] \<or> n = 0 then [] else take n b @ read_some (n - length b) r)"
| "read_some n _ = []"

definition read_exact :: "nat \<Rightarrow> chunks \<Rightarrow> string" where
  "read_exact n r = (let b = read_some n r in b @ replicate (n - length b) (CHR 0x00))"

definition declared_len :: "string hashmap \<Rightarrow> nat" where
  "declared_len headers = (case hm_get headers ''content-length'' of
       None \<Rightarrow> 0
     | Some v \<Rightarrow> (case parse_usize v of None \<Rightarrow> 0 | Some n \<Rightarrow> n))"

definition read_request :: "externs \<Rightarrow> chunks \<Rightarrow> string + string hashmap \<times> string" where
  "read_request X r = (case read_headers X [] r of
       (Inl e, _) \<Rightarrow> Inl e
     | (Inr headers, r') \<Rightarrow>
         Inr (headers, if MAX_BODY_BYTES < declared_len headers then []
                       else utf8_lossy (read_exact (declared_len headers) r')))"

text \<open>
  The reading part of \<open>handle\<close>: the request line and, if it has a method and a path, the request.
  \<open>None\<close> is a request that is dropped without an answer.
\<close>

record request =
  rq_method :: string
  rq_path :: string
  rq_headers :: "string hashmap"
  rq_body :: string

definition receive :: "externs \<Rightarrow> chunks \<Rightarrow> (string + request) option" where
  "receive X r = (case read_line_bounded MAX_HEADER_LINE_BYTES r of
       (None, _) \<Rightarrow> None
     | (Some line, r') \<Rightarrow> (case split_whitespace line of
           method # path # _ \<Rightarrow> Some (case read_request X r' of
               Inl msg \<Rightarrow> Inl msg
             | Inr (headers, body) \<Rightarrow> Inr \<lparr>rq_method = method, rq_path = path,
                 rq_headers = headers, rq_body = body\<rparr>)
         | _ \<Rightarrow> None))"

section \<open>JSON bodies\<close>

text \<open>\<open>Value::get\<close>, \<open>as_str\<close> and \<open>as_bool\<close>\<close>

fun value_get :: "string \<Rightarrow> json \<Rightarrow> json option" where
  "value_get k (JObject es) = map_get es k"
| "value_get k _ = None"

fun as_str :: "json \<Rightarrow> string option" where
  "as_str (JString s) = Some s"
| "as_str _ = None"

fun as_bool :: "json \<Rightarrow> bool option" where
  "as_bool (JBool b) = Some b"
| "as_bool _ = None"

definition json_field :: "string \<Rightarrow> json \<Rightarrow> string" where
  "json_field k v = (case Option.bind (value_get k v) as_str of None \<Rightarrow> [] | Some s \<Rightarrow> trim s)"

definition required_json_string :: "string \<Rightarrow> json \<Rightarrow> string + string" where
  "required_json_string k v =
     (let field = json_field k v in if field = [] then Inl (k @ '' required'') else Inr field)"

definition optional_json_string :: "string \<Rightarrow> json \<Rightarrow> string option" where
  "optional_json_string k v =
     (let field = json_field k v in if field = [] then None else Some field)"

text \<open>\<open>Value::to_string\<close>, the compact rendering.\<close>

fun json_text :: "externs \<Rightarrow> json \<Rightarrow> string" where
  "json_text X JNull = ''null''"
| "json_text X (JBool b) = show_bool b"
| "json_text X (JNumber n) = n"
| "json_text X (JString s) = json_str X s"
| "json_text X (JArray vs) = ''['' @ join '','' (map (json_text X) vs) @ '']''"
| "json_text X (JObject es) =
     ''{'' @ join '','' (map (\<lambda>(k, v). json_str X k @ '':'' @ json_text X v) es) @ ''}''"

text \<open>
  \<open>value[k] = v\<close>: a null becomes an object; on any other value that is not an object the source
  panics (\<open>None\<close>).
\<close>

fun json_assign :: "(string \<times> json) list \<Rightarrow> json \<Rightarrow> json option" where
  "json_assign kvs (JObject es) = Some (JObject (fold (\<lambda>(k, v). map_insert k v) kvs es))"
| "json_assign kvs JNull = Some (json_object kvs)"
| "json_assign kvs _ = None"

definition opt_json :: "string option \<Rightarrow> json" where
  "opt_json v = (case v of None \<Rightarrow> JNull | Some s \<Rightarrow> JString s)"

definition json_nat :: "nat \<Rightarrow> json" where
  "json_nat n = JNumber (show_nat n)"

section \<open>Responses\<close>

definition crlf :: string where
  "crlf = [CHR 13, CHR 10]"

definition json_headers :: "nat \<Rightarrow> string" where
  "json_headers n = ''Content-Type: application/json'' @ crlf @
     ''Content-Length: '' @ show_nat n @ crlf"

definition hardening_headers :: string where
  "hardening_headers = ''Access-Control-Allow-Origin: http://localhost:7070'' @ crlf @
     ''X-Content-Type-Options: nosniff'' @ crlf"

definition ok_json :: "string \<Rightarrow> string" where
  "ok_json body = ''HTTP/1.1 200 OK'' @ crlf @ json_headers (length body) @ hardening_headers @
     crlf @ body"

definition unquoted :: "string \<Rightarrow> string" where
  "unquoted msg = replace_char (CHR 34) (CHR 39) msg"

definition err_json :: "nat \<Rightarrow> string \<Rightarrow> string" where
  "err_json status msg =
     (let body = ''{\"ok\":false,\"error\":\"'' @ unquoted msg @ ''\"}''
      in ''HTTP/1.1 '' @ show_nat status @ '' Error'' @ crlf @ json_headers (length body) @ crlf @ body)"

definition json_response :: "externs \<Rightarrow> nat \<Rightarrow> json \<Rightarrow> string" where
  "json_response X status v =
     (let body = json_text X v
      in ''HTTP/1.1 '' @ show_nat status @ '' Response'' @ crlf @ json_headers (length body) @
         hardening_headers @ crlf @ body)"

section \<open>The reader sees a stream\<close>

text \<open>
  A connection that delivers data only, and its bytes; the next line of a stream and what follows.
\<close>

definition delivers :: "chunks \<Rightarrow> bool" where
  "delivers r \<longleftrightarrow> (\<forall>c \<in> set r. c \<noteq> None \<and> c \<noteq> Some [])"

definition stream :: "chunks \<Rightarrow> string" where
  "stream r = concat (map the r)"

definition line_of :: "nat \<Rightarrow> string \<Rightarrow> string option \<times> string" where
  "line_of n s =
     (let line = takeWhile (\<lambda>c. c \<noteq> newline) s @ (if newline \<in> set s then [newline] else [])
      in (if s = [] \<or> n < length line then None else Some (utf8_lossy line), drop (length line) s))"

lemma delivers_simps [simp]:
  "delivers []" "\<not> delivers (None # r)" "delivers (Some b # r) \<longleftrightarrow> b \<noteq> [] \<and> delivers r"
  by (auto simp: delivers_def)

lemma stream_simps [simp]: "stream [] = []" "stream (Some b # r) = b @ stream r"
  by (simp_all add: stream_def)

lemma takeWhile_no: "x \<notin> set xs \<Longrightarrow> takeWhile (\<lambda>c. c \<noteq> x) (xs @ ys) = xs @ takeWhile (\<lambda>c. c \<noteq> x) ys"
  by (induction xs) auto

lemma takeWhile_none: "x \<notin> set xs \<Longrightarrow> takeWhile (\<lambda>c. c \<noteq> x) xs = xs"
  by (induction xs) auto

lemma takeWhile_yes: "x \<in> set xs \<Longrightarrow> takeWhile (\<lambda>c. c \<noteq> x) (xs @ ys) = takeWhile (\<lambda>c. c \<noteq> x) xs"
  by (induction xs) auto

lemma after_first: "x \<in> set xs \<Longrightarrow>
    drop (Suc (length (takeWhile (\<lambda>c. c \<noteq> x) xs))) xs = tl (dropWhile (\<lambda>c. c \<noteq> x) xs)"
  by (induction xs) auto

lemma first_short: "x \<in> set xs \<Longrightarrow> length (takeWhile (\<lambda>c. c \<noteq> x) xs) < length xs"
  by (induction xs) auto

lemma read_line_stream:
  assumes "delivers r" "newline \<notin> set buf" "length buf \<le> n"
  shows "fst (read_line n buf r) = fst (line_of n (buf @ stream r)) \<and>
    (fst (read_line n buf r) \<noteq> None \<longrightarrow> delivers (snd (read_line n buf r)) \<and>
       stream (snd (read_line n buf r)) = snd (line_of n (buf @ stream r)))"
  using assms
proof (induction n buf r rule: read_line.induct)
  case (1 n buf)
  then show ?case by (simp add: line_of_def Let_def takeWhile_none)
next
  case (3 n buf b r)
  show ?case
  proof (cases "newline \<in> set b")
    case True
    with 3 show ?thesis
      using first_short [OF True]
      by (auto simp: line_of_def Let_def takeWhile_no takeWhile_yes after_first Suc_diff_le)
  next
    case False
    with 3 have "n < length (buf @ b) \<Longrightarrow> fst (line_of n (buf @ b @ stream r)) = None"
      using takeWhile_no [of newline "buf @ b" "stream r"] by (auto simp: line_of_def Let_def)
    with 3 False show ?thesis by auto
  qed
qed simp

lemma read_some_stream: "delivers r \<Longrightarrow> read_some n r = take n (stream r)"
  by (induction n r rule: read_some.induct) auto

lemmas bounded_line_stream = read_line_stream [where buf = "[]", simplified, folded read_line_bounded_def]

lemma same_lines:
  assumes "delivers r" "delivers r'" "stream r = stream r'" "read_line_bounded n r = (Some l, u)"
  obtains u' where "read_line_bounded n r' = (Some l, u')" "delivers u" "delivers u'"
    "stream u = stream u'"
  using bounded_line_stream [of r n] bounded_line_stream [of r' n] assms
  by (cases "read_line_bounded n r'") auto

lemma same_headers:
  assumes "delivers r" "delivers r'" "stream r = stream r'"
  shows "fst (read_headers X hs r) = fst (read_headers X hs r') \<and>
    (is_ok (fst (read_headers X hs r)) \<longrightarrow> delivers (snd (read_headers X hs r)) \<and>
       delivers (snd (read_headers X hs r')) \<and>
       stream (snd (read_headers X hs r)) = stream (snd (read_headers X hs r')))"
  using assms
proof (induction X hs r arbitrary: r' rule: read_headers.induct)
  case (1 X hs r)
  show ?case
  proof (cases "read_line_bounded MAX_HEADER_LINE_BYTES r")
    case (Pair l u)
    show ?thesis
    proof (cases l)
      case None
      then have "fst (read_line_bounded MAX_HEADER_LINE_BYTES r') = None"
        using Pair bounded_line_stream [of r] bounded_line_stream [of r'] "1.prems"
        by (metis fst_conv)
      with Pair None show ?thesis
        by (cases "read_line_bounded MAX_HEADER_LINE_BYTES r'") (simp add: read_headers.simps)
    next
      case (Some line)
      with same_lines [OF "1.prems"] Pair obtain u' where u:
        "read_line_bounded MAX_HEADER_LINE_BYTES r' = (Some line, u')" "delivers u" "delivers u'"
        "stream u = stream u'" by metis
      have "trim line \<noteq> [] \<Longrightarrow> \<not> MAX_HEADER_COUNT \<le> length hs \<Longrightarrow> ?thesis"
        using "1.IH" [OF Pair [symmetric] Some refl _ _ u(2,3,4)] Pair Some u
        by (simp add: read_headers.simps [of X hs r] read_headers.simps [of X hs r'] Let_def)
      with Pair Some u show ?thesis
        by (auto simp: read_headers.simps [of X hs r] read_headers.simps [of X hs r'] Let_def is_ok_def)
    qed
  qed
qed

lemma same_request:
  assumes "delivers r" "delivers r'" "stream r = stream r'"
  shows "read_request X r = read_request X r'"
  using same_headers [OF assms, of X "[]"]
  by (auto simp: read_request_def read_exact_def read_some_stream is_ok_def split_def
      split: sum.splits)

section \<open>Bounds\<close>

lemma header_line_length: "length (header_line X t hs) \<le> Suc (length hs)"
proof -
  have "length (AList.update k v m) \<le> Suc (length m)" for k v and m :: "string hashmap"
    by (induction m) auto
  then show ?thesis by (simp add: header_line_def hm_insert_def le_SucI)
qed

lemma headers_bounded:
  "read_headers X hs r = (Inr hs', r') \<Longrightarrow> length hs \<le> MAX_HEADER_COUNT \<Longrightarrow>
     length hs' \<le> MAX_HEADER_COUNT"
proof (induction X hs r arbitrary: hs' r' rule: read_headers.induct)
  case (1 X hs r)
  have "length (header_line X t hs) \<le> MAX_HEADER_COUNT" if "\<not> MAX_HEADER_COUNT \<le> length hs" for t
    using header_line_length [of X t hs] that by simp
  with "1.prems"(1) [unfolded read_headers.simps [of X hs r]] "1.prems"(2) "1.IH" show ?case
    by (auto simp: Let_def split: prod.splits option.splits if_splits)
qed

lemma body_bounded:
  assumes "read_request X r = Inr (hs, body)"
  shows "length hs \<le> MAX_HEADER_COUNT \<and> length body \<le> 3 * MAX_BODY_BYTES"
proof -
  have short: "length (read_some n u) \<le> n" for n u
    by (induction n u rule: read_some.induct) auto
  have "length (utf8_lossy (read_exact n u)) \<le> 3 * MAX_BODY_BYTES" if "\<not> MAX_BODY_BYTES < n" for n u
    using utf8_lossy_length [of "read_exact n u"] short [of n u] that by (simp add: read_exact_def Let_def)
  with assms show ?thesis
    by (auto simp: read_request_def dest!: headers_bounded split: prod.splits sum.splits if_splits)
qed

text \<open>The header cap does not bound the number of lines: a line without a colon is not counted.\<close>

lemma header_cap_evaded:
  assumes "read_line_bounded MAX_HEADER_LINE_BYTES u = (Some l, v)" "trim l \<noteq> []"
    "CHR '':'' \<notin> set (trim l)" "length hs < MAX_HEADER_COUNT"
  shows "read_headers X hs u = read_headers X hs v"
  using assms by (subst read_headers.simps) (simp add: header_line_def Let_def)

section \<open>Termination\<close>

text \<open>
  A peer may never close its connection. What the reader has decided after enough chunks no later
  chunk changes: a line takes at most one chunk per byte and one for what goes beyond the cap, a
  body at most one chunk per byte, and the header loop as many lines as it reads.
\<close>

function header_lines :: "externs \<Rightarrow> string hashmap \<Rightarrow> chunks \<Rightarrow> nat" where
  "header_lines X headers r = (case read_line_bounded MAX_HEADER_LINE_BYTES r of
       (None, r') \<Rightarrow> 1
     | (Some line, r') \<Rightarrow>
         if trim line = [] \<or> MAX_HEADER_COUNT \<le> length headers then 1
         else Suc (header_lines X (header_line X (trim line) headers) r'))"
  by pat_completeness auto
termination
  by (relation "measure (\<lambda>(X, headers, r). chunks_size r)") (auto dest: read_line_progress [OF sym])

declare header_lines.simps [simp del]

lemma read_line_prefix:
  assumes "n < length r + length buf" "length buf \<le> n" "read_line n buf r = (l, r')"
  shows "read_line n buf (r @ s) = (l, r' @ s) \<and> length r \<le> length r' + Suc n - length buf"
  using assms
proof (induction n buf r rule: read_line.induct)
  case (3 n buf b r)
  show ?case
  proof (cases "b = [] \<or> newline \<in> set b \<or> n < length (buf @ b)")
    case True
    with "3.prems" show ?thesis by (auto simp: Let_def split: if_splits)
  next
    case False
    then obtain c cs where "b = c # cs" by (cases b) auto
    with False "3.IH" "3.prems" show ?thesis by auto
  qed
qed auto

abbreviation line_chunks :: nat where
  "line_chunks \<equiv> Suc MAX_HEADER_LINE_BYTES"

lemma bounded_line_prefix:
  assumes "line_chunks \<le> length r" "read_line_bounded MAX_HEADER_LINE_BYTES r = (l, r')"
  shows "read_line_bounded MAX_HEADER_LINE_BYTES (r @ s) = (l, r' @ s) \<and>
    length r \<le> length r' + line_chunks"
  using read_line_prefix [of MAX_HEADER_LINE_BYTES r "[]" l r' s] assms
  by (simp_all add: read_line_bounded_def)

lemma read_headers_prefix:
  "header_lines X hs r * line_chunks \<le> length r \<Longrightarrow> read_headers X hs r = (res, r') \<Longrightarrow>
     read_headers X hs (r @ s) = (res, r' @ s) \<and>
     length r \<le> length r' + header_lines X hs r * line_chunks"
proof (induction X hs r arbitrary: res r' rule: read_headers.induct)
  case (1 X hs r)
  obtain l u where l: "read_line_bounded MAX_HEADER_LINE_BYTES r = (l, u)" by (metis surj_pair)
  have "line_chunks \<le> length r"
    using "1.prems"(1) by (subst (asm) header_lines.simps) (auto simp: l split: option.splits if_splits)
  note p = bounded_line_prefix [OF this l, of s]
  show ?case
  proof (cases "\<exists>line. l = Some line \<and> trim line \<noteq> [] \<and> \<not> MAX_HEADER_COUNT \<le> length hs")
    case True
    then obtain line where line: "l = Some line" "trim line \<noteq> []" "\<not> MAX_HEADER_COUNT \<le> length hs" by blast
    let ?hs = "header_line X (trim line) hs"
    have n: "header_lines X hs r = Suc (header_lines X ?hs u)"
      using l line by (subst header_lines.simps) simp
    have r: "read_headers X ?hs u = (res, r')" "read_headers X hs (r @ s) = read_headers X ?hs (u @ s)"
      using l line p "1.prems"(2)
      by (simp_all add: read_headers.simps [of X hs] Let_def)
    have "header_lines X ?hs u * line_chunks \<le> length u" using "1.prems"(1) p by (simp add: n)
    from "1.IH" [OF l [symmetric] line(1) refl line(2,3) this r(1)] r(2) p show ?thesis
      by (simp add: n)
  next
    case False
    with l p "1.prems"(2) show ?thesis
      by (subst header_lines.simps) (auto simp: read_headers.simps [of X hs] Let_def
          split: option.splits if_splits)
  qed
qed

lemma read_some_0 [simp]: "read_some 0 r = []"
  by (induction "0::nat" r rule: read_some.induct) simp_all

lemma read_some_prefix: "n \<le> length r \<Longrightarrow> read_some n (r @ s) = read_some n r"
proof (induction n r rule: read_some.induct)
  case (1 n b r)
  then show ?case by (cases b) auto
qed auto

text \<open>How many chunks decide a request: its lines, the request line among them, and its body.\<close>

definition deciding_chunks :: "externs \<Rightarrow> chunks \<Rightarrow> nat" where
  "deciding_chunks X r = (case read_line_bounded MAX_HEADER_LINE_BYTES r of
     (_, r') \<Rightarrow> Suc (header_lines X [] r') * line_chunks + MAX_BODY_BYTES)"

text \<open>
  Claim C16: reading a request ends, and when it ends does not depend on the peer's good will. Once
  the connection has delivered one chunk for every byte a line may have (and one more) for each line
  the reader reads, plus one for every byte a body may have, the request is received, refused or
  dropped, and nothing that follows changes which; so a peer that keeps the connection open and
  trickles bytes for ever cannot hold the reader on a line or on a body, only by sending ever more
  header lines.
\<close>

theorem reading_terminates:
  assumes "deciding_chunks X r \<le> length r"
  shows "receive X (r @ s) = receive X r"
proof -
  obtain l u where l: "read_line_bounded MAX_HEADER_LINE_BYTES r = (l, u)" by (metis surj_pair)
  let ?n = "header_lines X [] u"
  have n: "Suc ?n * line_chunks + MAX_BODY_BYTES \<le> length r"
    using assms by (simp add: deciding_chunks_def l)
  then have "line_chunks \<le> length r" by simp
  note p = bounded_line_prefix [OF this l, of s]
  obtain res v where h: "read_headers X [] u = (res, v)" by (metis surj_pair)
  have u: "?n * line_chunks \<le> length u" using n p by simp
  note q = read_headers_prefix [OF u h, of s]
  have "MAX_BODY_BYTES \<le> length v" using n p q by simp
  then have "read_exact m (v @ s) = read_exact m v" if "m \<le> MAX_BODY_BYTES" for m
    using that by (simp add: read_exact_def read_some_prefix)
  then have "read_request X (u @ s) = read_request X u"
    using h q by (auto simp: read_request_def split: sum.split)
  then show ?thesis using l p by (simp add: receive_def split: option.split list.split)
qed

text \<open>
  Claim C15: what a request says does not depend on how the network cuts it up, and what the
  handler gets is bounded. Two connections that deliver the same bytes, in whatever chunks, are
  received as the same request (or refused or dropped alike); and whatever a peer sends, errors
  and early ends of the stream included, a received request has at most 100 headers and a body of
  at most three times 256 KiB (an invalid byte becomes a replacement character of three bytes).
\<close>

theorem request_reading:
  "(delivers r \<and> delivers r' \<and> stream r = stream r' \<longrightarrow> receive X r = receive X r') \<and>
   (receive X c = Some (Inr q) \<longrightarrow>
      length (rq_headers q) \<le> MAX_HEADER_COUNT \<and> length (rq_body q) \<le> 3 * MAX_BODY_BYTES)"
proof (intro conjI impI; (elim conjE)?)
  assume d: "delivers r" "delivers r'" and s: "stream r = stream r'"
  show "receive X r = receive X r'"
  proof (cases "read_line_bounded MAX_HEADER_LINE_BYTES r")
    case (Pair l u)
    show ?thesis
    proof (cases l)
      case None
      then have "fst (read_line_bounded MAX_HEADER_LINE_BYTES r') = None"
        using Pair bounded_line_stream [of r] bounded_line_stream [of r'] d s by (metis fst_conv)
      with Pair None show ?thesis
        by (cases "read_line_bounded MAX_HEADER_LINE_BYTES r'") (simp add: receive_def)
    next
      case (Some line)
      with same_lines [OF d s] Pair obtain u' where
        "read_line_bounded MAX_HEADER_LINE_BYTES r' = (Some line, u')" "delivers u" "delivers u'"
        "stream u = stream u'" by metis
      with Pair Some same_request [of u u' X] show ?thesis
        by (auto simp: receive_def split: list.split)
    qed
  qed
next
  assume "receive X c = Some (Inr q)"
  then show "length (rq_headers q) \<le> MAX_HEADER_COUNT" "length (rq_body q) \<le> 3 * MAX_BODY_BYTES"
    by (auto simp: receive_def dest!: body_bounded split: prod.splits option.splits list.splits
        sum.splits)
qed

definition demo_get :: string where
  "demo_get = ''GET /a'' @ crlf @ ''h:b'' @ crlf @ crlf"

lemma demo_get_lines:
  "read_line_bounded MAX_HEADER_LINE_BYTES (Some demo_get # r) =
     (Some (''GET /a'' @ crlf), Some (''h:b'' @ crlf @ crlf) # r)"
  "read_line_bounded MAX_HEADER_LINE_BYTES (Some (''h:b'' @ crlf @ crlf) # r) =
     (Some (''h:b'' @ crlf), Some crlf # r)"
  "read_line_bounded MAX_HEADER_LINE_BYTES (Some crlf # r) = (Some crlf, r)"
  by (simp_all add: read_line_bounded_def newline_def demo_get_def crlf_def MAX_HEADER_LINE_BYTES_def
      utf8_lossy_ascii byte_def)

lemma demo_get_trimmed:
  "trim (''h:b'' @ crlf) = ''h:b''" "trim crlf = []" "trim ''h'' = ''h''" "trim ''b'' = ''b''"
  by (simp_all add: trim_def crlf_def utf8_len_def is_ws_def byte_def is_whitespace_cp_def)

lemma demo_get_received: "receive demo (Some demo_get # r) = Some (Inr \<lparr>rq_method = ''GET'',
    rq_path = ''/a'', rq_headers = [(''h'', ''b'')], rq_body = []\<rparr>)"
proof -
  have w: "split_whitespace (''GET /a'' @ crlf) = [''GET'', ''/a'']"
    by (simp add: split_whitespace_def crlf_def utf8_len_def is_ws_def byte_def
        is_whitespace_cp_def ws_tokens.simps)
  have "read_request demo (Some (''h:b'' @ crlf @ crlf) # r) = Inr ([(''h'', ''b'')], [])"
    using demo_get_lines demo_get_trimmed
    by (simp add: read_request_def read_headers.simps header_line_def demo_def
        hm_insert_def declared_len_def hm_get_def read_exact_def MAX_BODY_BYTES_def
        MAX_HEADER_COUNT_def to_ascii_lowercase_def ascii_lower_char_def char_le_def)
  with demo_get_lines w show ?thesis by (simp add: receive_def)
qed

theorem reading_terminates_witness:
  "\<forall>s. receive demo ((Some demo_get # replicate 286722 (Some ''x'')) @ s) =
     Some (Inr \<lparr>rq_method = ''GET'', rq_path = ''/a'', rq_headers = [(''h'', ''b'')], rq_body = []\<rparr>)"
proof
  fix s
  have "deciding_chunks demo (Some demo_get # r) = 286723" for r
    using demo_get_lines demo_get_trimmed
    by (simp add: deciding_chunks_def header_lines.simps MAX_HEADER_COUNT_def MAX_BODY_BYTES_def
        MAX_HEADER_LINE_BYTES_def)
  then show "receive demo ((Some demo_get # replicate 286722 (Some ''x'')) @ s) =
     Some (Inr \<lparr>rq_method = ''GET'', rq_path = ''/a'', rq_headers = [(''h'', ''b'')], rq_body = []\<rparr>)"
    using reading_terminates [of demo "Some demo_get # replicate 286722 (Some ''x'')" s]
      demo_get_received by simp
qed

theorem request_reading_witness:
  "receive demo (map (\<lambda>c. Some [c]) demo_get) = receive demo [Some demo_get] \<and>
   length (rq_headers \<lparr>rq_method = ''GET'', rq_path = ''/a'',
     rq_headers = [(''h'', ''b'')], rq_body = []\<rparr>) \<le> MAX_HEADER_COUNT"
  using request_reading [where r = "map (\<lambda>c. Some [c]) demo_get" and r' = "[Some demo_get]"
      and c = "[Some demo_get]" and X = demo and q = "\<lparr>rq_method = ''GET'', rq_path = ''/a'',
        rq_headers = [(''h'', ''b'')], rq_body = []\<rparr>"] demo_get_received
  by (simp add: delivers_def stream_def demo_get_def comp_def crlf_def)

end
