(* ===== verification/Server.thy ===== *)
theory Server
  imports Http Governed
begin

text \<open>
  The request half of \<open>server.rs\<close>: authentication by the service token, one definition per endpoint
  over the evidence-governed pipeline, the dispatch. Start-up and the accept loop are in \<open>Startup\<close>.

  A request is handled in one step. The handlers change the state only through the operations of
  \<open>Governed\<close> and by drawing UUIDs; \<open>None\<close> is a connection that is closed without an answer.
\<close>

section \<open>The process\<close>

text \<open>
  What a handler finds around it: the libraries, the storage, the \<open>Debug\<close> rendering of strings, the
  parsers of JSON text and of a model context (with the text of its error), the renderings of a
  point in time in JSON and by \<open>to_rfc3339\<close>, the environment, and the service token.
\<close>

record server =
  sv_x :: externs
  sv_storage :: storage
  sv_dbg :: "string \<Rightarrow> string"
  sv_parse_json :: "string \<Rightarrow> json option"
  sv_parse_envelope :: "string \<Rightarrow> string + model_context_envelope"
  sv_json_time :: "int \<Rightarrow> string"
  sv_rfc3339 :: "int \<Rightarrow> string"
  sv_env :: "string \<Rightarrow> string option"
  sv_token :: string

definition env_or :: "(string \<Rightarrow> string option) \<Rightarrow> string \<Rightarrow> string \<Rightarrow> string" where
  "env_or env k d = (case env k of None \<Rightarrow> d | Some v \<Rightarrow> v)"

definition token_digest :: "externs \<Rightarrow> string \<Rightarrow> string" where
  "token_digest X v = sha_hex X v"

definition service_principal_fingerprint :: "externs \<Rightarrow> string \<Rightarrow> string" where
  "service_principal_fingerprint X token = sha_hex X token"

definition runtime_policy_hash :: "externs \<Rightarrow> (string \<Rightarrow> string option) \<Rightarrow> string" where
  "runtime_policy_hash X env =
     sha_hex X (''governance-spine:'' @ ''1.0.0'' @ ''|industry:'' @
       env_or env ''SENTOW_INDUSTRY_PROFILE'' ''consumer'' @ ''|govmem:'' @
       env_or env ''GOVMEM_MODE'' ''v1'')"

definition strip_prefix :: "string \<Rightarrow> string \<Rightarrow> string option" where
  "strip_prefix p s = (if prefix p s then Some (drop (length p) s) else None)"

definition bearer :: "string hashmap \<Rightarrow> string" where
  "bearer headers = (case Option.bind (hm_get headers ''authorization'') (strip_prefix ''Bearer '') of
       None \<Rightarrow> [] | Some v \<Rightarrow> trim v)"

definition authorized :: "externs \<Rightarrow> string hashmap \<Rightarrow> string \<Rightarrow> bool" where
  "authorized X headers expected \<longleftrightarrow>
     bearer headers \<noteq> [] \<and> token_digest X (bearer headers) = token_digest X expected"

section \<open>Texts\<close>

fun sink_status_json :: "sink_status \<Rightarrow> json" where
  "sink_status_json NotConfigured = JString ''NotConfigured''"
| "sink_status_json (Delivered s) = json_object [(''Delivered'', json_object [(''sink'', JString s)])]"
| "sink_status_json (Deferred s e) = json_object
     [(''Deferred'', json_object [(''sink'', JString s), (''error'', JString e)])]"

definition evidence_receipt_json :: "append_receipt \<Rightarrow> json" where
  "evidence_receipt_json r = json_object
     [(''event_id'', JString (er_event_id r)), (''event_hash'', JString (er_event_hash r)),
      (''sequence'', json_nat (unat (er_sequence r))), (''epoch_id'', JString (er_epoch_id r)),
      (''sink_status'', sink_status_json (er_sink_status r))]"

text \<open>A quoted text: the source writes it between quotation marks without escaping it.\<close>

definition quoted :: "string \<Rightarrow> string" where
  "quoted s = [CHR 34] @ s @ [CHR 34]"

definition text_object :: "(string \<times> string) list \<Rightarrow> string" where
  "text_object kvs = ''{'' @ join '','' (map (\<lambda>(k, v). quoted k @ '':'' @ v) kvs) @ ''}''"

definition verdict_json :: "enforcement_result \<Rightarrow> string \<Rightarrow> string" where
  "verdict_json res sid = text_object (case res of
       Approved _ \<Rightarrow> [(''ok'', ''true''), (''verdict'', quoted ''APPROVED''),
         (''session_id'', quoted sid)]
     | Restricted _ r \<Rightarrow> [(''ok'', ''true''), (''verdict'', quoted ''RESTRICTED''),
         (''session_id'', quoted sid), (''tool_calls_disabled'', show_bool (tool_calls_disabled r)),
         (''enhanced_logging'', show_bool (enhanced_logging r))]
     | Quarantined msg \<Rightarrow> [(''ok'', ''false''), (''verdict'', quoted ''QUARANTINED''),
         (''session_id'', quoted sid), (''message'', quoted (unquoted msg))]
     | HardLocked msg \<Rightarrow> [(''ok'', ''false''), (''verdict'', quoted ''HARD_LOCKED''),
         (''session_id'', quoted sid), (''message'', quoted (unquoted msg))]
     | HaapGated reason ag drs \<Rightarrow> [(''ok'', ''false''), (''verdict'', quoted ''HAAP_GATED''),
         (''session_id'', quoted sid), (''reason'', quoted (unquoted reason)),
         (''agency'', quoted (show_agency ag)), (''drs'', show_nat (unat drs))])"

text \<open>What a session id with quotation marks does to the text of a refusal.\<close>

lemma session_id_unescaped:
  "contains (verdict_json (HardLocked msg) ''s\",\"verdict\":\"APPROVED'') ''\"verdict\":\"APPROVED\"''"
  by (simp add: verdict_json_def text_object_def quoted_def)

fun show_envelope_error :: "envelope_error \<Rightarrow> string" where
  "show_envelope_error (MissingField f) = ''required field is empty: '' @ f"
| "show_envelope_error (InvalidField f) = ''invalid field: '' @ f"
| "show_envelope_error (InvalidDigest f) = ''invalid SHA-256 digest: '' @ f"
| "show_envelope_error (LimitExceeded f) = ''contract limit exceeded: '' @ f"
| "show_envelope_error (InvalidContextSegment n r) =
     ''invalid context segment '' @ show_nat (unat n) @ '': '' @ r"
| "show_envelope_error (DuplicateAttachmentId i) = ''duplicate attachment id: '' @ i"
| "show_envelope_error (UnknownAttachmentId i) = ''unknown attachment id: '' @ i"
| "show_envelope_error (HashMismatch f) = ''hash mismatch: '' @ f"
| "show_envelope_error (Canonicalization r) = ''canonicalization failed: '' @ r"

fun risk_class_name :: "action_risk_class \<Rightarrow> string" where
  "risk_class_name UnknownTool = ''unknown_tool''"
| "risk_class_name PathTraversal = ''path_traversal''"
| "risk_class_name CredentialAccess = ''credential_access''"
| "risk_class_name ProtectedResourceMutation = ''protected_resource_mutation''"
| "risk_class_name DestructiveShell = ''destructive_shell''"
| "risk_class_name PrivilegeEscalation = ''privilege_escalation''"
| "risk_class_name RemoteCodeExecution = ''remote_code_execution''"
| "risk_class_name BrowserScriptExecution = ''browser_script_execution''"
| "risk_class_name FilesystemMutation = ''filesystem_mutation''"
| "risk_class_name ShellExecution = ''shell_execution''"
| "risk_class_name ExternalInteraction = ''external_interaction''"
| "risk_class_name ControlSchemaViolation = ''control_schema_violation''"
| "risk_class_name ControlAction = ''control_action''"

section \<open>Endpoints\<close>

type_synonym 's handler = "'s gst \<Rightarrow> string option \<times> 's gst"

text \<open>Answers that leave the state alone, and the parsing every handler with a body starts with.\<close>

definition answer :: "string \<Rightarrow> 's handler" where
  "answer text gw = (Some text, gw)"

definition answer_json :: "server \<Rightarrow> nat \<Rightarrow> (string \<times> json) list \<Rightarrow> 's handler" where
  "answer_json sv status kvs = answer (json_response (sv_x sv) status (json_object kvs))"

definition refuse_json :: "server \<Rightarrow> string \<Rightarrow> 's handler" where
  "refuse_json sv msg = answer_json sv 400 [(''ok'', JBool False), (''error'', JString msg)]"

definition with_body :: "server \<Rightarrow> string \<Rightarrow> (json \<Rightarrow> 's handler) \<Rightarrow> 's handler" where
  "with_body sv body k = (case sv_parse_json sv body of
       None \<Rightarrow> refuse_json sv ''valid JSON body required''
     | Some v \<Rightarrow> k v)"

text \<open>\<open>format!("GTX-{}", Uuid::new_v4().simple())\<close>\<close>

definition new_gov_tx :: "server \<Rightarrow> 's gst \<Rightarrow> string \<times> 's gst" where
  "new_gov_tx sv gw = (''GTX-'' @ uuid_simple (sv_x sv) (ids (snd gw)), fst gw, draw_id (snd gw))"

text \<open>
  A verdict that is not an approval: the text of \<open>verdict_json\<close>, parsed again and extended.
\<close>

definition verdict_reply :: "server \<Rightarrow> enforcement_result \<Rightarrow> string \<Rightarrow> (string \<times> json) list \<Rightarrow>
    string option" where
  "verdict_reply sv res sid extra =
     (let parsed = (case sv_parse_json sv (verdict_json res sid) of
            None \<Rightarrow> json_object [(''ok'', JBool False),
              (''verdict'', JString ''SERIALIZATION_ERROR''), (''session_id'', JString sid)]
          | Some v \<Rightarrow> v)
      in map_option (json_response (sv_x sv) 200) (json_assign extra parsed))"

definition handle_health :: "server \<Rightarrow> 's handler" where
  "handle_health sv gw = (let P = gv_pipeline (fst gw); pl = gv_evidence (fst gw) in
     answer (ok_json (text_object
       [(''ok'', ''true''), (''service'', quoted ''sentinel-overwatch''),
        (''audit_entries'', show_nat (pl_audit_entry_count P)),
        (''chain_length'', show_nat (pl_chain_length (P, snd gw))),
        (''evidence_entries'', show_nat (evidence_len pl)),
        (''evidence_pending_sink'', show_nat (pending_sink_count pl)),
        (''evidence_epoch'', quoted (ev_epoch_id pl))])) gw)"

definition approval_reply :: "server \<Rightarrow> string \<Rightarrow> string \<Rightarrow> (string \<times> json) list \<Rightarrow>
    (string \<times> json) list \<Rightarrow> 's handler" where
  "approval_reply sv sid tx granted denied gw =
     (case pl_approved_verdict_id tx sid (gv_pipeline (fst gw)) of
        Some verdict_id \<Rightarrow> answer_json sv 200
          ([(''ok'', JBool True), (''verdict'', JString ''APPROVED''), (''session_id'', JString sid),
            (''gov_tx_id'', JString tx), (''verdict_id'', JString verdict_id)] @ granted) gw
      | None \<Rightarrow> answer_json sv 500
          ([(''ok'', JBool False), (''verdict'', JString ''INTERNAL_AUTHORITY_ERROR''),
            (''session_id'', JString sid), (''gov_tx_id'', JString tx)] @ denied @
           [(''error'', JString ''final approval receipt missing'')]) gw)"

definition handle_inspect :: "server \<Rightarrow> string \<Rightarrow> 's handler" where
  "handle_inspect sv body = with_body sv body (\<lambda>v gw.
     case ebind (required_json_string ''payload'' v) (\<lambda>payload.
          ebind (required_json_string ''session_id'' v) (\<lambda>sid. Inr (payload, sid))) of
       Inl e \<Rightarrow> answer (err_json 400 e) gw
     | Inr (payload, sid) \<Rightarrow>
         (let (tx, gw1) = new_gov_tx sv gw;
              (res, gw2) = gv_lift (inbound_with_identity (sv_x sv) payload sid tx
                (optional_json_string ''department_id'' v) (optional_json_string ''agent_id'' v)) gw1
          in if is_approved res
             then approval_reply sv sid tx [(''provider_authorizable'', JBool True)]
                    [(''provider_authorizable'', JBool False)] gw2
             else (verdict_reply sv res sid [(''gov_tx_id'', JString tx),
                     (''provider_authorizable'', JBool False)], gw2)))"

definition handle_outbound :: "server \<Rightarrow> string \<Rightarrow> 's handler" where
  "handle_outbound sv body = with_body sv body (\<lambda>v gw.
     case ebind (required_json_string ''payload'' v) (\<lambda>payload.
          ebind (required_json_string ''session_id'' v) (\<lambda>sid.
          ebind (required_json_string ''context_hash'' v) (\<lambda>ctx.
          ebind (required_json_string ''run_id'' v) (\<lambda>run. Inr (payload, sid, ctx, run))))) of
       Inl e \<Rightarrow> refuse_json sv e gw
     | Inr (payload, sid, ctx, run) \<Rightarrow>
         (let ((res, receipt), gw') = gv_outbound_with_evidence (sv_x sv) payload sid ctx run gw
          in case res of
               Inr r \<Rightarrow>
                 (verdict_reply sv r sid [(''evidence'', evidence_receipt_json receipt)], gw')
             | Inl e \<Rightarrow> answer_json sv 403
                 [(''ok'', JBool False), (''verdict'', JString ''OUTBOUND_WITHHELD''),
                  (''authorized'', JBool False), (''error'', JString (debug_outbound_error e)),
                  (''evidence'', evidence_receipt_json receipt)] gw'))"

definition handle_context_inspect :: "server \<Rightarrow> string \<Rightarrow> 's handler" where
  "handle_context_inspect sv body gw = (case sv_parse_envelope sv body of
       Inl e \<Rightarrow> refuse_json sv (''invalid model context envelope: '' @ e) gw
     | Inr env \<Rightarrow>
         (let v = (case sv_parse_json sv body of None \<Rightarrow> JNull | Some v \<Rightarrow> v);
              sid = mc_session_id env;
              (tx, gw1) = new_gov_tx sv gw;
              ((res, receipt), gw2) = gv_inbound_context_with_identity_and_evidence (sv_x sv) env tx
                (optional_json_string ''department_id'' v) (optional_json_string ''agent_id'' v) gw1;
              ev = [(''evidence'', evidence_receipt_json receipt)];
              may = (\<lambda>b. [(''provider_authorizable'', JBool b), (''action_authorizable'', JBool b)])
          in case res of
               Inl e \<Rightarrow> answer_json sv 400 ([(''ok'', JBool False),
                 (''error'', JString (''envelope validation failed: '' @ show_envelope_error e))] @ ev)
                 gw2
             | Inr r \<Rightarrow>
                 if is_approved r
                 then approval_reply sv sid tx ([(''context_hash'', JString (mc_context_hash env)),
                        (''run_id'', JString (mc_run_id env))] @ may True @ ev) (may False @ ev) gw2
                 else (verdict_reply sv r sid ([(''gov_tx_id'', JString tx)] @ may False @ ev), gw2)))"

text \<open>The reply to an authorisation lists the token; its identity is the service's own.\<close>

definition token_reply :: "server \<Rightarrow> capability_token \<Rightarrow> (string \<times> json) list" where
  "token_reply sv t =
     [(''ok'', JBool True), (''decision_id'', JString (ct_haap_decision_id t)),
      (''capability_id'', JString (ct_token_id t)), (''gov_tx_id'', JString (ct_gov_tx_id t)),
      (''session_id'', JString (ct_session_id t)), (''run_id'', JString (ct_run_id t)),
      (''principal_fingerprint'', JString (ct_principal_fingerprint t)),
      (''authority'', JString (ct_authority t)),
      (''verdict_id'', JString (ct_sentinel_verdict_id t)),
      (''context_hash'', JString (ct_context_hash t)),
      (''policy_hash'', JString (ct_policy_hash t)),
      (''policy_version'', JString (ct_policy_version t)),
      (''expires_at'', JString (sv_json_time sv (ct_expires_at t))),
      (''max_uses'', json_nat (unat (ct_max_uses t)))]"

definition parse_provider_request :: "server \<Rightarrow> json \<Rightarrow> pipeline \<Rightarrow>
    string + provider_authorization_request" where
  "parse_provider_request sv v P =
     ebind (required_json_string ''gov_tx_id'' v) (\<lambda>tx.
     ebind (required_json_string ''session_id'' v) (\<lambda>sid.
     ebind (required_json_string ''backend'' v) (\<lambda>backend.
     ebind (required_json_string ''model'' v) (\<lambda>model.
     ebind (required_json_string ''action_class'' v) (\<lambda>cls.
     ebind (required_json_string ''context_hash'' v) (\<lambda>ctx.
     ebind (required_json_string ''run_id'' v) (\<lambda>run.
       Inr \<lparr>pr_gov_tx_id = tx, pr_session_id = sid,
         pr_principal_fingerprint = service_principal_fingerprint (sv_x sv) (sv_token sv),
         pr_backend = backend, pr_model = model, pr_action_class = cls,
         pr_policy_hash = runtime_policy_hash (sv_x sv) (sv_env sv),
         pr_authorization_basis = ''FinalPipelineApproved'', pr_agency = ''ExecuteActions'',
         pr_drs = session_drs sid P, pr_context_hash = ctx, pr_run_id = run,
         pr_policy_version = active_policy_version P\<rparr>)))))))"

definition handle_provider_authorize :: "server \<Rightarrow> string \<Rightarrow> 's handler" where
  "handle_provider_authorize sv body = with_body sv body (\<lambda>v gw.
     case parse_provider_request sv v (gv_pipeline (fst gw)) of
       Inl e \<Rightarrow> refuse_json sv e gw
     | Inr r \<Rightarrow>
         (let ((res, receipt), gw') =
                gv_authorize_provider_with_evidence (sv_x sv) (sv_dbg sv) r gw;
              ev = [(''evidence'', evidence_receipt_json receipt)]
          in case res of
               Inr t \<Rightarrow> answer_json sv 200 (token_reply sv t @
                 [(''backend'', JString (ct_backend t)), (''model'', JString (ct_model t)),
                  (''action_class'', JString (ct_action_class t))] @ ev) gw'
             | Inl e \<Rightarrow> answer_json sv 403 ([(''ok'', JBool False), (''authorized'', JBool False),
                 (''error'', JString (debug_provider_error (sv_dbg sv) e))] @ ev) gw'))"

text \<open>
  The two consume endpoints: the request's identifiers, and the binding presented for them, whose
  principal and policy are again the service's own.
\<close>

definition consume_reply :: "server \<Rightarrow> presented_binding \<Rightarrow> (bool \<Rightarrow> (string \<times> json) list) \<Rightarrow>
    's handler" where
  "consume_reply sv p extra gw =
     (let ((outcome, receipt), gw') = gv_consume_with_evidence (sv_x sv) p gw;
          ok = consume_authorized outcome
      in answer_json sv (if ok then 200 else 403)
           ([(''ok'', JBool ok), (''authorized'', JBool ok),
             (''outcome'', JString (as_audit_str outcome)),
             (''capability_id'', JString (pb_token_id p)),
             (''gov_tx_id'', JString (pb_gov_tx_id p)), (''session_id'', JString (pb_session_id p)),
             (''evidence'', evidence_receipt_json receipt)] @ extra ok) gw')"

definition parse_provider_consume :: "server \<Rightarrow> json \<Rightarrow> pipeline \<Rightarrow> string + presented_binding" where
  "parse_provider_consume sv v P =
     ebind (required_json_string ''capability_id'' v) (\<lambda>cap.
     ebind (required_json_string ''gov_tx_id'' v) (\<lambda>tx.
     ebind (required_json_string ''session_id'' v) (\<lambda>sid.
     ebind (required_json_string ''backend'' v) (\<lambda>backend.
     ebind (required_json_string ''model'' v) (\<lambda>model.
     ebind (required_json_string ''context_hash'' v) (\<lambda>ctx.
     ebind (required_json_string ''run_id'' v) (\<lambda>run.
       Inr \<lparr>pb_token_id = cap, pb_gov_tx_id = tx, pb_session_id = sid,
         pb_principal_fingerprint = service_principal_fingerprint (sv_x sv) (sv_token sv),
         pb_authority = AUTHORITY_PROVIDER_EXECUTE, pb_backend = backend, pb_model = model,
         pb_run_id = run, pb_context_hash = ctx, pb_policy_version = active_policy_version P,
         pb_policy_hash = runtime_policy_hash (sv_x sv) (sv_env sv), pb_action_hash = [],
         pb_tool_name = [], pb_resource_kind = [], pb_resource_locator = [],
         pb_tool_call_id = [], pb_plane = []\<rparr>)))))))"

definition handle_provider_consume :: "server \<Rightarrow> string \<Rightarrow> 's handler" where
  "handle_provider_consume sv body = with_body sv body (\<lambda>v gw.
     case parse_provider_consume sv v (gv_pipeline (fst gw)) of
       Inl e \<Rightarrow> refuse_json sv e gw
     | Inr p \<Rightarrow> consume_reply sv p (\<lambda>_. []) gw)"

definition parse_action_request :: "server \<Rightarrow> json \<Rightarrow> pipeline \<Rightarrow>
    string + action_authorization_request" where
  "parse_action_request sv v P =
     ebind (required_json_string ''gov_tx_id'' v) (\<lambda>tx.
     ebind (required_json_string ''session_id'' v) (\<lambda>sid.
     ebind (required_json_string ''run_id'' v) (\<lambda>run.
     ebind (required_json_string ''tool_name'' v) (\<lambda>tool.
     ebind (required_json_string ''resource_kind'' v) (\<lambda>kind.
     ebind (required_json_string ''resource_locator'' v) (\<lambda>loc.
     ebind (required_json_string ''tool_call_id'' v) (\<lambda>call.
     ebind (required_json_string ''context_hash'' v) (\<lambda>ctx.
       Inr \<lparr>aar_gov_tx_id = tx, aar_session_id = sid, aar_run_id = run,
         aar_principal_fingerprint = service_principal_fingerprint (sv_x sv) (sv_token sv),
         aar_tool_name = tool,
         aar_arguments = (case value_get ''arguments'' v of None \<Rightarrow> JNull | Some a \<Rightarrow> a),
         aar_resource_kind = kind, aar_resource_locator = loc, aar_tool_call_id = call,
         aar_context_hash = ctx, aar_policy_version = active_policy_version P,
         aar_policy_hash = runtime_policy_hash (sv_x sv) (sv_env sv)\<rparr>))))))))"

text \<open>The diagnostics that go with an action: what its tool's name means.\<close>

definition action_diagnostics :: "string \<Rightarrow> (string \<times> json) list" where
  "action_diagnostics tool = (let a = derive_action_semantics_for_tool tool in
     [(''plane'', JString (plane_str (as_plane a))),
      (''normalized_action'', JString (as_normalized_action a)),
      (''required_for_safe_completion'', JBool (required_for_safe_completion a))])"

fun structural_error :: "action_authorization_error \<Rightarrow> bool" where
  "structural_error ActMalformedContextHash = True"
| "structural_error (ActEnvelope _) = True"
| "structural_error _ = False"

fun denied_risks :: "action_authorization_error \<Rightarrow> json" where
  "denied_risks (ActDenied rs) = JArray (map (\<lambda>r. JString (risk_class_name r)) rs)"
| "denied_risks _ = JNull"

definition action_refusal :: "string \<Rightarrow> action_authorization_error \<Rightarrow> (string \<times> json) list" where
  "action_refusal tool e = action_diagnostics tool @ [(''native_tool'', JString tool)] @
     (if structural_error e
      then [(''decision_type'', JString ''structural_validation_failed''),
            (''denial_stage'', JString ''action_envelope_validation'')]
      else [(''decision_type'', JString ''action_authorization_denied''),
            (''denial_stage'', JString ''action_gate''), (''risk_classes'', denied_risks e)])"

definition handle_action_authorize :: "server \<Rightarrow> string \<Rightarrow> 's handler" where
  "handle_action_authorize sv body = with_body sv body (\<lambda>v gw.
     case parse_action_request sv v (gv_pipeline (fst gw)) of
       Inl e \<Rightarrow> refuse_json sv e gw
     | Inr r \<Rightarrow>
         (let ((res, receipt), gw') =
                gv_authorize_action_with_evidence (sv_x sv) (sv_dbg sv) r gw;
              ev = [(''evidence'', evidence_receipt_json receipt)]
          in case res of
               Inr t \<Rightarrow> answer_json sv 200 (token_reply sv t @
                 [(''tool_name'', JString (ct_tool_name t)),
                  (''resource_kind'', JString (ct_resource_kind t)),
                  (''resource_locator'', JString (ct_resource_locator t)),
                  (''tool_call_id'', JString (ct_tool_call_id t)),
                  (''action_hash'', JString (ct_action_hash t)),
                  (''plane'', JString (plane_str (ct_action_plane t))),
                  (''normalized_action'', JString (ct_normalized_action t)),
                  (''required_for_safe_completion'', JBool (ct_required_for_safe_completion t))]
                 @ ev) gw'
             | Inl e \<Rightarrow> answer_json sv (if structural_error e then 400 else 403)
                 ([(''ok'', JBool False), (''authorized'', JBool False),
                   (''error'', JString (debug_action_error (sv_dbg sv) e))] @ ev @
                  [(''diagnostics'', json_object (action_refusal (aar_tool_name r) e))]) gw'))"

definition parse_action_consume :: "server \<Rightarrow> json \<Rightarrow> pipeline \<Rightarrow> string + presented_binding" where
  "parse_action_consume sv v P =
     ebind (required_json_string ''capability_id'' v) (\<lambda>cap.
     ebind (required_json_string ''gov_tx_id'' v) (\<lambda>tx.
     ebind (required_json_string ''session_id'' v) (\<lambda>sid.
     ebind (required_json_string ''run_id'' v) (\<lambda>run.
     ebind (required_json_string ''context_hash'' v) (\<lambda>ctx.
     ebind (required_json_string ''action_hash'' v) (\<lambda>ah.
     ebind (required_json_string ''tool_name'' v) (\<lambda>tool.
     ebind (required_json_string ''resource_kind'' v) (\<lambda>kind.
     ebind (required_json_string ''resource_locator'' v) (\<lambda>loc.
       Inr \<lparr>pb_token_id = cap, pb_gov_tx_id = tx, pb_session_id = sid,
         pb_principal_fingerprint = service_principal_fingerprint (sv_x sv) (sv_token sv),
         pb_authority = AUTHORITY_ACTION_EXECUTE, pb_backend = [], pb_model = [],
         pb_run_id = run, pb_context_hash = ctx, pb_policy_version = active_policy_version P,
         pb_policy_hash = runtime_policy_hash (sv_x sv) (sv_env sv), pb_action_hash = ah,
         pb_tool_name = tool, pb_resource_kind = kind, pb_resource_locator = loc,
         pb_tool_call_id = (case optional_json_string ''tool_call_id'' v of
            None \<Rightarrow> [] | Some c \<Rightarrow> c),
         pb_plane = plane_str (as_plane (derive_action_semantics_for_tool tool))\<rparr>)))))))))"

definition handle_action_consume :: "server \<Rightarrow> string \<Rightarrow> 's handler" where
  "handle_action_consume sv body = with_body sv body (\<lambda>v gw.
     case parse_action_consume sv v (gv_pipeline (fst gw)) of
       Inl e \<Rightarrow> refuse_json sv e gw
     | Inr p \<Rightarrow> consume_reply sv p (\<lambda>ok. [(''diagnostics'', json_object
          (action_diagnostics (pb_tool_name p) @
           [(''denial_stage'', if ok then JNull else JString ''action_capability_consume'')]))]) gw)"

text \<open>\<open>trim_start_matches\<close> and \<open>trim_end_matches\<close> of a nonempty pattern, every repetition.\<close>

function trim_start_matches :: "string \<Rightarrow> string \<Rightarrow> string" where
  "trim_start_matches p s =
     (if p \<noteq> [] \<and> prefix p s then trim_start_matches p (drop (length p) s) else s)"
  by pat_completeness auto
termination
  by (relation "measure (\<lambda>(p, s). length s)") (auto simp: prefix_def)

declare trim_start_matches.simps [simp del]

definition trim_end_matches :: "string \<Rightarrow> string \<Rightarrow> string" where
  "trim_end_matches p s = rev (trim_start_matches (rev p) (rev s))"

definition session_path :: "string \<Rightarrow> bool" where
  "session_path p \<longleftrightarrow> prefix ''/session/'' p \<and> suffix ''/state'' p"

definition handle_session_state :: "server \<Rightarrow> string \<Rightarrow> 's handler" where
  "handle_session_state sv path gw =
     (let sid = trim_end_matches ''/state'' (trim_start_matches ''/session/'' path);
          P = gv_pipeline (fst gw)
      in answer (ok_json (text_object
           [(''ok'', ''true''), (''session_id'', quoted sid),
            (''state'', quoted (show_state (pl_current_state sid P))),
            (''drs'', show_nat (unat (session_drs sid P)))])) gw)"

definition handle_session_reset :: "server \<Rightarrow> string \<Rightarrow> 's handler" where
  "handle_session_reset sv body = with_body sv body (\<lambda>v gw.
     case required_json_string ''session_id'' v of
       Inl e \<Rightarrow> answer (err_json 400 e) gw
     | Inr sid \<Rightarrow>
         (let token = (case optional_json_string ''operator_token'' v of
                None \<Rightarrow> [] | Some t \<Rightarrow> t);
              (res, gw') = gv_lift (operator_reset (sv_x sv) sid token) gw
          in case res of
               Inr _ \<Rightarrow> answer (ok_json (text_object [(''ok'', ''true''),
                 (''session_id'', quoted sid), (''reset'', ''true'')])) gw'
             | Inl e \<Rightarrow> answer (err_json 403 e) gw'))"

fun starting_state :: "security_state \<Rightarrow> string" where
  "starting_state S1 = ''Clean''"
| "starting_state S2 = ''Watching''"
| "starting_state S3 = ''Elevated''"
| "starting_state S4 = ''Locked''"

definition actor_of :: "json \<Rightarrow> string" where
  "actor_of v = (case optional_json_string ''actor_id'' v of None \<Rightarrow> ''anonymous'' | Some a \<Rightarrow> a)"

definition handle_session_start :: "server \<Rightarrow> string \<Rightarrow> 's handler" where
  "handle_session_start sv body = with_body sv body (\<lambda>v gw.
     case required_json_string ''session_id'' v of
       Inl e \<Rightarrow> answer (err_json 400 e) gw
     | Inr sid \<Rightarrow> (let P = gv_pipeline (fst gw) in
         answer (ok_json (text_object
           [(''ok'', ''true''), (''actor_id'', quoted (actor_of v)), (''session_id'', quoted sid),
            (''starting_state'', quoted (starting_state (pl_current_state sid P))),
            (''drs'', show_nat (unat (session_drs sid P))), (''threshold_modifier'', ''1.00''),
            (''prior_escalations'', ''0'')])) gw))"

definition handle_session_end :: "server \<Rightarrow> string \<Rightarrow> 's handler" where
  "handle_session_end sv body = with_body sv body (\<lambda>v gw.
     case required_json_string ''session_id'' v of
       Inl e \<Rightarrow> answer (err_json 400 e) gw
     | Inr sid \<Rightarrow>
         (let escalated = (case Option.bind (value_get ''escalated'' v) as_bool of
                None \<Rightarrow> False | Some b \<Rightarrow> b);
              (persisted, gw') = gv_lift (end_session (sv_x sv) (sv_storage sv) sid (actor_of v)) gw
          in answer (ok_json (text_object
               [(''ok'', ''true''), (''actor_id'', quoted (actor_of v)),
                (''session_id'', quoted sid), (''persisted'', show_bool persisted),
                (''durability'', quoted (if memory_is_durable (gv_pipeline (fst gw'))
                   then ''disk'' else ''in-memory-only'')),
                (''escalated'', show_bool escalated)])) gw'))"

definition event_json :: "server \<Rightarrow> evidence_event \<Rightarrow> json" where
  "event_json sv e = (let p = ee_payload e in json_object
     [(''schema_version'', JString (ee_schema_version e)), (''epoch_id'', JString (ee_epoch_id e)),
      (''epoch_parent_hash'', opt_json (ee_epoch_parent_hash e)),
      (''event_id'', JString (ee_event_id e)), (''sequence'', json_nat (unat (ee_sequence e))),
      (''timestamp'', JString (sv_rfc3339 sv (ee_timestamp e))),
      (''event_type'', JString (event_type_str (ee_event_type e))),
      (''gov_tx_id'', opt_json (ep_gov_tx_id p)), (''session_id'', opt_json (ep_session_id p)),
      (''run_id'', opt_json (ep_run_id p)), (''decision_id'', opt_json (ep_decision_id p)),
      (''capability_id'', opt_json (ep_capability_id p)),
      (''context_hash'', opt_json (ep_context_hash p)),
      (''action_hash'', opt_json (ep_action_hash p)),
      (''outbound_hash'', opt_json (ep_outbound_hash p)),
      (''tool_name'', opt_json (ep_tool_name p)),
      (''resource_kind'', opt_json (ep_resource_kind p)),
      (''resource_locator_hash'', opt_json (ep_resource_locator_hash p)),
      (''policy_version'', opt_json (ep_policy_version p)), (''outcome'', JString (ep_outcome p)),
      (''previous_event_hash'', JString (ee_previous_event_hash e)),
      (''event_hash'', JString (ee_event_hash e)),
      (''signer_fingerprint'', JString (ee_signer_fingerprint e)),
      (''signer_public_key'', JString (ee_signer_public_key e)),
      (''signature'', JString (ee_signature e))])"

definition last_50 :: "'a list \<Rightarrow> 'a list" where
  "last_50 xs = take 50 (rev xs)"

definition handle_evidence :: "server \<Rightarrow> 's handler" where
  "handle_evidence sv gw =
     (let pl = gv_evidence (fst gw); entries = evidence_snapshot pl
      in answer_json sv 200 [(''ok'', JBool True), (''count'', json_nat (length entries)),
           (''epoch_id'', JString (ev_epoch_id pl)),
           (''entries'', JArray (map (event_json sv) (last_50 entries)))] gw)"

definition handle_audit :: "server \<Rightarrow> 's handler" where
  "handle_audit sv gw =
     (let items = map (\<lambda>e. text_object [(''event_id'', quoted (au_event_id e)),
            (''session_id'', quoted (au_session_id e)), (''source'', quoted (au_source e)),
            (''severity'', quoted (au_severity e))])
          (last_50 (pl_export_audit_log (gv_pipeline (fst gw))))
      in answer (ok_json (text_object [(''ok'', ''true''), (''count'', show_nat (length items)),
           (''entries'', ''['' @ join '','' items @ '']'')])) gw)"

section \<open>Dispatch\<close>

definition route :: "server \<Rightarrow> request \<Rightarrow> 's handler" where
  "route sv q =
     (let m = rq_method q; p = rq_path q; b = rq_body q in
      if m = ''GET'' \<and> p = ''/health'' then handle_health sv
      else if m = ''POST'' \<and> p = ''/inspect'' then handle_inspect sv b
      else if m = ''POST'' \<and> p = ''/outbound'' then handle_outbound sv b
      else if m = ''POST'' \<and> p = ''/context/inspect'' then handle_context_inspect sv b
      else if m = ''POST'' \<and> p = ''/provider/authorize'' then handle_provider_authorize sv b
      else if m = ''POST'' \<and> p = ''/provider/consume'' then handle_provider_consume sv b
      else if m = ''POST'' \<and> p = ''/action/authorize'' then handle_action_authorize sv b
      else if m = ''POST'' \<and> p = ''/action/consume'' then handle_action_consume sv b
      else if m = ''GET'' \<and> session_path p then handle_session_state sv p
      else if m = ''POST'' \<and> p = ''/session/reset'' then handle_session_reset sv b
      else if m = ''POST'' \<and> p = ''/session/start'' then handle_session_start sv b
      else if m = ''POST'' \<and> p = ''/session/end'' then handle_session_end sv b
      else if m = ''GET'' \<and> p = ''/evidence'' then handle_evidence sv
      else if m = ''GET'' \<and> prefix ''/audit'' p then handle_audit sv
      else answer (err_json 404 ''not found''))"

definition authenticated :: "server \<Rightarrow> request \<Rightarrow> bool" where
  "authenticated sv q \<longleftrightarrow> authorized (sv_x sv) (rq_headers q) (sv_token sv)"

definition respond :: "server \<Rightarrow> request \<Rightarrow> 's handler" where
  "respond sv q =
     (if rq_path q \<noteq> ''/health'' \<and> \<not> authenticated sv q
      then answer (err_json 401 ''service authentication required'')
      else route sv q)"

definition handle :: "server \<Rightarrow> chunks \<Rightarrow> 's handler" where
  "handle sv r gw = (case receive (sv_x sv) r of
       None \<Rightarrow> (None, gw)
     | Some (Inl msg) \<Rightarrow> answer (err_json 431 msg) gw
     | Some (Inr q) \<Rightarrow> respond sv q gw)"

end
