(* ===== verification/Responses.thy ===== *)
theory Responses
  imports Server
begin

text \<open>
  What a caller of \<open>server.rs\<close> receives: every reply is one HTTP response whose head is fixed text, a
  status and the length of the body, so that a client which follows \<open>Content-Length\<close> reads back
  the status and the body that the service wrote, whatever the request put into them.
\<close>

section \<open>A client\<close>

text \<open>The text after the first occurrence of a pattern.\<close>

fun find_after :: "string \<Rightarrow> string \<Rightarrow> string" where
  "find_after p [] = []"
| "find_after p (c # cs) = (if prefix p (c # cs) then drop (length p) (c # cs) else find_after p cs)"

definition leading_number :: "string \<Rightarrow> nat" where
  "leading_number s = decimal (takeWhile is_ascii_digit s)"

definition client_read :: "string \<Rightarrow> (nat \<times> string) option" where
  "client_read text =
     (let rest = find_after (crlf @ crlf) text
      in if prefix ''HTTP/1.1 '' text \<and> leading_number (find_after ''Content-Length: '' text) = length rest
         then Some (leading_number (drop 9 text), rest) else None)"

lemma find_after_skip: "p \<noteq> [] \<Longrightarrow> hd p \<notin> set xs \<Longrightarrow> find_after p (xs @ ys) = find_after p ys"
  by (induction xs) (auto simp: prefix_def Cons_eq_append_conv)

lemma find_after_here: "p \<noteq> [] \<Longrightarrow> find_after p (p @ ys) = ys"
  by (cases p) simp_all

lemma digits_ascii: "c \<in> set (show_nat n) \<Longrightarrow> is_ascii_digit c"
  using show_nat_digits [of c n] by (auto simp: is_ascii_digit_def char_le_def byte_def)

lemma decimal_snoc: "decimal (s @ [c]) = 10 * decimal s + (byte c - 48)"
  by (simp add: decimal_def)

lemma decimal_show: "decimal (show_nat n) = n"
proof (induction n rule: show_nat.induct)
  case (1 n)
  then show ?case
    by (subst show_nat.simps) (simp add: decimal_snoc byte_digit_char, simp add: decimal_def byte_digit_char)
qed

lemma leading_show: "\<not> is_ascii_digit c \<Longrightarrow> leading_number (show_nat n @ c # s) = n"
proof -
  assume "\<not> is_ascii_digit c"
  then have "takeWhile is_ascii_digit (show_nat n @ c # s) = show_nat n"
    using digits_ascii [of _ n] by (simp add: takeWhile_append)
  then show ?thesis by (simp add: leading_number_def decimal_show)
qed

section \<open>Framed replies\<close>

definition http_reply :: "nat \<Rightarrow> string \<Rightarrow> string \<Rightarrow> string \<Rightarrow> string" where
  "http_reply status reason extra body = ''HTTP/1.1 '' @ show_nat status @ '' '' @ reason @ crlf @
     json_headers (length body) @ extra @ crlf @ body"

definition heads :: "(string \<times> string) set" where
  "heads = {(''OK'', hardening_headers), (''Response'', hardening_headers), (''Error'', [])}"

definition framed :: "nat set \<Rightarrow> string \<Rightarrow> bool" where
  "framed codes text \<longleftrightarrow> (\<exists>status \<in> codes. \<exists>(reason, extra) \<in> heads. \<exists>body.
     text = http_reply status reason extra body)"

lemma show_200: "show_nat 200 = ''200''"
  by code_simp

lemma framed_ok: "200 \<in> codes \<Longrightarrow> framed codes (ok_json body)"
  unfolding framed_def heads_def
  by (rule bexI [of _ 200], rule bexI [of _ "(''OK'', hardening_headers)"])
    (auto simp: ok_json_def http_reply_def show_200 intro!: exI [of _ body])

lemma framed_err: "status \<in> codes \<Longrightarrow> framed codes (err_json status msg)"
  unfolding framed_def heads_def
  by (rule bexI [of _ status], rule bexI [of _ "(''Error'', [])"])
    (auto simp: err_json_def http_reply_def Let_def
      intro!: exI [of _ "''{\"ok\":false,\"error\":\"'' @ unquoted msg @ ''\"}''"])

lemma framed_json: "status \<in> codes \<Longrightarrow> framed codes (json_response X status v)"
  unfolding framed_def heads_def
  by (rule bexI [of _ status], rule bexI [of _ "(''Response'', hardening_headers)"])
    (auto simp: json_response_def http_reply_def Let_def intro!: exI [of _ "json_text X v"])

lemma framed_mono: "framed codes text \<Longrightarrow> codes \<subseteq> codes' \<Longrightarrow> framed codes' text"
  by (auto simp: framed_def)

lemma digit_not: "\<not> is_ascii_digit c \<Longrightarrow> c \<notin> set (show_nat n)"
  using digits_ascii by blast

lemma plain_head: "CHR ''C'' \<notin> set (''HTTP/1.1 '' @ show_nat status)"
    "CHR 13 \<notin> set (''HTTP/1.1 '' @ show_nat status)"
  using digit_not [of "CHR ''C''" status] digit_not [of "CHR 13" status]
  by (auto simp: is_ascii_digit_def char_le_def byte_def)

lemma http_reply_read:
  assumes "(reason, extra) \<in> heads"
  shows "client_read (http_reply status reason extra body) = Some (status, body)"
proof -
  let ?t = "http_reply status reason extra body"
  have d: "CHR 13 \<notin> set (show_nat n)" for n by (rule digit_not) (simp add: is_ascii_digit_def char_le_def byte_def)
  have len: "leading_number (find_after ''Content-Length: '' ?t) = length body"
    using assms find_after_skip [OF _ , of "''Content-Length: ''" "''HTTP/1.1 '' @ show_nat status"] plain_head(1)
    by (auto simp: heads_def http_reply_def json_headers_def hardening_headers_def crlf_def leading_show
        is_ascii_digit_def char_le_def byte_def)
  have "find_after (crlf @ crlf) ?t = body"
    using assms find_after_skip [of "crlf @ crlf" "''HTTP/1.1 '' @ show_nat status"] plain_head(2)
      find_after_skip [of "crlf @ crlf" "show_nat (length body)"] d
    by (auto simp: heads_def http_reply_def json_headers_def hardening_headers_def crlf_def)
  moreover have "leading_number (drop 9 ?t) = status"
    by (simp add: http_reply_def leading_show is_ascii_digit_def char_le_def byte_def)
  ultimately show ?thesis
    using len by (simp add: client_read_def Let_def) (simp add: http_reply_def)
qed

lemma framed_read:
  "framed codes text \<Longrightarrow> \<exists>status \<in> codes. \<exists>body. client_read text = Some (status, body)"
  by (fastforce simp: framed_def http_reply_read)

section \<open>Every handler answers\<close>

definition answer_codes :: "nat set" where
  "answer_codes = {200, 400, 403, 404, 500}"

definition answers :: "nat set \<Rightarrow> string option \<times> 's gst \<Rightarrow> bool" where
  "answers codes res \<longleftrightarrow> (\<exists>text. fst res = Some text \<and> framed codes text)"

lemma answers_simps [simp]:
  "answers codes (answer text gw) = framed codes text"
  "answers codes (Some text, gw) = framed codes text"
  by (simp_all add: answers_def answer_def)

lemma answers_json [simp]: "status \<in> codes \<Longrightarrow> answers codes (answer_json sv status kvs gw)"
  by (simp add: answer_json_def framed_json)

lemma answers_refuse [simp]: "400 \<in> codes \<Longrightarrow> answers codes (refuse_json sv msg gw)"
  by (simp add: refuse_json_def)

lemma answer_codes_simps [simp]: "200 \<in> answer_codes" "400 \<in> answer_codes" "403 \<in> answer_codes"
    "404 \<in> answer_codes" "500 \<in> answer_codes"
  by (simp_all add: answer_codes_def)

lemma answers_body:
  "(\<And>v. answers answer_codes (k v gw)) \<Longrightarrow> answers answer_codes (with_body sv body k gw)"
  by (simp add: with_body_def split: option.split)

lemma answers_approval: "answers answer_codes (approval_reply sv sid tx granted denied gw)"
  by (simp add: approval_reply_def split: option.split)

text \<open>JSON text that opens with a brace denotes an object.\<close>

definition parser_law :: "server \<Rightarrow> bool" where
  "parser_law sv \<longleftrightarrow> (\<forall>s v. sv_parse_json sv (CHR ''{'' # s) = Some v \<longrightarrow> (\<exists>es. v = JObject es))"

lemma answers_verdict:
  assumes "parser_law sv"
  shows "answers answer_codes (verdict_reply sv res sid extra, gw)"
proof -
  obtain s where s: "verdict_json res sid = CHR ''{'' # s" by (simp add: verdict_json_def text_object_def)
  have "\<exists>es. json_assign extra (case sv_parse_json sv (verdict_json res sid) of
      None \<Rightarrow> json_object kvs | Some v \<Rightarrow> v) = Some (JObject es)" for kvs
    using assms by (auto simp: s parser_law_def json_object_def split: option.split dest!: spec [of _ s])
  then show ?thesis
    by (metis (no_types, lifting) answers_simps(2) answer_codes_simps(1) framed_json
        option.simps(9) verdict_reply_def)
qed

lemmas reply_answers = framed_ok framed_err answers_approval answers_verdict answers_body

lemma consume_answers: "answers answer_codes (consume_reply sv p extra gw)"
  by (simp add: consume_reply_def split_def Let_def)

lemma handlers_answer:
  assumes "parser_law sv"
  shows "answers answer_codes (handle_health sv gw)"
    "answers answer_codes (handle_inspect sv body gw)"
    "answers answer_codes (handle_outbound sv body gw)"
    "answers answer_codes (handle_context_inspect sv body gw)"
    "answers answer_codes (handle_provider_authorize sv body gw)"
    "answers answer_codes (handle_provider_consume sv body gw)"
    "answers answer_codes (handle_action_authorize sv body gw)"
    "answers answer_codes (handle_action_consume sv body gw)"
    "answers answer_codes (handle_session_state sv path gw)"
    "answers answer_codes (handle_session_reset sv body gw)"
    "answers answer_codes (handle_session_start sv body gw)"
    "answers answer_codes (handle_session_end sv body gw)"
    "answers answer_codes (handle_evidence sv gw)"
    "answers answer_codes (handle_audit sv gw)"
  using assms
  by (auto simp: handle_health_def handle_inspect_def handle_outbound_def handle_context_inspect_def
      handle_provider_authorize_def handle_provider_consume_def handle_action_authorize_def
      handle_action_consume_def handle_session_state_def handle_session_reset_def
      handle_session_start_def handle_session_end_def handle_evidence_def handle_audit_def
      consume_answers split_def Let_def intro!: reply_answers split: sum.split)

lemma route_answers: "parser_law sv \<Longrightarrow> answers answer_codes (route sv q gw)"
  by (simp add: route_def handlers_answer framed_err Let_def)

lemma answers_read:
  assumes "answers codes res"
  obtains reply status body where "fst res = Some reply" "client_read reply = Some (status, body)"
    "status \<in> codes"
  using assms framed_read unfolding answers_def by blast

section \<open>Theorem\<close>

text \<open>
  Claim C17: every request that is received gets exactly one answer, and no request can bend its
  frame. Whatever bytes arrive and in whatever state the service is, a connection without a request
  line is closed without an answer and changes nothing; any other gets one text from which a client
  that follows the announced length reads back one status and the whole body: 431 for a refused
  header, 401 exactly for a request that lacks the service token (health checks excepted), and
  otherwise 200, 400, 403, 404 or 500. The library is only trusted to parse a text that opens with
  a brace as an object.
\<close>

theorem every_request_answered:
  assumes "parser_law sv"
  shows "case receive (sv_x sv) r of
      None \<Rightarrow> handle sv r gw = (None, gw)
    | Some (Inl msg) \<Rightarrow> \<exists>text body. handle sv r gw = (Some text, gw) \<and>
        client_read text = Some (431, body)
    | Some (Inr q) \<Rightarrow> \<exists>text status body. fst (handle sv r gw) = Some text \<and>
        client_read text = Some (status, body) \<and> status \<in> {200, 400, 401, 403, 404, 500} \<and>
        (status = 401 \<longleftrightarrow> rq_path q \<noteq> ''/health'' \<and> \<not> authenticated sv q)"
proof (cases "receive (sv_x sv) r")
  case (Some m)
  show ?thesis
  proof (cases m)
    case (Inl msg)
    then show ?thesis
      using Some framed_read [OF framed_err [of 431 "{431}" msg]] by (auto simp: handle_def answer_def)
  next
    case (Inr q)
    let ?bad = "rq_path q \<noteq> ''/health'' \<and> \<not> authenticated sv q"
    have h: "handle sv r gw = respond sv q gw" using Some Inr by (simp add: handle_def)
    have "answers (if ?bad then {401} else answer_codes) (respond sv q gw)"
      using assms by (simp add: respond_def route_answers framed_err)
    then obtain reply status body where "fst (respond sv q gw) = Some reply"
      "client_read reply = Some (status, body)" "status \<in> (if ?bad then {401} else answer_codes)"
      by (rule answers_read)
    then show ?thesis using Some Inr by (auto simp: h answer_codes_def split: if_splits)
  qed
qed (simp add: handle_def)

definition object_server :: server where
  "object_server = \<lparr>sv_x = demo, sv_storage = demo_storage, sv_dbg = id,
     sv_parse_json = (\<lambda>s. if prefix ''{'' s then Some (JObject []) else None),
     sv_parse_envelope = (\<lambda>_. Inl ''unreadable''), sv_json_time = show_int, sv_rfc3339 = show_int,
     sv_env = (\<lambda>_. None), sv_token = ''t''\<rparr>"

theorem every_request_answered_witness:
  "\<forall>gw :: unit gst. \<exists>text body. fst (handle object_server [Some demo_get] gw) = Some text \<and>
     client_read text = Some (401, body)"
proof
  fix gw :: "unit gst"
  let ?q = "\<lparr>rq_method = ''GET'', rq_path = ''/a'', rq_headers = [(''h'', ''b'')], rq_body = []\<rparr>"
  have "parser_law object_server" by (simp add: parser_law_def object_server_def)
  moreover have "\<not> authenticated object_server ?q"
    by (simp add: authenticated_def authorized_def object_server_def bearer_def hm_get_def)
  moreover have "receive (sv_x object_server) [Some demo_get] = Some (Inr ?q)"
    using demo_get_received by (simp add: object_server_def)
  ultimately show "\<exists>text body. fst (handle object_server [Some demo_get] gw) = Some text \<and>
      client_read text = Some (401, body)"
    using every_request_answered [of object_server "[Some demo_get]" gw] by auto
qed

end
