(* ===== verification/Startup.thy ===== *)
theory Startup
  imports Server
begin

text \<open>
  \<open>main\<close> and \<open>serve\<close> of \<open>server.rs\<close>: the gates a process passes before it listens, in their order,
  and the accept loop with its cap on concurrent connections.
\<close>

section \<open>The start-up gates\<close>

text \<open>
  Every gate that fails ends the process; the reason is what the source prints. \<open>AuthorityKeyCorrupt\<close>
  is the panic on a damaged pinned key, the last two are the \<open>expect\<close>s.
\<close>

datatype startup_error = BadServiceToken | BadResetToken reset_config_error
  | AuthorityKeyCorrupt | ConstitutionRefused constitution_path_error
  | AuditKeyRefused key_file_error | PipelineFailed governed_error | ResetAuthorityTwice string

definition service_token_of :: "externs \<Rightarrow> string option \<Rightarrow> startup_error + string" where
  "service_token_of X raw =
     (let token = trim (case raw of None \<Rightarrow> [] | Some t \<Rightarrow> t)
      in if token = [] \<or> contains (uppercase X token) ''PLACEHOLDER'' \<or>
            contains (uppercase X token) ''GENERATE''
         then Inl BadServiceToken else Inr token)"

definition constitution_json_path :: "(string \<Rightarrow> string option) \<Rightarrow> string" where
  "constitution_json_path env =
     env_or env ''SENTOW_CONSTITUTION_PATH'' ''/app/constitution/constitution.json''"

definition constitution_signature_path :: "(string \<Rightarrow> string option) \<Rightarrow> string" where
  "constitution_signature_path env =
     env_or env ''SENTOW_CONSTITUTION_SIGNATURE_PATH'' ''/app/constitution/constitution.json.sig''"

definition audit_key_path :: "(string \<Rightarrow> string option) \<Rightarrow> string" where
  "audit_key_path env =
     env_or env ''SENTOW_AUDIT_KEY_PATH'' ''/app/audit-signing/audit-signing-ed25519.key''"

definition arbiter_config_for :: "string \<Rightarrow> arbiter_config" where
  "arbiter_config_for industry = (if industry = ''medical'' then medical_config else default_arbiter_config)"

definition DEFAULT_SOCKET_TIMEOUT_SECS :: nat where "DEFAULT_SOCKET_TIMEOUT_SECS = 10"
definition DEFAULT_MAX_CONNECTIONS :: nat where "DEFAULT_MAX_CONNECTIONS = 64"

definition env_number :: "(string \<Rightarrow> string option) \<Rightarrow> string \<Rightarrow> nat \<Rightarrow> nat" where
  "env_number env k d = (case Option.bind (env k) parse_usize of None \<Rightarrow> d | Some n \<Rightarrow> n)"

definition max_connections_of :: "(string \<Rightarrow> string option) \<Rightarrow> nat" where
  "max_connections_of env = env_number env ''SENTOW_MAX_CONNECTIONS'' DEFAULT_MAX_CONNECTIONS"

definition socket_timeout_of :: "(string \<Rightarrow> string option) \<Rightarrow> nat" where
  "socket_timeout_of env = env_number env ''SENTOW_SOCKET_TIMEOUT_SECS'' DEFAULT_SOCKET_TIMEOUT_SECS"

text \<open>
  \<open>sv\<close> holds the libraries and the environment (its token is still unset), \<open>disk\<close> the files.
  The constitution is checked at the first reading of the clock; the audit key then starts the
  engine of the world.
\<close>

definition start :: "server \<Rightarrow> (constitution \<Rightarrow> string) \<Rightarrow> (string \<Rightarrow> f32 option) \<Rightarrow> env_read \<Rightarrow>
    (string \<Rightarrow> string + constitution) \<Rightarrow> string hashmap \<Rightarrow>
    startup_error + (server \<times> unit gst)" where
  "start sv ser parse_f32 threshold_env parse_constitution disk =
     (let X = sv_x sv; env = sv_env sv;
          industry = env_or env ''SENTOW_INDUSTRY_PROFILE'' ''consumer''
      in ebind (service_token_of X (env ''SENTINEL_SERVICE_TOKEN'')) (\<lambda>token.
         case authority_from_config X (env ''SENTINEL_OPERATOR_RESET_TOKEN'') of
           Inl e \<Rightarrow> Inl (BadResetToken e)
         | Inr authority \<Rightarrow> (case trusted_constitution_authority_key X of
             None \<Rightarrow> Inl AuthorityKeyCorrupt
           | Some key \<Rightarrow>
               (case load_verified_from_paths X parse_constitution
                       (hm_get disk (constitution_json_path env))
                       (hm_get disk (constitution_signature_path env)) key industry (clock X 0) of
                  Inl e \<Rightarrow> Inl (ConstitutionRefused e)
                | Inr c \<Rightarrow>
                    (case from_persisted_key_file X (hm_get disk (audit_key_path env))
                            ''logos_governance_v1_seed'' of
                       Inl e \<Rightarrow> Inl (AuditKeyRefused e)
                     | Inr engine \<Rightarrow>
                         (case governed_new X ser (sv_storage sv) parse_f32 (env ''GOVMEM_MODE'')
                                 threshold_env (env ''SENTOW_MEMORY_PATH'') disk
                                 (arbiter_config_for industry) (Some c) None ()
                                 \<lparr>eng = engine, ticks = 1, ids = 0\<rparr> of
                            Inl e \<Rightarrow> Inl (PipelineFailed e)
                          | Inr (G, w) \<Rightarrow>
                              (case pl_configure_reset_authority authority (gv_pipeline G) of
                                 (Inl e, _) \<Rightarrow> Inl (ResetAuthorityTwice e)
                               | (Inr _, P) \<Rightarrow>
                                   Inr (sv\<lparr>sv_token := token\<rparr>, G\<lparr>gv_pipeline := P\<rparr>, w))))))))"

section \<open>The accept loop\<close>

text \<open>
  The loop's counter, the connections whose handlers run, those refused, and those whose handler
  panicked. One thread accepts, and only it reads the counter, so \<open>fetch_add\<close> and the \<open>fetch_sub\<close> of
  a refused connection are one step. A handler counts down when it returns, not when it panics.
\<close>

record accept_loop =
  al_active :: nat
  al_running :: "nat list"
  al_refused :: "nat list"
  al_panicked :: "nat list"

definition accept_start :: accept_loop where
  "accept_start = \<lparr>al_active = 0, al_running = [], al_refused = [], al_panicked = []\<rparr>"

definition accept :: "nat \<Rightarrow> nat \<Rightarrow> accept_loop \<Rightarrow> accept_loop" where
  "accept max_connections c s =
     (let in_flight = al_active s + 1
      in if max_connections < in_flight then s\<lparr>al_refused := c # al_refused s\<rparr>
         else s\<lparr>al_active := in_flight, al_running := c # al_running s\<rparr>)"

definition finish :: "nat \<Rightarrow> accept_loop \<Rightarrow> accept_loop" where
  "finish c s = s\<lparr>al_active := al_active s - 1, al_running := remove1 c (al_running s)\<rparr>"

definition panic :: "nat \<Rightarrow> accept_loop \<Rightarrow> accept_loop" where
  "panic c s = s\<lparr>al_running := remove1 c (al_running s), al_panicked := c # al_panicked s\<rparr>"

inductive loop_step :: "nat \<Rightarrow> accept_loop \<Rightarrow> accept_loop \<Rightarrow> bool" for m :: nat where
  accepted: "loop_step m s (accept m c s)"
| finished: "c \<in> set (al_running s) \<Longrightarrow> loop_step m s (finish c s)"
| panicked: "c \<in> set (al_running s) \<Longrightarrow> loop_step m s (panic c s)"

inductive_cases loop_stepE [elim!]: "loop_step m s s'"

inductive loop_reachable :: "nat \<Rightarrow> accept_loop \<Rightarrow> bool" for m :: nat where
  started: "loop_reachable m accept_start"
| stepped: "loop_reachable m s \<Longrightarrow> loop_step m s s' \<Longrightarrow> loop_reachable m s'"

definition loop_inv :: "nat \<Rightarrow> accept_loop \<Rightarrow> bool" where
  "loop_inv m s \<longleftrightarrow> al_active s = length (al_running s) + length (al_panicked s) \<and> al_active s \<le> m"

lemma length_remove1_Suc: "c \<in> set xs \<Longrightarrow> length xs = Suc (length (remove1 c xs))"
  by (induction xs) auto

lemma loop_inv_step: "loop_inv m s \<Longrightarrow> loop_step m s s' \<Longrightarrow> loop_inv m s'"
  by (auto simp: loop_inv_def accept_def finish_def panic_def Let_def dest: length_remove1_Suc)

lemma loop_inv_reachable: "loop_reachable m s \<Longrightarrow> loop_inv m s"
proof (induction rule: loop_reachable.induct)
  case started
  show ?case by (simp add: loop_inv_def accept_start_def)
qed (rule loop_inv_step)

text \<open>
  At most \<open>m\<close> handlers run at once; a connection is refused only when all slots are taken by
  handlers that run or panicked; the end of a handler makes room again.
\<close>

lemma connections_capped:
  assumes "loop_reachable m s"
  shows "length (al_running s) \<le> m"
    "al_refused (accept m c s) \<noteq> al_refused s \<longleftrightarrow>
       length (al_running s) + length (al_panicked s) = m"
    "d \<in> set (al_running s) \<Longrightarrow> al_refused (accept m c (finish d s)) = al_refused s"
  using loop_inv_reachable [OF assms]
  by (auto simp: loop_inv_def accept_def finish_def Let_def dest: length_remove1_Suc)

end
