(* ===== verification/Service.thy ===== *)
theory Service
  imports Startup Accountability
begin

text \<open>
  Runs of the HTTP service. A run of requests is a run of the evidence-governed pipeline, so what is
  proved of the latter holds of the service; a request without the service token contributes
  nothing to it; and whatever is issued carries the identity and the policy of the service, never
  those a request claims.
\<close>

definition http_step :: "server \<Rightarrow> chunks \<Rightarrow> 's gst \<Rightarrow> 's gst" where
  "http_step sv r gw = snd (handle sv r gw)"

abbreviation sv_step :: "server \<Rightarrow> gv_op \<Rightarrow> 's gst \<Rightarrow> 's gst" where
  "sv_step sv \<equiv> gv_step (sv_x sv) (sv_storage sv) (sv_dbg sv)"

definition own_identity :: "server \<Rightarrow> string \<Rightarrow> string \<Rightarrow> string \<Rightarrow> string \<Rightarrow> bool" where
  "own_identity sv v who ph pv \<longleftrightarrow>
     who = service_principal_fingerprint (sv_x sv) (sv_token sv) \<and>
     ph = runtime_policy_hash (sv_x sv) (sv_env sv) \<and> pv = v"

text \<open>The operations the service performs, under the policy version \<open>v\<close> in force.\<close>

fun service_op :: "server \<Rightarrow> string \<Rightarrow> gv_op \<Rightarrow> bool" where
  "service_op sv v (GvContext e tx dept agent) = True"
| "service_op sv v (GvProvider r) =
     own_identity sv v (pr_principal_fingerprint r) (pr_policy_hash r) (pr_policy_version r)"
| "service_op sv v (GvAction r) =
     own_identity sv v (aar_principal_fingerprint r) (aar_policy_hash r) (aar_policy_version r)"
| "service_op sv v (GvConsume p) =
     own_identity sv v (pb_principal_fingerprint p) (pb_policy_hash p) (pb_policy_version p)"
| "service_op sv v (GvBoundOutbound m sid ctx run) = True"
| "service_op sv v (GvInner (PlInbound m sid tx dept agent)) = True"
| "service_op sv v (GvInner (PlEnd sid actor)) = True"
| "service_op sv v (GvInner (PlReset sid token)) = True"
| "service_op sv v (GvInner (PlForeign w)) = True"
| "service_op sv v _ = False"

abbreviation in_force :: "'s gst \<Rightarrow> string" where
  "in_force gw \<equiv> active_policy_version (gv_pipeline (fst gw))"

definition serves :: "server \<Rightarrow> string \<Rightarrow> 's gst \<Rightarrow> 's gst \<Rightarrow> bool" where
  "serves sv v gw gw' \<longleftrightarrow> (\<exists>ops. gw' = fold (sv_step sv) ops gw \<and> list_all (service_op sv v) ops)"

named_theorems serving

lemma serves_refl [serving]: "serves sv v gw gw"
  by (auto simp: serves_def intro: exI [of _ "[]"])

lemma serves_trans: "serves sv v gw gw' \<Longrightarrow> serves sv v gw' gw'' \<Longrightarrow> serves sv v gw gw''"
  unfolding serves_def by (metis fold_append comp_apply list_all_append)

lemma serves_step: "service_op sv v op \<Longrightarrow> serves sv v gw (sv_step sv op gw)"
  by (auto simp: serves_def intro: exI [of _ "[op]"])

section \<open>The calls a handler makes\<close>

lemma serves_tx [serving]: "serves sv v gw (snd (new_gov_tx sv gw))"
  using serves_step [of sv v "GvInner (PlForeign (draw_id (snd gw)))" gw]
  by (simp add: new_gov_tx_def gv_core_def)

lemma serves_inbound [serving]:
  "serves sv v gw (snd (gv_lift (inbound_with_identity (sv_x sv) m sid tx dept agent) gw))"
  using serves_step [of sv v "GvInner (PlInbound m sid tx dept agent)" gw]
  by (simp add: gv_lift_def gv_core_def split_def Let_def)

lemma serves_reset [serving]:
  "serves sv v gw (snd (gv_lift (operator_reset (sv_x sv) sid token) gw))"
  using serves_step [of sv v "GvInner (PlReset sid token)" gw]
  by (simp add: gv_lift_def gv_core_def split_def Let_def)

lemma serves_end [serving]:
  "serves sv v gw (snd (gv_lift (end_session (sv_x sv) (sv_storage sv) sid actor) gw))"
  using serves_step [of sv v "GvInner (PlEnd sid actor)" gw]
  by (simp add: gv_lift_def gv_core_def split_def Let_def)

lemma serves_context [serving]:
  "serves sv v gw (snd (gv_inbound_context_with_identity_and_evidence (sv_x sv) e tx dept agent gw))"
  using serves_step [of sv v "GvContext e tx dept agent" gw] by simp

lemma serves_outbound [serving]:
  "serves sv v gw (snd (gv_outbound_with_evidence (sv_x sv) m sid ctx run gw))"
  using serves_step [of sv v "GvBoundOutbound m sid ctx run" gw] by simp

lemma serves_provider [serving]:
  "own_identity sv v (pr_principal_fingerprint r) (pr_policy_hash r) (pr_policy_version r) \<Longrightarrow>
     serves sv v gw (snd (gv_authorize_provider_with_evidence (sv_x sv) (sv_dbg sv) r gw))"
  using serves_step [of sv v "GvProvider r" gw] by simp

lemma serves_action [serving]:
  "own_identity sv v (aar_principal_fingerprint r) (aar_policy_hash r) (aar_policy_version r) \<Longrightarrow>
     serves sv v gw (snd (gv_authorize_action_with_evidence (sv_x sv) (sv_dbg sv) r gw))"
  using serves_step [of sv v "GvAction r" gw] by simp

lemma serves_consume [serving]:
  "own_identity sv v (pb_principal_fingerprint p) (pb_policy_hash p) (pb_policy_version p) \<Longrightarrow>
     serves sv v gw (snd (gv_consume_with_evidence (sv_x sv) p gw))"
  using serves_step [of sv v "GvConsume p" gw] by simp

section \<open>The endpoints\<close>

lemma answer_state [simp]: "snd (answer s gw) = gw" "snd (answer_json sv n kvs gw) = gw"
    "snd (refuse_json sv msg gw) = gw" "snd (approval_reply sv sid tx a b gw) = gw"
  by (simp_all add: answer_def answer_json_def refuse_json_def approval_reply_def split: option.split)

lemma with_body_serves:
  "(\<And>v. serves sv p gw (snd (k v gw))) \<Longrightarrow> serves sv p gw (snd (with_body sv body k gw))"
  by (auto simp: with_body_def serving split: option.split)

lemma parsed_identity:
  "parse_provider_request sv v P = Inr r \<Longrightarrow> own_identity sv (active_policy_version P)
     (pr_principal_fingerprint r) (pr_policy_hash r) (pr_policy_version r)"
  "parse_action_request sv v P = Inr a \<Longrightarrow> own_identity sv (active_policy_version P)
     (aar_principal_fingerprint a) (aar_policy_hash a) (aar_policy_version a)"
  "parse_provider_consume sv v P = Inr p \<Longrightarrow> own_identity sv (active_policy_version P)
     (pb_principal_fingerprint p) (pb_policy_hash p) (pb_policy_version p)"
  "parse_action_consume sv v P = Inr p \<Longrightarrow> own_identity sv (active_policy_version P)
     (pb_principal_fingerprint p) (pb_policy_hash p) (pb_policy_version p)"
  by (auto simp: own_identity_def parse_provider_request_def parse_action_request_def
      parse_provider_consume_def parse_action_consume_def ebind_Inr_iff)

text \<open>Every handler serves, under the policy version of the state it starts in.\<close>

lemma consume_reply_serves:
  "own_identity sv v (pb_principal_fingerprint p) (pb_policy_hash p) (pb_policy_version p) \<Longrightarrow>
     serves sv v gw (snd (consume_reply sv p extra gw))"
  by (simp add: consume_reply_def split_def Let_def serving)

lemma inspect_serves: "serves sv v gw (snd (handle_inspect sv body gw))"
  unfolding handle_inspect_def
  by (rule with_body_serves)
    (auto simp: split_def Let_def serving split: sum.split
      intro: serves_trans [OF serves_tx serves_inbound])

lemma outbound_serves: "serves sv v gw (snd (handle_outbound sv body gw))"
  unfolding handle_outbound_def
  by (rule with_body_serves) (auto simp: split_def Let_def serving split: sum.split)

lemma context_serves: "serves sv v gw (snd (handle_context_inspect sv body gw))"
  by (auto simp: handle_context_inspect_def split_def Let_def serving split: sum.split
      intro: serves_trans [OF serves_tx serves_context])

lemma provider_serves: "serves sv (in_force gw) gw (snd (handle_provider_authorize sv body gw))"
  by (auto simp: handle_provider_authorize_def with_body_def split_def Let_def serving
      split: sum.split option.split dest: parsed_identity)

lemma action_serves: "serves sv (in_force gw) gw (snd (handle_action_authorize sv body gw))"
  by (auto simp: handle_action_authorize_def with_body_def split_def Let_def serving
      split: sum.split option.split dest: parsed_identity)

lemma consume_serves:
  "serves sv (in_force gw) gw (snd (handle_provider_consume sv body gw))"
  "serves sv (in_force gw) gw (snd (handle_action_consume sv body gw))"
  by (auto simp: handle_provider_consume_def handle_action_consume_def with_body_def serving
      split: sum.split option.split intro: consume_reply_serves dest: parsed_identity)

lemma session_serves:
  "snd (handle_session_state sv path gw) = gw"
  "serves sv v gw (snd (handle_session_reset sv body gw))"
  "serves sv v gw (snd (handle_session_start sv body gw))"
  "serves sv v gw (snd (handle_session_end sv body gw))"
  by (auto simp: handle_session_state_def handle_session_reset_def handle_session_start_def
      handle_session_end_def split_def Let_def serving intro!: with_body_serves split: sum.split)

lemma reads_only [simp]:
  "snd (handle_health sv gw) = gw" "snd (handle_evidence sv gw) = gw" "snd (handle_audit sv gw) = gw"
  by (simp_all add: handle_health_def handle_evidence_def handle_audit_def Let_def)

lemma route_serves: "serves sv (in_force gw) gw (snd (route sv q gw))"
  by (simp add: route_def Let_def inspect_serves outbound_serves context_serves provider_serves
      action_serves consume_serves session_serves serving)

lemma health_reads_only: "rq_path q = ''/health'' \<Longrightarrow> snd (route sv q gw) = gw"
  by (simp add: route_def session_path_def suffix_def Let_def)

section \<open>The policy in force\<close>

text \<open>No operation replaces the constitution.\<close>

lemma decide_evaluator [simp]:
  "pl_evaluator (fst (snd (decide_and_issue X r f n a pw))) = pl_evaluator (fst pw)"
  by (simp add: decide_and_issue_def split_def Let_def split: sum.split)

lemma frame_evaluator: "frame sid pw (P\<lparr>pl_ledger := l\<rparr>, w) \<Longrightarrow> pl_evaluator P = pl_evaluator (fst pw)"
  by (simp add: frame_def)

lemma step_evaluator: "pl_evaluator (fst (pl_step X S op pw)) = pl_evaluator (fst pw)"
proof (cases op)
  case (PlInbound m sid tx dept agent)
  obtain r P w where c: "inbound_with_identity X m sid tx dept agent pw = (r, P, w)"
    by (metis prod_cases3)
  show ?thesis using frame_evaluator [OF inbound_outcome(1) [OF c]] PlInbound c by simp
next
  case (PlContext e tx dept agent)
  obtain r P w where c: "inbound_context_with_identity X e tx dept agent pw = (r, P, w)"
    by (metis prod_cases3)
  show ?thesis
  proof (cases "mc_verify X e")
    case (Inl err)
    with c PlContext show ?thesis by (auto simp: context_rejected)
  next
    case (Inr u)
    from context_outcome [OF this c] have
      "frame (mc_session_id e) pw (P\<lparr>pl_ledger := pl_ledger (fst pw)\<rparr>, w)" by blast
    from frame_evaluator [OF this] c PlContext show ?thesis by simp
  qed
next
  case (PlOutbound m sid)
  then show ?thesis using outbound_frame [of sid pw X m] by (simp add: frame_def)
next
  case (PlHaap sid ag cls token)
  then show ?thesis using haap_frame [of sid pw X sid ag cls token] by (simp add: frame_def)
qed (simp_all add: end_session_def operator_reset_def pl_configure_reset_authority_def split_def
    Let_def authorize_provider_execution_def authorize_action_execution_def
    consume_provider_capability_def split: sum.split option.split)

lemma fold_evaluator: "pl_evaluator (fst (fold (pl_step X S) ops pw)) = pl_evaluator (fst pw)"
  by (induction ops arbitrary: pw) (simp_all add: step_evaluator del: pl_step.simps)

lemma gv_step_policy [simp]: "in_force (gv_step X S dbg op gw) = in_force gw"
proof -
  have "pl_evaluator (fst (gv_core (gv_step X S dbg op gw))) = pl_evaluator (fst (gv_core gw))"
    by (subst gv_step_core) (rule fold_evaluator)
  then show ?thesis by (simp add: active_policy_version_def gv_core_def)
qed

lemma gv_run_policy: "in_force (fold (gv_step X S dbg) ops gw) = in_force gw"
  by (induction ops arbitrary: gw) (simp_all del: gv_step.simps)

section \<open>The service refines the governed pipeline\<close>

definition carries_token :: "server \<Rightarrow> chunks \<Rightarrow> bool" where
  "carries_token sv r \<longleftrightarrow> (\<exists>q. receive (sv_x sv) r = Some (Inr q) \<and> authenticated sv q)"

definition contributes :: "server \<Rightarrow> string \<Rightarrow> chunks \<Rightarrow> gv_op list \<Rightarrow> bool" where
  "contributes sv v r ops \<longleftrightarrow> (ops = [] \<or> carries_token sv r) \<and> list_all (service_op sv v) ops"

lemma http_step_cases:
  obtains ops where "http_step sv r gw = fold (sv_step sv) ops gw" "contributes sv (in_force gw) r ops"
proof (cases "http_step sv r gw = gw")
  case True
  then show ?thesis using that [of "[]"] by (simp add: contributes_def)
next
  case False
  then obtain q where q: "receive (sv_x sv) r = Some (Inr q)" "http_step sv r gw = snd (respond sv q gw)"
    by (auto simp: http_step_def handle_def split: option.splits sum.splits)
  with False have "authenticated sv q" "http_step sv r gw = snd (route sv q gw)"
    by (auto simp: respond_def health_reads_only split: if_splits)
  moreover obtain ops where "snd (route sv q gw) = fold (sv_step sv) ops gw"
    "list_all (service_op sv (in_force gw)) ops"
    using route_serves [of sv gw q] unfolding serves_def by blast
  ultimately show ?thesis using that [of ops] q(1) by (auto simp: contributes_def carries_token_def)
qed

lemma http_run:
  "\<exists>opss. list_all2 (contributes sv (in_force gw)) rs opss \<and>
     fold (http_step sv) rs gw = fold (sv_step sv) (concat opss) gw"
proof (induction rs arbitrary: gw)
  case (Cons r rs)
  obtain ops where ops: "http_step sv r gw = fold (sv_step sv) ops gw"
    "contributes sv (in_force gw) r ops" by (rule http_step_cases)
  from Cons.IH [of "http_step sv r gw"] obtain opss where
    "list_all2 (contributes sv (in_force gw)) rs opss"
    "fold (http_step sv) rs (http_step sv r gw) = fold (sv_step sv) (concat opss) (http_step sv r gw)"
    by (auto simp: ops(1) gv_run_policy)
  with ops show ?case by (intro exI [of _ "ops # opss"]) simp
qed simp

section \<open>Whose authority a token carries\<close>

definition all_decisions :: "(decision \<Rightarrow> bool) \<Rightarrow> capability_store \<Rightarrow> bool" where
  "all_decisions Q st \<longleftrightarrow> (\<forall>i d. hm_get (cs_decisions st) i = Some d \<longrightarrow> Q d)"

lemma all_decisions_cong:
  "cs_decisions st' = cs_decisions st \<Longrightarrow> all_decisions Q st' = all_decisions Q st"
  by (simp add: all_decisions_def)

lemma record_all:
  "all_decisions Q st \<Longrightarrow> (\<And>i t. Q (decision_of_request i t r)) \<Longrightarrow>
     all_decisions Q (fst (snd (record_decision X r st w)))"
  by (auto simp: all_decisions_def record_decision_def Let_def split: sum.split option.split)

lemma issue_all:
  "all_decisions Q st \<Longrightarrow> (\<And>d. Q (d\<lparr>dc_issued := True\<rparr>) = Q d) \<Longrightarrow>
     all_decisions Q (fst (snd (issue_after_authorization X i st w)))"
  by (auto simp: all_decisions_def issue_after_authorization_def hm_get_modify Let_def
      split: option.split if_splits)

lemma decide_all:
  assumes "all_decisions Q (pl_capabilities (fst pw))" "\<And>i t. Q (decision_of_request i t r)"
    "\<And>d. Q (d\<lparr>dc_issued := True\<rparr>) = Q d"
  shows "all_decisions Q (pl_capabilities (fst (snd (decide_and_issue X r f n a pw))))"
  using record_all [OF assms(1,2), where X = X and w = "snd pw"] assms(3)
  by (auto simp: decide_and_issue_def split_def Let_def intro: issue_all split: sum.split)

definition own_decision :: "server \<Rightarrow> string \<Rightarrow> decision \<Rightarrow> bool" where
  "own_decision sv v d \<longleftrightarrow>
     own_identity sv v (dc_principal_fingerprint d) (dc_policy_hash d) (dc_policy_version d)"

lemma own_decision_issued [simp]: "own_decision sv v (d\<lparr>dc_issued := True\<rparr>) = own_decision sv v d"
  by (simp add: own_decision_def)

abbreviation own_decisions :: "server \<Rightarrow> string \<Rightarrow> pst \<Rightarrow> bool" where
  "own_decisions sv v pw \<equiv> all_decisions (own_decision sv v) (pl_capabilities (fst pw))"

lemma provider_own:
  assumes "own_decisions sv v pw"
    "own_identity sv v (pr_principal_fingerprint r) (pr_policy_hash r) (pr_policy_version r)"
  shows "own_decisions sv v (snd (authorize_provider_execution X r pw))"
  using assms by (auto simp: authorize_provider_execution_def own_decision_def provider_decision_def
      decision_of_request_def intro!: decide_all split: sum.split)

lemma sealed_policy:
  "ae_seal X (action_of_request r) = Inr env \<Longrightarrow>
     ae_policy_hash env = aar_policy_hash r \<and> ae_policy_version env = aar_policy_version r"
  by (auto simp: ae_seal_def action_of_request_def ebind_Inr_iff)

lemma action_own:
  assumes "own_decisions sv v pw"
    "own_identity sv v (aar_principal_fingerprint r) (aar_policy_hash r) (aar_policy_version r)"
  shows "own_decisions sv v (snd (authorize_action_execution X r pw))"
  using assms by (auto simp: authorize_action_execution_def own_decision_def action_decision_def
      decision_of_request_def Let_def intro!: decide_all dest: sealed_policy split: sum.split)

lemma consume_own:
  "own_decisions sv v pw \<Longrightarrow> own_decisions sv v (snd (consume_provider_capability X p pw))"
  by (auto simp: consume_provider_capability_def all_decisions_def consume_def split_def Let_def
      split: option.split)

lemma service_own:
  assumes "own_decisions sv v (gv_core gw)" "service_op sv v op"
  shows "own_decisions sv v (gv_core (gv_step X S dbg op gw))"
proof (cases op)
  case (GvInner op')
  with assms show ?thesis
    using unrelated_capabilities [of op' X S "gv_core gw"]
    by (auto simp: split_def Let_def simp del: pl_step.simps)
next
  case (GvBoundOutbound m sid ctx run)
  with assms(1) show ?thesis
    using outbound_frame [of _ "gv_core gw" X m]
    by (auto simp: gv_ops split_def Let_def bound_outbound_def frame_def split: sum.split)
next
  case (GvContext e tx dept agent)
  with assms(1) show ?thesis
    using context_keeps(1) [of X e tx dept agent "gv_core gw"] by (simp add: gv_ops split_def)
next
  case (GvOutbound m sid)
  with assms(2) show ?thesis by simp
qed (use assms in \<open>simp_all add: gv_ops split_def Let_def provider_own action_own consume_own\<close>)

lemma service_run_own:
  "own_decisions sv v (gv_core gw) \<Longrightarrow> list_all (service_op sv v) ops \<Longrightarrow>
     own_decisions sv v (gv_core (fold (gv_step X S dbg) ops gw))"
  by (induction ops arbitrary: gw) (simp_all add: service_own del: gv_step.simps)

section \<open>From the start of the process\<close>

text \<open>
  A constitution the process may start under: the file's bytes are signed by the pinned authority,
  parse to the document, and the document is in force for the configured industry.
\<close>

definition constituted :: "server \<Rightarrow> (string \<Rightarrow> string + constitution) \<Rightarrow> string hashmap \<Rightarrow>
    constitution \<Rightarrow> bool" where
  "constituted sv parse disk c \<longleftrightarrow> (\<exists>bytes sig_text key sig.
     hm_get disk (constitution_json_path (sv_env sv)) = Some bytes \<and>
     hm_get disk (constitution_signature_path (sv_env sv)) = Some sig_text \<and>
     trusted_constitution_authority_key (sv_x sv) = Some key \<and>
     hex_decode (sv_x sv) (trim (trim sig_text)) = Some sig \<and> length sig = 64 \<and>
     ed_verify (sv_x sv) key bytes sig \<and> parse bytes = Inr c \<and>
     cn_industry_profile c = env_or (sv_env sv) ''SENTOW_INDUSTRY_PROFILE'' ''consumer'' \<and>
     cn_effective_at c \<le> clock (sv_x sv) 0 \<and> (\<forall>e. cn_expires_at c = Some e \<longrightarrow> clock (sv_x sv) 0 < e))"

lemma load_constituted:
  assumes "load_verified_from_paths (sv_x sv) parse (hm_get disk (constitution_json_path (sv_env sv)))
      (hm_get disk (constitution_signature_path (sv_env sv))) key
      (env_or (sv_env sv) ''SENTOW_INDUSTRY_PROFILE'' ''consumer'') (clock (sv_x sv) 0) = Inr c"
    and "trusted_constitution_authority_key (sv_x sv) = Some key"
  shows "constituted sv parse disk c"
  using assms unfolding constituted_def
  by (auto simp: load_verified_from_paths_def load_verified_def check_document_Inr ebind_Inr_iff Let_def
      split: option.splits if_splits sum.splits)

lemma evaluator_version: "evaluator_new X ser c = Inr ev \<Longrightarrow> evaluator_policy_version ev = cn_policy_version c"
  by (auto simp: evaluator_new_def evaluator_policy_version_def ebind_Inr_iff split: if_splits)

lemma governed_new_policy:
  "governed_new X ser S parse mode thr path files acfg (Some c) sink s w = Inr gw \<Longrightarrow>
     in_force gw = cn_policy_version c"
  by (auto simp: governed_new_def pipeline_new_def active_policy_version_def ebind_Inr_iff Let_def
      evaluator_version split: sum.splits prod.splits)

lemma persisted_engine_ok: "from_persisted_key_file X file seed = Inr e \<Longrightarrow> engine_ok X e"
  by (auto simp: from_persisted_key_file_def engine_from_bytes_def engine_ok_def
      split: option.splits if_splits sum.splits)

lemma start_facts:
  assumes "start sv ser parse_f32 thr parse disk = Inr (sv', gw)" "cap_laws (sv_x sv)"
  obtains c token where "constituted sv parse disk c"
    "service_token_of (sv_x sv) (sv_env sv ''SENTINEL_SERVICE_TOKEN'') = Inr token"
    "sv' = sv\<lparr>sv_token := token\<rparr>" "in_force gw = cn_policy_version c" "audit_inv (sv_x sv) gw"
    "pl_capabilities (fst (gv_core gw)) = capability_store_new"
proof -
  let ?env = "sv_env sv"
  let ?industry = "env_or ?env ''SENTOW_INDUSTRY_PROFILE'' ''consumer''"
  obtain token where s1: "service_token_of (sv_x sv) (?env ''SENTINEL_SERVICE_TOKEN'') = Inr token"
    using assms(1) by (auto simp: start_def Let_def ebind_Inr_iff)
  obtain authority where s2:
    "authority_from_config (sv_x sv) (?env ''SENTINEL_OPERATOR_RESET_TOKEN'') = Inr authority"
    using assms(1) s1 by (auto simp: start_def Let_def split: sum.splits)
  obtain key where s3: "trusted_constitution_authority_key (sv_x sv) = Some key"
    using assms(1) s1 s2 by (auto simp: start_def Let_def split: option.splits)
  obtain c where s4: "load_verified_from_paths (sv_x sv) parse
      (hm_get disk (constitution_json_path ?env)) (hm_get disk (constitution_signature_path ?env))
      key ?industry (clock (sv_x sv) 0) = Inr c"
    using assms(1) s1 s2 s3 by (auto simp: start_def Let_def split: sum.splits)
  obtain engine where s5: "from_persisted_key_file (sv_x sv) (hm_get disk (audit_key_path ?env))
      ''logos_governance_v1_seed'' = Inr engine"
    using assms(1) s1 s2 s3 s4 by (auto simp: start_def Let_def split: sum.splits)
  obtain G w where g: "governed_new (sv_x sv) ser (sv_storage sv) parse_f32 (?env ''GOVMEM_MODE'') thr
      (?env ''SENTOW_MEMORY_PATH'') disk (arbiter_config_for ?industry) (Some c) None ()
      \<lparr>eng = engine, ticks = 1, ids = 0\<rparr> = Inr (G, w)"
    using assms(1) s1 s2 s3 s4 s5 by (auto simp: start_def Let_def split: sum.splits)
  obtain P where P: "pl_configure_reset_authority authority (gv_pipeline G) = (Inr (), P)"
    and r: "sv' = sv\<lparr>sv_token := token\<rparr>" "gw = (G\<lparr>gv_pipeline := P\<rparr>, w)"
    using assms(1) s1 s2 s3 s4 s5 g by (auto simp: start_def Let_def split: sum.splits prod.splits)
  have step: "gw = gv_step (sv_x sv) (sv_storage sv) id (GvInner (PlAuthority authority)) (G, w)"
    by (simp add: r P gv_core_def)
  have new: "audit_inv (sv_x sv) (G, w)"
    by (rule governed_new_inv(1) [OF g]) (simp add: persisted_engine_ok [OF s5])
  have "audit_inv (sv_x sv) gw" unfolding step by (rule gv_step_inv [OF assms(2) new])
  moreover have "in_force gw = cn_policy_version c"
    unfolding step using governed_new_policy [OF g] by (simp del: gv_step.simps)
  moreover have "pl_capabilities (fst (gv_core gw)) = capability_store_new"
    using g P by (auto simp: r gv_core_def governed_new_def pipeline_new_def ebind_Inr_iff Let_def
        pl_configure_reset_authority_def split: sum.splits prod.splits)
  ultimately show ?thesis using that load_constituted [OF s4 s3] s1 r(1) by blast
qed

text \<open>
  Claim C14: the HTTP service is a client of the governed pipeline and nothing else. Over any sequence
  of connections, whatever bytes arrive, the state it reaches is the one the governed pipeline
  reaches by a list of operations, one segment per connection; a segment is empty unless the
  connection carries the service token; and every authorisation and consumption in it presents
  the service's own identity and the policy in force, whatever the request says. A request
  without the token, for any path but \<open>/health\<close>, is answered 401 and changes nothing.
\<close>

theorem service_refines:
  "(\<exists>opss. list_all2 (contributes sv (in_force gw)) rs opss \<and>
      fold (http_step sv) rs gw = fold (sv_step sv) (concat opss) gw) \<and>
   (receive (sv_x sv) r = Some (Inr q) \<and> \<not> authenticated sv q \<and> rq_path q \<noteq> ''/health'' \<longrightarrow>
      handle sv r gw = (Some (err_json 401 ''service authentication required''), gw))"
  using http_run by (simp add: handle_def respond_def answer_def)

text \<open>
  Claim C13: whoever calls, authority is the service's. From a start of the process that succeeded,
  over any sequence of connections: the pipeline runs under a constitution whose bytes on disk are
  signed by the pinned authority and which was in force for the configured industry; every
  capability in the store carries the fingerprint of the service token, the hash of the running
  configuration and the policy version of that constitution; and the evidence log verifies and is
  causally closed.
\<close>

theorem served_authority:
  assumes "cap_laws (sv_x sv)" "start sv ser parse_f32 thr parse disk = Inr (sv', gw)"
  shows "\<exists>c. constituted sv parse disk c \<and>
    (\<forall>i t. hm_get (cs_capabilities (pl_capabilities (fst (gv_core (fold (http_step sv') rs gw))))) i =
        Some t \<longrightarrow> own_identity sv' (cn_policy_version c) (ct_principal_fingerprint t)
          (ct_policy_hash t) (ct_policy_version t)) \<and>
    verify_snapshot (sv_x sv) (gv_log (fold (http_step sv') rs gw)) = Inr () \<and>
    log_causal (gv_log (fold (http_step sv') rs gw))"
proof -
  obtain c token where c: "constituted sv parse disk c" "sv' = sv\<lparr>sv_token := token\<rparr>"
    "in_force gw = cn_policy_version c" "audit_inv (sv_x sv) gw"
    "pl_capabilities (fst (gv_core gw)) = capability_store_new"
    using start_facts [OF assms(2,1)] by metis
  obtain opss where run: "list_all2 (contributes sv' (in_force gw)) rs opss"
    "fold (http_step sv') rs gw = fold (sv_step sv') (concat opss) gw"
    using http_run by blast
  let ?gw = "fold (sv_step sv') (concat opss) gw"
  have "list_all (service_op sv' (in_force gw)) (concat opss)"
    using run(1) by (induction rule: list_all2_induct) (auto simp: contributes_def)
  then have own: "own_decisions sv' (cn_policy_version c) (gv_core ?gw)"
    using service_run_own [of sv' "in_force gw" gw "concat opss"] c(3,5)
    by (simp add: all_decisions_def capability_store_new_def)
  have inv: "audit_inv (sv_x sv) ?gw" using gv_run_inv [OF assms(1) c(4)] c(2) by simp
  then have tokens: "tokens_inv (sv_x sv) (pl_capabilities (fst (gv_core ?gw)), snd ?gw)"
    by (simp add: audit_inv_def authority_inv_def cap_inv_def)
  have "own_identity sv' (cn_policy_version c) (ct_principal_fingerprint t) (ct_policy_hash t)
      (ct_policy_version t)"
    if t: "hm_get (cs_capabilities (pl_capabilities (fst (gv_core ?gw)))) i = Some t" for i t
  proof -
    obtain d where "hm_get (cs_decisions (pl_capabilities (fst (gv_core ?gw))))
        (ct_haap_decision_id t) = Some d" "token_scope t d"
      using tokens t unfolding tokens_inv_def split_conv by blast
    with own show ?thesis by (auto simp: all_decisions_def own_decision_def token_scope_def)
  qed
  with c(1) inv plane_inv_verifies [of "sv_x sv"] assms(1) show ?thesis
    by (auto simp: run(2) audit_inv_def gv_log_def evidence_snapshot_def cap_laws_def)
qed

section \<open>A process that starts\<close>

definition demo_constitution :: constitution where
  "demo_constitution = (default_medical demo (\<lambda>_. []))\<lparr>cn_industry_profile := ''consumer'',
     cn_effective_at := 0, cn_prohibited_patterns := [], cn_constitutional_hash := None\<rparr>"

definition demo_env :: "string \<Rightarrow> string option" where
  "demo_env k = (if k = ''SENTINEL_SERVICE_TOKEN'' then Some ''t''
     else if k = ''SENTINEL_OPERATOR_RESET_TOKEN'' then Some strong_token else None)"

definition demo_server :: server where
  "demo_server = \<lparr>sv_x = demo, sv_storage = demo_storage, sv_dbg = id,
     sv_parse_json = (\<lambda>_. None), sv_parse_envelope = (\<lambda>_. Inl []), sv_json_time = show_int,
     sv_rfc3339 = show_int, sv_env = demo_env, sv_token = []\<rparr>"

definition demo_disk :: "string \<Rightarrow> string hashmap" where
  "demo_disk key = [(constitution_json_path demo_env, ''c''),
     (constitution_signature_path demo_env, hex_enc (pad_to 64 (key @ ''c''))),
     (audit_key_path demo_env, replicate 32 CHR ''k'')]"

lemma hex_dec_ok: "list_all hex_char s \<Longrightarrow> even (length s) \<Longrightarrow>
    \<exists>k. hex_dec s = Some k \<and> length k = length s div 2"
  by (induction s rule: hex_dec.induct) auto

lemma demo_authority_key:
  obtains key where "trusted_constitution_authority_key demo = Some key" "length key = 32"
proof -
  have "list_all hex_char trusted_authority_key_hex" "length trusted_authority_key_hex = 64"
    by (simp_all add: trusted_authority_key_hex_def hex_char_def is_ascii_digit_def char_le_def)
  with hex_dec_ok [of trusted_authority_key_hex] obtain k where
    "hex_dec trusted_authority_key_hex = Some k" "length k = 32" by auto
  with that show ?thesis by (simp add: trusted_constitution_authority_key_def demo_def)
qed

lemma demo_paths:
  "constitution_json_path demo_env = ''/app/constitution/constitution.json''"
  "constitution_signature_path demo_env = ''/app/constitution/constitution.json.sig''"
  "audit_key_path demo_env = ''/app/audit-signing/audit-signing-ed25519.key''"
  "env_or demo_env ''SENTOW_INDUSTRY_PROFILE'' ''consumer'' = ''consumer''"
  by (simp_all add: constitution_json_path_def constitution_signature_path_def audit_key_path_def
      env_or_def demo_env_def)

lemma demo_starts:
  assumes "trusted_constitution_authority_key demo = Some key" "length key = 32"
  obtains gw where "start demo_server (\<lambda>_. []) (\<lambda>_. None) EnvNotPresent
    (\<lambda>_. Inr demo_constitution) (demo_disk key) = Inr (demo_server\<lparr>sv_token := ''t''\<rparr>, gw)"
proof -
  let ?sig = "pad_to 64 (key @ ''c'')"
  have token: "service_token_of demo (Some ''t'') = Inr ''t''"
    by (simp add: service_token_of_def demo_def str_eval byte_def)
  have files: "hm_get (demo_disk key) (constitution_json_path demo_env) = Some ''c''"
    "hm_get (demo_disk key) (constitution_signature_path demo_env) = Some (hex_enc ?sig)"
    "hm_get (demo_disk key) (audit_key_path demo_env) = Some (replicate 32 CHR ''k'')"
    by (simp_all add: demo_disk_def hm_get_def demo_paths)
  have "?sig \<noteq> []" by (metis length_pad_to list.size(3) zero_neq_numeral)
  then have "hex_enc ?sig \<noteq> []" by (cases ?sig) simp_all
  moreover have "check_document demo ''consumer'' 0 demo_constitution = Inr ()"
    by (simp add: check_document_def demo_constitution_def default_medical_def
        constitution_seal_def str_eval byte_def guard_ok_def)
  ultimately have load: "load_verified_from_paths demo (\<lambda>_. Inr demo_constitution) (Some ''c'')
      (Some (hex_enc ?sig)) key ''consumer'' (clock demo 0) = Inr demo_constitution"
    by (simp add: load_verified_from_paths_def load_verified_def trim_hex [OF hex_enc_all]
        demo_def hex_dec_enc secs_def)
  obtain P where P: "pipeline_new demo (\<lambda>_. []) demo_storage (\<lambda>_. None) None EnvNotPresent None
      (demo_disk key) default_arbiter_config (Some demo_constitution) = Inr P"
    "pl_arbiter P = arbiter_new default_arbiter_config"
    by (simp add: pipeline_new_def evaluator_new_def demo_constitution_def govmem_new_def Let_def
        configured_block_threshold_def)
  have "\<exists>gw. start demo_server (\<lambda>_. []) (\<lambda>_. None) EnvNotPresent (\<lambda>_. Inr demo_constitution)
      (demo_disk key) = Inr (demo_server\<lparr>sv_token := ''t''\<rparr>, gw)"
    using token files load P assms strong_token_valid
    by (simp add: start_def demo_server_def demo_paths demo_env_def Let_def governed_new_def
        from_persisted_key_file_def engine_from_bytes_def arbiter_config_for_def
        pl_configure_reset_authority_def configure_operator_reset_authority_def arbiter_new_def split_def)
  then show ?thesis using that by blast
qed

theorem service_refines_witness:
  "\<forall>gw :: unit gst. handle (demo_server\<lparr>sv_token := ''t''\<rparr>) [Some demo_get] gw =
     (Some (err_json 401 ''service authentication required''), gw)"
proof
  fix gw :: "unit gst"
  let ?q = "\<lparr>rq_method = ''GET'', rq_path = ''/a'', rq_headers = [(''h'', ''b'')], rq_body = []\<rparr>"
  have "\<not> authenticated (demo_server\<lparr>sv_token := ''t''\<rparr>) ?q"
    by (simp add: authenticated_def authorized_def bearer_def hm_get_def)
  then show "handle (demo_server\<lparr>sv_token := ''t''\<rparr>) [Some demo_get] gw =
      (Some (err_json 401 ''service authentication required''), gw)"
    using service_refines [where sv = "demo_server\<lparr>sv_token := ''t''\<rparr>" and r = "[Some demo_get]"
        and q = ?q and gw = gw] demo_get_received
    by (simp add: demo_server_def)
qed

theorem served_authority_witness:
  "\<exists>key sv' (gw :: unit gst) c. start demo_server (\<lambda>_. []) (\<lambda>_. None) EnvNotPresent
      (\<lambda>_. Inr demo_constitution) (demo_disk key) = Inr (sv', gw) \<and>
     constituted demo_server (\<lambda>_. Inr demo_constitution) (demo_disk key) c \<and>
     log_causal (gv_log (fold (http_step sv') [[Some demo_get]] gw))"
proof -
  obtain key where key: "trusted_constitution_authority_key demo = Some key" "length key = 32"
    by (rule demo_authority_key)
  obtain gw where gw: "start demo_server (\<lambda>_. []) (\<lambda>_. None) EnvNotPresent
      (\<lambda>_. Inr demo_constitution) (demo_disk key) = Inr (demo_server\<lparr>sv_token := ''t''\<rparr>, gw)"
    using demo_starts [OF key] .
  have "cap_laws (sv_x demo_server)" using demo_cap_laws by (simp add: demo_server_def)
  from served_authority [OF this gw, of "[[Some demo_get]]"] gw show ?thesis by blast
qed

end
