(* ===== verification/Provisioning.thy ===== *)
theory Provisioning
  imports Constitution OperatorReset
begin

text \<open>
  The offline tools under \<open>examples\<close>: the two key generators and the constitution signer. A tool runs
  over the files of the disk and either refuses or writes; a random key is an argument, and so is
  the check that a document is JSON. File modes and console output are left out.

  The theorem: what the tools write is what the process accepts at its start.
\<close>

datatype tool_error = HomeUnset | KeyExists | UsageError | DocumentUnreadable | DocumentNotJson
  | PrivateKeyUnreadable | PrivateKeyLength

section \<open>Key generation\<close>

definition custody_dir :: "string \<Rightarrow> string \<Rightarrow> string" where
  "custody_dir home purpose = home @ ''/.logosgs/'' @ purpose"

text \<open>
  Both generators: refuse if either file exists, else write the seed and the verifying key. The
  result is the fingerprint the tool prints.
\<close>

definition generate_key :: "externs \<Rightarrow> string option \<Rightarrow> string \<Rightarrow> string \<Rightarrow> string \<Rightarrow> string hashmap \<Rightarrow>
    tool_error + string \<times> string hashmap" where
  "generate_key X home purpose stem generated disk = (case home of
       None \<Rightarrow> Inl HomeUnset
     | Some h \<Rightarrow>
         (let priv_path = custody_dir h purpose @ ''/'' @ stem @ ''.key'';
              pub_path = custody_dir h purpose @ ''/'' @ stem @ ''.pub'';
              pub = ed_public X generated;
              fingerprint = take 16 (sha_hex X (hex_encode X pub))
          in if hm_get disk priv_path \<noteq> None \<or> hm_get disk pub_path \<noteq> None then Inl KeyExists
             else Inr (fingerprint, hm_insert pub_path pub (hm_insert priv_path generated disk))))"

definition generate_audit_signing_key :: "externs \<Rightarrow> string option \<Rightarrow> string \<Rightarrow> string hashmap \<Rightarrow>
    tool_error + string \<times> string hashmap" where
  "generate_audit_signing_key X home generated disk =
     generate_key X home ''audit-signing'' ''audit-signing-ed25519'' generated disk"

definition generate_constitution_signing_key :: "externs \<Rightarrow> string option \<Rightarrow> string \<Rightarrow>
    string hashmap \<Rightarrow> tool_error + string \<times> string hashmap" where
  "generate_constitution_signing_key X home generated disk =
     generate_key X home ''constitution-signing'' ''constitution-authority-ed25519'' generated disk"

section \<open>Signing\<close>

definition default_key_path :: "string \<Rightarrow> string" where
  "default_key_path home =
     custody_dir home ''constitution-signing'' @ ''/constitution-authority-ed25519.key''"

definition sign_constitution :: "externs \<Rightarrow> (string \<Rightarrow> bool) \<Rightarrow> string option \<Rightarrow> string list \<Rightarrow>
    string hashmap \<Rightarrow> tool_error + string hashmap" where
  "sign_constitution X is_json home args disk = (case args of
       [] \<Rightarrow> Inl UsageError
     | doc_path # rest \<Rightarrow>
         (case (case rest of key_path # _ \<Rightarrow> Some key_path | [] \<Rightarrow> map_option default_key_path home) of
            None \<Rightarrow> Inl HomeUnset
          | Some key_path \<Rightarrow>
              (case hm_get disk doc_path of
                 None \<Rightarrow> Inl DocumentUnreadable
               | Some doc \<Rightarrow>
                   if \<not> is_json doc then Inl DocumentNotJson
                   else (case hm_get disk key_path of
                           None \<Rightarrow> Inl PrivateKeyUnreadable
                         | Some key \<Rightarrow>
                             if length key \<noteq> 32 then Inl PrivateKeyLength
                             else Inr (hm_insert (doc_path @ ''.sig'')
                                    (hex_encode X (ed_sign X key doc)) disk)))))"

lemma generate_key_Inr:
  assumes "generate_key X (Some h) purpose stem k disk = Inr (fp, disk')"
  defines "priv \<equiv> custody_dir h purpose @ ''/'' @ stem @ ''.key''"
  shows "fp = take 16 (sha_hex X (hex_encode X (ed_public X k)))" "hm_get disk' priv = Some k"
    "\<And>p v. hm_get disk p = Some v \<Longrightarrow> hm_get disk' p = Some v"
  using assms by (auto simp: generate_key_def Let_def split: if_splits)

lemma sign_Inr:
  assumes "sign_constitution X is_json home (doc_path # rest) disk = Inr disk'"
  obtains doc key where "hm_get disk doc_path = Some doc" "is_json doc" "length key = 32"
    "disk' = hm_insert (doc_path @ ''.sig'') (hex_encode X (ed_sign X key doc)) disk"
    "hm_get disk (case rest of p # _ \<Rightarrow> p | [] \<Rightarrow> default_key_path (the home)) = Some key"
  using assms by (auto simp: sign_constitution_def split: option.splits if_splits list.splits)

text \<open>
  Claim C18: what is provisioned is what the process accepts. An operator generates the authority
  key, signs a JSON document with it, and generates the audit key, each tool run succeeding. If the
  release pins that authority key, the loader accepts the document on the disk exactly when its
  bytes parse and its fields pass the checks (the signature is never the obstacle), and the
  process loads the audit identity whose fingerprint the generator printed.
\<close>

theorem provisioned_accepted:
  assumes laws: "hex_laws X" "ed_laws X"
    and authority: "generate_constitution_signing_key X (Some home) authority_seed disk = Inr (fp, disk1)"
    and sign: "sign_constitution X is_json (Some home) [doc_path] disk1 = Inr disk2"
    and audit: "generate_audit_signing_key X (Some home) audit_seed disk2 = Inr (audit_fp, disk3)"
    and pinned: "key = ed_public X authority_seed" and seed: "length audit_seed = 32"
  shows "(load_verified_from_paths X parse (hm_get disk3 doc_path) (hm_get disk3 (doc_path @ ''.sig''))
       key profile t = Inr c \<longleftrightarrow>
     (\<exists>doc. hm_get disk1 doc_path = Some doc \<and> parse doc = Inr c \<and> check_document X profile t c = Inr ())) \<and>
   (\<exists>e. from_persisted_key_file X (hm_get disk3 (custody_dir home ''audit-signing'' @
       ''/audit-signing-ed25519.key'')) ''logos_governance_v1_seed'' = Inr e \<and>
     verifying_key_fingerprint X e = audit_fp)"
proof -
  note a = generate_key_Inr [OF authority [unfolded generate_constitution_signing_key_def]]
    and b = generate_key_Inr [OF audit [unfolded generate_audit_signing_key_def]]
  obtain doc where doc: "hm_get disk1 doc_path = Some doc"
    "disk2 = hm_insert (doc_path @ ''.sig'') (hex_encode X (ed_sign X authority_seed doc)) disk1"
    using sign_Inr [OF sign] a(2) by (auto simp: default_key_path_def)
  let ?sig = "hex_encode X (ed_sign X authority_seed doc)"
  have files: "hm_get disk3 doc_path = Some doc" "hm_get disk3 (doc_path @ ''.sig'') = Some ?sig"
    using b(3) doc by simp_all
  have sig: "trim ?sig = ?sig" "?sig \<noteq> []" "hex_decode X ?sig = Some (ed_sign X authority_seed doc)"
    using laws by (auto simp: hex_laws_def ed_laws_def trim_hex simp flip: length_0_conv)
  have "load_verified_from_paths X parse (Some doc) (Some ?sig) key profile t = Inr c \<longleftrightarrow>
      parse doc = Inr c \<and> check_document X profile t c = Inr ()"
    using laws(2) sig pinned
    by (auto simp: load_verified_from_paths_def load_verified_def ed_laws_def ebind_Inr_iff split: sum.splits)
  moreover have "\<exists>e. from_persisted_key_file X (Some audit_seed) ''logos_governance_v1_seed'' = Inr e \<and>
      verifying_key_fingerprint X e = audit_fp"
    using seed b(1) by (simp add: from_persisted_key_file_def engine_from_bytes_def
        verifying_key_fingerprint_def verifying_key_hex_def compute_hash_def)
  ultimately show ?thesis using files doc(1) b(2) by simp
qed

definition demo_seed :: string where
  "demo_seed = replicate 32 CHR ''k''"

theorem provisioned_accepted_witness:
  "\<exists>disk. load_verified_from_paths demo (\<lambda>_. Inr (default_medical demo (\<lambda>_. [])))
      (hm_get disk ''c'') (hm_get disk ''c.sig'') (ed_public demo demo_seed) ''medical''
      (secs 1577836800) = Inr (default_medical demo (\<lambda>_. []))"
proof -
  have key: "hex_laws demo" "ed_laws demo" "length demo_seed = 32"
    by (rule demo_hex, rule demo_ed, simp add: demo_seed_def)
  obtain fp disk1 where 1: "generate_constitution_signing_key demo (Some ''h'') demo_seed
      [(''c'', ''d'')] = Inr (fp, disk1)"
    by (simp add: generate_constitution_signing_key_def generate_key_def custody_dir_def hm_get_def
        Let_def)
  note doc = generate_key_Inr [OF 1 [unfolded generate_constitution_signing_key_def]]
  have c: "hm_get disk1 ''c'' = Some ''d''" by (rule doc(3)) (simp add: hm_get_def)
  let ?disk2 = "hm_insert ''c.sig'' (hex_encode demo (ed_sign demo demo_seed ''d'')) disk1"
  have 2: "sign_constitution demo (\<lambda>_. True) (Some ''h'') [''c''] disk1 = Inr ?disk2"
    using c doc(2) key(3) by (simp add: sign_constitution_def default_key_path_def)
  have "hm_get ?disk2 (custody_dir ''h'' ''audit-signing'' @ ''/audit-signing-ed25519'' @ x) = None" for x
    using 1 by (auto simp: generate_constitution_signing_key_def generate_key_def custody_dir_def
        hm_get_def hm_insert_def update_conv Let_def split: if_splits)
  then obtain afp disk3 where 3:
    "generate_audit_signing_key demo (Some ''h'') demo_seed ?disk2 = Inr (afp, disk3)"
    by (simp add: generate_audit_signing_key_def generate_key_def Let_def)
  have "check_document demo ''medical'' (secs 1577836800) (default_medical demo (\<lambda>_. [])) = Inr ()"
    by (simp add: check_document_def default_medical_def constitution_seal_def str_eval byte_def
        guard_ok_def)
  with provisioned_accepted [OF key(1,2) 1 2 3 refl key(3), of "\<lambda>_. Inr (default_medical demo (\<lambda>_. []))"
      "''medical''" "secs 1577836800"] c
  show ?thesis by (intro exI [of _ disk3]) auto
qed

end
