(* ===== verification/CapabilityTests.thy ===== *)
theory CapabilityTests
  imports Execution
begin

text \<open>
  The unit tests of \<open>capability.rs\<close>, run in the model: each is a predicate on the libraries and the
  store it starts from, and they hold from a new store for every lawful library, not for one run. A
  test of threads that hammer one store is the sequence of their operations, which the store's lock
  makes atomic; all threads do the same, so every schedule is that sequence.
\<close>

type_synonym cap_state = "capability_store \<times> world"

section \<open>Fixtures\<close>

definition req :: "string \<Rightarrow> decision_request" where
  "req tx = \<lparr>dr_gov_tx_id = tx, dr_session_id = ''sess1'',
     dr_principal_fingerprint = ''fpADMIN00000000'', dr_authority = AUTHORITY_PROVIDER_EXECUTE,
     dr_backend = ''groq'', dr_model = ''llama-3.3-70b-versatile'', dr_action_class = ''chat'',
     dr_sentinel_verdict_id = ''sv1'', dr_policy_hash = replicate 64 CHR ''d'',
     dr_authorization_basis = ''BelowRiskThreshold'', dr_agency = ''L2'', dr_drs = 20,
     dr_run_id = ''run1'', dr_context_hash = replicate 64 CHR ''c'',
     dr_policy_version = ''policy-v1'', dr_action_hash = [], dr_tool_name = [],
     dr_resource_kind = [], dr_resource_locator = [], dr_tool_call_id = [],
     dr_action_plane = PlaneTool, dr_normalized_action = [],
     dr_required_for_safe_completion = True\<rparr>"

definition action_req :: "string \<Rightarrow> decision_request" where
  "action_req tx = \<lparr>dr_gov_tx_id = tx, dr_session_id = ''sess1'',
     dr_principal_fingerprint = ''fpADMIN00000000'', dr_authority = AUTHORITY_ACTION_EXECUTE,
     dr_backend = [], dr_model = [], dr_action_class = ''tool:bash'',
     dr_sentinel_verdict_id = ''sv1'', dr_policy_hash = replicate 64 CHR ''d'',
     dr_authorization_basis = ''RequireAuthorization'', dr_agency = ''L2'', dr_drs = 20,
     dr_run_id = ''run1'', dr_context_hash = replicate 64 CHR ''c'',
     dr_policy_version = ''policy-v1'', dr_action_hash = replicate 64 CHR ''a'',
     dr_tool_name = ''bash'', dr_resource_kind = ''shell'', dr_resource_locator = ''echo hi'',
     dr_tool_call_id = ''call1'', dr_action_plane = PlaneTool,
     dr_normalized_action = ''tool.bash'', dr_required_for_safe_completion = True\<rparr>"

definition heartbeat_req :: "string \<Rightarrow> decision_request" where
  "heartbeat_req tx = \<lparr>dr_gov_tx_id = tx, dr_session_id = ''sess1'',
     dr_principal_fingerprint = ''fpADMIN00000000'', dr_authority = AUTHORITY_ACTION_EXECUTE,
     dr_backend = [], dr_model = [], dr_action_class = ''tool:heartbeat_respond'',
     dr_sentinel_verdict_id = ''sv1'', dr_policy_hash = replicate 64 CHR ''d'',
     dr_authorization_basis = ''RequireAuthorization'', dr_agency = ''L2'', dr_drs = 20,
     dr_run_id = ''run1'', dr_context_hash = replicate 64 CHR ''c'',
     dr_policy_version = ''policy-v1'', dr_action_hash = replicate 64 CHR ''b'',
     dr_tool_name = ''heartbeat_respond'', dr_resource_kind = ''unknown'',
     dr_resource_locator = ''heartbeat_respond'', dr_tool_call_id = ''call-hb-1'',
     dr_action_plane = PlaneControl, dr_normalized_action = ''system.telemetry.heartbeat'',
     dr_required_for_safe_completion = False\<rparr>"

text \<open>Recording a request and issuing its token; a failure is the test's panic, \<open>False\<close>.\<close>

definition obtaining :: "externs \<Rightarrow> decision_request \<Rightarrow> cap_state \<Rightarrow>
    (capability_token \<Rightarrow> cap_state \<Rightarrow> bool) \<Rightarrow> bool" where
  "obtaining X r s k = (case record_decision X r (fst s) (snd s) of
       (Inl _, _) \<Rightarrow> False
     | (Inr did, st, w) \<Rightarrow> (case issue_after_authorization X did st w of
         (Issued c, s') \<Rightarrow> k c s' | _ \<Rightarrow> False))"

definition cap :: "externs \<Rightarrow> cap_state \<Rightarrow> (capability_token \<Rightarrow> cap_state \<Rightarrow> bool) \<Rightarrow> bool" where
  "cap X = obtaining X (req ''tx1'')"

definition action_cap :: "externs \<Rightarrow> cap_state \<Rightarrow> (capability_token \<Rightarrow> cap_state \<Rightarrow> bool) \<Rightarrow> bool" where
  "action_cap X = obtaining X (action_req ''tx-action-1'')"

definition heartbeat_cap :: "externs \<Rightarrow> cap_state \<Rightarrow> (capability_token \<Rightarrow> cap_state \<Rightarrow> bool) \<Rightarrow> bool" where
  "heartbeat_cap X = obtaining X (heartbeat_req ''tx-heartbeat-1'')"

definition presenting :: "externs \<Rightarrow> presented_binding \<Rightarrow> consume_outcome \<Rightarrow> cap_state \<Rightarrow>
    (cap_state \<Rightarrow> bool) \<Rightarrow> bool" where
  "presenting X p expected s k =
     (let (out, s') = consume X p (fst s) (snd s) in out = expected \<and> k s')"

definition recording :: "externs \<Rightarrow> decision_request \<Rightarrow> cap_state \<Rightarrow>
    (string \<Rightarrow> cap_state \<Rightarrow> bool) \<Rightarrow> bool" where
  "recording X r s k = (case record_decision X r (fst s) (snd s) of
       (Inl _, _) \<Rightarrow> False | (Inr did, s') \<Rightarrow> k did s')"

definition fails_with :: "externs \<Rightarrow> decision_request \<Rightarrow> capability_error \<Rightarrow> cap_state \<Rightarrow> bool" where
  "fails_with X r e s = (fst (record_decision X r (fst s) (snd s)) = Inl e)"

definition mutate_stored_token :: "string \<Rightarrow> (capability_token \<Rightarrow> capability_token) \<Rightarrow> cap_state \<Rightarrow>
    cap_state" where
  "mutate_stored_token i f s =
     ((fst s)\<lparr>cs_capabilities := hm_modify i f (cs_capabilities (fst s))\<rparr>, snd s)"

abbreviation done_test :: "cap_state \<Rightarrow> bool" where
  "done_test \<equiv> \<lambda>_. True"

section \<open>One token, presented\<close>

definition happy_path_consumes_once :: "externs \<Rightarrow> cap_state \<Rightarrow> bool" where
  "happy_path_consumes_once X s =
     cap X s (\<lambda>c s. presenting X (binding_of c) Authorized s done_test)"

definition replay_rejected :: "externs \<Rightarrow> cap_state \<Rightarrow> bool" where
  "replay_rejected X s = cap X s (\<lambda>c s. presenting X (binding_of c) Authorized s (\<lambda>s.
     presenting X (binding_of c) AlreadyConsumed s done_test))"

definition backend_mismatch :: "externs \<Rightarrow> cap_state \<Rightarrow> bool" where
  "backend_mismatch X s = cap X s (\<lambda>c s.
     presenting X ((binding_of c)\<lparr>pb_backend := ''anthropic''\<rparr>) BackendMismatch s done_test)"

definition model_mismatch :: "externs \<Rightarrow> cap_state \<Rightarrow> bool" where
  "model_mismatch X s = cap X s (\<lambda>c s.
     presenting X ((binding_of c)\<lparr>pb_model := ''gpt-4o''\<rparr>) ModelMismatch s done_test)"

definition transaction_mismatch :: "externs \<Rightarrow> cap_state \<Rightarrow> bool" where
  "transaction_mismatch X s = cap X s (\<lambda>c s.
     presenting X ((binding_of c)\<lparr>pb_gov_tx_id := ''tx2''\<rparr>) TransactionMismatch s done_test)"

definition issuance_requires_real_decision :: "externs \<Rightarrow> cap_state \<Rightarrow> bool" where
  "issuance_requires_real_decision X s =
     (fst (issue_after_authorization X ''DEC-nope'' (fst s) (snd s)) = DecisionNotFound)"

definition scope_from_decision_not_caller :: "externs \<Rightarrow> cap_state \<Rightarrow> bool" where
  "scope_from_decision_not_caller X s = cap X s (\<lambda>c s. ct_backend c = ''groq'' \<and>
     ct_model c = ''llama-3.3-70b-versatile'' \<and> ct_haap_decision_id c \<noteq> [])"

definition session_mismatch :: "externs \<Rightarrow> cap_state \<Rightarrow> bool" where
  "session_mismatch X s = cap X s (\<lambda>c s.
     presenting X ((binding_of c)\<lparr>pb_session_id := ''sessX''\<rparr>) SessionMismatch s done_test)"

definition same_session_multiple_turns_each_capability_independent :: "externs \<Rightarrow> cap_state \<Rightarrow> bool"
  where
  "same_session_multiple_turns_each_capability_independent X s =
     obtaining X (req ''tx-turn-1'') s (\<lambda>c1 s. obtaining X (req ''tx-turn-2'') s (\<lambda>c2 s.
     obtaining X (req ''tx-turn-3'') s (\<lambda>c3 s.
       ct_session_id c1 = ''sess1'' \<and> ct_session_id c2 = ''sess1'' \<and> ct_session_id c3 = ''sess1'' \<and>
       presenting X (binding_of c2) Authorized s (\<lambda>s.
       presenting X (binding_of c1) Authorized s (\<lambda>s.
       presenting X (binding_of c3) Authorized s (\<lambda>s.
       presenting X (binding_of c1) AlreadyConsumed s done_test))))))"

definition principal_mismatch_rejected :: "externs \<Rightarrow> cap_state \<Rightarrow> bool" where
  "principal_mismatch_rejected X s = cap X s (\<lambda>c s. presenting X
     ((binding_of c)\<lparr>pb_principal_fingerprint := ''fpATTACKER00000''\<rparr>) PrincipalMismatch s done_test)"

definition authority_mismatch_rejected :: "externs \<Rightarrow> cap_state \<Rightarrow> bool" where
  "authority_mismatch_rejected X s = cap X s (\<lambda>c s. presenting X
     ((binding_of c)\<lparr>pb_authority := ''provider.admin''\<rparr>) AuthorityMismatch s done_test)"

definition run_mismatch_rejected :: "externs \<Rightarrow> cap_state \<Rightarrow> bool" where
  "run_mismatch_rejected X s = cap X s (\<lambda>c s.
     presenting X ((binding_of c)\<lparr>pb_run_id := ''run-other''\<rparr>) RunMismatch s done_test)"

definition context_hash_mismatch_rejected :: "externs \<Rightarrow> cap_state \<Rightarrow> bool" where
  "context_hash_mismatch_rejected X s = cap X s (\<lambda>c s. presenting X
     ((binding_of c)\<lparr>pb_context_hash := replicate 64 CHR ''f''\<rparr>) ContextHashMismatch s done_test)"

definition policy_version_mismatch_rejected :: "externs \<Rightarrow> cap_state \<Rightarrow> bool" where
  "policy_version_mismatch_rejected X s = cap X s (\<lambda>c s. presenting X
     ((binding_of c)\<lparr>pb_policy_version := ''policy-v2''\<rparr>) PolicyVersionMismatch s done_test)"

definition policy_hash_mismatch_rejected :: "externs \<Rightarrow> cap_state \<Rightarrow> bool" where
  "policy_hash_mismatch_rejected X s = cap X s (\<lambda>c s. presenting X
     ((binding_of c)\<lparr>pb_policy_hash := replicate 64 CHR ''e''\<rparr>) PolicyHashMismatch s done_test)"

definition missing_context_hash_rejected :: "externs \<Rightarrow> cap_state \<Rightarrow> bool" where
  "missing_context_hash_rejected X s =
     fails_with X ((req ''tx1'')\<lparr>dr_context_hash := []\<rparr>) (EmptyField ''context_hash'') s"

definition malformed_context_hash_rejected :: "externs \<Rightarrow> cap_state \<Rightarrow> bool" where
  "malformed_context_hash_rejected X s =
     fails_with X ((req ''tx1'')\<lparr>dr_context_hash := ''not-a-hash''\<rparr>) (MalformedDigest ''context_hash'') s"

section \<open>Action tokens\<close>

definition action_capability_binds_action_hash_tool_and_resource :: "externs \<Rightarrow> cap_state \<Rightarrow> bool" where
  "action_capability_binds_action_hash_tool_and_resource X s = action_cap X s (\<lambda>c s.
     ct_authority c = AUTHORITY_ACTION_EXECUTE \<and> presenting X (binding_of c) Authorized s done_test)"

definition action_hash_mismatch_rejected :: "externs \<Rightarrow> cap_state \<Rightarrow> bool" where
  "action_hash_mismatch_rejected X s = action_cap X s (\<lambda>c s. presenting X
     ((binding_of c)\<lparr>pb_action_hash := replicate 64 CHR ''b''\<rparr>) ActionHashMismatch s done_test)"

definition tool_mismatch_rejected :: "externs \<Rightarrow> cap_state \<Rightarrow> bool" where
  "tool_mismatch_rejected X s = action_cap X s (\<lambda>c s.
     presenting X ((binding_of c)\<lparr>pb_tool_name := ''write''\<rparr>) ToolMismatch s done_test)"

definition resource_mismatch_rejected :: "externs \<Rightarrow> cap_state \<Rightarrow> bool" where
  "resource_mismatch_rejected X s = action_cap X s (\<lambda>c s.
     presenting X ((binding_of c)\<lparr>pb_resource_locator := ''rm -rf /''\<rparr>) ResourceMismatch s done_test)"

definition tool_call_id_mismatch_rejected :: "externs \<Rightarrow> cap_state \<Rightarrow> bool" where
  "tool_call_id_mismatch_rejected X s = action_cap X s (\<lambda>c s.
     presenting X ((binding_of c)\<lparr>pb_tool_call_id := ''call-other''\<rparr>) ToolCallIdMismatch s done_test)"

definition action_replay_rejected :: "externs \<Rightarrow> cap_state \<Rightarrow> bool" where
  "action_replay_rejected X s = action_cap X s (\<lambda>c s.
     presenting X (binding_of c) Authorized s (\<lambda>s.
     presenting X (binding_of c) AlreadyConsumed s done_test))"

definition action_requires_action_fields :: "externs \<Rightarrow> cap_state \<Rightarrow> bool" where
  "action_requires_action_fields X s \<longleftrightarrow>
     fails_with X ((action_req ''tx-a1'')\<lparr>dr_tool_name := []\<rparr>) (EmptyField ''tool_name'') s \<and>
     fails_with X ((action_req ''tx-a1'')\<lparr>dr_action_hash := ''not-a-hash''\<rparr>)
       (MalformedDigest ''action_hash'') s"

definition heartbeat_capability_binds_control_plane_and_noncritical :: "externs \<Rightarrow> cap_state \<Rightarrow> bool"
  where
  "heartbeat_capability_binds_control_plane_and_noncritical X s = heartbeat_cap X s (\<lambda>c s.
     ct_authority c = AUTHORITY_ACTION_EXECUTE \<and> ct_action_plane c = PlaneControl \<and>
     ct_normalized_action c = ''system.telemetry.heartbeat'' \<and>
     \<not> ct_required_for_safe_completion c \<and> presenting X (binding_of c) Authorized s done_test)"

definition ordinary_action_capability_binds_tool_plane_and_required :: "externs \<Rightarrow> cap_state \<Rightarrow> bool"
  where
  "ordinary_action_capability_binds_tool_plane_and_required X s = action_cap X s (\<lambda>c s.
     ct_action_plane c = PlaneTool \<and> ct_required_for_safe_completion c)"

definition plane_mismatch_rejected :: "externs \<Rightarrow> cap_state \<Rightarrow> bool" where
  "plane_mismatch_rejected X s = heartbeat_cap X s (\<lambda>c s.
     presenting X ((binding_of c)\<lparr>pb_plane := ''tool''\<rparr>) PlaneMismatch s done_test)"

definition control_capability_cannot_be_presented_as_tool_plane_for_a_different_tool ::
    "externs \<Rightarrow> cap_state \<Rightarrow> bool" where
  "control_capability_cannot_be_presented_as_tool_plane_for_a_different_tool X s =
     heartbeat_cap X s (\<lambda>c s. presenting X
       ((binding_of c)\<lparr>pb_tool_name := ''bash'', pb_plane := ''tool''\<rparr>) ToolMismatch s done_test)"

section \<open>Tampering with the stored token\<close>

definition semantics_tampering_invalidates_signature :: "externs \<Rightarrow> cap_state \<Rightarrow> bool" where
  "semantics_tampering_invalidates_signature X s = heartbeat_cap X s (\<lambda>c s.
     presenting X (binding_of c) SignatureInvalid (mutate_stored_token (ct_token_id c)
       (\<lambda>t. t\<lparr>ct_required_for_safe_completion := True\<rparr>) s) done_test)"

definition plane_tampering_invalidates_signature :: "externs \<Rightarrow> cap_state \<Rightarrow> bool" where
  "plane_tampering_invalidates_signature X s = heartbeat_cap X s (\<lambda>c s.
     presenting X (binding_of c) SignatureInvalid (mutate_stored_token (ct_token_id c)
       (\<lambda>t. t\<lparr>ct_action_plane := PlaneTool\<rparr>) s) done_test)"

definition corrupted_signature_rejected :: "externs \<Rightarrow> cap_state \<Rightarrow> bool" where
  "corrupted_signature_rejected X s = cap X s (\<lambda>c s.
     presenting X (binding_of c) SignatureInvalid (mutate_stored_token (ct_token_id c)
       (\<lambda>t. t\<lparr>ct_signature := ''deadbeef''\<rparr>) s) done_test)"

definition max_uses_tampering_rejected :: "externs \<Rightarrow> cap_state \<Rightarrow> bool" where
  "max_uses_tampering_rejected X s = cap X s (\<lambda>c s.
     presenting X (binding_of c) SignatureInvalid (mutate_stored_token (ct_token_id c)
       (\<lambda>t. t\<lparr>ct_max_uses := 1000\<rparr>) s) done_test)"

definition expired_token_rejected :: "externs \<Rightarrow> cap_state \<Rightarrow> bool" where
  "expired_token_rejected X s = cap X s (\<lambda>c s.
     let (st, w) = mutate_stored_token (ct_token_id c) (\<lambda>t.
           let t' = t\<lparr>ct_expires_at := now X (snd s) - secs 1\<rparr>
           in t'\<lparr>ct_signature := engine_sign X (eng (snd s)) (ct_canonical t')\<rparr>) s
     in presenting X (binding_of c) Expired (st, tick w) done_test)"

section \<open>Validation and idempotency\<close>

definition nonpositive_ttl_rejected :: bool where
  "nonpositive_ttl_rejected \<longleftrightarrow> with_ttl_secs 0 capability_store_new = Inl InvalidTtl \<and>
     with_ttl_secs (-5) capability_store_new = Inl InvalidTtl"

definition empty_fields_rejected :: "externs \<Rightarrow> cap_state \<Rightarrow> bool" where
  "empty_fields_rejected X s \<longleftrightarrow>
     fails_with X ((req ''tx1'')\<lparr>dr_model := []\<rparr>) (EmptyField ''model'') s \<and>
     fails_with X ((req ''tx1'')\<lparr>dr_gov_tx_id := ''  ''\<rparr>) (EmptyField ''gov_tx_id'') s"

definition wrong_authority_rejected :: "externs \<Rightarrow> cap_state \<Rightarrow> bool" where
  "wrong_authority_rejected X s =
     fails_with X ((req ''tx1'')\<lparr>dr_authority := ''provider.admin''\<rparr>) WrongAuthority s"

definition provider_and_action_decisions_coexist_under_same_gov_tx_id :: "externs \<Rightarrow> cap_state \<Rightarrow> bool"
  where
  "provider_and_action_decisions_coexist_under_same_gov_tx_id X s =
     recording X (req ''tx-shared'') s (\<lambda>provider_id s.
     recording X (action_req ''tx-shared'') s (\<lambda>action_id s. provider_id \<noteq> action_id))"

definition action_conflicting_tool_same_tx_errors :: "externs \<Rightarrow> cap_state \<Rightarrow> bool" where
  "action_conflicting_tool_same_tx_errors X s =
     recording X (action_req ''tx-a2'') s (\<lambda>_ s.
       fails_with X ((action_req ''tx-a2'')\<lparr>dr_tool_name := ''write''\<rparr>) TransactionScopeConflict s)"

definition identical_retry_returns_same_decision :: "externs \<Rightarrow> cap_state \<Rightarrow> bool" where
  "identical_retry_returns_same_decision X s =
     recording X (req ''tx1'') s (\<lambda>a s. recording X (req ''tx1'') s (\<lambda>b s. a = b))"

definition conflicting_backend_same_tx_errors :: "externs \<Rightarrow> cap_state \<Rightarrow> bool" where
  "conflicting_backend_same_tx_errors X s =
     recording X (req ''tx1'') s (\<lambda>_ s. fails_with X
       ((req ''tx1'')\<lparr>dr_backend := ''openai'', dr_model := ''gpt-4o''\<rparr>) TransactionScopeConflict s)"

definition conflicting_session_same_tx_errors :: "externs \<Rightarrow> cap_state \<Rightarrow> bool" where
  "conflicting_session_same_tx_errors X s =
     recording X (req ''tx1'') s (\<lambda>_ s. fails_with X
       ((req ''tx1'')\<lparr>dr_session_id := ''sessOTHER''\<rparr>) TransactionScopeConflict s)"

section \<open>Threads\<close>

text \<open>The results of \<open>n\<close> threads that each perform the operation \<open>f\<close> once on the shared store.\<close>

fun by_threads :: "nat \<Rightarrow> (cap_state \<Rightarrow> 'r \<times> cap_state) \<Rightarrow> cap_state \<Rightarrow> 'r list" where
  "by_threads 0 f s = []"
| "by_threads (Suc n) f s = (let (r, s') = f s in r # by_threads n f s')"

definition concurrent_consume_is_single_use :: "externs \<Rightarrow> cap_state \<Rightarrow> bool" where
  "concurrent_consume_is_single_use X s = cap X s (\<lambda>c s.
     let outs = by_threads 64 (\<lambda>s. consume X (binding_of c) (fst s) (snd s)) s
     in length (filter (\<lambda>r. r = Authorized) outs) = 1 \<and>
        length (filter (\<lambda>r. r \<noteq> Authorized) outs) = 63)"

definition concurrent_issuance_is_single_capability :: "externs \<Rightarrow> cap_state \<Rightarrow> bool" where
  "concurrent_issuance_is_single_capability X s = recording X (req ''tx1'') s (\<lambda>did s.
     let outs = by_threads 64 (\<lambda>s. issue_after_authorization X did (fst s) (snd s)) s;
         issued = (\<lambda>r. case r of Issued _ \<Rightarrow> True | _ \<Rightarrow> False)
     in length (filter issued outs) = 1 \<and> length (filter (\<lambda>r. \<not> issued r) outs) = 63)"

definition concurrent_identical_record_is_single_decision :: "externs \<Rightarrow> cap_state \<Rightarrow> bool" where
  "concurrent_identical_record_is_single_decision X s =
     (let outs = by_threads 64 (\<lambda>s. record_decision X (req ''tx1'') (fst s) (snd s)) s
      in (\<forall>r \<in> set outs. is_ok r) \<and> card (set outs) = 1)"

section \<open>The tests hold\<close>

text \<open>What the tests need of the library and of the state they start from.\<close>

definition test_start :: "externs \<Rightarrow> nat \<Rightarrow> cap_state \<Rightarrow> bool" where
  "test_start X n s \<longleftrightarrow> cap_laws X \<and> cap_inv X s \<and>
     prompt X (cs_default_ttl_secs (fst s)) n (snd s)"

definition usable :: "externs \<Rightarrow> capability_token \<Rightarrow> nat \<Rightarrow> cap_state \<Rightarrow> bool" where
  "usable X t n s \<longleftrightarrow> fresh_in X t (fst s) (snd s) \<and>
     (\<forall>i \<le> n. clock X (ticks (snd s) + i) < ct_expires_at t)"

definition unrecorded :: "decision_request \<Rightarrow> cap_state \<Rightarrow> bool" where
  "unrecorded r s \<longleftrightarrow> decision_request_validate r = Inr () \<and>
     hm_get (cs_decision_by_tx (fst s)) (tx_key (dr_gov_tx_id r) (dr_authority r)) = None"

text \<open>The token of a request, up to its identifiers, times and signature.\<close>

definition carries :: "decision_request \<Rightarrow> capability_token \<Rightarrow> bool" where
  "carries r t \<longleftrightarrow> ct_haap_decision_id t \<noteq> [] \<and>
     (\<exists>st i j a e s. t = (token_of_decision i a e (decision_of_request j st r))\<lparr>ct_signature := s\<rparr>)"

lemma carriesD:
  assumes "carries r t"
  shows "ct_authority t = dr_authority r" "ct_gov_tx_id t = dr_gov_tx_id r"
    "ct_session_id t = dr_session_id r" "ct_run_id t = dr_run_id r"
    "ct_context_hash t = dr_context_hash r" "ct_policy_hash t = dr_policy_hash r"
    "ct_principal_fingerprint t = dr_principal_fingerprint r" "ct_backend t = dr_backend r"
    "ct_model t = dr_model r" "ct_policy_version t = dr_policy_version r"
    "ct_action_hash t = dr_action_hash r" "ct_tool_name t = dr_tool_name r"
    "ct_resource_kind t = dr_resource_kind r" "ct_resource_locator t = dr_resource_locator r"
    "ct_tool_call_id t = dr_tool_call_id r" "ct_action_plane t = dr_action_plane r"
    "ct_normalized_action t = dr_normalized_action r" "ct_haap_decision_id t \<noteq> []"
    "ct_required_for_safe_completion t = dr_required_for_safe_completion r"
  using assms by (auto simp: carries_def token_of_decision_def decision_of_request_def)

lemma issued_carries:
  "i \<noteq> [] \<Longrightarrow> carries r (issued_token X st w (decision_of_request i a r))"
  unfolding carries_def issued_token_def Let_def
  by (rule conjI) (simp add: token_of_decision_def decision_of_request_def, blast)

lemma obtaining_gives:
  assumes start: "test_start X (Suc (Suc n)) s" and r: "unrecorded r s"
    and k: "\<And>t st w. usable X t n (st, w) \<Longrightarrow> carries r t \<Longrightarrow> cap_inv X (st, w) \<Longrightarrow>
      ticks w = ticks (snd s) + 2 \<Longrightarrow> eng w = eng (snd s) \<Longrightarrow>
      cs_default_ttl_secs st = cs_default_ttl_secs (fst s) \<Longrightarrow>
      cs_decision_by_tx st = hm_insert (tx_key (dr_gov_tx_id r) (dr_authority r))
        (ct_haap_decision_id t) (cs_decision_by_tx (fst s)) \<Longrightarrow>
      (\<And>k u. hm_get (cs_capabilities (fst s)) k = Some u \<Longrightarrow>
         ct_token_id t \<noteq> k \<and> hm_get (cs_capabilities st) k = Some u) \<Longrightarrow> P t (st, w)"
  shows "obtaining X r s P"
proof -
  have laws: "cap_laws X" and inv: "cap_inv X (fst s, snd s)"
    using start by (simp_all add: test_start_def)
  note r' = r [unfolded unrecorded_def]
  obtain i d st1 where rec: "record_decision X r (fst s) (snd s) = (Inr i, st1, tick (draw_id (snd s)))"
    "hm_get (cs_decisions st1) i = Some d" "\<not> dc_issued d" "d = decision_of_request i (now X (snd s)) r"
    "cs_capabilities st1 = cs_capabilities (fst s)"
    "cs_default_ttl_secs st1 = cs_default_ttl_secs (fst s)" "i = ''DEC-'' @ uuid_simple X (ids (snd s))"
    by (rule record_fresh [OF conjunct1 [OF r'] conjunct2 [OF r'], of X "snd s"])
  let ?w1 = "tick (draw_id (snd s))"
  obtain out st2 w2 where iss: "issue_after_authorization X i st1 ?w1 = (out, st2, w2)"
    by (metis prod_cases3)
  have inv1: "cap_inv X (st1, ?w1)"
    using record_decision_facts [OF laws inv rec(1)] by blast
  note f = issue_fresh [OF laws inv1 rec(2,3) iss]
  let ?t = "issued_token X st1 ?w1 d"
  have old: "ct_token_id ?t \<noteq> k \<and> hm_get (cs_capabilities st2) k = Some u"
    if "hm_get (cs_capabilities (fst s)) k = Some u" for k u
    using token_id_fresh [of X st1 ?w1] laws inv1 that iss rec(2,3,5)
    by (auto simp: cap_laws_def cap_inv_def issue_outcome_cases)
  have "P ?t (st2, w2)"
  proof (rule k)
    show "usable X ?t n (st2, w2)"
      using f(2,3) promptD [of X "cs_default_ttl_secs (fst s)" "Suc (Suc n)" "snd s" _ 1] start rec(6)
      by (fastforce simp: usable_def test_start_def now_def)
    show "carries r ?t" unfolding rec(4) by (rule issued_carries) (simp add: rec(7))
    show "cap_inv X (st2, w2)" using issue_inv [of X st1 ?w1 i] laws inv1 iss by (simp add: cap_laws_def)
    show "cs_decision_by_tx st2 = hm_insert (tx_key (dr_gov_tx_id r) (dr_authority r))
        (ct_haap_decision_id ?t) (cs_decision_by_tx (fst s))"
      using rec(1,4) f(4) record_decision_new [OF conjunct1 [OF r'] conjunct2 [OF r'], of X "snd s"]
      by (auto simp: Let_def)
  qed (use f iss rec old in \<open>auto simp: issue_outcome_cases\<close>)
  with rec(1) iss f(1) show ?thesis by (simp add: obtaining_def)
qed

text \<open>Presenting a token that is still usable, and one that has been spent.\<close>

lemma presenting_own:
  assumes "usable X t n s" "k (spent t (fst s), tick (snd s))"
  shows "presenting X (binding_of t) Authorized s k"
  using assms fresh_works [of X t "fst s" "snd s"]
  by (auto simp: presenting_def usable_def now_def)

lemma presenting_bad:
  assumes "usable X t n s" "pb_token_id p = ct_token_id t"
    "first_failure (binding_checks t p) = Some out" "k (fst s, tick (snd s))"
  shows "presenting X p out s k"
  using assms fresh_presented [of X t "fst s" "snd s" p]
  by (auto simp: presenting_def usable_def now_def)

lemma presenting_spent:
  assumes "fresh_in X t st w" "world_le w w'" "pb_token_id p = ct_token_id t" "k (spent t st, w')"
  shows "presenting X p AlreadyConsumed (spent t st, w') k"
  using assms spent_refused [OF assms(1-3)] by (simp add: presenting_def)

lemma usable_fresh: "usable X t n s \<Longrightarrow> fresh_in X t (fst s) (snd s)"
  by (simp add: usable_def)

lemma replayed:
  assumes "usable X t n s"
  shows "presenting X (binding_of t) Authorized s
    (\<lambda>s. presenting X (binding_of t) AlreadyConsumed s done_test)"
  by (rule presenting_own [OF assms], rule presenting_spent [OF usable_fresh [OF assms]]) simp_all

text \<open>The three fixtures, from a store that has recorded nothing.\<close>

definition test_clock :: "externs \<Rightarrow> world \<Rightarrow> bool" where
  "test_clock X w \<longleftrightarrow> prompt X 30 20 w \<and>
     (\<forall>i \<le> 20. \<forall>j \<le> i. clock X (ticks w + j) \<le> clock X (ticks w + i))"

definition new_store :: "externs \<Rightarrow> cap_state \<Rightarrow> bool" where
  "new_store X s \<longleftrightarrow> cap_laws X \<and> cap_inv X s \<and> cs_decisions (fst s) = [] \<and>
     cs_decision_by_tx (fst s) = [] \<and> cs_default_ttl_secs (fst s) = 30 \<and> test_clock X (snd s)"

lemma new_store_start: "new_store X s \<Longrightarrow> n \<le> 20 \<Longrightarrow> test_start X n s"
  by (auto simp: new_store_def test_clock_def test_start_def prompt_def)

lemma repeated_digest:
  "is_ascii_digit c \<or> char_le CHR ''a'' c \<and> char_le c CHR ''f'' \<Longrightarrow> is_sha256_hex (replicate 64 c)"
  by (simp add: is_sha256_hex_def validate_sha256_def SHA256_HEX_LEN_def list_all_iff)

lemma test_digests [simp]:
  "is_sha256_hex (replicate 64 CHR ''a'')" "is_sha256_hex (replicate 64 CHR ''b'')"
  "is_sha256_hex (replicate 64 CHR ''c'')" "is_sha256_hex (replicate 64 CHR ''d'')"
  by (rule repeated_digest; simp add: char_le_def)+

lemmas validation_simps = decision_request_validate_def all_ok_iff nonempty_def guard_ok_def
  authority_defs digest_not_blank not_blank_Cons utf8_len_def is_ws_def is_whitespace_cp_def byte_def

lemma requests_valid [simp]:
  "\<not> blank tx \<Longrightarrow> decision_request_validate (req tx) = Inr ()"
  "\<not> blank tx \<Longrightarrow> decision_request_validate (action_req tx) = Inr ()"
  "\<not> blank tx \<Longrightarrow> decision_request_validate (heartbeat_req tx) = Inr ()"
  by (simp_all add: validation_simps req_def action_req_def heartbeat_req_def)

lemma new_store_unrecorded:
  "new_store X s \<Longrightarrow> decision_request_validate r = Inr () \<Longrightarrow> unrecorded r s"
  by (simp add: new_store_def unrecorded_def hm_get_def)


lemma obtained:
  assumes "new_store X s" "decision_request_validate r = Inr ()"
    "\<And>t s'. usable X t 10 s' \<Longrightarrow> carries r t \<Longrightarrow> eng (snd s') = eng (snd s) \<Longrightarrow>
       ticks (snd s') = ticks (snd s) + 2 \<Longrightarrow> P t s'"
  shows "obtaining X r s P"
  by (rule obtaining_gives [of X 10]; use assms new_store_start [OF assms(1), of 12]
      new_store_unrecorded [OF assms(1,2)] in simp)

lemma mismatch_refused:
  assumes "new_store X s" "decision_request_validate r = Inr ()"
    "\<And>t. carries r t \<Longrightarrow> pb_token_id (f t) = ct_token_id t \<and>
       first_failure (binding_checks t (f t)) = Some out"
  shows "obtaining X r s (\<lambda>c s. presenting X (f c) out s done_test)"
  by (rule obtained [OF assms(1,2)], rule presenting_bad) (use assms(3) in auto)

lemma obtained_works:
  assumes "new_store X s" "decision_request_validate r = Inr ()" "\<And>t. carries r t \<Longrightarrow> Q t"
  shows "obtaining X r s (\<lambda>c s. Q c \<and> presenting X (binding_of c) Authorized s done_test)"
  by (rule obtained [OF assms(1,2)], rule conjI [OF assms(3)], assumption, rule presenting_own) simp_all

lemmas fixture_simps = cap_def action_cap_def heartbeat_cap_def binding_checks_def carriesD
  validation_simps replicate_eq_replicate

text \<open>Every field of the binding is compared.\<close>

lemma mismatches_refused:
  assumes new: "new_store X s"
  shows "backend_mismatch X s" "model_mismatch X s" "transaction_mismatch X s" "session_mismatch X s"
    "principal_mismatch_rejected X s" "authority_mismatch_rejected X s" "run_mismatch_rejected X s"
    "context_hash_mismatch_rejected X s" "policy_version_mismatch_rejected X s"
    "policy_hash_mismatch_rejected X s"
  unfolding backend_mismatch_def model_mismatch_def transaction_mismatch_def session_mismatch_def
    principal_mismatch_rejected_def authority_mismatch_rejected_def run_mismatch_rejected_def
    context_hash_mismatch_rejected_def policy_version_mismatch_rejected_def
    policy_hash_mismatch_rejected_def cap_def
  by (rule mismatch_refused [OF new]; simp add: fixture_simps req_def [of "''tx1''"])+

lemma test_transactions [simp]:
  "\<not> blank ''tx1''" "\<not> blank ''tx-action-1''" "\<not> blank ''tx-heartbeat-1''" "\<not> blank ''tx-shared''"
  "\<not> blank ''tx-a2''" "\<not> blank ''tx-turn-1''" "\<not> blank ''tx-turn-2''" "\<not> blank ''tx-turn-3''"
  by (simp_all add: not_blank_Cons validation_simps)

lemma action_mismatches_refused:
  assumes new: "new_store X s"
  shows "action_hash_mismatch_rejected X s" "tool_mismatch_rejected X s"
    "resource_mismatch_rejected X s" "tool_call_id_mismatch_rejected X s" "plane_mismatch_rejected X s"
    "control_capability_cannot_be_presented_as_tool_plane_for_a_different_tool X s"
  unfolding action_hash_mismatch_rejected_def tool_mismatch_rejected_def
    resource_mismatch_rejected_def tool_call_id_mismatch_rejected_def plane_mismatch_rejected_def
    control_capability_cannot_be_presented_as_tool_plane_for_a_different_tool_def
    action_cap_def heartbeat_cap_def
  by (rule mismatch_refused [OF new];
      simp add: fixture_simps action_req_def [of "''tx-action-1''"]
        heartbeat_req_def [of "''tx-heartbeat-1''"])+

lemma own_scope_works:
  assumes new: "new_store X s"
  shows "action_capability_binds_action_hash_tool_and_resource X s"
    "heartbeat_capability_binds_control_plane_and_noncritical X s"
  unfolding action_capability_binds_action_hash_tool_and_resource_def
    heartbeat_capability_binds_control_plane_and_noncritical_def action_cap_def heartbeat_cap_def
    conj_assoc [symmetric]
  by (rule obtained_works [OF new]; simp add: fixture_simps action_req_def heartbeat_req_def)+

lemma happy_path_holds: "new_store X s \<Longrightarrow> happy_path_consumes_once X s"
  using obtained_works [of X s "req ''tx1''" "\<lambda>_. True"]
  by (simp add: happy_path_consumes_once_def cap_def)

lemma scope_from_request:
  assumes new: "new_store X s"
  shows "scope_from_decision_not_caller X s"
    "ordinary_action_capability_binds_tool_plane_and_required X s"
  unfolding scope_from_decision_not_caller_def cap_def action_cap_def
    ordinary_action_capability_binds_tool_plane_and_required_def
  by (rule obtained [OF new]; simp add: fixture_simps req_def action_req_def)+

lemma replays_refused:
  assumes new: "new_store X s"
  shows "replay_rejected X s" "action_replay_rejected X s"
  unfolding replay_rejected_def action_replay_rejected_def cap_def action_cap_def
  by (rule obtained [OF new]; simp add: replayed)+

lemma fails_withI: "decision_request_validate r = Inl e \<Longrightarrow> fails_with X r e s"
  by (simp add: fails_with_def record_decision_def)

lemma blank_spaces [simp]: "blank ''  ''"
  by (simp add: str_eval)

lemma short_digests [simp]: "\<not> is_sha256_hex ''not-a-hash''" "\<not> is_sha256_hex []"
  by (simp_all add: is_sha256_hex_def validate_sha256_def SHA256_HEX_LEN_def)

lemma bad_requests_refused:
  shows "missing_context_hash_rejected X s" "malformed_context_hash_rejected X s"
    "action_requires_action_fields X s" "empty_fields_rejected X s" "wrong_authority_rejected X s"
  unfolding missing_context_hash_rejected_def malformed_context_hash_rejected_def
    action_requires_action_fields_def empty_fields_rejected_def wrong_authority_rejected_def
  by (intro conjI fails_withI; simp add: all_ok.simps req_def action_req_def validation_simps)+

lemma unknown_decision: "new_store X s \<Longrightarrow> issuance_requires_real_decision X s"
  by (simp add: new_store_def issuance_requires_real_decision_def issue_outcome_cases hm_get_def)

lemma bad_ttl_refused: "nonpositive_ttl_rejected"
  by (simp add: nonpositive_ttl_rejected_def with_ttl_secs_def)

text \<open>Recording is idempotent for one scope, and refuses another under the same key.\<close>

lemma recorded_again:
  assumes "unrecorded r s" "dr_gov_tx_id q = dr_gov_tx_id r" "dr_authority q = dr_authority r"
    "decision_request_validate q = Inr ()"
    "\<not> same_scope q (decision_of_request [] 0 r) \<Longrightarrow> e = TransactionScopeConflict"
  shows "recording X r s (\<lambda>a s. record_decision X q (fst s) (snd s) =
    (if same_scope q (decision_of_request [] 0 r) then Inr a else Inl e, s))"
  using assms record_decision_new [of r "fst s" X "snd s"]
  by (simp add: recording_def unrecorded_def Let_def record_decision_def same_scope_def
      decision_of_request_def)

lemma recording_mono:
  "recording X r s P \<Longrightarrow> (\<And>a s. P a s \<Longrightarrow> Q a s) \<Longrightarrow> recording X r s Q"
  by (auto simp: recording_def split: sum.splits)

lemma conflict_refused:
  assumes "new_store X s" "decision_request_validate r = Inr ()" "decision_request_validate q = Inr ()"
    "dr_gov_tx_id q = dr_gov_tx_id r" "dr_authority q = dr_authority r"
    "\<not> same_scope q (decision_of_request [] 0 r)"
  shows "recording X r s (\<lambda>_ s. fails_with X q TransactionScopeConflict s)"
  by (rule recording_mono [OF recorded_again [of r s q TransactionScopeConflict]])
    (use assms new_store_unrecorded in \<open>simp_all add: fails_with_def\<close>)

lemma conflicts_refused:
  assumes new: "new_store X s"
  shows "action_conflicting_tool_same_tx_errors X s" "conflicting_backend_same_tx_errors X s"
    "conflicting_session_same_tx_errors X s"
  unfolding action_conflicting_tool_same_tx_errors_def conflicting_backend_same_tx_errors_def
    conflicting_session_same_tx_errors_def
  by (rule conflict_refused [OF new]; simp add: req_def action_req_def same_scope_def
      decision_of_request_def validation_simps)+

lemma recorded_identical:
  assumes "new_store X s" "decision_request_validate r = Inr ()"
  shows "recording X r s (\<lambda>a s. record_decision X r (fst s) (snd s) = (Inr a, s))"
  by (rule recording_mono [OF recorded_again [of r s r TransactionScopeConflict]])
    (use assms new_store_unrecorded in \<open>simp_all add: same_scope_def decision_of_request_def\<close>)

lemma identical_retry_holds: "new_store X s \<Longrightarrow> identical_retry_returns_same_decision X s"
  unfolding identical_retry_returns_same_decision_def
  by (rule recording_mono [OF recorded_identical]) (simp_all add: recording_def)

lemma request_keys [simp]:
  "dr_gov_tx_id (req tx) = tx" "dr_authority (req tx) = AUTHORITY_PROVIDER_EXECUTE"
  "dr_gov_tx_id (action_req tx) = tx" "dr_authority (action_req tx) = AUTHORITY_ACTION_EXECUTE"
  "dr_gov_tx_id (heartbeat_req tx) = tx" "dr_authority (heartbeat_req tx) = AUTHORITY_ACTION_EXECUTE"
  by (simp_all add: req_def action_req_def heartbeat_req_def)

lemma coexist_holds:
  assumes "new_store X s"
  shows "provider_and_action_decisions_coexist_under_same_gov_tx_id X s"
proof -
  have "inj (uuid_simple X)" using assms by (simp add: new_store_def cap_laws_def uuid_laws_def)
  then have "uuid_simple X (ids (snd s)) \<noteq> uuid_simple X (Suc (ids (snd s)))" by (auto dest: injD)
  moreover have "tx_key tx AUTHORITY_ACTION_EXECUTE \<noteq> tx_key tx AUTHORITY_PROVIDER_EXECUTE" for tx
    by (simp add: tx_key_def authority_defs)
  ultimately show ?thesis
    using new_store_unrecorded [OF assms, of "req ''tx-shared''"]
      new_store_unrecorded [OF assms, of "action_req ''tx-shared''"]
    by (simp add: provider_and_action_decisions_coexist_under_same_gov_tx_id_def recording_def
        record_decision_new unrecorded_def Let_def tick_def draw_id_def)
qed

text \<open>Threads that repeat an operation which no longer changes the store.\<close>

lemma by_threads_stable: "f s = (r, s) \<Longrightarrow> by_threads n f s = replicate n r"
  by (induction n) simp_all

lemma by_threads_first:
  assumes "f s = (r, s')" "f s' = (r', s')"
  shows "by_threads (Suc n) f s = r # replicate n r'"
  by (simp add: assms(1) by_threads_stable [of f, OF assms(2)])

lemma single_winner:
  assumes "f s = (r, s')" "f s' = (r', s')" "P r" "\<not> P r'"
  shows "length (filter P (by_threads (Suc n) f s)) = 1"
    "length (filter (\<lambda>r. \<not> P r) (by_threads (Suc n) f s)) = n"
  using assms(3,4) by (simp_all add: by_threads_first [OF assms(1,2)] del: by_threads.simps)

lemma one_consumer:
  assumes "new_store X s"
  shows "concurrent_consume_is_single_use X s"
  unfolding concurrent_consume_is_single_use_def cap_def
proof (rule obtained [OF assms])
  fix t s' assume u: "usable X t 10 s'"
  let ?f = "\<lambda>s. consume X (binding_of t) (fst s) (snd s)"
  have 1: "?f s' = (Authorized, spent t (fst s'), tick (snd s'))"
    using u fresh_works [of X t "fst s'" "snd s'"] by (auto simp: usable_def now_def)
  have 2: "?f (spent t (fst s'), tick (snd s')) = (AlreadyConsumed, spent t (fst s'), tick (snd s'))"
    using spent_refused [OF usable_fresh [OF u] world_le_tick(1), of "binding_of t"] by simp
  show "let outs = by_threads 64 ?f s'
     in length (filter (\<lambda>r. r = Authorized) outs) = 1 \<and>
        length (filter (\<lambda>r. r \<noteq> Authorized) outs) = 63"
    using single_winner [of ?f, OF 1 2, of "\<lambda>r. r = Authorized" 63] by (simp del: by_threads.simps)
qed simp

lemma one_issuer:
  assumes "new_store X s"
  shows "concurrent_issuance_is_single_capability X s"
proof -
  let ?st = "fst s"
  have r: "decision_request_validate (req ''tx1'') = Inr ()"
    "hm_get (cs_decision_by_tx ?st) (tx_key (dr_gov_tx_id (req ''tx1'')) (dr_authority (req ''tx1''))) = None"
    using new_store_unrecorded [OF assms, of "req ''tx1''"] by (simp_all add: unrecorded_def)
  obtain i d st1 where rec: "record_decision X (req ''tx1'') ?st (snd s) = (Inr i, st1, tick (draw_id (snd s)))"
    "hm_get (cs_decisions st1) i = Some d" "\<not> dc_issued d"
    by (rule record_fresh [OF r, of X "snd s"])
  let ?f = "\<lambda>s. issue_after_authorization X i (fst s) (snd s)" and ?s = "(st1, tick (draw_id (snd s)))"
  have "\<exists>s'. ?f ?s = (Issued (issued_token X st1 (snd ?s) d), s') \<and> ?f s' = (AlreadyIssued, s')"
    using rec(2,3) by (simp add: issue_outcome_cases hm_get_modify)
  then obtain s' where 1: "?f ?s = (Issued (issued_token X st1 (snd ?s) d), s')"
    and 2: "?f s' = (AlreadyIssued, s')" by blast
  show ?thesis
    using single_winner [of ?f, OF 1 2, of "\<lambda>r. case r of Issued _ \<Rightarrow> True | _ \<Rightarrow> False" 63]
    by (simp add: concurrent_issuance_is_single_capability_def recording_def rec(1) Let_def
        del: by_threads.simps)
qed

lemma one_decision:
  assumes "new_store X s"
  shows "concurrent_identical_record_is_single_decision X s"
proof -
  let ?f = "\<lambda>s. record_decision X (req ''tx1'') (fst s) (snd s)"
  obtain r s' where f: "?f s = (r, s')" by (metis prod.collapse)
  with recorded_identical [OF assms, of "req ''tx1''"] obtain a where
    a: "?f s = (Inr a, s')" "?f s' = (Inr a, s')"
    by (cases r) (auto simp: recording_def split: prod.splits)
  have "set (by_threads (Suc 63) ?f s) = {Inr a}"
    unfolding by_threads_first [of ?f, OF a] by simp
  then show ?thesis by (simp add: concurrent_identical_record_is_single_decision_def del: by_threads.simps)
qed

text \<open>Three turns of one session: the other tokens stay usable.\<close>

lemma usable_next:
  assumes "usable X t (n + 2) s" "ticks w = ticks (snd s) + 2" "eng w = eng (snd s)"
    "\<And>k u. hm_get (cs_capabilities (fst s)) k = Some u \<Longrightarrow> hm_get (cs_capabilities st) k = Some u"
  shows "usable X t n (st, w)"
proof -
  have "clock X (ticks w + i) < ct_expires_at t" if "i \<le> n" for i
    using conjunct2 [OF assms(1) [unfolded usable_def], rule_format, of "i + 2"] that
    by (simp add: assms(2))
  with assms show ?thesis by (simp add: usable_def fresh_in_def)
qed

lemma usable_spent:
  assumes "usable X t (n + 1) s" "ct_token_id u \<noteq> ct_token_id t"
  shows "usable X t n (spent u (fst s), tick (snd s))"
proof -
  have "clock X (Suc (ticks (snd s)) + i) < ct_expires_at t" if "i \<le> n" for i
    using conjunct2 [OF assms(1) [unfolded usable_def], rule_format, of "i + 1"] that by simp
  then show ?thesis
    using assms fresh_in_world [OF fresh_other world_le_tick(1)] by (simp add: usable_def)
qed

lemma test_start_next:
  assumes "test_start X (n + 2) s" "ticks w = ticks (snd s) + 2" "cap_inv X (st, w)"
    "cs_default_ttl_secs st = cs_default_ttl_secs (fst s)"
  shows "test_start X n (st, w)"
proof -
  have "clock X (ticks w + i) < clock X (ticks w + j) + secs (cs_default_ttl_secs (fst s))"
    if "i \<le> n" "j \<le> n" for i j
    using promptD [of X _ "n + 2" "snd s" "i + 2" "j + 2"] assms(1) that
    by (simp add: test_start_def assms(2))
  with assms show ?thesis by (simp add: test_start_def prompt_def)
qed

lemma obtaining_next:
  assumes start: "test_start X (n + 2) s" and r: "unrecorded r s"
    and U: "\<And>u. u \<in> U \<Longrightarrow> usable X u (n + 2) s"
    and k: "\<And>t s'. usable X t n s' \<Longrightarrow> carries r t \<Longrightarrow> test_start X n s' \<Longrightarrow>
      (\<And>u. u \<in> U \<Longrightarrow> usable X u n s' \<and> ct_token_id u \<noteq> ct_token_id t) \<Longrightarrow>
      (\<And>q. unrecorded q s \<Longrightarrow> tx_key (dr_gov_tx_id q) (dr_authority q) \<noteq>
         tx_key (dr_gov_tx_id r) (dr_authority r) \<Longrightarrow> unrecorded q s') \<Longrightarrow> P t s'"
  shows "obtaining X r s P"
proof (rule obtaining_gives [of X n, OF _ r])
  show "test_start X (Suc (Suc n)) s" using start by simp
  fix t st w
  assume t: "usable X t n (st, w)" "carries r t" "cap_inv X (st, w)" "ticks w = ticks (snd s) + 2"
    "eng w = eng (snd s)" "cs_default_ttl_secs st = cs_default_ttl_secs (fst s)"
    "cs_decision_by_tx st = hm_insert (tx_key (dr_gov_tx_id r) (dr_authority r))
        (ct_haap_decision_id t) (cs_decision_by_tx (fst s))"
    and old: "\<And>k u. hm_get (cs_capabilities (fst s)) k = Some u \<Longrightarrow>
         ct_token_id t \<noteq> k \<and> hm_get (cs_capabilities st) k = Some u"
  show "P t (st, w)"
  proof (rule k [OF t(1,2) test_start_next [OF start t(4,3,6)]])
    fix u assume "u \<in> U"
    then have u: "usable X u (n + 2) s" by (rule U)
    then have "hm_get (cs_capabilities (fst s)) (ct_token_id u) = Some u"
      by (simp add: usable_def fresh_in_def)
    with old usable_next [OF u t(4,5)] show "usable X u n (st, w) \<and> ct_token_id u \<noteq> ct_token_id t"
      by metis
  qed (simp add: t(7) unrecorded_def)
qed

lemma three_obtained:
  assumes start: "test_start X 14 s" and u: "unrecorded r1 s" "unrecorded r2 s" "unrecorded r3 s"
    and keys: "distinct (map (\<lambda>r. tx_key (dr_gov_tx_id r) (dr_authority r)) [r1, r2, r3])"
    and P: "\<And>c1 c2 c3 s. list_all (\<lambda>c. usable X c 8 s) [c1, c2, c3] \<Longrightarrow>
      distinct (map ct_token_id [c1, c2, c3]) \<Longrightarrow> carries r1 c1 \<Longrightarrow> carries r2 c2 \<Longrightarrow> carries r3 c3 \<Longrightarrow>
      P c1 c2 c3 s"
  shows "obtaining X r1 s (\<lambda>c1 s. obtaining X r2 s (\<lambda>c2 s. obtaining X r3 s (P c1 c2)))"
proof (rule obtaining_next [of X 12 _ _ "{}", OF _ u(1)])
  fix c1 s1
  assume 1: "usable X c1 12 s1" "carries r1 c1" "test_start X 12 s1"
    and q1: "\<And>q. unrecorded q s \<Longrightarrow> tx_key (dr_gov_tx_id q) (dr_authority q) \<noteq>
      tx_key (dr_gov_tx_id r1) (dr_authority r1) \<Longrightarrow> unrecorded q s1"
  show "obtaining X r2 s1 (\<lambda>c2 s. obtaining X r3 s (P c1 c2))"
  proof (rule obtaining_next [of X 10 _ _ "{c1}"])
    fix c2 s2
    assume 2: "usable X c2 10 s2" "carries r2 c2" "test_start X 10 s2"
      and o2: "\<And>u. u \<in> {c1} \<Longrightarrow> usable X u 10 s2 \<and> ct_token_id u \<noteq> ct_token_id c2"
      and q2: "\<And>q. unrecorded q s1 \<Longrightarrow> tx_key (dr_gov_tx_id q) (dr_authority q) \<noteq>
        tx_key (dr_gov_tx_id r2) (dr_authority r2) \<Longrightarrow> unrecorded q s2"
    show "obtaining X r3 s2 (P c1 c2)"
      by (rule obtaining_next [of X 8 _ _ "{c1, c2}"])
        (use P 1 2 o2 q2 [OF q1 [OF u(3)]] keys in auto)
  qed (use 1 q1 [OF u(2)] keys in auto)
qed (use start in simp_all)

definition used :: "externs \<Rightarrow> capability_token \<Rightarrow> cap_state \<Rightarrow> bool" where
  "used X t s \<longleftrightarrow> (\<exists>u. hm_get (cs_capabilities (fst s)) (ct_token_id t) = Some u \<and>
     ct_max_uses u \<le> ct_use_count u \<and> verify_ok X (eng (snd s)) (ct_canonical u) (ct_signature u))"

lemma usable_used: "usable X t n s \<Longrightarrow> used X t (spent t (fst s), tick (snd s))"
  by (simp add: usable_def fresh_in_def used_def spent_def hm_get_modify)

lemma used_spent:
  "used X t s \<Longrightarrow> ct_token_id u \<noteq> ct_token_id t \<Longrightarrow> used X t (spent u (fst s), tick (snd s))"
  by (simp add: used_def spent_def hm_get_modify)

lemma presenting_used:
  "used X t s \<Longrightarrow> pb_token_id p = ct_token_id t \<Longrightarrow> presenting X p AlreadyConsumed s done_test"
  by (auto simp: used_def presenting_def consume_def)

lemma three_presented:
  assumes u: "list_all (\<lambda>c. usable X c 8 s) [c1, c2, c3]" and d: "distinct (map ct_token_id [c1, c2, c3])"
  shows "presenting X (binding_of c2) Authorized s (\<lambda>s.
    presenting X (binding_of c1) Authorized s (\<lambda>s. presenting X (binding_of c3) Authorized s (\<lambda>s.
    presenting X (binding_of c1) AlreadyConsumed s done_test)))"
proof -
  define s1 s2 s3 where "s1 = (spent c2 (fst s), tick (snd s))"
    and "s2 = (spent c1 (fst s1), tick (snd s1))" and "s3 = (spent c3 (fst s2), tick (snd s2))"
  have ids: "ct_token_id c2 \<noteq> ct_token_id c1" "ct_token_id c2 \<noteq> ct_token_id c3"
    "ct_token_id c1 \<noteq> ct_token_id c3" "ct_token_id c3 \<noteq> ct_token_id c1"
    using d by auto
  have 0: "usable X c1 (7 + 1) s" "usable X c2 8 s" "usable X c3 (7 + 1) s" using u by simp_all
  have 1: "usable X c1 7 s1" "usable X c3 (6 + 1) s1"
    using usable_spent [OF 0(1) ids(1)] usable_spent [OF 0(3) ids(2)] by (simp_all add: s1_def)
  have 2: "usable X c3 6 s2" using usable_spent [OF 1(2) ids(3)] by (simp add: s2_def)
  have "used X c1 s3" using used_spent [OF usable_used [OF 1(1)] ids(4)] by (simp add: s2_def s3_def)
  then have "presenting X (binding_of c1) AlreadyConsumed s3 done_test" by (rule presenting_used) simp
  then have "presenting X (binding_of c3) Authorized s2 (\<lambda>s.
      presenting X (binding_of c1) AlreadyConsumed s done_test)"
    unfolding s3_def by (rule presenting_own [OF 2])
  then have "presenting X (binding_of c1) Authorized s1 (\<lambda>s. presenting X (binding_of c3) Authorized s
      (\<lambda>s. presenting X (binding_of c1) AlreadyConsumed s done_test))"
    unfolding s2_def by (rule presenting_own [OF 1(1)])
  then show ?thesis unfolding s1_def by (rule presenting_own [OF 0(2)])
qed

lemma three_turns_hold:
  assumes new: "new_store X s"
  shows "same_session_multiple_turns_each_capability_independent X s"
  unfolding same_session_multiple_turns_each_capability_independent_def
proof (rule three_obtained [OF new_store_start [OF new]])
  fix c1 c2 c3 s
  assume "list_all (\<lambda>c. usable X c 8 s) [c1, c2, c3]" "distinct (map ct_token_id [c1, c2, c3])"
    "carries (req ''tx-turn-1'') c1" "carries (req ''tx-turn-2'') c2" "carries (req ''tx-turn-3'') c3"
  then show "ct_session_id c1 = ''sess1'' \<and> ct_session_id c2 = ''sess1'' \<and> ct_session_id c3 = ''sess1'' \<and>
     presenting X (binding_of c2) Authorized s (\<lambda>s. presenting X (binding_of c1) Authorized s (\<lambda>s.
     presenting X (binding_of c3) Authorized s (\<lambda>s.
     presenting X (binding_of c1) AlreadyConsumed s done_test)))"
    using three_presented [of X s c1 c2 c3] by (simp add: carriesD(3) req_def)
qed (simp_all add: tx_key_def new_store_unrecorded [OF new])

text \<open>
  Tampering. A token whose fields are edited in place keeps its old signature: it is refused
  exactly if that signature does not verify the edited text, which is a different text.
\<close>

lemma tampered_refused:
  assumes "usable X t n s" "ct_token_id (f t) = ct_token_id t"
    "\<not> verify_ok X (eng (snd s)) (ct_canonical (f t)) (ct_signature (f t))"
  shows "presenting X (binding_of t) SignatureInvalid (mutate_stored_token (ct_token_id t) f s) done_test"
  using assms by (simp add: presenting_def mutate_stored_token_def usable_def fresh_in_def consume_def
      hm_get_modify)

definition hex_halves :: "externs \<Rightarrow> bool" where
  "hex_halves X \<longleftrightarrow> (\<forall>h s. hex_decode X h = Some s \<longrightarrow> length h = 2 * length s)"

lemma short_signature_refused:
  assumes "hex_halves X"
  shows "\<not> verify_ok X e m ''deadbeef''"
proof -
  have "length s = 4" if "hex_decode X ''deadbeef'' = Some s" for s
    using assms [unfolded hex_halves_def, rule_format, OF that] by simp
  then show ?thesis
    by (cases "hex_decode X ''deadbeef''") (simp_all add: verify_ok_def engine_verify_def)
qed

lemma corrupted_signature_holds: "new_store X s \<Longrightarrow> hex_halves X \<Longrightarrow> corrupted_signature_rejected X s"
  unfolding corrupted_signature_rejected_def cap_def
  by (rule obtained; (rule tampered_refused)?) (simp_all add: short_signature_refused)

text \<open>The length of the signed text alone tells these edits.\<close>

lemma length_join: "length (join [c] fs) = sum_list (map length fs) + (length fs - 1)"
  by (induction "[c]" fs rule: join.induct) simp_all

lemma edits_change_the_text:
  "\<not> ct_required_for_safe_completion t \<Longrightarrow>
     ct_canonical (t\<lparr>ct_required_for_safe_completion := True\<rparr>) \<noteq> ct_canonical t"
  "ct_action_plane t = PlaneControl \<Longrightarrow>
     ct_canonical (t\<lparr>ct_action_plane := PlaneTool\<rparr>) \<noteq> ct_canonical t"
  "ct_max_uses t = 1 \<Longrightarrow> ct_canonical (t\<lparr>ct_max_uses := 1000\<rparr>) \<noteq> ct_canonical t"
  by (rule notI, drule arg_cong [where f = length],
    simp add: ct_canonical_def bar_def length_join ct_fields_def show_bool_def
      show_nat.simps [of 1000] show_nat.simps [of 100] show_nat.simps [of 10] show_nat.simps [of 1])+

lemma edit_refused:
  assumes "new_store X s" "decision_request_validate r = Inr ()"
    "\<And>t. carries r t \<Longrightarrow> ct_max_uses t = 1 \<Longrightarrow> ct_token_id (f t) = ct_token_id t \<and>
       ct_signature (f t) = ct_signature t \<and> ct_canonical (f t) \<noteq> ct_canonical t"
  shows "obtaining X r s (\<lambda>c s. ct_canonical (f c) \<noteq> ct_canonical c \<and>
    (presenting X (binding_of c) SignatureInvalid (mutate_stored_token (ct_token_id c) f s) done_test \<or>
     verify_ok X (eng (snd s)) (ct_canonical (f c)) (ct_signature c)))"
proof (rule obtained [OF assms(1,2)])
  fix t s' assume u: "usable X t 10 s'" and c: "carries r t"
  then have "ct_max_uses t = 1" by (simp add: usable_def fresh_in_def)
  note e = assms(3) [OF c this]
  then show "ct_canonical (f t) \<noteq> ct_canonical t \<and>
    (presenting X (binding_of t) SignatureInvalid (mutate_stored_token (ct_token_id t) f s') done_test \<or>
     verify_ok X (eng (snd s')) (ct_canonical (f t)) (ct_signature t))"
    using tampered_refused [of X t 10 s' f] u by metis
qed

lemma heartbeat_semantics:
  "dr_action_plane (heartbeat_req tx) = PlaneControl"
  "\<not> dr_required_for_safe_completion (heartbeat_req tx)"
  by (simp_all add: heartbeat_req_def)

text \<open>The three edits of the tests.\<close>

lemma tampering_detected:
  assumes new: "new_store X s"
  shows "heartbeat_cap X s (\<lambda>c s. let f = (\<lambda>t. t\<lparr>ct_required_for_safe_completion := True\<rparr>) in
      ct_canonical (f c) \<noteq> ct_canonical c \<and>
      (presenting X (binding_of c) SignatureInvalid (mutate_stored_token (ct_token_id c) f s) done_test \<or>
       verify_ok X (eng (snd s)) (ct_canonical (f c)) (ct_signature c)))"
    "heartbeat_cap X s (\<lambda>c s. let f = (\<lambda>t. t\<lparr>ct_action_plane := PlaneTool\<rparr>) in
      ct_canonical (f c) \<noteq> ct_canonical c \<and>
      (presenting X (binding_of c) SignatureInvalid (mutate_stored_token (ct_token_id c) f s) done_test \<or>
       verify_ok X (eng (snd s)) (ct_canonical (f c)) (ct_signature c)))"
    "cap X s (\<lambda>c s. let f = (\<lambda>t. t\<lparr>ct_max_uses := 1000\<rparr>) in
      ct_canonical (f c) \<noteq> ct_canonical c \<and>
      (presenting X (binding_of c) SignatureInvalid (mutate_stored_token (ct_token_id c) f s) done_test \<or>
       verify_ok X (eng (snd s)) (ct_canonical (f c)) (ct_signature c)))"
  unfolding Let_def heartbeat_cap_def cap_def
  by (rule edit_refused [OF new];
      simp add: edits_change_the_text carriesD heartbeat_semantics)+

text \<open>A token made to expire and signed again is refused for its age.\<close>

lemma expired_holds:
  assumes new: "new_store X s"
  shows "expired_token_rejected X s"
  unfolding expired_token_rejected_def cap_def
proof (rule obtained [OF new])
  fix t s' assume u: "usable X t 10 s'" and e: "eng (snd s') = eng (snd s)" and
    k: "ticks (snd s') = ticks (snd s) + 2"
  define f where "f = (\<lambda>t. let t' = t\<lparr>ct_expires_at := now X (snd s') - secs 1\<rparr>
           in t'\<lparr>ct_signature := engine_sign X (eng (snd s')) (ct_canonical t')\<rparr>)"
  have "cap_laws X" "engine_ok X (eng (snd s'))"
    using new e by (simp_all add: new_store_def cap_inv_def)
  then have v: "verify_ok X (eng (snd s')) (ct_canonical (f t)) (ct_signature (f t))"
    by (simp add: f_def Let_def cap_laws_def sign_verifies)
  have "test_clock X (snd s)" using new by (simp add: new_store_def)
  then have "clock X (ticks (snd s) + 2) \<le> clock X (ticks (snd s) + 3)"
    unfolding test_clock_def by (elim conjE allE [of _ 3] allE [of _ 2] impE) simp_all
  then have x: "ct_expires_at (f t) \<le> now X (tick (snd s'))"
    by (simp add: f_def Let_def now_def k eval_nat_numeral secs_def)
  have "ct_use_count (f t) = ct_use_count t" "ct_max_uses (f t) = ct_max_uses t"
    by (simp_all add: f_def Let_def)
  with u v x have "presenting X (binding_of t) Expired
      (fst (mutate_stored_token (ct_token_id t) f s'), tick (snd s')) done_test"
    by (simp add: presenting_def mutate_stored_token_def usable_def fresh_in_def consume_def hm_get_modify)
  then show "let (st, w) = mutate_stored_token (ct_token_id t) f s'
      in presenting X (binding_of t) Expired (st, tick w) done_test"
    by (simp add: mutate_stored_token_def)
qed simp

text \<open>
  Claim C28: the unit tests of the capability store hold, on every schedule of their threads, for
  every key, every source of identifiers and every clock that does not go back and advances by less than the
  thirty seconds a token lives during a test.
  The three tests that edit a signed field of a stored token are described exactly by
  \<open>tampering_detected\<close> instead: they hold unless the signature scheme accepts the old signature for
  the edited text.
\<close>

theorem capability_tests_hold:
  assumes "cap_laws X" "hex_halves X" "engine_ok X (eng w)" "test_clock X w"
  shows "list_all (\<lambda>test. test X (capability_store_new, w))
    [happy_path_consumes_once, replay_rejected, backend_mismatch, model_mismatch,
     transaction_mismatch, issuance_requires_real_decision, scope_from_decision_not_caller,
     session_mismatch, same_session_multiple_turns_each_capability_independent,
     principal_mismatch_rejected, authority_mismatch_rejected, run_mismatch_rejected,
     context_hash_mismatch_rejected, policy_version_mismatch_rejected,
     policy_hash_mismatch_rejected, missing_context_hash_rejected, malformed_context_hash_rejected,
     action_capability_binds_action_hash_tool_and_resource, action_hash_mismatch_rejected,
     tool_mismatch_rejected, resource_mismatch_rejected, tool_call_id_mismatch_rejected,
     action_replay_rejected, action_requires_action_fields,
     heartbeat_capability_binds_control_plane_and_noncritical,
     ordinary_action_capability_binds_tool_plane_and_required, plane_mismatch_rejected,
     control_capability_cannot_be_presented_as_tool_plane_for_a_different_tool,
     provider_and_action_decisions_coexist_under_same_gov_tx_id,
     action_conflicting_tool_same_tx_errors, corrupted_signature_rejected, expired_token_rejected,
     empty_fields_rejected, wrong_authority_rejected, identical_retry_returns_same_decision,
     conflicting_backend_same_tx_errors, conflicting_session_same_tx_errors,
     concurrent_consume_is_single_use, concurrent_issuance_is_single_capability,
     concurrent_identical_record_is_single_decision] \<and> nonpositive_ttl_rejected"
proof -
  have "new_store X (capability_store_new, w)"
    using assms cap_inv_new [OF assms(3)] by (simp add: new_store_def capability_store_new_def)
  note new = this
  show ?thesis
    by (simp only: list.pred_inject simp_thms replays_refused [OF new] mismatches_refused [OF new]
      action_mismatches_refused [OF new] own_scope_works [OF new] happy_path_holds [OF new]
      scope_from_request [OF new] bad_requests_refused unknown_decision [OF new] bad_ttl_refused
      three_turns_hold [OF new] coexist_holds [OF new] conflicts_refused [OF new]
      corrupted_signature_holds [OF new assms(2)] expired_holds [OF new]
      identical_retry_holds [OF new] one_consumer [OF new] one_issuer [OF new] one_decision [OF new])
qed

lemma demo_hex_halves: "hex_halves demo"
proof -
  have "hex_dec h = Some s \<Longrightarrow> length h = 2 * length s" for h s
    by (induction h arbitrary: s rule: hex_dec.induct) (auto split: if_splits option.splits)
  then show ?thesis by (simp add: hex_halves_def demo_def)
qed

lemma demo_test_clock: "test_clock demo w"
  by (simp add: test_clock_def demo_prompt) (simp add: demo_def secs_def)

lemma capability_tests_hold_witness:
  "replay_rejected demo (capability_store_new, demo_world) \<and>
   concurrent_consume_is_single_use demo (capability_store_new, demo_world)"
  using capability_tests_hold [OF demo_cap_laws demo_hex_halves demo_engine_ok demo_test_clock]
  by (simp only: list.pred_inject simp_thms)

end
