(* ===== verification/LedgerTests.thy ===== *)
theory LedgerTests
  imports VerdictLedger
begin

text \<open>
  The unit tests of \<open>verdict_ledger.rs\<close>, run in the model on a new ledger, for every source of
  identifiers. The test with threads is run on a schedule, a list of thread numbers; the ledger's
  lock makes each call one step of its thread.
\<close>

section \<open>The tests\<close>

definition approved_signal :: "externs \<Rightarrow> string \<Rightarrow> world \<Rightarrow> signal \<times> world" where
  "approved_signal X sid w =
     builder_build X w (builder_payload_hash ''deadbeef'' (builder_new Sentinel Inbound sid))"

definition record_then_resolve_matches :: "externs \<Rightarrow> world \<Rightarrow> bool" where
  "record_then_resolve_matches X w =
     (let (sig, w) = approved_signal X ''sess1'' w;
          (vid, l, w) = ledger_record X ''tx1'' sig verdict_ledger_new w;
          (outcome, rec) = resolve vid ''tx1'' ''sess1'' l
      in outcome = ResFound \<and> map_option vr_gov_tx_id rec = Some ''tx1'')"

definition unknown_verdict_id_not_found :: bool where
  "unknown_verdict_id_not_found =
     (let (outcome, rec) = resolve ''SV-fabricated'' ''tx1'' ''sess1'' verdict_ledger_new
      in outcome = ResNotFound \<and> rec = None)"

definition transaction_mismatch_rejected :: "externs \<Rightarrow> world \<Rightarrow> bool" where
  "transaction_mismatch_rejected X w =
     (let (sig, w) = approved_signal X ''sess1'' w;
          (vid, l, w) = ledger_record X ''tx1'' sig verdict_ledger_new w
      in fst (resolve vid ''tx2'' ''sess1'' l) = ResTransactionMismatch)"

definition session_mismatch_rejected :: "externs \<Rightarrow> world \<Rightarrow> bool" where
  "session_mismatch_rejected X w =
     (let (sig, w) = approved_signal X ''sess1'' w;
          (vid, l, w) = ledger_record X ''tx1'' sig verdict_ledger_new w
      in fst (resolve vid ''tx1'' ''sessOTHER'' l) = ResSessionMismatch)"

definition intermediate_record_is_not_execution_authority :: "externs \<Rightarrow> world \<Rightarrow> bool" where
  "intermediate_record_is_not_execution_authority X w =
     (let (sig, w) = approved_signal X ''sess1'' w;
          (intermediate_id, l, w) = ledger_record X ''tx1'' sig verdict_ledger_new w;
          (outcome, record) = resolve intermediate_id ''tx1'' ''sess1'' l
      in approved_verdict_id ''tx1'' ''sess1'' l = None \<and> outcome = ResFound \<and>
         map_option vr_final_approved record = Some False)"

definition final_approved_receipt_is_execution_authority :: "externs \<Rightarrow> world \<Rightarrow> bool" where
  "final_approved_receipt_is_execution_authority X w =
     (let (sig, w) = approved_signal X ''sess1'' w;
          (verdict_id, l, w) = record_final_approved X ''tx1'' sig verdict_ledger_new w;
          (outcome, record) = resolve verdict_id ''tx1'' ''sess1'' l
      in approved_verdict_id ''tx1'' ''sess1'' l = Some verdict_id \<and> outcome = ResFound \<and>
         map_option vr_final_approved record = Some True \<and>
         approved_verdict_id ''tx1'' ''other-session'' l = None)"

section \<open>Threads that record and resolve\<close>

record ledger_run =
  lr_ledger :: verdict_ledger
  lr_world :: world
  lr_vid :: "nat \<Rightarrow> string option"
  lr_found :: "nat set"

definition thread_tx :: "nat \<Rightarrow> string" where "thread_tx i = ''tx'' @ show_nat i"
definition thread_session :: "nat \<Rightarrow> string" where "thread_session i = ''sess'' @ show_nat i"

text \<open>The next step of thread \<open>i\<close>: it records its signal, or looks up what it recorded.\<close>

definition thread_step :: "externs \<Rightarrow> nat \<Rightarrow> ledger_run \<Rightarrow> ledger_run" where
  "thread_step X i s =
     (case lr_vid s i of
        None \<Rightarrow>
          (let (sig, w) = approved_signal X (thread_session i) (lr_world s);
               (vid, l, w) = ledger_record X (thread_tx i) sig (lr_ledger s) w
           in s\<lparr>lr_ledger := l, lr_world := w, lr_vid := (lr_vid s)(i := Some vid)\<rparr>)
      | Some vid \<Rightarrow>
          (let (outcome, _) = resolve vid (thread_tx i) (thread_session i) (lr_ledger s)
           in if outcome = ResFound then s\<lparr>lr_found := insert i (lr_found s)\<rparr> else s))"

definition start_run :: "world \<Rightarrow> ledger_run" where
  "start_run w = \<lparr>lr_ledger = verdict_ledger_new, lr_world = w, lr_vid = (\<lambda>_. None), lr_found = {}\<rparr>"

definition concurrent_record_all_persist_distinctly :: "externs \<Rightarrow> nat list \<Rightarrow> world \<Rightarrow> bool" where
  "concurrent_record_all_persist_distinctly X schedule w =
     (card (lr_found (fold (thread_step X) schedule (start_run w)) \<inter> {..<64}) = 64)"

section \<open>They hold\<close>

lemmas ledger_test_simps = approved_signal_def builder_defs ledger_record_def record_final_approved_def
  record_final_approved_inner_def resolve_def approved_verdict_id_def verdict_ledger_new_def
  ledger_key_def bar_def Let_def hm_get_def hm_insert_def

lemma sequential_tests:
  "record_then_resolve_matches X w" "unknown_verdict_id_not_found" "transaction_mismatch_rejected X w"
  "session_mismatch_rejected X w" "intermediate_record_is_not_execution_authority X w"
  "final_approved_receipt_is_execution_authority X w"
  by (simp_all add: record_then_resolve_matches_def unknown_verdict_id_not_found_def
      transaction_mismatch_rejected_def session_mismatch_rejected_def
      intermediate_record_is_not_execution_authority_def
      final_approved_receipt_is_execution_authority_def ledger_test_simps)

text \<open>What a thread recorded stays in the ledger under its transaction and session.\<close>

definition run_ok :: "externs \<Rightarrow> ledger_run \<Rightarrow> bool" where
  "run_ok X s \<longleftrightarrow> ledger_inv X (lr_ledger s) (lr_world s) \<and>
     (\<forall>i v. lr_vid s i = Some v \<longrightarrow>
        fst (resolve v (thread_tx i) (thread_session i) (lr_ledger s)) = ResFound)"

lemma approved_signal_facts:
  "sg_session_id (fst (approved_signal X sid w)) = sid"
  "snd (approved_signal X sid w) = tick (draw_id w)"
  by (simp_all add: approved_signal_def builder_defs)

lemma verdict_id_fresh:
  assumes "uuid_laws X" "ledger_inv X l w"
  shows "hm_get (vl_verdicts l) (''SV-'' @ uuid_simple X (ids w)) = None"
proof (rule ccontr)
  assume "hm_get (vl_verdicts l) (''SV-'' @ uuid_simple X (ids w)) \<noteq> None"
  then obtain r where "hm_get (vl_verdicts l) (''SV-'' @ uuid_simple X (ids w)) = Some r" by blast
  with assms(2) obtain k where k: "k < ids w" "''SV-'' @ uuid_simple X (ids w) = ''SV-'' @ uuid_simple X k"
    unfolding ledger_inv_def verdicts_ok_def by blast
  from k(2) have "uuid_simple X (ids w) = uuid_simple X k" by simp
  with assms(1) k(1) show False by (auto simp: uuid_laws_def dest: injD)
qed

lemma resolve_found:
  "fst (resolve v tx sid l) = ResFound \<longleftrightarrow>
     (\<exists>r. hm_get (vl_verdicts l) v = Some r \<and> vr_gov_tx_id r = tx \<and> vr_session_id r = sid)"
  by (auto simp: resolve_def split: option.splits)

lemma thread_step_ok:
  assumes u: "uuid_laws X" and ok: "run_ok X s"
  shows "run_ok X (thread_step X i s)"
proof (cases "lr_vid s i")
  case None
  let ?w = "tick (draw_id (lr_world s))" and ?sig = "fst (approved_signal X (thread_session i) (lr_world s))"
  define v where "v = ''SV-'' @ uuid_simple X (ids ?w)"
  define r where "r = verdict_of_signal v (thread_tx i) False ?sig (now X ?w) None None"
  have inv: "ledger_inv X (lr_ledger s) ?w"
    using ok ledger_inv_world by (fastforce simp: run_ok_def)
  have rec: "ledger_record X (thread_tx i) ?sig (lr_ledger s) ?w =
      (v, (lr_ledger s)\<lparr>vl_verdicts := hm_insert v r (vl_verdicts (lr_ledger s))\<rparr>, tick (draw_id ?w))"
    by (simp only: ledger_record_def Let_def v_def r_def)
  have step: "thread_step X i s = s\<lparr>lr_ledger := (lr_ledger s)\<lparr>vl_verdicts := hm_insert v r (vl_verdicts (lr_ledger s))\<rparr>,
      lr_world := tick (draw_id ?w), lr_vid := (lr_vid s)(i := Some v)\<rparr>"
    using None rec by (simp add: thread_step_def Let_def split_def approved_signal_facts)
  have new: "hm_get (vl_verdicts (lr_ledger s)) v = None"
    unfolding v_def by (rule verdict_id_fresh [OF u inv])
  then have "lr_vid s j \<noteq> Some v" for j
    using ok unfolding run_ok_def resolve_found by fastforce
  moreover have "vr_gov_tx_id r = thread_tx i" "vr_session_id r = thread_session i"
    by (simp_all add: r_def approved_signal_facts)
  ultimately show ?thesis
    using ok ledger_record_inv [OF u inv, of "thread_tx i" ?sig] unfolding rec
    by (auto simp: run_ok_def step resolve_found)
next
  case (Some v)
  with ok show ?thesis by (auto simp: thread_step_def run_ok_def split: prod.splits)
qed

text \<open>One turn and a thread has recorded, two and it has found its record.\<close>

lemma thread_progress:
  assumes "run_ok X s"
  shows "lr_vid (thread_step X i s) i \<noteq> None"
    "lr_vid s j \<noteq> None \<Longrightarrow> lr_vid (thread_step X i s) j \<noteq> None"
    "lr_vid s i \<noteq> None \<Longrightarrow> i \<in> lr_found (thread_step X i s)"
    "lr_found s \<subseteq> lr_found (thread_step X i s)"
proof -
  show "lr_vid s i \<noteq> None \<Longrightarrow> i \<in> lr_found (thread_step X i s)"
    using assms by (auto simp: thread_step_def run_ok_def Let_def split_def)
qed (auto simp: thread_step_def Let_def split_def split: option.splits)

lemma run_progress:
  assumes "uuid_laws X" "run_ok X s"
  shows "(lr_vid s i \<noteq> None \<or> i \<in> set xs \<longrightarrow> lr_vid (fold (thread_step X) xs s) i \<noteq> None) \<and>
    lr_found s \<subseteq> lr_found (fold (thread_step X) xs s) \<and>
    ((lr_vid s i \<noteq> None \<and> i \<in> set xs) \<or> 2 \<le> count_list xs i \<longrightarrow>
       i \<in> lr_found (fold (thread_step X) xs s))"
  using assms(2)
proof (induction xs arbitrary: s)
  case (Cons x xs)
  note p = thread_progress [OF Cons.prems, where i = x]
  have "1 \<le> count_list xs i \<Longrightarrow> i \<in> set xs" by (cases "i \<in> set xs") simp_all
  with Cons.IH [OF thread_step_ok [OF assms(1) Cons.prems, of x]] p(1,3,4) p(2) [of i] show ?case
    by (cases "x = i") auto
qed simp

lemma start_run_ok: "run_ok X (start_run w)"
  by (simp add: run_ok_def start_run_def ledger_inv_new)

text \<open>
  However the threads interleave, once each has taken its two steps none of their records is lost
  or confused with another's.
\<close>

lemma concurrent_record_holds:
  assumes "uuid_laws X" "\<And>i. i < 64 \<Longrightarrow> 2 \<le> count_list schedule i"
  shows "concurrent_record_all_persist_distinctly X schedule w"
proof -
  have "lr_found (fold (thread_step X) schedule (start_run w)) \<inter> {..<64} = {..<64}"
    using run_progress [OF assms(1) start_run_ok, where xs = schedule] assms(2) by fastforce
  then show ?thesis by (simp add: concurrent_record_all_persist_distinctly_def)
qed

end
