(* ===== verification/EvidenceTests.thy ===== *)
theory EvidenceTests
  imports Evidence
begin

text \<open>
  The unit tests of the evidence plane in \<open>evidence.rs\<close>, run in the model with any key, source of
  identifiers and clock. The tests that alter an event hold unless the hash collides on the two
  texts at hand.
\<close>

section \<open>Fixtures\<close>

text \<open>The sink with a switch: its state is the \<open>fail\<close> flag and what it received.\<close>

definition toggle_sink :: "(bool \<times> evidence_event list) evidence_sink" where
  "toggle_sink = \<lparr>sk_name = ''toggle'', sk_write = (\<lambda>e (down, es).
     if down then (Inl \<lparr>se_sink = ''toggle'', se_message = ''simulated outage''\<rparr>, down, es)
     else (Inr (), down, es @ [e]))\<rparr>"

definition payload :: "externs \<Rightarrow> string \<Rightarrow> evidence_payload" where
  "payload X label = payload_default\<lparr>ep_gov_tx_id := Some (''GTX-'' @ label),
     ep_session_id := Some ''sess-evidence'', ep_run_id := Some ''run-evidence'',
     ep_context_hash := Some (sha_hex X label), ep_outcome := label\<rparr>"

definition appending :: "externs \<Rightarrow> evidence_event_type \<Rightarrow> string \<Rightarrow> 's evidence_plane \<times> world \<Rightarrow>
    's evidence_plane \<times> world" where
  "appending X ty label s = snd (evidence_append X ty (payload X label) (fst s) (snd s))"

definition no_sink_plane :: "externs \<Rightarrow> world \<Rightarrow> unit evidence_plane \<times> world" where
  "no_sink_plane X w = evidence_new X None () w"

section \<open>The tests\<close>

definition chain_and_signatures_verify :: "externs \<Rightarrow> world \<Rightarrow> bool" where
  "chain_and_signatures_verify X w =
     (let (plane, w) = appending X CapabilityConsumed ''three''
            (appending X ActionAuthorized ''two''
              (appending X ContextApproved ''one'' (no_sink_plane X w)));
          events = evidence_snapshot plane
      in length events = 3 \<and> ee_sequence (events ! 0) = 1 \<and>
         ee_previous_event_hash (events ! 2) = ee_event_hash (events ! 1) \<and>
         verify_snapshot X events = Inr ())"

definition mutation_is_detected :: "externs \<Rightarrow> world \<Rightarrow> bool" where
  "mutation_is_detected X w =
     (let (plane, w) = appending X ActionAuthorized ''authorized'' (no_sink_plane X w);
          events = evidence_snapshot plane;
          events = events[0 := (events ! 0)\<lparr>ee_payload :=
            (ee_payload (events ! 0))\<lparr>ep_outcome := ''tampered''\<rparr>\<rparr>]
      in verify_snapshot X events = Inl (EvHashMismatch 1))"

definition three_actions :: "externs \<Rightarrow> world \<Rightarrow> unit evidence_plane \<times> world" where
  "three_actions X w = fold (appending X ActionAuthorized) [''one'', ''two'', ''three''] (no_sink_plane X w)"

definition deletion_and_reordering_are_detected :: "externs \<Rightarrow> world \<Rightarrow> bool" where
  "deletion_and_reordering_are_detected X w =
     (let events = evidence_snapshot (fst (three_actions X w));
          deleted = [events ! 0, events ! 2];
          reordered = [events ! 1, events ! 0, events ! 2]
      in \<not> is_ok (verify_snapshot X deleted) \<and> \<not> is_ok (verify_snapshot X reordered))"

definition signed_checkpoint_links_a_new_epoch :: "externs \<Rightarrow> world \<Rightarrow> bool" where
  "signed_checkpoint_links_a_new_epoch X w =
     (let (first, w) = appending X ContextApproved ''first'' (no_sink_plane X w);
          (checkpoint, w) = evidence_checkpoint_of X first w
      in checkpoint_verify X checkpoint \<and>
         (case evidence_from_checkpoint X checkpoint None () w of
            (Inl _, _) \<Rightarrow> False
          | (Inr second, w) \<Rightarrow>
              let (second, w) = appending X ActionAuthorized ''second'' (second, w);
                  events = evidence_snapshot second
              in ee_epoch_parent_hash (events ! 0) = Some (ec_head_hash checkpoint) \<and>
                 verify_snapshot X events = Inr ()))"

definition is_deferred :: "sink_status \<Rightarrow> bool" where
  "is_deferred s = (case s of Deferred _ _ \<Rightarrow> True | _ \<Rightarrow> False)"

definition sink_failure_keeps_local_evidence_and_retries_in_order :: "externs \<Rightarrow> world \<Rightarrow> bool" where
  "sink_failure_keeps_local_evidence_and_retries_in_order X w =
     (let (plane, w) = evidence_new X (Some toggle_sink) (True, []) w;
          (first, plane, w) = evidence_append X ActionAuthorized (payload X ''one'') plane w;
          (second, plane, w) = evidence_append X ActionAuthorized (payload X ''two'') plane w;
          (flushed, recovered) = flush_pending
            (plane\<lparr>ev_sink_state := (False, snd (ev_sink_state plane))\<rparr>);
          received = snd (ev_sink_state recovered)
      in is_deferred (er_sink_status first) \<and> is_deferred (er_sink_status second) \<and>
         length (evidence_snapshot plane) = 2 \<and> pending_sink_count plane = 2 \<and>
         flushed = Inr 2 \<and> pending_sink_count recovered = 0 \<and> length received = 2 \<and>
         ee_sequence (received ! 0) = 1 \<and> ee_sequence (received ! 1) = 2)"

definition signed_checkpoint_detects_tail_truncation :: "externs \<Rightarrow> world \<Rightarrow> bool" where
  "signed_checkpoint_detects_tail_truncation X w =
     (let (plane, w) = three_actions X w;
          (checkpoint, w) = evidence_checkpoint_of X plane w;
          truncated = butlast (evidence_snapshot plane)
      in verify_snapshot_against_checkpoint X truncated checkpoint = Inl (InvalidSequence 3 2))"

section \<open>They hold\<close>

lemma appending_inv:
  "hex_laws X \<Longrightarrow> ed_laws X \<Longrightarrow> plane_inv X s \<Longrightarrow> plane_inv X (appending X ty l s)"
  by (cases s) (simp add: appending_def append_plane_inv)

lemma no_sink_inv: "engine_ok X (eng w) \<Longrightarrow> plane_inv X (no_sink_plane X w)"
  by (simp add: no_sink_plane_def evidence_new_def with_parent_inv)

lemma appending_events [simp]:
  "ev_events (fst (appending X ty l s)) = ev_events (fst s) @ [new_event X (snd s) ty (payload X l) (fst s)]"
  "ev_next_sequence (fst (appending X ty l s)) = ev_next_sequence (fst s) + 1"
  "ev_head_hash (fst (appending X ty l s)) = ee_event_hash (new_event X (snd s) ty (payload X l) (fst s))"
  "ev_epoch_id (fst (appending X ty l s)) = ev_epoch_id (fst s)"
  "ev_epoch_parent_hash (fst (appending X ty l s)) = ev_epoch_parent_hash (fst s)"
  "snd (appending X ty l s) = draw_id (tick (snd s))"
  using append_frame [of X ty "payload X l" "fst s" "snd s"] by (simp_all add: appending_def)

lemma no_sink_events [simp]:
  "ev_events (fst (no_sink_plane X w)) = []" "ev_next_sequence (fst (no_sink_plane X w)) = 1"
  by (simp_all add: no_sink_plane_def evidence_new_def with_parent_hash_def Let_def)

lemma appended_event_sel [simp]:
  "ee_sequence (new_event X w ty p pl) = ev_next_sequence pl"
  "ee_previous_event_hash (new_event X w ty p pl) = ev_head_hash pl"
  "ee_epoch_parent_hash (new_event X w ty p pl) = ev_epoch_parent_hash pl"
  by (simp_all add: new_event_def Let_def unsigned_event_sel)

lemma inv_verifies:
  "hex_laws X \<Longrightarrow> ed_laws X \<Longrightarrow> plane_inv X s \<Longrightarrow> verify_snapshot X (ev_events (fst s)) = Inr ()"
  using plane_inv_verifies [of X "fst s" "snd s"] by simp

lemmas plane_test_simps = evidence_snapshot_def three_actions_def split_def Let_def

lemma chain_holds:
  assumes "hex_laws X" "ed_laws X" "engine_ok X (eng w)"
  shows "chain_and_signatures_verify X w"
  using inv_verifies [OF assms(1,2) appending_inv [OF assms(1,2) appending_inv [OF assms(1,2)
      appending_inv [OF assms(1,2) no_sink_inv [OF assms(3)]]]]]
  by (simp add: chain_and_signatures_verify_def plane_test_simps)

lemma order_holds: "deletion_and_reordering_are_detected X w"
proof -
  let ?es = "ev_events (fst (three_actions X w))"
  have s: "ee_sequence (?es ! 0) = 1" "ee_sequence (?es ! 1) = 2" "ee_sequence (?es ! 2) = 3"
    by (simp_all add: three_actions_def)
  have "\<not> is_ok (verify_snapshot X (e # es))" if "ee_sequence (last (e # es)) \<noteq> of_nat (length (e # es)) \<or>
      ee_sequence e \<noteq> 1" for e es
  proof
    assume "is_ok (verify_snapshot X (e # es))"
    then have v: "verify_snapshot X (e # es) = Inr ()" by (simp add: is_ok_unit)
    obtain f fp p where "verify_events X f fp 0 p (e # es) = Inr ()"
      by (rule verify_snapshot_start [OF v]) auto
    with verify_events_sequence [OF this] that show False
      by (auto simp: ebind_Inr_iff event_check_def all_ok_iff)
  qed
  from this [of "?es ! 0" "[?es ! 2]"] this [of "?es ! 1" "[?es ! 0, ?es ! 2]"] s show ?thesis
    by (simp add: deletion_and_reordering_are_detected_def evidence_snapshot_def Let_def)
qed

lemma sink_failure_holds: "sink_failure_keeps_local_evidence_and_retries_in_order X w"
  by (simp add: sink_failure_keeps_local_evidence_and_retries_in_order_def evidence_append_def
      evidence_new_def with_parent_hash_def sink_offer_def toggle_sink_def flush_pending_def
      is_deferred_def pending_sink_count_def evidence_snapshot_def Let_def)

lemma checkpoint_world [simp]: "snd (evidence_checkpoint_of X pl w) = tick w"
  by (simp add: evidence_checkpoint_of_def Let_def)

lemma new_epoch_holds:
  assumes "hex_laws X" "ed_laws X" "engine_ok X (eng w)"
  shows "signed_checkpoint_links_a_new_epoch X w"
proof -
  let ?s = "appending X ContextApproved ''first'' (no_sink_plane X w)"
  let ?c = "fst (evidence_checkpoint_of X (fst ?s) (snd ?s))" and ?w = "tick (snd ?s)"
  let ?p = "with_parent_hash X (Some (ec_head_hash ?c)) None () ?w"
  have e: "engine_ok X (eng (snd ?s))" "eng ?w = eng (snd ?s)"
    using assms(3) by (simp_all add: no_sink_plane_def evidence_new_def with_parent_hash_def Let_def)
  have v: "checkpoint_verify X ?c" by (rule own_checkpoint_verifies [OF assms(1,2) e(1)])
  have r: "evidence_from_checkpoint X ?c None () ?w = (Inr (fst ?p), snd ?p)"
    using v e(2) by (simp add: evidence_from_checkpoint_def checkpoint_of_fields(4,5) split_def Let_def)
  have "plane_inv X ?p" using e by (intro with_parent_inv) simp
  from inv_verifies [OF assms(1,2) appending_inv [OF assms(1,2) this]] have
    "verify_snapshot X (ev_events (fst (appending X ActionAuthorized ''second'' ?p))) = Inr ()" .
  moreover have "ev_events (fst ?p) = []" "ev_epoch_parent_hash (fst ?p) = Some (ec_head_hash ?c)"
    by (simp_all add: with_parent_hash_def Let_def)
  ultimately show ?thesis
    using v r by (simp add: signed_checkpoint_links_a_new_epoch_def evidence_snapshot_def Let_def
        split_def del: appending_events(1,6)) (simp add: checkpoint_of_fields)
qed

lemma truncation_holds:
  assumes "hex_laws X" "ed_laws X" "engine_ok X (eng w)"
  shows "signed_checkpoint_detects_tail_truncation X w"
proof -
  let ?s2 = "fold (appending X ActionAuthorized) [''one'', ''two''] (no_sink_plane X w)"
  let ?s3 = "appending X ActionAuthorized ''three'' ?s2"
  have i: "plane_inv X ?s2"
    by (simp only: fold_simps id_apply) (intro appending_inv [OF assms(1,2)] no_sink_inv assms(3))
  then have i2: "plane_inv X (fst ?s2, snd ?s2)" unfolding prod.collapse .
  have e3: "eng (snd ?s3) = eng (snd ?s2)" by simp
  have ne: "ev_events (fst ?s2) \<noteq> []" by simp
  note l = plane_last_event [OF i2 ne]
  have v: "verify_snapshot X (ev_events (fst ?s2)) = Inr ()" by (rule inv_verifies [OF assms(1,2) i])
  have "engine_ok X (eng (snd ?s3))" using i2 by (simp add: plane_inv_def)
  then have c: "checkpoint_verify X (fst (evidence_checkpoint_of X (fst ?s3) (snd ?s3)))"
    by (rule own_checkpoint_verifies [OF assms(1,2)])
  have "verify_snapshot_against_checkpoint X (ev_events (fst ?s2))
      (fst (evidence_checkpoint_of X (fst ?s3) (snd ?s3))) = Inl (InvalidSequence 3 2)"
    using v c l ne unfolding verify_snapshot_against_checkpoint_def
    by (simp add: Let_def checkpoint_of_fields all_ok.simps guard_ok_def sat_sub_def)
  then show ?thesis
    by (simp add: signed_checkpoint_detects_tail_truncation_def three_actions_def evidence_snapshot_def
        split_def Let_def)
qed

text \<open>The altered event is told by its hash, unless the hash collides on the two texts.\<close>

lemma altered_event:
  assumes v: "verify_snapshot X [e] = Inr ()"
    and h: "compute_hash X (canonical_event_material X (e\<lparr>ee_payload := p\<rparr>)) \<noteq>
      compute_hash X (canonical_event_material X e)"
  shows "verify_snapshot X [e\<lparr>ee_payload := p\<rparr>] = Inl (EvHashMismatch (ee_sequence e))"
proof -
  let ?fp = "ee_signer_fingerprint e"
  let ?start = "start_hash X (ee_epoch_parent_hash e) (ee_epoch_id e) ?fp"
  have fp: "signer_fingerprint X (ee_signer_public_key e) = Some ?fp"
    and "event_check X e ?fp 1 ?start e = Inr ()"
    using v by (auto simp: verify_snapshot_def ebind_Inr_iff split: option.splits if_splits)
  then have "ee_event_hash e = compute_hash X (canonical_event_material X e)"
    "ee_schema_version e = EVIDENCE_SCHEMA_VERSION" "ee_sequence e = 1"
    "ee_previous_event_hash e = ?start"
    by (simp_all add: event_check_def all_ok_iff event_recompute_hash_def)
  with h fp show ?thesis
    by (simp add: verify_snapshot_def event_check_def all_ok.simps guard_ok_def event_recompute_hash_def)
qed

lemma mutation_holds:
  assumes "hex_laws X" "ed_laws X" "engine_ok X (eng w)"
  shows "mutation_is_detected X w \<or>
    (\<exists>e. e \<in> set (ev_events (fst (appending X ActionAuthorized ''authorized'' (no_sink_plane X w)))) \<and>
       event_collision X [e\<lparr>ee_payload := (ee_payload e)\<lparr>ep_outcome := ''tampered''\<rparr>\<rparr>] [e])"
proof -
  let ?s = "appending X ActionAuthorized ''authorized'' (no_sink_plane X w)"
  define e where "e = new_event X (snd (no_sink_plane X w)) ActionAuthorized (payload X ''authorized'')
      (fst (no_sink_plane X w))"
  define e' where "e' = e\<lparr>ee_payload := (ee_payload e)\<lparr>ep_outcome := ''tampered''\<rparr>\<rparr>"
  have evs: "ev_events (fst ?s) = [e]" by (simp add: e_def)
  have v: "verify_snapshot X [e] = Inr ()"
    using inv_verifies [OF assms(1,2) appending_inv [OF assms(1,2) no_sink_inv [OF assms(3)]]]
    unfolding evs [symmetric] .
  have out: "ep_outcome (ee_payload (event_content e)) = ''authorized''"
    "ep_outcome (ee_payload (event_content e')) = ''tampered''" "ee_sequence e = 1"
    "ee_event_hash e' = ee_event_hash e"
    by (simp_all add: e_def e'_def event_content_def new_event_def unsigned_event_def Let_def payload_def)
  have m: "canonical_event_material X e' \<noteq> canonical_event_material X e"
  proof
    assume "canonical_event_material X e' = canonical_event_material X e"
    from event_material_inject [OF assms(1) this out(4)] out(1,2) show False by simp
  qed
  have t: "mutation_is_detected X w \<longleftrightarrow> verify_snapshot X [e'] = Inl (EvHashMismatch 1)"
    by (simp add: mutation_is_detected_def evidence_snapshot_def split_def Let_def evs e'_def
        del: appending_events(1))
  show ?thesis
  proof (cases "compute_hash X (canonical_event_material X e') = compute_hash X (canonical_event_material X e)")
    case True
    with m show ?thesis unfolding evs by (auto simp: event_collision_def e'_def)
  next
    case False
    with altered_event [OF v] out(3) show ?thesis unfolding t e'_def by simp
  qed
qed

end
