(* ===== verification/ComponentTests.thy ===== *)
theory ComponentTests
  imports GovMem OperatorReset OverWatch ActionSemantics
begin

text \<open>
  The unit tests of \<open>action_semantics.rs\<close>, \<open>operator_reset.rs\<close>, \<open>govmem.rs\<close>, \<open>session_memory.rs\<close>
  and \<open>overwatch.rs\<close>, run in the model. What the model cannot state is left out: its \<open>f32\<close> has no
  NaN and no infinity, so the two rejections of such a threshold and the test that every trajectory
  is finite have nothing to say.
\<close>

section \<open>Action semantics\<close>

definition heartbeat_is_control_and_noncritical :: bool where
  "heartbeat_is_control_and_noncritical \<longleftrightarrow>
     (let semantics = derive_action_semantics_for_tool ''heartbeat_respond''
      in as_plane semantics = PlaneControl \<and>
         as_normalized_action semantics = ''system.telemetry.heartbeat'' \<and>
         \<not> required_for_safe_completion semantics)"

definition ordinary_tools_stay_tool_plane_and_required :: bool where
  "ordinary_tools_stay_tool_plane_and_required \<longleftrightarrow> list_all (\<lambda>tool.
     let semantics = derive_action_semantics_for_tool tool
     in as_plane semantics = PlaneTool \<and> required_for_safe_completion semantics \<and>
        as_normalized_action semantics = ''tool.'' @ tool)
     [''read'', ''write'', ''edit'', ''bash'', ''exec'', ''browser'']"

lemma semantics_tests_hold: "heartbeat_is_control_and_noncritical" "ordinary_tools_stay_tool_plane_and_required"
  by (simp_all add: heartbeat_is_control_and_noncritical_def ordinary_tools_stay_tool_plane_and_required_def
      derive_action_semantics_for_tool_def required_for_safe_completion_def)

section \<open>The operator reset authority\<close>

definition strong_token :: string where
  "strong_token = ''Zx8qP2mN7vR4tK9wL3yH6jF1sD5gB0cE-strong-op-token''"

definition operator_reset_rejects_empty_token :: "externs \<Rightarrow> bool" where
  "operator_reset_rejects_empty_token X = (authority_from_config X (Some []) = Inl RcEmpty)"

definition operator_reset_rejects_whitespace_token :: "externs \<Rightarrow> bool" where
  "operator_reset_rejects_whitespace_token X =
     (authority_from_config X (Some (''   '' @ [CHR 9, CHR 10] @ ''  '')) = Inl RcEmpty)"

definition operator_reset_rejects_short_token :: "externs \<Rightarrow> bool" where
  "operator_reset_rejects_short_token X =
     (authority_from_config X (Some (replicate (min_operator_reset_token_length - 1) CHR ''a'')) = Inl RcTooShort)"

definition operator_reset_rejects_placeholder_token :: "externs \<Rightarrow> bool" where
  "operator_reset_rejects_placeholder_token X = list_all (\<lambda>placeholder.
     authority_from_config X (Some (placeholder @ replicate 60 CHR ''-'')) = Inl RcPlaceholder)
     [''PLACEHOLDER'', ''OPERATOR_TOKEN_PLACEHOLDER'', ''CHANGE_ME'', ''CHANGEME'',
      ''GENERATE_A_STRONG_RANDOM_TOKEN_HERE'', ''YOUR_OPERATOR_RESET_TOKEN_HERE'']"

definition operator_reset_config_accepts_valid_strong_token :: "externs \<Rightarrow> bool" where
  "operator_reset_config_accepts_valid_strong_token X =
     (case authority_from_config X (Some strong_token) of
        Inl _ \<Rightarrow> False | Inr authority \<Rightarrow> authority_verify authority strong_token)"

definition operator_reset_missing_config_rejected :: "externs \<Rightarrow> bool" where
  "operator_reset_missing_config_rejected X = (authority_from_config X None = Inl RcMissing)"

text \<open>Upper case of ASCII text is the text with its letters \<open>a..z\<close> raised.\<close>

definition ascii_upper_char :: "char \<Rightarrow> char" where
  "ascii_upper_char c = (if 97 \<le> byte c \<and> byte c \<le> 122 then char_of (byte c - 32) else c)"

definition ascii_uppercase :: "externs \<Rightarrow> bool" where
  "ascii_uppercase X \<longleftrightarrow>
     (\<forall>s. list_all (\<lambda>c. byte c < 128) s \<longrightarrow> uppercase X s = map ascii_upper_char s)"

lemma printing_trim: "list_all (\<lambda>c. utf8_len c = 1 \<and> \<not> is_ws [c]) s \<Longrightarrow> trim s = s"
  by (intro trim_plain) (simp add: list_all_iff)

lemma blank_tokens: "trim (''   '' @ [CHR 9, CHR 10] @ ''  '') = []" "trim [] = []"
  by (simp_all add: str_eval byte_def)

lemma empty_tokens_refused:
  "operator_reset_rejects_empty_token X" "operator_reset_rejects_whitespace_token X"
  "operator_reset_missing_config_rejected X"
  unfolding operator_reset_rejects_empty_token_def operator_reset_rejects_whitespace_token_def
    operator_reset_missing_config_rejected_def authority_from_config_def
  by (simp_all only: option.case blank_tokens Let_def if_True simp_thms)

lemma short_token_refused: "operator_reset_rejects_short_token X"
proof -
  have "trim (replicate 42 CHR ''a'') = replicate 42 CHR ''a''"
    by (rule printing_trim) (simp add: list_all_iff str_eval byte_def)
  then show ?thesis
    by (simp add: operator_reset_rejects_short_token_def authority_from_config_def min_operator_reset_token_length_def)
qed

definition plain_text :: "string \<Rightarrow> bool" where
  "plain_text s \<longleftrightarrow> list_all (\<lambda>c. byte c < 128 \<and> utf8_len c = 1 \<and> \<not> is_ws [c]) s"

lemma placeholder_refused:
  assumes "ascii_uppercase X" "plain_text p"
    "looks_like_placeholder (map ascii_upper_char p)"
  shows "authority_from_config X (Some (p @ replicate 60 CHR ''-'')) = Inl RcPlaceholder"
proof -
  let ?t = "p @ replicate 60 CHR ''-''"
  have a: "list_all (\<lambda>c. byte c < 128 \<and> utf8_len c = 1 \<and> \<not> is_ws [c]) ?t"
    using assms(2) by (simp add: plain_text_def list_all_iff str_eval byte_def)
  then have t: "trim ?t = ?t" by (intro printing_trim) (simp add: list_all_iff)
  have u: "uppercase X ?t = map ascii_upper_char ?t"
    using assms(1) a by (simp add: ascii_uppercase_def list_all_iff)
  have "contains (map ascii_upper_char ?t) m" if "contains (map ascii_upper_char p) m" for m
    using contains_append [OF that, of "[]"] by simp
  then have "looks_like_placeholder (map ascii_upper_char ?t)"
    using assms(3) unfolding looks_like_placeholder_def placeholder_markers_def contains_any_code
    by blast
  then show ?thesis by (simp add: authority_from_config_def t u min_operator_reset_token_length_def del: map_append)
qed

lemma placeholders_plain:
  "plain_text ''PLACEHOLDER''" "plain_text ''OPERATOR_TOKEN_PLACEHOLDER''" "plain_text ''CHANGE_ME''"
  "plain_text ''CHANGEME''" "plain_text ''GENERATE_A_STRONG_RANDOM_TOKEN_HERE''"
  "plain_text ''YOUR_OPERATOR_RESET_TOKEN_HERE''" "plain_text strong_token"
  by (simp_all add: plain_text_def strong_token_def str_eval byte_def)

lemma placeholders_found:
  "looks_like_placeholder (map ascii_upper_char ''PLACEHOLDER'')"
  "looks_like_placeholder (map ascii_upper_char ''OPERATOR_TOKEN_PLACEHOLDER'')"
  "looks_like_placeholder (map ascii_upper_char ''CHANGE_ME'')"
  "looks_like_placeholder (map ascii_upper_char ''CHANGEME'')"
  "looks_like_placeholder (map ascii_upper_char ''GENERATE_A_STRONG_RANDOM_TOKEN_HERE'')"
  "looks_like_placeholder (map ascii_upper_char ''YOUR_OPERATOR_RESET_TOKEN_HERE'')"
  "\<not> looks_like_placeholder (map ascii_upper_char strong_token)"
  by code_simp+

lemma reset_tests_hold:
  assumes "ascii_uppercase X"
  shows "operator_reset_rejects_placeholder_token X" "operator_reset_config_accepts_valid_strong_token X"
proof -
  show "operator_reset_rejects_placeholder_token X"
    unfolding operator_reset_rejects_placeholder_token_def
    by (intro list.pred_inject(1) list.pred_inject(2) [THEN iffD2] conjI placeholder_refused [OF assms] placeholders_plain placeholders_found)
  have "list_all (\<lambda>c. utf8_len c = 1 \<and> \<not> is_ws [c]) strong_token" "list_all (\<lambda>c. byte c < 128) strong_token"
    using placeholders_plain(7) by (simp_all add: plain_text_def list_all_iff)
  then have t: "trim strong_token = strong_token" "uppercase X strong_token = map ascii_upper_char strong_token"
    using assms by (simp_all add: printing_trim ascii_uppercase_def)
  have "43 \<le> length strong_token" "strong_token \<noteq> []" by (simp_all add: strong_token_def)
  then show "operator_reset_config_accepts_valid_strong_token X"
    by (simp add: operator_reset_config_accepts_valid_strong_token_def authority_from_config_def t
        min_operator_reset_token_length_def authority_verify_iff placeholders_found)
qed

section \<open>GovMem\<close>

text \<open>The store under the default threshold, over the shared map with one session in a given state.\<close>

definition govmem_with_state :: "externs \<Rightarrow> world \<Rightarrow> string \<Rightarrow> memory_state \<Rightarrow>
    govmem \<times> session_memory hashmap" where
  "govmem_with_state X w session_id state =
     (let memory = fst (session_memory_new X w session_id)
      in (\<lparr>gm_v2_sessions = [], gm_block_threshold = default_block_threshold, gm_mode = GovMemV1\<rparr>,
          hm_insert session_id (memory\<lparr>sm_memory_state := state\<rparr>) []))"

definition default_block_threshold_is_valid :: bool where
  "default_block_threshold_is_valid \<longleftrightarrow>
     valid_block_threshold default_block_threshold \<and> default_block_threshold = f32_lit (7 / 10)"

definition departments :: "string option list" where
  "departments = [None, Some ''SEC'', Some ''LGL'', Some ''ATTACKER-CONTROLLED'']"

definition department_metadata_cannot_change_block_threshold :: "externs \<Rightarrow> world \<Rightarrow> bool" where
  "department_metadata_cannot_change_block_threshold X w =
     (let session = ''metadata-cannot-select-policy'';
          (govmem, memories) = govmem_with_state X w session Escalated
      in list_all (\<lambda>dept. \<not> should_block govmem memories session dept) departments)"

definition locked_session_blocks_regardless_of_department_metadata :: "externs \<Rightarrow> world \<Rightarrow> bool" where
  "locked_session_blocks_regardless_of_department_metadata X w =
     (let session = ''locked-is-runtime-wide'';
          (govmem, memories) = govmem_with_state X w session Locked
      in list_all (should_block govmem memories session) departments)"

definition invalid_block_threshold_values_are_rejected_by_validator :: bool where
  "invalid_block_threshold_values_are_rejected_by_validator \<longleftrightarrow>
     \<not> valid_block_threshold (f32_lit (- 1 / 100)) \<and> \<not> valid_block_threshold 1 \<and>
     valid_block_threshold 0 \<and> valid_block_threshold (f32_lit (5 / 10)) \<and>
     valid_block_threshold (f32_lit (999 / 1000))"

lemma threshold_tests_hold:
  "default_block_threshold_is_valid" "invalid_block_threshold_values_are_rejected_by_validator"
  by (simp_all add: default_block_threshold_is_valid_def valid_block_threshold_def
      invalid_block_threshold_values_are_rejected_by_validator_def default_block_threshold_def f32_eval)

lemma govmem_tests_hold:
  "department_metadata_cannot_change_block_threshold X w"
  "locked_session_blocks_regardless_of_department_metadata X w"
proof -
  have "\<not> default_block_threshold < f32_sub 1 (modifier_of Escalated)" using escalated_score by simp
  moreover have "default_block_threshold < f32_sub 1 (modifier_of Locked)"
    by (simp add: default_block_threshold_def f32_eval)
  ultimately show "department_metadata_cannot_change_block_threshold X w"
    "locked_session_blocks_regardless_of_department_metadata X w"
    by (simp_all add: department_metadata_cannot_change_block_threshold_def departments_def
        locked_session_blocks_regardless_of_department_metadata_def govmem_with_state_def Let_def
        should_block_def threshold_modifier_def)
qed

section \<open>Session memory\<close>

definition low_signal :: "externs \<Rightarrow> string \<Rightarrow> nat \<Rightarrow> world \<Rightarrow> signal \<times> world" where
  "low_signal X session_id i w = builder_build X w
     (builder_severity SevLow (f32_add (f32_lit (3 / 10)) (f32_mul (f32_of_nat i) (f32_lit (1 / 1000))))
       (builder_new Sentinel Inbound session_id))"

definition ingest_low :: "externs \<Rightarrow> string \<Rightarrow> nat \<Rightarrow> session_memory \<times> world \<Rightarrow> session_memory \<times> world" where
  "ingest_low X session_id i mw =
     (let (m, w) = mw; (s, w) = low_signal X session_id i w
      in snd (ingest_signal X default_memory_config s Benign m w))"

definition turn_history_is_capped_not_unbounded :: "externs \<Rightarrow> world \<Rightarrow> bool" where
  "turn_history_is_capped_not_unbounded X w =
     (let sid = ''conv-bounded-growth-test'';
          (mem, _) = fold (ingest_low X sid) [0..<max_retained_turns * 2] (session_memory_new X w sid)
      in length (sm_turns mem) = max_retained_turns \<and> unat (sm_turn_count mem) = max_retained_turns * 2)"

definition oldest_turns_are_dropped_first :: "externs \<Rightarrow> world \<Rightarrow> bool" where
  "oldest_turns_are_dropped_first X w =
     (let sid = ''conv-oldest-dropped-test'';
          (mem, _) = fold (ingest_low X sid) [0..<max_retained_turns + 5] (session_memory_new X w sid)
      in case sm_turns mem of [] \<Rightarrow> False | t # _ \<Rightarrow> tr_turn t = 6)"

lemma ingest_low_step:
  "sm_turn_count (fst (ingest_low X sid i mw)) = sm_turn_count (fst mw) + 1"
  "map tr_turn (sm_turns (fst (ingest_low X sid i mw))) =
     keep_last 20 (map tr_turn (sm_turns (fst mw)) @ [sm_turn_count (fst mw) + 1])"
  by (simp_all add: ingest_low_def split_def ingest_turns record_turn_def Let_def keep_last_map
      max_retained_turns_def)

lemma low_turns:
  "sm_turn_count (fst (fold (ingest_low X sid) [0..<n] (session_memory_new X w sid))) = of_nat n \<and>
   map tr_turn (sm_turns (fst (fold (ingest_low X sid) [0..<n] (session_memory_new X w sid)))) =
     keep_last 20 (map of_nat [1..<Suc n])"
proof (induction n)
  case (Suc n)
  define mv where "mv = fold (ingest_low X sid) [0..<n] (session_memory_new X w sid)"
  have f: "fold (ingest_low X sid) [0..<Suc n] (session_memory_new X w sid) = ingest_low X sid n mv"
    by (simp add: mv_def)
  have "[1..<Suc (Suc n)] = [1..<Suc n] @ [Suc n]" by simp
  then have "keep_last 20 (map of_nat [1..<Suc (Suc n)]) = (keep_last 20 (keep_last 20 (map of_nat [1..<Suc n]) @
    [of_nat (Suc n)]) :: u32 list)" by (simp only: map_append list.map keep_last_push)
  with Suc [folded mv_def] show ?case
    unfolding f ingest_low_step by (simp add: add.commute del: upt_Suc)
qed (simp add: session_memory_new_def keep_last_def)

lemma memory_tests_hold:
  "turn_history_is_capped_not_unbounded X w" "oldest_turns_are_dropped_first X w"
proof -
  have "length (sm_turns (fst (fold (ingest_low X sid) [0..<40] (session_memory_new X w sid)))) = 20" for sid
    using arg_cong [OF low_turns [THEN conjunct2, of X sid 40 w], of length] by simp
  then show "turn_history_is_capped_not_unbounded X w"
    by (simp add: turn_history_is_capped_not_unbounded_def split_def low_turns max_retained_turns_def Let_def)
  have "map tr_turn (sm_turns (fst (fold (ingest_low X ''conv-oldest-dropped-test'') [0..<25]
      (session_memory_new X w ''conv-oldest-dropped-test'')))) = 6 # map of_nat [7..<26]"
    unfolding low_turns [THEN conjunct2] by (simp add: keep_last_def upt_rec)
  then show "oldest_turns_are_dropped_first X w"
    by (auto simp: oldest_turns_are_dropped_first_def split_def max_retained_turns_def Let_def split: list.split)
qed

section \<open>OverWatch\<close>

definition watching :: "externs \<Rightarrow> string \<Rightarrow> string \<Rightarrow> overwatch \<times> world \<Rightarrow> overwatch \<times> world" where
  "watching X sid payload = ow_step X (OwEvaluate payload Inbound sid)"

definition fresh_overwatch :: "world \<Rightarrow> overwatch \<times> world" where
  "fresh_overwatch w = (overwatch_new default_overwatch_config, w)"

definition tool_calls :: "string \<Rightarrow> overwatch \<times> world \<Rightarrow> string list" where
  "tool_calls sid ow = of_tool_call_sequence (fingerprint_of (fst ow) sid)"

definition tool_call_sequence_is_capped_not_unbounded :: "externs \<Rightarrow> world \<Rightarrow> bool" where
  "tool_call_sequence_is_capped_not_unbounded X w =
     (let sid = ''conv-tool-seq-bounded-test'';
          ow = (watching X sid ''please read_file the config'' ^^ (max_tool_call_sequence_len * 2)) (fresh_overwatch w)
      in length (tool_calls sid ow) = max_tool_call_sequence_len)"

definition suspicious_tool_chain_detection_still_works_after_capping :: "externs \<Rightarrow> world \<Rightarrow> bool" where
  "suspicious_tool_chain_detection_still_works_after_capping X w =
     (let sid = ''conv-tool-chain-detect-after-cap-test'';
          ow = (watching X sid ''please http_get the status page'' ^^ (max_tool_call_sequence_len * 2))
            (fresh_overwatch w);
          ow = watching X sid ''read_file the secrets'' ow;
          ow = watching X sid ''write_file the output'' ow;
          ow = watching X sid ''execute the payload'' ow;
          s = tool_calls sid ow
      in length s \<le> max_tool_call_sequence_len \<and> ''read_file'' \<in> set s \<and> ''write_file'' \<in> set s \<and>
         ''execute'' \<in> set s)"

lemma watching_calls:
  "tool_calls sid (watching X sid payload ow) =
     keep_last 20 (tool_calls sid ow @ filter (contains (lowercase X payload)) tool_names)"
proof -
  have "of_tool_call_sequence (update_fingerprint X payload fp) =
      keep_last 20 (of_tool_call_sequence fp @ filter (contains (lowercase X payload)) tool_names)" for fp
    by (simp add: update_fingerprint_def Let_def update_q09_def update_cmd_def update_suspicion_def
        update_tools_def max_tool_call_sequence_len_def)
  then show ?thesis
    by (cases ow) (auto simp: tool_calls_def watching_def overwatch_evaluate_def fingerprint_of_def Let_def
        note_events_def split: list.split prod.split)
qed

text \<open>Lowering the lower-case texts of the tests leaves them alone.\<close>

definition test_texts :: "string list" where
  "test_texts = [''please read_file the config'', ''please http_get the status page'',
     ''read_file the secrets'', ''write_file the output'', ''execute the payload'']"

definition keeps_lower :: "externs \<Rightarrow> bool" where
  "keeps_lower X \<longleftrightarrow> list_all (\<lambda>s. lowercase X s = s) test_texts"

lemma tools_named:
  "filter (contains ''please read_file the config'') tool_names = [''read_file'']"
  "filter (contains ''please http_get the status page'') tool_names = [''http_get'']"
  "filter (contains ''read_file the secrets'') tool_names = [''read_file'']"
  "filter (contains ''write_file the output'') tool_names = [''write_file'']"
  "filter (contains ''execute the payload'') tool_names = [''execute'']"
  by code_simp+

lemma one_tool_repeated:
  assumes "filter (contains (lowercase X p)) tool_names = [c]"
  shows "tool_calls sid ((watching X sid p ^^ n) (fresh_overwatch w)) = keep_last 20 (replicate n c)"
proof (induction n)
  case 0
  show ?case by (simp add: fresh_overwatch_def tool_calls_def fingerprint_of_def overwatch_new_def
        ow_fingerprint_new_def keep_last_def)
next
  case (Suc n)
  then show ?case by (simp add: watching_calls assms keep_last_push replicate_append_same flip: replicate_Suc)
qed

lemma overwatch_tests_hold:
  assumes "keeps_lower X"
  shows "tool_call_sequence_is_capped_not_unbounded X w"
    "suspicious_tool_chain_detection_still_works_after_capping X w"
proof -
  have l: "lowercase X ''please read_file the config'' = ''please read_file the config''"
    "lowercase X ''please http_get the status page'' = ''please http_get the status page''"
    "lowercase X ''read_file the secrets'' = ''read_file the secrets''"
    "lowercase X ''write_file the output'' = ''write_file the output''"
    "lowercase X ''execute the payload'' = ''execute the payload''"
    using assms by (simp_all only: keeps_lower_def test_texts_def list.pred_inject simp_thms)
  show "tool_call_sequence_is_capped_not_unbounded X w"
    unfolding tool_call_sequence_is_capped_not_unbounded_def Let_def
    by (subst one_tool_repeated) (simp_all only: l tools_named, simp add: max_tool_call_sequence_len_def)
  have "tool_calls ''conv-tool-chain-detect-after-cap-test''
      ((watching X ''conv-tool-chain-detect-after-cap-test'' ''please http_get the status page'' ^^ 40)
        (fresh_overwatch w)) = replicate 20 ''http_get''"
    by (subst one_tool_repeated) (simp_all only: l tools_named, simp add: keep_last_def)
  then show "suspicious_tool_chain_detection_still_works_after_capping X w"
    unfolding suspicious_tool_chain_detection_still_works_after_capping_def Let_def
      max_tool_call_sequence_len_def watching_calls l tools_named
    by (simp add: keep_last_def)
qed

end
