(* ===== verification/GovernedTests.thy ===== *)
theory GovernedTests
  imports Release PipelineTests
begin

text \<open>
  The unit tests of the governed pipeline of \<open>evidence.rs\<close>, run in the model. The two tests that
  search the JSON rendering of the log are left out: the rendering of an event is not modelled.
\<close>

section \<open>Fixtures\<close>

definition default_for_test :: "externs \<Rightarrow> (constitution \<Rightarrow> string) \<Rightarrow> storage \<Rightarrow> (string \<Rightarrow> f32 option) \<Rightarrow>
    string hashmap \<Rightarrow> string \<Rightarrow> governed_error + unit gst" where
  "default_for_test X ser S parse files key =
     governed_new X ser S parse None EnvNotPresent None files default_arbiter_config None None ()
       \<lparr>eng = engine_new X key ''govsec_evidence_test'', ticks = 0, ids = 0\<rparr>"

definition wrapper_context :: "externs \<Rightarrow> model_context_envelope" where
  "wrapper_context X =
     \<lparr>mc_schema_version = MODEL_CONTEXT_SCHEMA_VERSION, mc_session_id = ''sess-wrapper'',
      mc_run_id = ''run-wrapper'', mc_principal_id = ''test-principal'',
      mc_provider_id = ''test-provider'', mc_model_id = ''test-model'',
      mc_policy_version = ''policy-test-v1'', mc_policy_hash = sha256_hex X ''policy'',
      mc_provider_context_hash = sha256_hex X ''provider-context'',
      mc_system_prompt_hash = sha256_hex X ''system-prompt'',
      mc_tool_schema_hash = sha256_hex X ''tool-schema'',
      mc_workspace_manifest_hash = sha256_hex X ''workspace-manifest'',
      mc_segments = [test_segment ''hello''], mc_attachments = [], mc_context_hash = []\<rparr>"

definition test_context :: "externs \<Rightarrow> (model_context_envelope \<Rightarrow> bool) \<Rightarrow> bool" where
  "test_context X k = (case mc_seal X (wrapper_context X) of Inl _ \<Rightarrow> False | Inr e \<Rightarrow> k e)"

definition admitting :: "externs \<Rightarrow> model_context_envelope \<Rightarrow> string \<Rightarrow> unit gst \<Rightarrow>
    (append_receipt \<Rightarrow> unit gst \<Rightarrow> bool) \<Rightarrow> bool" where
  "admitting X envelope tx gw k =
     (case gv_inbound_context_with_identity_and_evidence X envelope tx None None gw of
        ((Inr (Approved _), receipt), gw) \<Rightarrow> k receipt gw | _ \<Rightarrow> False)"

definition released_or_not :: "externs \<Rightarrow> string \<Rightarrow> model_context_envelope \<Rightarrow> string \<Rightarrow> unit gst \<Rightarrow>
    (outbound_correlation_error + enforcement_result \<Rightarrow> append_receipt \<Rightarrow> unit gst \<Rightarrow> bool) \<Rightarrow> bool" where
  "released_or_not X artifact envelope run gw k =
     (let ((result, receipt), gw) =
        gv_outbound_with_evidence X artifact (mc_session_id envelope) (mc_context_hash envelope) run gw
      in k result receipt gw)"

section \<open>The tests\<close>

definition boundary_e_released_binds_exact_outbound_and_receipt :: "externs \<Rightarrow> unit gst \<Rightarrow> bool" where
  "boundary_e_released_binds_exact_outbound_and_receipt X gw =
     test_context X (\<lambda>envelope. admitting X envelope ''GTX-boundary-e-context'' gw (\<lambda>context_receipt gw.
       let artifact = ''BOUNDARY_E_EXACT_ARTIFACT_7c8e793f1c72409fb8ce4ea3d6ec1979'' in
       released_or_not X artifact envelope (mc_run_id envelope) gw (\<lambda>result receipt gw.
         let events = gv_log gw; event = last events
         in (case result of Inr (Approved _) \<Rightarrow> True | _ \<Rightarrow> False) \<and> events \<noteq> [] \<and>
            ee_event_type event = OutboundReleased \<and>
            ep_outbound_hash (ee_payload event) = Some (compute_hash X artifact) \<and>
            ep_gov_tx_id (ee_payload event) = Some ''GTX-boundary-e-context'' \<and>
            ep_session_id (ee_payload event) = Some (mc_session_id envelope) \<and>
            ep_context_hash (ee_payload event) = Some (mc_context_hash envelope) \<and>
            ep_run_id (ee_payload event) = Some (mc_run_id envelope) \<and> receipt_of event receipt \<and>
            er_epoch_id context_receipt = ee_epoch_id event \<and> verify_snapshot X events = Inr ())))"

definition boundary_e_bad_run_fails_closed_without_signing_spoofed_correlation :: "externs \<Rightarrow> unit gst \<Rightarrow> bool" where
  "boundary_e_bad_run_fails_closed_without_signing_spoofed_correlation X gw =
     test_context X (\<lambda>envelope. admitting X envelope ''GTX-boundary-e-authoritative'' gw (\<lambda>_ gw.
       let artifact = ''BOUNDARY_E_CORRELATION_FAILURE_ARTIFACT_80473a5836524a05a518e2b402cc7434'' in
       released_or_not X artifact envelope ''run-attacker-controlled'' gw (\<lambda>result receipt gw.
         let events = gv_log gw; event = last events; p = ee_payload event
         in result = Inl OutRunIdMismatch \<and> events \<noteq> [] \<and> ee_event_type event = OutboundWithheld \<and>
            contains (ep_outcome p) ''CORRELATION_REJECTED'' \<and> contains (ep_outcome p) ''RunIdMismatch'' \<and>
            ep_gov_tx_id p = None \<and> ep_session_id p = None \<and> ep_run_id p = None \<and>
            ep_context_hash p = None \<and> ep_outbound_hash p = Some (compute_hash X artifact) \<and>
            receipt_of event receipt \<and> verify_snapshot X events = Inr ())))"

definition boundary_e_outbound_hash_mutation_breaks_chain_verification :: "externs \<Rightarrow> unit gst \<Rightarrow> bool" where
  "boundary_e_outbound_hash_mutation_breaks_chain_verification X gw =
     test_context X (\<lambda>envelope. admitting X envelope ''GTX-boundary-e-mutation'' gw (\<lambda>_ gw.
       let artifact = ''BOUNDARY_E_HASH_MUTATION_PROBE_d9d78ee8b6f34c9a990e1f73c763a421'' in
       released_or_not X artifact envelope (mc_run_id envelope) gw (\<lambda>result _ gw.
         let events = gv_log gw; event = last events;
             altered = event\<lparr>ee_payload := (ee_payload event)\<lparr>ep_outbound_hash :=
               Some (compute_hash X ''different-output'')\<rparr>\<rparr>
         in is_ok result \<and> events \<noteq> [] \<and>
            (case verify_snapshot X (butlast events @ [altered]) of
               Inl (EvHashMismatch _) \<Rightarrow> True | _ \<Rightarrow> False))))"

definition structurally_invalid_context_does_not_sign_unverified_correlation :: "externs \<Rightarrow> unit gst \<Rightarrow> bool" where
  "structurally_invalid_context_does_not_sign_unverified_correlation X gw =
     test_context X (\<lambda>envelope.
       let envelope = envelope\<lparr>mc_run_id := ''run-attacker-mutated-after-seal''\<rparr>;
           ((result, receipt), gw) = gv_inbound_context_with_identity_and_evidence X envelope
             ''GTX-unverified-structural-input'' None None gw;
           events = gv_log gw; event = last events; p = ee_payload event
       in \<not> is_ok result \<and> events \<noteq> [] \<and> ee_event_type event = ContextRefused \<and>
          ep_outcome p = ''STRUCTURAL_VALIDATION_FAILED'' \<and> ep_gov_tx_id p = None \<and>
          ep_session_id p = None \<and> ep_run_id p = None \<and> ep_context_hash p = None \<and>
          ep_policy_version p = None \<and> ep_policy_hash p = None \<and> receipt_of event receipt \<and>
          verify_snapshot X events = Inr ())"

definition compatibility_methods_append_exactly_once :: "externs \<Rightarrow> unit gst \<Rightarrow> bool" where
  "compatibility_methods_append_exactly_once X gw =
     test_context X (\<lambda>envelope.
       case gv_inbound_context X envelope ''GTX-single-append'' gw of
         (Inl _, _) \<Rightarrow> False
       | (Inr _, gw) \<Rightarrow>
           length (gv_log gw) = 1 \<and>
           length (gv_log (snd (gv_outbound X ''released'' (mc_session_id envelope) gw))) = 2)"


definition wrapper_request :: "externs \<Rightarrow> string \<Rightarrow> model_context_envelope \<Rightarrow> string \<Rightarrow> string \<Rightarrow> json \<Rightarrow> string \<Rightarrow>
    string \<Rightarrow> string \<Rightarrow> action_authorization_request" where
  "wrapper_request X tx envelope who tool args kind loc call =
     \<lparr>aar_gov_tx_id = tx, aar_session_id = mc_session_id envelope, aar_run_id = mc_run_id envelope,
      aar_principal_fingerprint = who, aar_tool_name = tool, aar_arguments = args, aar_resource_kind = kind,
      aar_resource_locator = loc, aar_tool_call_id = call, aar_context_hash = mc_context_hash envelope,
      aar_policy_version = ''policy-test-v1'', aar_policy_hash = sha256_hex X ''policy''\<rparr>"

definition wrapper_records_context_action_consume_and_replay :: "externs \<Rightarrow> (string \<Rightarrow> string) \<Rightarrow> unit gst \<Rightarrow> bool" where
  "wrapper_records_context_action_consume_and_replay X dbg gw =
     test_context X (\<lambda>envelope. admitting X envelope ''GTX-context-wrapper'' gw (\<lambda>_ gw.
       case gv_authorize_action X dbg (wrapper_request X ''GTX-action-wrapper'' envelope ''trusted-wrapper''
           ''write'' (json_object [(''value'', JString ''synthetic'')]) ''record'' ''customer/3817''
           ''call-wrapper-1'') gw of
         (Inl _, _) \<Rightarrow> False
       | (Inr token, gw) \<Rightarrow>
           let (first, gw) = gv_consume X (binding_of token) gw;
               (second, gw) = gv_consume X (binding_of token) gw;
               events = gv_log gw
           in first = Authorized \<and> second = AlreadyConsumed \<and>
              map ee_event_type events =
                [ContextApproved, ActionAuthorized, CapabilityConsumed, CapabilityRejected] \<and>
              ep_outcome (ee_payload (events ! 3)) = ''CAPABILITY_REPLAY_REJECTED'' \<and>
              verify_snapshot X events = Inr ()))"

definition enriched_wrapper_receipts_match_exact_appended_events :: "externs \<Rightarrow> (string \<Rightarrow> string) \<Rightarrow>
    unit gst \<Rightarrow> bool" where
  "enriched_wrapper_receipts_match_exact_appended_events X dbg gw =
     test_context X (\<lambda>envelope. admitting X envelope ''GTX-wrapper-receipts'' gw (\<lambda>context_receipt gw.
       case gv_authorize_action_with_evidence X dbg (wrapper_request X ''GTX-wrapper-receipts-action'' envelope
           ''trusted-wrapper-receipts'' ''read'' (json_object [(''path'', JString ''README.md'')]) ''file''
           ''README.md'' ''call-wrapper-receipts'') gw of
         ((Inl _, _), _) \<Rightarrow> False
       | ((Inr token, action_receipt), gw) \<Rightarrow>
           let ((outcome, consume_receipt), gw) = gv_consume_with_evidence X (binding_of token) gw
           in consume_authorized outcome \<and>
              released_or_not X ''done'' envelope (mc_run_id envelope) gw (\<lambda>result outbound_receipt gw.
                let events = gv_log gw
                in (case result of Inr (Approved _) \<Rightarrow> True | _ \<Rightarrow> False) \<and> length events = 4 \<and>
                   list_all (\<lambda>(receipt, event). receipt_of event receipt)
                     [(context_receipt, events ! 0), (action_receipt, events ! 1),
                      (consume_receipt, events ! 2), (outbound_receipt, events ! 3)] \<and>
                   verify_snapshot X events = Inr ())))"

section \<open>The wrapper the tests start from\<close>

definition governed_start :: "externs \<Rightarrow> unit gst \<Rightarrow> bool" where
  "governed_start X gw \<longleftrightarrow> default_start X (gv_core gw) \<and> audit_inv X gw \<and> gv_log gw = []"

lemma default_for_test_starts:
  assumes "default_for_test X ser S parse files key = Inr gw"
  shows "governed_start X gw"
proof -
  let ?w = "\<lparr>eng = engine_new X key ''govsec_evidence_test'', ticks = 0, ids = 0\<rparr>"
  note g = assms [unfolded default_for_test_def]
  have e: "engine_ok X (eng ?w)" by (simp add: engine_new_ok)
  have "pipeline_new X ser S parse None EnvNotPresent None files default_arbiter_config None =
      Inr (gv_pipeline (fst gw))" "eng (snd gw) = eng ?w"
    using g by (auto simp: governed_new_def evidence_new_def with_parent_hash_def Let_def split: sum.splits)
  then have "default_start X (gv_core gw)" using e unfolding default_start_def gv_core_def by auto
  then show ?thesis using governed_new_inv [OF g e] by (simp add: governed_start_def)
qed

lemma audit_verifies:
  assumes "cap_laws X" "audit_inv X gw"
  shows "verify_snapshot X (gv_log gw) = Inr ()"
  using plane_inv_verifies assms by (auto simp: cap_laws_def audit_inv_def gv_log_def evidence_snapshot_def)

lemma verified_epochs:
  assumes "verify_snapshot X (e # es) = Inr ()" "d \<in> set es"
  shows "ee_epoch_id d = ee_epoch_id e"
proof -
  have "\<forall>d \<in> set es. ee_epoch_id d = ee_epoch_id f" if "verify_events X f fp i p es = Inr ()" for f fp i p es
    using that by (induction es arbitrary: i p) (auto simp: ebind_Inr_iff event_check_def all_ok_iff)
  then show ?thesis
    using assms by (auto simp: verify_snapshot_def ebind_Inr_iff split: option.splits if_splits)
qed

definition governed_setting :: "externs \<Rightarrow> unit gst \<Rightarrow> bool" where
  "governed_setting X gw \<longleftrightarrow> governed_start X gw \<and> action_setting X (gv_core gw)"

lemma governed_setting:
  assumes "governed_setting X gw"
  shows "action_setting X (gv_core gw)" "test_setting X (gv_core gw)" "default_start X (gv_core gw)"
    "cap_laws X" "sha_laws X" "quick_clock X" "harmless X ''hello''" "audit_inv X gw" "gv_log gw = []"
proof -
  show a: "action_setting X (gv_core gw)" using assms by (simp add: governed_setting_def)
  show t: "test_setting X (gv_core gw)" by (rule action_setting(1) [OF a])
  show "default_start X (gv_core gw)" "cap_laws X" "sha_laws X" "quick_clock X" by (rule setting [OF t])+
  show "harmless X ''hello''" by (rule setting(5) [OF t]) (simp add: test_contents_def)
  show "audit_inv X gw" "gv_log gw = []" using assms by (simp_all add: governed_setting_def governed_start_def)
qed

lemma wrapper_context_ok:
  assumes "sha_laws X"
  shows "mc_well_formed (wrapper_context X)"
  using assms sha_hex_is_sha256
  by (simp add: mc_well_formed_def mc_header_ok_def wrapper_context_def attachments_ok_def identifier_ok_def
      has_control_def envelope_limits str_eval segments_ok_def segment_ok_def test_segment_def sha256_hex_def
      MAX_CONTEXT_SEGMENTS_def MAX_ATTACHMENTS_def MAX_CONTEXT_SEGMENT_BYTES_def MAX_CONTEXT_CONTENT_BYTES_def)

lemma test_context_gives:
  assumes "sha_laws X" "\<And>h. mc_verify X (wrapper_context X\<lparr>mc_context_hash := h\<rparr>) = Inr () \<Longrightarrow>
    k (wrapper_context X\<lparr>mc_context_hash := h\<rparr>)"
  shows "test_context X k"
  using sealed_verifies [OF assms(1) wrapper_context_ok [OF assms(1)]] assms(2)
  by (metis test_context_def old.sum.simps(6))

lemma wrapper_context_sel [simp]:
  "mc_session_id (wrapper_context X) = ''sess-wrapper''" "mc_run_id (wrapper_context X) = ''run-wrapper''"
  "joined_content [] (segments_requiring_inspection (wrapper_context X\<lparr>mc_context_hash := h\<rparr>)) = ''hello''"
  "segments_requiring_inspection (wrapper_context X\<lparr>mc_context_hash := h\<rparr>) = [test_segment ''hello'']"
  by (simp_all add: wrapper_context_def segments_requiring_inspection_def test_segment_def)

text \<open>What the wrapper is left with once it has let the context in.\<close>

definition let_in :: "externs \<Rightarrow> string \<Rightarrow> string \<Rightarrow> unit gst \<Rightarrow> append_receipt \<Rightarrow> unit gst \<Rightarrow> bool" where
  "let_in X h tx gw receipt gw1 \<longleftrightarrow> (\<exists>P1 w1 ev. let e = wrapper_context X\<lparr>mc_context_hash := h\<rparr> in
     inbound_context_with_identity X e tx None None (gv_core gw) = (Inr (Approved ''hello''), P1, w1) \<and>
     gv_core gw1 = (P1, draw_id (tick w1)) \<and> gv_log gw1 = [ev] \<and> ee_event_type ev = ContextApproved \<and>
     receipt_of ev receipt \<and> audit_inv X gw1 \<and> admitted X tx e (gv_core gw1))"

lemma admitted_world: "admitted X tx e (P, w) \<Longrightarrow> world_le w w' \<Longrightarrow> admitted X tx e (P, w')"
  using world_le_engine_ok by (auto simp: admitted_def)

lemma lets_in:
  assumes s: "governed_setting X gw" and v: "mc_verify X (wrapper_context X\<lparr>mc_context_hash := h\<rparr>) = Inr ()"
  obtains receipt gw1 where
    "gv_inbound_context_with_identity_and_evidence X (wrapper_context X\<lparr>mc_context_hash := h\<rparr>) tx None None gw =
      ((Inr (Approved ''hello''), receipt), gw1)" "let_in X h tx gw receipt gw1"
proof -
  let ?e = "wrapper_context X\<lparr>mc_context_hash := h\<rparr>"
  note st = governed_setting [OF s] and f = default_start_facts [OF governed_setting(3) [OF s]]
  have core: "(fst (gv_core gw), snd gw) = gv_core gw" by (simp add: gv_core_def)
  have q: "overwatch_quiet X ''hello'' (mc_session_id ?e) (fst (gv_core gw))"
    using st(7) by (simp add: overwatch_quiet_def f(6) overwatch_new_def harmless_def)
  have "fst (inbound_context_with_identity X ?e tx None None (gv_core gw)) = Inr (Approved ''hello'')"
    using clean_context_let_in [OF v f(3,4), where tx = tx and dept = None and agent = None
      and w = "snd (gv_core gw)"] q st(7) by (simp add: f(5) harmless_def test_segment_def core)
  then obtain P1 w1 where c: "inbound_context_with_identity X ?e tx None None (gv_core gw) =
      (Inr (Approved ''hello''), P1, w1)" by (metis prod.collapse)
  obtain receipt gw1 ev where r: "gv_inbound_context_with_identity_and_evidence X ?e tx None None gw =
      ((Inr (Approved ''hello''), receipt), gw1)" "gv_log gw1 = gv_log gw @ [ev]"
    "(ee_event_type ev, ee_payload ev) = context_entry ?e tx (Inr (Approved ''hello''))"
    "receipt_of ev receipt" "gv_core gw1 = (P1, draw_id (tick w1))"
    unfolding gv_inbound_context_with_identity_and_evidence_def
    by (rule recorded_call [where f = "inbound_context_with_identity X ?e tx None None"
          and entry = "\<lambda>_. context_entry ?e tx", OF c])
  have "admitted X tx ?e (P1, w1)"
    using approval_admits [OF st(3), of ?e tx "Approved ''hello''"] c by (simp add: inbound_context_def)
  moreover have "audit_inv X gw1"
    using gv_step_inv [OF st(4,8), of undefined undefined "GvContext ?e tx None None"] r(1) by simp
  ultimately have "let_in X h tx gw receipt gw1"
    using c r(2-5) st(9) admitted_world world_le_append
    unfolding let_in_def Let_def by (auto simp: context_entry_def)
  with r(1) show ?thesis by (rule that)
qed

lemma admitting_gives:
  assumes s: "governed_setting X gw" and k: "\<And>h receipt gw1.
    mc_verify X (wrapper_context X\<lparr>mc_context_hash := h\<rparr>) = Inr () \<Longrightarrow> let_in X h tx gw receipt gw1 \<Longrightarrow>
    k (wrapper_context X\<lparr>mc_context_hash := h\<rparr>) receipt gw1"
  shows "test_context X (\<lambda>e. admitting X e tx gw (k e))"
proof (rule test_context_gives [OF governed_setting(5) [OF s]])
  fix h let ?e = "wrapper_context X\<lparr>mc_context_hash := h\<rparr>"
  assume v: "mc_verify X ?e = Inr ()"
  obtain receipt gw1 where
    "gv_inbound_context_with_identity_and_evidence X ?e tx None None gw = ((Inr (Approved ''hello''), receipt), gw1)"
    "let_in X h tx gw receipt gw1" by (rule lets_in [OF s v])
  then show "admitting X ?e tx gw (k ?e)" by (simp add: admitting_def k [OF v])
qed


section \<open>The outbound tests hold\<close>

text \<open>An output nothing objects to, in answer to \<open>hello\<close>.\<close>

definition harmless_answer :: "externs \<Rightarrow> string \<Rightarrow> bool" where
  "harmless_answer X artifact \<longleftrightarrow> sentinel_finding X artifact = None \<and>
     corridor_finding X None Outbound artifact = None \<and>
     overwatch_violations X default_overwatch_config Outbound artifact
       (update_fingerprint X artifact (update_fingerprint X ''hello'' ow_fingerprint_new)) = []"

lemma start_calm: "default_start X pw \<Longrightarrow> oim_calm 18 (pl_oim (fst pw))"
proof -
  assume "default_start X pw"
  then obtain ser S parse files where "pipeline_new X ser S parse None EnvNotPresent None files
      default_arbiter_config None = Inr (fst pw)" by (auto simp: default_start_def)
  then have "pl_oim (fst pw) = oim_new"
    by (auto simp: pipeline_new_def Let_def govmem_new_def configured_block_threshold_def ebind_Inr_iff
        split: sum.splits dest!: sym [of _ "fst pw"])
  then show ?thesis by (simp add: oim_calm_def oim_new_def ow_signature_new_def)
qed

lemma answer_released:
  assumes s: "governed_setting X gw" and l: "let_in X h tx gw receipt gw1" and h: "harmless_answer X artifact"
    and core: "gv_core gw2 = (fst (gv_core gw1)\<lparr>pl_capabilities := C\<rparr>, w2)"
  obtains receipt2 gw3 ev where
    "gv_outbound_with_evidence X artifact ''sess-wrapper'' h ''run-wrapper'' gw2 = ((Inr (Approved artifact), receipt2), gw3)"
    "gv_log gw3 = gv_log gw2 @ [ev]"
    "release_of X tx (wrapper_context X\<lparr>mc_context_hash := h\<rparr>) artifact ev" "receipt_of ev receipt2"
proof -
  let ?e = "wrapper_context X\<lparr>mc_context_hash := h\<rparr>"
  note st = governed_setting [OF s] and f = default_start_facts [OF governed_setting(3) [OF s]]
  obtain P1 w1 where c: "inbound_context_with_identity X ?e tx None None (gv_core gw) =
      (Inr (Approved ''hello''), P1, w1)" "gv_core gw1 = (P1, draw_id (tick w1))"
    using l by (auto simp: let_in_def Let_def)
  have q: "overwatch_quiet X ''hello'' ''sess-wrapper'' (fst (gv_core gw))"
    using st(7) by (simp add: overwatch_quiet_def f(6) overwatch_new_def harmless_def)
  have out: "corridor_finding X (pl_evaluator (fst (gv_core gw))) Outbound artifact = None"
    "sentinel_finding X artifact = None"
    "output_quiet X ''hello'' artifact ''sess-wrapper'' (fst (gv_core gw))"
    using h by (simp_all add: harmless_answer_def f(5,6) output_quiet_def overwatch_new_def fingerprint_of_def)
  have core2: "gv_core gw2 = (P1\<lparr>pl_capabilities := C\<rparr>, w2)" using core c(2) by simp
  show ?thesis
    by (rule exchange_released [OF c(1) _ core2, of artifact]; (simp add: q out start_calm [OF st(3)] test_segment_def)?)
      (rule that)
qed


lemma let_in_facts:
  assumes "let_in X h tx gw receipt gw1"
  obtains ev where "gv_log gw1 = [ev]" "ee_event_type ev = ContextApproved" "receipt_of ev receipt" "audit_inv X gw1"
    "admitted X tx (wrapper_context X\<lparr>mc_context_hash := h\<rparr>) (gv_core gw1)"
  using assms by (auto simp: let_in_def Let_def)

lemma core_same: "gv_core gw = (fst (gv_core gw)\<lparr>pl_capabilities := pl_capabilities (fst (gv_core gw))\<rparr>, snd gw)"
  by (simp add: gv_core_def)

lemma released_holds:
  assumes s: "governed_setting X gw"
    and h: "harmless_answer X ''BOUNDARY_E_EXACT_ARTIFACT_7c8e793f1c72409fb8ce4ea3d6ec1979''"
  shows "boundary_e_released_binds_exact_outbound_and_receipt X gw"
  unfolding boundary_e_released_binds_exact_outbound_and_receipt_def Let_def
proof (rule admitting_gives [OF s], goal_cases)
  case (1 k r1 gw1)
  let ?out = "''BOUNDARY_E_EXACT_ARTIFACT_7c8e793f1c72409fb8ce4ea3d6ec1979''"
  obtain e1 where f: "gv_log gw1 = [e1]" "ee_event_type e1 = ContextApproved" "receipt_of e1 r1" "audit_inv X gw1"
    by (rule let_in_facts [OF 1(2)])
  obtain r2 gw2 e2 where g: "gv_outbound_with_evidence X ?out ''sess-wrapper'' k ''run-wrapper'' gw1 =
      ((Inr (Approved ?out), r2), gw2)" "gv_log gw2 = gv_log gw1 @ [e2]"
    "release_of X ''GTX-boundary-e-context'' (wrapper_context X\<lparr>mc_context_hash := k\<rparr>) ?out e2" "receipt_of e2 r2"
    by (rule answer_released [OF s 1(2) h core_same])
  have "audit_inv X gw2"
    using gv_step_inv [OF governed_setting(4) [OF s] f(4), of undefined undefined
      "GvBoundOutbound ?out ''sess-wrapper'' k ''run-wrapper''"] g(1) by simp
  then have v: "verify_snapshot X [e1, e2] = Inr ()"
    using audit_verifies [OF governed_setting(4) [OF s], of gw2] g(2) f(1) by simp
  then have "ee_epoch_id e2 = ee_epoch_id e1" using verified_epochs by fastforce
  with v g f show ?case by (simp add: released_or_not_def release_of_def receipt_of_def)
qed

lemma bad_run_holds:
  assumes s: "governed_setting X gw"
  shows "boundary_e_bad_run_fails_closed_without_signing_spoofed_correlation X gw"
  unfolding boundary_e_bad_run_fails_closed_without_signing_spoofed_correlation_def Let_def
proof (rule admitting_gives [OF s], goal_cases)
  case (1 k r1 gw1)
  let ?out = "''BOUNDARY_E_CORRELATION_FAILURE_ARTIFACT_80473a5836524a05a518e2b402cc7434''"
  let ?f = "bound_outbound X ?out ''sess-wrapper'' k ''run-attacker-controlled''"
  let ?entry = "\<lambda>P. bound_outbound_entry X ?out (active_policy_version P)"
  obtain e1 where f: "gv_log gw1 = [e1]" "audit_inv X gw1"
    "admitted X ''GTX-boundary-e-authoritative'' (wrapper_context X\<lparr>mc_context_hash := k\<rparr>) (gv_core gw1)"
    by (rule let_in_facts [OF 1(2)])
  have "?f (gv_core gw1) = (Inl OutRunIdMismatch, fst (gv_core gw1), snd gw1)"
    using admitted_wrong_run [OF f(3), of "''run-attacker-controlled''"]
    by (simp add: bound_outbound_def) (simp add: gv_core_def)
  then obtain r2 gw2 e2 where g: "recorded X ?f ?entry gw1 = ((Inl OutRunIdMismatch, r2), gw2)"
    "gv_log gw2 = gv_log gw1 @ [e2]"
    "(ee_event_type e2, ee_payload e2) = ?entry (fst (gv_core gw1)) (Inl OutRunIdMismatch)" "receipt_of e2 r2"
    by (rule recorded_call [where f = ?f and entry = ?entry])
  have "audit_inv X gw2"
    using gv_step_inv [OF governed_setting(4) [OF s] f(2), of undefined undefined
      "GvBoundOutbound ?out ''sess-wrapper'' k ''run-attacker-controlled''"] g(1)
    by (simp add: gv_outbound_with_evidence_def)
  then have "verify_snapshot X [e1, e2] = Inr ()"
    using audit_verifies [OF governed_setting(4) [OF s], of gw2] g(2) f(1) by simp
  moreover have "contains (''CORRELATION_REJECTED::RunIdMismatch'') ''CORRELATION_REJECTED''"
    "contains (''CORRELATION_REJECTED::RunIdMismatch'') ''RunIdMismatch''" by code_simp+
  ultimately show ?case
    using g f by (simp add: released_or_not_def gv_outbound_with_evidence_def bound_outbound_entry_def
        payload_default_def)
qed


text \<open>An altered last event is told by its hash, unless the hash collides on its two texts.\<close>

lemma verify_events_append:
  "verify_events X f fp i prev (es @ fs) = ebind (verify_events X f fp i prev es)
     (\<lambda>_. verify_events X f fp (i + length es) (chain_end prev es) fs)"
proof (induction es arbitrary: i prev)
  case (Cons e es)
  then show ?case
    by (cases "event_check X f fp (of_nat i + 1) prev e") (simp_all add: chain_end_Cons)
qed (simp add: chain_end_def)

lemma altered_last:
  assumes v: "verify_snapshot X (d # es @ [e]) = Inr ()"
    and h: "compute_hash X (canonical_event_material X (e\<lparr>ee_payload := p\<rparr>)) \<noteq>
      compute_hash X (canonical_event_material X e)"
  shows "verify_snapshot X (d # es @ [e\<lparr>ee_payload := p\<rparr>]) = Inl (EvHashMismatch (ee_sequence e))"
proof -
  let ?start = "\<lambda>fp. start_hash X (ee_epoch_parent_hash d) (ee_epoch_id d) fp"
  obtain fp where fp: "signer_fingerprint X (ee_signer_public_key d) = Some fp" "fp = ee_signer_fingerprint d"
    and ve: "verify_events X d fp 0 (?start fp) (d # es @ [e]) = Inr ()"
    using v by (auto simp: verify_snapshot_def split: option.splits if_splits)
  have "verify_events X d fp 0 (?start fp) (d # es) = Inr ()"
    and ec: "event_check X d fp (of_nat (Suc (length es)) + 1) (chain_end (?start fp) (d # es)) e = Inr ()"
    using ve verify_events_snoc [of X d fp 0 "?start fp" "d # es" e] by simp_all
  moreover have "event_check X d fp (of_nat (Suc (length es)) + 1) (chain_end (?start fp) (d # es))
      (e\<lparr>ee_payload := p\<rparr>) = Inl (EvHashMismatch (ee_sequence e))"
    using ec h by (simp add: event_check_def all_ok.simps guard_ok_def event_recompute_hash_def
        split: if_splits)
  ultimately have "verify_events X d fp 0 (?start fp) ((d # es) @ [e\<lparr>ee_payload := p\<rparr>]) =
      Inl (EvHashMismatch (ee_sequence e))"
    unfolding verify_events_append by simp
  then show ?thesis using fp by (simp add: verify_snapshot_def)
qed

definition with_other_output :: "externs \<Rightarrow> evidence_event \<Rightarrow> evidence_event" where
  "with_other_output X e = e\<lparr>ee_payload := (ee_payload e)\<lparr>ep_outbound_hash :=
     Some (compute_hash X ''different-output'')\<rparr>\<rparr>"

text \<open>What the test could run into: a collision on the texts of its last event.\<close>

definition mutation_collides :: "externs \<Rightarrow> unit gst \<Rightarrow> bool" where
  "mutation_collides X gw = test_context X (\<lambda>envelope.
     admitting X envelope ''GTX-boundary-e-mutation'' gw (\<lambda>_ gw.
       released_or_not X ''BOUNDARY_E_HASH_MUTATION_PROBE_d9d78ee8b6f34c9a990e1f73c763a421'' envelope
         (mc_run_id envelope) gw (\<lambda>_ _ gw.
           compute_hash X (canonical_event_material X (with_other_output X (last (gv_log gw)))) =
           compute_hash X (canonical_event_material X (last (gv_log gw))))))"

lemma test_context_or:
  "test_context X (\<lambda>e. admitting X e tx gw (\<lambda>r gw. released_or_not X m e (run e) gw (\<lambda>a b gw. p a b gw \<or> q a b gw))) \<longleftrightarrow>
   test_context X (\<lambda>e. admitting X e tx gw (\<lambda>r gw. released_or_not X m e (run e) gw p)) \<or>
   test_context X (\<lambda>e. admitting X e tx gw (\<lambda>r gw. released_or_not X m e (run e) gw q))"
  by (simp add: test_context_def admitting_def released_or_not_def
      split: sum.split prod.split enforcement_result.split)

lemma output_mutation_holds:
  assumes s: "governed_setting X gw"
    and h: "harmless_answer X ''BOUNDARY_E_HASH_MUTATION_PROBE_d9d78ee8b6f34c9a990e1f73c763a421''"
  shows "boundary_e_outbound_hash_mutation_breaks_chain_verification X gw \<or> mutation_collides X gw"
  unfolding boundary_e_outbound_hash_mutation_breaks_chain_verification_def mutation_collides_def Let_def
    test_context_or [symmetric] with_other_output_def [symmetric]
proof (rule admitting_gives [OF s], goal_cases)
  case (1 k r1 gw1)
  let ?out = "''BOUNDARY_E_HASH_MUTATION_PROBE_d9d78ee8b6f34c9a990e1f73c763a421''"
  obtain e1 where f: "gv_log gw1 = [e1]" "audit_inv X gw1" by (rule let_in_facts [OF 1(2)])
  obtain r2 gw2 e2 where g: "gv_outbound_with_evidence X ?out ''sess-wrapper'' k ''run-wrapper'' gw1 =
      ((Inr (Approved ?out), r2), gw2)" "gv_log gw2 = gv_log gw1 @ [e2]"
    by (rule answer_released [OF s 1(2) h core_same])
  have "audit_inv X gw2"
    using gv_step_inv [OF governed_setting(4) [OF s] f(2), of undefined undefined
      "GvBoundOutbound ?out ''sess-wrapper'' k ''run-wrapper''"] g(1) by simp
  then have "verify_snapshot X (e1 # [] @ [e2]) = Inr ()"
    using audit_verifies [OF governed_setting(4) [OF s], of gw2] g(2) f(1) by simp
  from altered_last [OF this] show ?case
    using g f(1) by (auto simp: released_or_not_def is_ok_def with_other_output_def)
qed

lemma structural_holds:
  fixes X
  defines "changed \<equiv> wrapper_context X\<lparr>mc_run_id := ''run-attacker-mutated-after-seal''\<rparr>"
  assumes s: "governed_setting X gw" and j: "json_str_laws X"
    and no: "\<not> text_collision X (model_context_hash_material changed)
      (model_context_hash_material (wrapper_context X))"
  shows "structurally_invalid_context_does_not_sign_unverified_correlation X gw"
  unfolding structurally_invalid_context_does_not_sign_unverified_correlation_def Let_def
proof (rule test_context_gives [OF governed_setting(5) [OF s]], goal_cases)
  case (1 h)
  let ?e = "wrapper_context X\<lparr>mc_context_hash := h\<rparr>\<lparr>mc_run_id := ''run-attacker-mutated-after-seal''\<rparr>"
  let ?tx = "''GTX-unverified-structural-input''"
  have m: "model_context_hash_material ?e = model_context_hash_material changed"
    "model_context_hash_material (wrapper_context X\<lparr>mc_context_hash := h\<rparr>) =
      model_context_hash_material (wrapper_context X)"
    by (simp_all add: changed_def wrapper_context_def model_context_hash_material_def)
  have "?e \<noteq> wrapper_context X\<lparr>mc_context_hash := h\<rparr>"
    by (rule notI, drule arg_cong [of _ _ mc_run_id]) simp
  then have "mc_verify X ?e \<noteq> Inr ()"
    using context_hash_binds [OF j _ 1, of ?e] no unfolding m by auto
  then obtain err where err: "mc_verify X ?e = Inl err" by (cases "mc_verify X ?e") auto
  have c: "inbound_context_with_identity X ?e ?tx None None (gv_core gw) = (Inl err, fst (gv_core gw), snd gw)"
    using context_rejected [OF err] by (simp add: gv_core_def)
  obtain r gw1 ev where g: "gv_inbound_context_with_identity_and_evidence X ?e ?tx None None gw =
      ((Inl err, r), gw1)" "gv_log gw1 = gv_log gw @ [ev]"
    "(ee_event_type ev, ee_payload ev) = context_entry ?e ?tx (Inl err)" "receipt_of ev r"
    unfolding gv_inbound_context_with_identity_and_evidence_def
    by (rule recorded_call [where f = "inbound_context_with_identity X ?e ?tx None None"
          and entry = "\<lambda>_. context_entry ?e ?tx", OF c])
  have "audit_inv X gw1"
    using gv_step_inv [OF governed_setting(4,8) [OF s], of undefined undefined "GvContext ?e ?tx None None"] g(1)
    by simp
  from audit_verifies [OF governed_setting(4) [OF s] this] show ?case
    using g governed_setting(9) [OF s] by (simp add: context_entry_def payload_default_def is_ok_def)
qed

lemma append_once_holds:
  assumes s: "governed_setting X gw"
  shows "compatibility_methods_append_exactly_once X gw"
  unfolding compatibility_methods_append_exactly_once_def
proof (rule test_context_gives [OF governed_setting(5) [OF s]], goal_cases)
  case (1 h)
  obtain r gw1 where "gv_inbound_context_with_identity_and_evidence X (wrapper_context X\<lparr>mc_context_hash := h\<rparr>)
      ''GTX-single-append'' None None gw = ((Inr (Approved ''hello''), r), gw1)"
    "let_in X h ''GTX-single-append'' gw r gw1" by (rule lets_in [OF s 1])
  moreover obtain ev where "gv_log gw1 = [ev]" by (rule let_in_facts [OF calculation(2)])
  ultimately show ?case
    using gv_step_log [of X undefined undefined "GvOutbound ''released'' ''sess-wrapper''" gw1]
    by (simp add: gv_inbound_context_def gv_inbound_context_with_identity_def)
qed


section \<open>The action tests hold\<close>

lemma waiting_later: "waiting X t (Suc n) (P, w) \<Longrightarrow> waiting X t n (P, draw_id (tick w))"
  using fresh_in_world [OF _ world_le_append] by (fastforce simp: waiting_def)

definition wrapper_call_ok :: "externs \<Rightarrow> string \<Rightarrow> string \<Rightarrow> string \<Rightarrow> bool" where
  "wrapper_call_ok X tx who call \<longleftrightarrow> \<not> blank tx \<and> \<not> blank who \<and> \<not> blank call \<and> identifier_ok MAX_IDENTIFIER_BYTES who \<and>
     identifier_ok MAX_IDENTIFIER_BYTES call"

lemma wrapper_request_eq:
  "wrapper_request X tx e who tool args kind loc call = action_request X tx e tool args kind loc
     \<lparr>aar_principal_fingerprint := who, aar_tool_call_id := call\<rparr>"
  by (simp add: wrapper_request_def action_request_def)

lemma wrapper_request_valid:
  assumes "mc_verify X e = Inr ()" "sha_laws X" "wrapper_call_ok X tx who call" "tool_call_ok X tool args kind loc"
  shows "recordable (wrapper_request X tx e who tool args kind loc call) e"
proof -
  have "\<not> blank (as_normalized_action (derive_action_semantics_for_tool tool))"
    by (simp add: derive_action_semantics_for_tool_def not_blank_Cons utf8_len_def is_ws_def
        is_whitespace_cp_def byte_def)
  then show ?thesis
    using assms verified_fields [OF assms(1)] sha_hex_is_sha256 [OF assms(2)]
    by (simp add: recordable_def decision_request_validate_def all_ok_iff nonempty_def Let_def action_decision_def
        action_of_request_def wrapper_request_def digest_not_blank own_prefix_not_blank authority_defs
        wrapper_call_ok_def tool_call_ok_def
        sha256_hex_def not_blank_Cons utf8_len_def is_ws_def is_whitespace_cp_def byte_def)
qed

lemma wrapper_request_formed:
  assumes "action_setting X pw" "mc_verify X e = Inr ()" "wrapper_call_ok X tx who call"
    "tool_call_ok X tool args kind loc"
  shows "ae_well_formed X (action_of_request (wrapper_request X tx e who tool args kind loc call))"
  using tool_call_well_formed [OF assms(1,2,4), of tx] assms(3)
  unfolding wrapper_request_eq by (simp add: ae_well_formed_def action_of_request_def wrapper_call_ok_def)

lemma wrapper_request_risks [simp]:
  "strict_risks X (action_of_request (wrapper_request Y tx e who tool args kind loc call)) =
   strict_risks X (action_of_request (action_request Y tx e tool args kind loc))"
  by (simp add: wrapper_request_eq action_of_request_def strict_risks_def searchable_text_def)

lemma wrapper_authorizes:
  fixes X tx e who tool args kind loc call
  defines "r \<equiv> wrapper_request X tx e who tool args kind loc call"
  assumes s: "governed_setting X gw" and a: "admitted X tx' e (gv_core gw1)" "audit_inv X gw1"
    and c: "wrapper_call_ok X tx who call" "tool_call_ok X tool args kind loc" "known_tool_from_name tool \<noteq> KUnknown"
      "strict_risks X (action_of_request r) = []"
  obtains t receipt gw2 ev C where "gv_authorize_action_with_evidence X dbg r gw1 = ((Inr t, receipt), gw2)"
    "gv_log gw2 = gv_log gw1 @ [ev]" "ee_event_type ev = ActionAuthorized" "receipt_of ev receipt"
    "waiting X t 6 (gv_core gw2)" "audit_inv X gw2"
    "fst (gv_core gw2) = fst (gv_core gw1)\<lparr>pl_capabilities := C\<rparr>"
proof -
  note st = governed_setting [OF s]
  have mc: "mc_verify X e = Inr ()" using a by (simp add: admitted_def)
  have "authorizing_action X r (gv_core gw1) (\<lambda>t pw'. waiting X t 7 pw' \<and>
      fst pw' = fst (gv_core gw1)\<lparr>pl_capabilities := pl_capabilities (fst pw')\<rparr>)"
    by (rule authorizing_action_gives [OF st(4-6) a(1) wrapper_request_valid [OF mc st(5) c(1,2), folded r_def]
        wrapper_request_formed [OF st(1) mc c(1,2), folded r_def]])
      (use c in \<open>simp_all add: r_def wrapper_request_def tool_call_ok_def\<close>)
  then obtain t P w where t: "authorize_action_execution X r (gv_core gw1) = (Inr t, P, w)"
    "waiting X t 7 (P, w)" "P = fst (gv_core gw1)\<lparr>pl_capabilities := pl_capabilities P\<rparr>"
    by (auto simp: authorizing_action_def split: prod.splits sum.splits)
  obtain receipt gw2 ev where g: "gv_authorize_action_with_evidence X dbg r gw1 = ((Inr t, receipt), gw2)"
    "gv_log gw2 = gv_log gw1 @ [ev]" "(ee_event_type ev, ee_payload ev) = action_entry X dbg r (Inr t)"
    "receipt_of ev receipt" "gv_core gw2 = (P, draw_id (tick w))"
    unfolding gv_authorize_action_with_evidence_def
    by (rule recorded_call [where f = "authorize_action_execution X r" and entry = "\<lambda>_. action_entry X dbg r", OF t(1)])
  have "audit_inv X gw2"
    using gv_step_inv [OF st(4) a(2), of undefined dbg "GvAction r"] g(1) by simp
  moreover have "waiting X t 6 (gv_core gw2)" using waiting_later [of X t 6 P w] t(2) g(5) by simp
  ultimately show ?thesis using that [OF g(1,2) _ g(4)] g(3,5) t(3) by (simp add: action_entry_def)
qed

text \<open>A waiting token, presented through the wrapper.\<close>

lemma wrapper_consumes:
  assumes laws: "cap_laws X" "audit_inv X gw" and w: "waiting X t n (gv_core gw)"
  obtains receipt gw1 ev where "gv_consume_with_evidence X (binding_of t) gw = ((Authorized, receipt), gw1)"
    "gv_log gw1 = gv_log gw @ [ev]" "ee_event_type ev = CapabilityConsumed" "receipt_of ev receipt"
    "audit_inv X gw1" "world_le (snd gw) (snd gw1)"
    "fst (gv_core gw1) = fst (gv_core gw)\<lparr>pl_capabilities := spent t (pl_capabilities (fst (gv_core gw)))\<rparr>"
proof -
  have c: "consume_provider_capability X (binding_of t) (gv_core gw) =
      (Authorized, fst (gv_core gw)\<lparr>pl_capabilities := spent t (pl_capabilities (fst (gv_core gw)))\<rparr>, tick (snd gw))"
    using waiting_works [OF w] by simp
  obtain receipt gw1 ev where g: "gv_consume_with_evidence X (binding_of t) gw = ((Authorized, receipt), gw1)"
    "gv_log gw1 = gv_log gw @ [ev]"
    "(ee_event_type ev, ee_payload ev) = consume_entry X (binding_of t) Authorized" "receipt_of ev receipt"
    "gv_core gw1 = (fst (gv_core gw)\<lparr>pl_capabilities := spent t (pl_capabilities (fst (gv_core gw)))\<rparr>,
      draw_id (tick (tick (snd gw))))"
    unfolding gv_consume_with_evidence_def
    by (rule recorded_call [where f = "consume_provider_capability X (binding_of t)"
          and entry = "\<lambda>_. consume_entry X (binding_of t)", OF c])
  have "audit_inv X gw1"
    using gv_step_inv [OF laws, of undefined undefined "GvConsume (binding_of t)"] g(1) by simp
  moreover have "snd gw1 = draw_id (tick (tick (snd gw)))" using g(5) by (metis gv_core_world snd_conv)
  ultimately show ?thesis
    using that [OF g(1,2) _ g(4)] g(3,5) world_le_trans [OF world_le_tick(1) world_le_append]
    by (simp add: consume_entry_def consume_authorized_def)
qed

lemma wrapper_replay:
  assumes laws: "cap_laws X" "audit_inv X gw1" and w: "waiting X t n (gv_core gw)" "world_le (snd gw) (snd gw1)"
    "pl_capabilities (fst (gv_core gw1)) = spent t (pl_capabilities (fst (gv_core gw)))"
  obtains receipt gw2 ev where "gv_consume_with_evidence X (binding_of t) gw1 = ((AlreadyConsumed, receipt), gw2)"
    "gv_log gw2 = gv_log gw1 @ [ev]" "ee_event_type ev = CapabilityRejected" "receipt_of ev receipt"
    "ep_outcome (ee_payload ev) = ''CAPABILITY_REPLAY_REJECTED''" "audit_inv X gw2"
proof -
  have c: "consume_provider_capability X (binding_of t) (gv_core gw1) =
      (AlreadyConsumed, fst (gv_core gw1)\<lparr>pl_capabilities := pl_capabilities (fst (gv_core gw1))\<rparr>, snd gw1)"
    using spent_refused [OF _ w(2), of X t "pl_capabilities (fst (gv_core gw))" "binding_of t"] w(1,3)
    by (simp add: consume_provider_capability_def waiting_def)
  obtain receipt gw2 ev where g: "gv_consume_with_evidence X (binding_of t) gw1 = ((AlreadyConsumed, receipt), gw2)"
    "gv_log gw2 = gv_log gw1 @ [ev]"
    "(ee_event_type ev, ee_payload ev) = consume_entry X (binding_of t) AlreadyConsumed" "receipt_of ev receipt"
    unfolding gv_consume_with_evidence_def
    by (rule recorded_call [where f = "consume_provider_capability X (binding_of t)"
          and entry = "\<lambda>_. consume_entry X (binding_of t)", OF c])
  have "audit_inv X gw2"
    using gv_step_inv [OF laws, of undefined undefined "GvConsume (binding_of t)"] g(1) by simp
  then show ?thesis using that [OF g(1,2) _ g(4)] g(3) by (simp add: consume_entry_def consume_authorized_def)
qed


text \<open>The record the first test writes to.\<close>

definition customer_text :: string where
  "customer_text = ''customer/3817'' @ CHR 10 # ''value'' @ CHR 10 # ''synthetic''"

lemma customer_words: "split_whitespace customer_text = [''customer/3817'', ''value'', ''synthetic'']"
proof -
  have "uchars customer_text = map (\<lambda>c. [c]) customer_text" by code_simp
  then show ?thesis
    by (simp add: split_whitespace_def customer_text_def str_eval
        ws_tokens.simps [of "_ # _"] ws_tokens.simps [of "[]"])
qed

lemma customer_text_clean: "\<not> contains_path_traversal customer_text" "\<not> references_credentials customer_text"
  "\<not> references_protected_write_resource customer_text"
proof -
  have n: "replace_char backslash CHR ''/'' customer_text = customer_text" by code_simp
  have "\<not> contains_any customer_text [''/bin/'', ''/boot/'', ''/dev/'', ''/etc/'', ''/proc/'', ''/root/'',
      ''/sbin/'', ''/sys/'', ''/usr/'']" by code_simp
  then show "\<not> references_protected_write_resource customer_text"
    unfolding references_protected_write_resource_def Let_def n customer_words by simp
qed code_simp+

lemma customer_clean:
  assumes "action_setting X pw"
  shows "strict_risks X (action_of_request (action_request X tx e ''write''
    (json_object [(''value'', JString ''synthetic'')]) ''record'' ''customer/3817'')) = []"
proof -
  have l: "to_ascii_lowercase ''customer/3817'' = ''customer/3817''" "to_ascii_lowercase ''value'' = ''value''"
    "to_ascii_lowercase ''synthetic'' = ''synthetic''" by code_simp+
  have "searchable_text X (action_of_request (action_request X tx e ''write''
      (json_object [(''value'', JString ''synthetic'')]) ''record'' ''customer/3817'')) = customer_text"
    by (subst searchable_one [OF action_setting(4) [OF assms]]) (simp_all add: l customer_text_def byte_def)
  from write_clean [OF this action_tool customer_text_clean] show ?thesis .
qed

lemma wrapper_calls [simp]:
  "wrapper_call_ok X ''GTX-action-wrapper'' ''trusted-wrapper'' ''call-wrapper-1''"
  "wrapper_call_ok X ''GTX-wrapper-receipts-action'' ''trusted-wrapper-receipts'' ''call-wrapper-receipts''"
  "identifier_ok MAX_RESOURCE_KIND_BYTES ''record''" "\<not> blank ''record''"
  "identifier_ok MAX_RESOURCE_LOCATOR_BYTES ''customer/3817''" "\<not> blank ''customer/3817''"
  by (simp_all add: wrapper_call_ok_def identifier_ok_def has_control_def envelope_limits str_eval)

lemma wrapper_records_holds:
  assumes s: "governed_setting X gw"
  shows "wrapper_records_context_action_consume_and_replay X dbg gw"
  unfolding wrapper_records_context_action_consume_and_replay_def Let_def
proof (rule admitting_gives [OF s], goal_cases)
  case (1 k r1 gw1)
  let ?r = "wrapper_request X ''GTX-action-wrapper'' (wrapper_context X\<lparr>mc_context_hash := k\<rparr>) ''trusted-wrapper''
    ''write'' (json_object [(''value'', JString ''synthetic'')]) ''record'' ''customer/3817'' ''call-wrapper-1''"
  note laws = governed_setting(4) [OF s]
  have call: "tool_call_ok X ''write'' (json_object [(''value'', JString ''synthetic'')]) ''record'' ''customer/3817''"
    by (rule path_call [OF governed_setting(1) [OF s]]) simp_all
  obtain e1 where f: "gv_log gw1 = [e1]" "ee_event_type e1 = ContextApproved" "audit_inv X gw1"
    "admitted X ''GTX-context-wrapper'' (wrapper_context X\<lparr>mc_context_hash := k\<rparr>) (gv_core gw1)"
    by (rule let_in_facts [OF 1(2)])
  obtain t r2 gw2 e2 where g: "gv_authorize_action_with_evidence X dbg ?r gw1 = ((Inr t, r2), gw2)"
    "gv_log gw2 = gv_log gw1 @ [e2]" "ee_event_type e2 = ActionAuthorized" "waiting X t 6 (gv_core gw2)" "audit_inv X gw2"
    by (rule wrapper_authorizes [OF s f(4,3) wrapper_calls(1) call])
      (simp_all add: customer_clean [OF governed_setting(1) [OF s]])
  obtain r3 gw3 e3 where c: "gv_consume_with_evidence X (binding_of t) gw2 = ((Authorized, r3), gw3)"
    "gv_log gw3 = gv_log gw2 @ [e3]" "ee_event_type e3 = CapabilityConsumed" "audit_inv X gw3"
    "world_le (snd gw2) (snd gw3)"
    "fst (gv_core gw3) = fst (gv_core gw2)\<lparr>pl_capabilities := spent t (pl_capabilities (fst (gv_core gw2)))\<rparr>"
    by (rule wrapper_consumes [OF laws g(5,4)])
  have sp: "pl_capabilities (fst (gv_core gw3)) = spent t (pl_capabilities (fst (gv_core gw2)))"
    using c(6) by simp
  obtain r4 gw4 e4 where d: "gv_consume_with_evidence X (binding_of t) gw3 = ((AlreadyConsumed, r4), gw4)"
    "gv_log gw4 = gv_log gw3 @ [e4]" "ee_event_type e4 = CapabilityRejected"
    "ep_outcome (ee_payload e4) = ''CAPABILITY_REPLAY_REJECTED''" "audit_inv X gw4"
    by (rule wrapper_replay [OF laws c(4) g(4) c(5) sp])
  then show ?case
    using f(1,2) g c audit_verifies [OF laws d(5)]
    by (simp add: gv_authorize_action_def gv_consume_def)
qed

lemma enriched_holds:
  assumes s: "governed_setting X gw" and h: "harmless_answer X ''done''"
  shows "enriched_wrapper_receipts_match_exact_appended_events X dbg gw"
  unfolding enriched_wrapper_receipts_match_exact_appended_events_def Let_def
proof (rule admitting_gives [OF s], goal_cases)
  case (1 k r1 gw1)
  let ?r = "wrapper_request X ''GTX-wrapper-receipts-action'' (wrapper_context X\<lparr>mc_context_hash := k\<rparr>)
    ''trusted-wrapper-receipts'' ''read'' (json_object [(''path'', JString ''README.md'')]) ''file'' ''README.md''
    ''call-wrapper-receipts''"
  note laws = governed_setting(4) [OF s]
  have call: "tool_call_ok X ''read'' (json_object [(''path'', JString ''README.md'')]) ''file'' ''README.md''"
    by (rule path_call [OF governed_setting(1) [OF s]]) simp_all
  obtain e1 where f: "gv_log gw1 = [e1]" "receipt_of e1 r1" "audit_inv X gw1"
    "admitted X ''GTX-wrapper-receipts'' (wrapper_context X\<lparr>mc_context_hash := k\<rparr>) (gv_core gw1)"
    by (rule let_in_facts [OF 1(2)])
  obtain t r2 gw2 e2 C where g: "gv_authorize_action_with_evidence X dbg ?r gw1 = ((Inr t, r2), gw2)"
    "gv_log gw2 = gv_log gw1 @ [e2]" "receipt_of e2 r2" "waiting X t 6 (gv_core gw2)" "audit_inv X gw2"
    "fst (gv_core gw2) = fst (gv_core gw1)\<lparr>pl_capabilities := C\<rparr>"
    by (rule wrapper_authorizes [OF s f(4,3) wrapper_calls(2) call])
      (simp_all add: clean_calls(1) [OF governed_setting(1) [OF s]])
  obtain r3 gw3 e3 where c: "gv_consume_with_evidence X (binding_of t) gw2 = ((Authorized, r3), gw3)"
    "gv_log gw3 = gv_log gw2 @ [e3]" "receipt_of e3 r3" "audit_inv X gw3"
    "fst (gv_core gw3) = fst (gv_core gw2)\<lparr>pl_capabilities := spent t (pl_capabilities (fst (gv_core gw2)))\<rparr>"
    by (rule wrapper_consumes [OF laws g(5,4)])
  have core: "gv_core gw3 = (fst (gv_core gw1)\<lparr>pl_capabilities := spent t C\<rparr>, snd gw3)"
    using c(5) g(6) by (intro prod_eqI) simp_all
  obtain r4 gw4 e4 where d: "gv_outbound_with_evidence X ''done'' ''sess-wrapper'' k ''run-wrapper'' gw3 =
      ((Inr (Approved ''done''), r4), gw4)" "gv_log gw4 = gv_log gw3 @ [e4]" "receipt_of e4 r4"
    by (rule answer_released [OF s 1(2) h core])
  have "audit_inv X gw4"
    using gv_step_inv [OF laws c(4), of undefined undefined
      "GvBoundOutbound ''done'' ''sess-wrapper'' k ''run-wrapper''"] d(1) by simp
  from audit_verifies [OF laws this] show ?case
    using f g c d by (simp add: released_or_not_def consume_authorized_def)
qed

end
